(* ===== verification/Prelude.thy ===== *)
theory Prelude
  imports Main "HOL-Library.Code_Target_Nat" "HOL-Library.Word" "HOL-Library.List_Lexorder" "HOL-Library.Char_ord"
begin

text \<open>
  Shared vocabulary of the development: the machine integers of the Rust sources, the
  checked, wrapping and saturating operations of the standard library on them, \<open>Result\<close>
  values as sums, the iterator functions \<open>min_by_key\<close>, \<open>try_fold\<close> and \<open>find\<close> as
  list functions, decimal printing and \<open>str::trim\<close>, and the collections of rewrite
  rules that carry the proofs of the component theories.
\<close>

unbundle bit_operations_syntax

named_theorems rust_simps \<open>defining equations of the standard-library operations\<close>
named_theorems checked_dests \<open>what a successful checked operation says about its operands\<close>

section \<open>Machine integers\<close>

type_synonym u8 = "8 word"
type_synonym u16 = "16 word"
type_synonym u32 = "32 word"
type_synonym u64 = "64 word"
type_synonym i32 = "32 word"

text \<open>
  The targets are 64-bit, so \<open>usize\<close> has 64 bits; lengths of in-memory sequences are
  \<open>nat\<close>, and a conversion between \<open>usize\<close> and a fixed width is written with its bound.
\<close>

definition usize_max :: nat where
  "usize_max = 2 ^ 64 - 1"

definition u64_try_from :: "nat \<Rightarrow> u64 option" where
  "u64_try_from n = (if n \<le> usize_max then Some (of_nat n) else None)"

definition u32_try_from :: "nat \<Rightarrow> u32 option" where
  "u32_try_from n = (if n < 2 ^ 32 then Some (of_nat n) else None)"

definition usize_try_from :: "u64 \<Rightarrow> nat option" where
  "usize_try_from w = (if unat w \<le> usize_max then Some (unat w) else None)"

definition checked_add :: "'a::len word \<Rightarrow> 'a word \<Rightarrow> 'a word option" where
  "checked_add x y = (if unat x + unat y < 2 ^ LENGTH('a) then Some (x + y) else None)"

definition checked_mul :: "'a::len word \<Rightarrow> 'a word \<Rightarrow> 'a word option" where
  "checked_mul x y = (if unat x * unat y < 2 ^ LENGTH('a) then Some (x * y) else None)"

definition saturating_add :: "'a::len word \<Rightarrow> 'a word \<Rightarrow> 'a word" where
  "saturating_add x y = (if unat x + unat y < 2 ^ LENGTH('a) then x + y else - 1)"

definition saturating_sub :: "'a::len word \<Rightarrow> 'a word \<Rightarrow> 'a word" where
  "saturating_sub x y = (if y \<le> x then x - y else 0)"

lemma unat_lt2p_num: "unat (x :: u64) < 18446744073709551616"
  using unsigned_less [of x, where ?'a = nat] by simp

lemma unat_u32_lt2p_num: "unat (x :: u32) < 4294967296"
  using unsigned_less [of x, where ?'a = nat] by simp

lemma unat_ucast_up: "LENGTH('a::len) \<le> LENGTH('b::len) \<Longrightarrow> unat (ucast x :: 'b::len word) = unat x"
  for x :: "'a::len word"
proof -
  assume "LENGTH('a) \<le> LENGTH('b)"
  then have "(2::nat) ^ LENGTH('a) \<le> 2 ^ LENGTH('b)" by (simp add: power_increasing)
  with unsigned_less [of x, where ?'a = nat] have "unat x < 2 ^ LENGTH('b)" by linarith
  then show ?thesis by (simp add: unsigned_ucast_eq take_bit_nat_eq_self)
qed

lemma unat_of_nat_inverse: "of_nat (unat x) = x"
  for x :: "'a::len word"
  by simp

lemma usize_try_from_Some [simp]: "usize_try_from w = Some (unat w)"
  using unat_lt2p_num [of w] by (simp add: usize_try_from_def usize_max_def)

lemma u64_try_from_iff: "u64_try_from n = Some w \<longleftrightarrow> n = unat w"
proof
  assume "u64_try_from n = Some w"
  then have "n < 2 ^ 64" "w = of_nat n"
    by (auto simp: u64_try_from_def usize_max_def split: if_splits)
  then show "n = unat w" by (simp add: unat_of_nat)
next
  assume "n = unat w"
  moreover have "unat w \<le> usize_max"
    using unat_lt2p_num [of w] by (simp add: usize_max_def)
  ultimately show "u64_try_from n = Some w" by (simp add: u64_try_from_def)
qed

lemma u32_try_from_iff: "u32_try_from n = Some w \<longleftrightarrow> n = unat w"
proof
  assume "u32_try_from n = Some w"
  then have "n < 2 ^ 32" "w = of_nat n" by (simp_all add: u32_try_from_def split: if_splits)
  then show "n = unat w" by (simp add: unat_of_nat)
next
  assume "n = unat w"
  then show "u32_try_from n = Some w" using unat_u32_lt2p_num [of w] by (simp add: u32_try_from_def)
qed

lemma u32_try_from_None_iff: "u32_try_from n = None \<longleftrightarrow> 2 ^ 32 \<le> n"
  by (simp add: u32_try_from_def)

lemma u64_try_from_unat [simp]: "u64_try_from (unat w) = Some w"
  by (simp add: u64_try_from_iff)

lemma checked_add_iff [checked_dests]: "checked_add x y = Some z \<longleftrightarrow> unat z = unat x + unat y"
  for x y z :: "'a::len word"
proof
  assume "checked_add x y = Some z"
  then show "unat z = unat x + unat y"
    by (auto simp: checked_add_def unat_word_ariths split: if_splits)
next
  assume eq: "unat z = unat x + unat y"
  then have "unat x + unat y < 2 ^ LENGTH('a)"
    using unsigned_less [of z, where ?'a = nat] by simp
  moreover from this have "unat (x + y) = unat z"
    by (simp add: unat_word_ariths eq)
  ultimately show "checked_add x y = Some z"
    by (simp add: checked_add_def word_unat_eq_iff)
qed

lemma checked_mul_iff [checked_dests]: "checked_mul x y = Some z \<longleftrightarrow> unat z = unat x * unat y"
  for x y z :: "'a::len word"
proof
  assume "checked_mul x y = Some z"
  then show "unat z = unat x * unat y"
    by (auto simp: checked_mul_def unat_word_ariths split: if_splits)
next
  assume eq: "unat z = unat x * unat y"
  then have "unat x * unat y < 2 ^ LENGTH('a)"
    using unsigned_less [of z, where ?'a = nat] by simp
  moreover from this have "unat (x * y) = unat z"
    by (simp add: unat_word_ariths eq)
  ultimately show "checked_mul x y = Some z"
    by (simp add: checked_mul_def word_unat_eq_iff)
qed

lemma checked_add_None_iff: "checked_add x y = None \<longleftrightarrow> 2 ^ LENGTH('a) \<le> unat x + unat y"
  for x y :: "'a::len word"
  by (simp add: checked_add_def)

lemma checked_mul_None_iff: "checked_mul x y = None \<longleftrightarrow> 2 ^ LENGTH('a) \<le> unat x * unat y"
  for x y :: "'a::len word"
  by (simp add: checked_mul_def)

lemma unat_saturating_sub: "unat (saturating_sub x y) = unat x - unat y"
  for x y :: "'a::len word"
  by (auto simp: saturating_sub_def unat_sub word_le_nat_alt)

lemma unat_saturating_add:
  "unat (saturating_add x y) = min (unat x + unat y) (2 ^ LENGTH('a) - 1)"
  for x y :: "'a::len word"
  by (auto simp: saturating_add_def unat_word_ariths unsigned_minus_1_eq_mask mask_eq_exp_minus_1 min_def)

section \<open>Results\<close>

text \<open>
  A \<open>Result<T, E>\<close> is a value of \<open>'e + 'a\<close>, with \<open>Inl\<close> for \<open>Err\<close>. \<open>and_then\<close> is
  the \<open>?\<close> operator: the rest of the function runs on the value, an error returns at once.
\<close>

fun and_then :: "'e + 'a \<Rightarrow> ('a \<Rightarrow> 'e + 'b) \<Rightarrow> 'e + 'b" where
  "and_then (Inl e) f = Inl e"
| "and_then (Inr x) f = f x"

fun map_err :: "('e \<Rightarrow> 'f) \<Rightarrow> 'e + 'a \<Rightarrow> 'f + 'a" where
  "map_err f (Inl e) = Inl (f e)"
| "map_err f (Inr x) = Inr x"

fun ok_or :: "'a option \<Rightarrow> 'e \<Rightarrow> 'e + 'a" where
  "ok_or None e = Inl e"
| "ok_or (Some x) e = Inr x"

fun is_ok :: "'e + 'a \<Rightarrow> bool" where
  "is_ok (Inl e) = False"
| "is_ok (Inr x) = True"

text \<open>An early \<open>return Err(e)\<close> under a condition, and the rest of the function.\<close>

definition ensure :: "bool \<Rightarrow> 'e \<Rightarrow> 'e + unit" where
  "ensure b e = (if b then Inr () else Inl e)"

text \<open>Evaluation goes by cases, so that the continuation runs only on a value.\<close>

lemma and_then_case [code_unfold]:
  "and_then r f = (case r of Inl e \<Rightarrow> Inl e | Inr x \<Rightarrow> f x)"
  by (cases r) simp_all

lemma and_then_assoc: "and_then (and_then r f) g = and_then r (\<lambda>x. and_then (f x) g)"
  by (cases r) simp_all

lemma and_then_Inr_iff: "and_then r f = Inr y \<longleftrightarrow> (\<exists>x. r = Inr x \<and> f x = Inr y)"
  by (cases r) auto

lemma and_then_Inl_iff: "and_then r f = Inl e \<longleftrightarrow> r = Inl e \<or> (\<exists>x. r = Inr x \<and> f x = Inl e)"
  by (cases r) auto

lemma ok_or_Inr_iff: "ok_or o' e = Inr x \<longleftrightarrow> o' = Some x"
  by (cases o') auto

lemma ok_or_Inl_iff: "ok_or o' e = Inl e' \<longleftrightarrow> o' = None \<and> e' = e"
  by (cases o') auto

lemma map_err_Inr_iff: "map_err f r = Inr x \<longleftrightarrow> r = Inr x"
  by (cases r) auto

lemma map_err_Inl_iff: "map_err f r = Inl e \<longleftrightarrow> (\<exists>e'. r = Inl e' \<and> e = f e')"
  by (cases r) auto

lemma ensure_Inr_iff: "ensure b e = Inr u \<longleftrightarrow> b"
  by (simp add: ensure_def)

lemma ensure_Inl_iff: "ensure b e = Inl e' \<longleftrightarrow> \<not> b \<and> e' = e"
  by (auto simp: ensure_def)

lemma ensure_True [simp]: "ensure True e = Inr ()"
  by (simp add: ensure_def)

lemma ensure_False [simp]: "ensure False e = Inl e"
  by (simp add: ensure_def)

lemmas result_iffs = and_then_Inr_iff and_then_Inl_iff ok_or_Inr_iff ok_or_Inl_iff
  map_err_Inr_iff map_err_Inl_iff ensure_Inr_iff ensure_Inl_iff

text \<open>A call that may panic: it returns a value or unwinds.\<close>

datatype 'a unwinding = Returned 'a | Unwound

text \<open>\<open>Iterator::try_fold\<close>, and a loop whose body is a validation with \<open>?\<close>.\<close>

fun try_fold :: "('b \<Rightarrow> 'a \<Rightarrow> 'e + 'b) \<Rightarrow> 'b \<Rightarrow> 'a list \<Rightarrow> 'e + 'b" where
  "try_fold f acc [] = Inr acc"
| "try_fold f acc (x # xs) = and_then (f acc x) (\<lambda>acc'. try_fold f acc' xs)"

fun try_all :: "('a \<Rightarrow> 'e + unit) \<Rightarrow> 'a list \<Rightarrow> 'e + unit" where
  "try_all f [] = Inr ()"
| "try_all f (x # xs) = and_then (f x) (\<lambda>_. try_all f xs)"

lemma try_all_ok_iff: "try_all f xs = Inr () \<longleftrightarrow> (\<forall>x \<in> set xs. f x = Inr ())"
  by (induction xs) (auto simp: and_then_Inr_iff)

lemma try_all_err: "try_all f xs = Inl e \<Longrightarrow> \<exists>x \<in> set xs. f x = Inl e"
  by (induction xs) (auto simp: and_then_Inl_iff)

lemma try_fold_checked_mul_iff:
  "try_fold (\<lambda>acc x. ok_or (checked_mul acc x) e) acc xs = Inr p
    \<Longrightarrow> unat p = unat acc * prod_list (map unat xs)"
  for p :: "'a::len word"
proof (induction xs arbitrary: acc)
  case Nil
  then show ?case by simp
next
  case (Cons x xs)
  then obtain q where "checked_mul acc x = Some q"
    and "try_fold (\<lambda>acc x. ok_or (checked_mul acc x) e) q xs = Inr p"
    by (auto simp: result_iffs)
  with Cons.IH [of q] show ?case
    by (simp add: checked_mul_iff mult.assoc)
qed

section \<open>Iterator functions\<close>

text \<open>
  \<open>Iterator::min_by\<close> and \<open>min_by_key\<close> return the first of several equally minimal
  elements. \<open>argmin_by le\<close> folds from the left and replaces the candidate only when the
  new element is strictly smaller.
\<close>

fun argmin_from :: "('a \<Rightarrow> 'a \<Rightarrow> bool) \<Rightarrow> 'a \<Rightarrow> 'a list \<Rightarrow> 'a" where
  "argmin_from le best [] = best"
| "argmin_from le best (x # xs) = argmin_from le (if le best x then best else x) xs"

fun min_by :: "('a \<Rightarrow> 'a \<Rightarrow> bool) \<Rightarrow> 'a list \<Rightarrow> 'a option" where
  "min_by le [] = None"
| "min_by le (x # xs) = Some (argmin_from le x xs)"

definition min_by_key :: "('a \<Rightarrow> 'b::linorder) \<Rightarrow> 'a list \<Rightarrow> 'a option" where
  "min_by_key f xs = min_by (\<lambda>x y. f x \<le> f y) xs"

definition total_preorder :: "('a \<Rightarrow> 'a \<Rightarrow> bool) \<Rightarrow> bool" where
  "total_preorder le \<longleftrightarrow> (\<forall>x y. le x y \<or> le y x) \<and> (\<forall>x y z. le x y \<longrightarrow> le y z \<longrightarrow> le x z)"

lemma total_preorder_key [simp, intro]: "total_preorder (\<lambda>x y. f x \<le> (f y :: 'b::linorder))"
  by (auto simp: total_preorder_def)

lemma argmin_from_mem: "argmin_from le b xs \<in> insert b (set xs)"
  by (induction xs arbitrary: b) (auto split: if_splits)

lemma argmin_from_le:
  assumes "total_preorder le"
  shows "x \<in> insert b (set xs) \<Longrightarrow> le (argmin_from le b xs) x"
  using assms
proof (induction xs arbitrary: b x)
  case Nil
  then show ?case by (auto simp: total_preorder_def)
next
  case (Cons y ys)
  let ?b = "if le b y then b else y"
  have tot: "\<And>u v. le u v \<or> le v u" and tr: "\<And>u v w. le u v \<Longrightarrow> le v w \<Longrightarrow> le u w"
    using Cons.prems(2) by (auto simp: total_preorder_def)
  have "le ?b b" "le ?b y"
    using tot by (auto split: if_splits)
  moreover have "le (argmin_from le ?b ys) ?b"
    using Cons by simp
  ultimately have "le (argmin_from le ?b ys) b" "le (argmin_from le ?b ys) y"
    using tr by blast+
  moreover have "x \<in> set ys \<Longrightarrow> le (argmin_from le ?b ys) x"
    using Cons by simp
  ultimately show ?case
    using Cons.prems(1) by auto
qed

lemma min_by_None_iff [simp]: "min_by le xs = None \<longleftrightarrow> xs = []"
  by (cases xs) auto

lemma min_by_mem: "min_by le xs = Some x \<Longrightarrow> x \<in> set xs"
  using argmin_from_mem by (cases xs) fastforce+

lemma min_by_le: "total_preorder le \<Longrightarrow> min_by le xs = Some x \<Longrightarrow> y \<in> set xs \<Longrightarrow> le x y"
  by (cases xs) (auto intro: argmin_from_le)

lemma min_by_key_None_iff [simp]: "min_by_key f xs = None \<longleftrightarrow> xs = []"
  by (simp add: min_by_key_def)

lemma min_by_key_Nil [simp]: "min_by_key f [] = None"
  by simp

lemma min_by_key_mem: "min_by_key f xs = Some x \<Longrightarrow> x \<in> set xs"
  by (simp add: min_by_key_def min_by_mem)

lemma min_by_key_le: "min_by_key f xs = Some x \<Longrightarrow> y \<in> set xs \<Longrightarrow> f x \<le> f y"
  using min_by_le [of "\<lambda>x y. f x \<le> f y" xs x y] by (simp add: min_by_key_def)

text \<open>The first minimum: everything before it is strictly larger.\<close>

lemma argmin_from_first:
  assumes "total_preorder le"
  shows "\<exists>us vs. b # xs = us @ argmin_from le b xs # vs \<and>
    (\<forall>u \<in> set us. \<not> le u (argmin_from le b xs))"
  using assms
proof (induction xs arbitrary: b)
  case Nil
  show ?case by (intro exI [of _ "[]"]) auto
next
  case (Cons y ys)
  show ?case
  proof (cases "le b y")
    case True
    with Cons.IH [OF Cons.prems, of b] obtain us vs where
      eq: "b # ys = us @ argmin_from le b ys # vs"
      and lt: "\<forall>u \<in> set us. \<not> le u (argmin_from le b ys)" by auto
    show ?thesis
    proof (cases us)
      case Nil
      with eq have "argmin_from le b ys = b" by auto
      then have "b # y # ys = [] @ argmin_from le b (y # ys) # (y # ys)"
        using True by (simp only: argmin_from.simps if_True append_Nil)
      then show ?thesis by (metis empty_iff empty_set)
    next
      case (Cons u us')
      with eq have "u = b" "ys = us' @ argmin_from le b ys # vs" by auto
      moreover from this lt Cons have nb: "\<not> le b (argmin_from le b ys)" by simp
      moreover have "\<not> le y (argmin_from le b ys)"
        using True nb Cons.prems unfolding total_preorder_def by blast
      ultimately show ?thesis using True lt Cons
        by (intro exI [where x = "b # y # us'"] exI [where x = vs]) auto
    qed
  next
    case False
    with Cons.IH [OF Cons.prems, of y] obtain us vs where
      eq: "y # ys = us @ argmin_from le y ys # vs"
      and lt: "\<forall>u \<in> set us. \<not> le u (argmin_from le y ys)" by auto
    have "le (argmin_from le y ys) y"
      by (rule argmin_from_le [OF Cons.prems]) simp
    with False have "\<not> le b (argmin_from le y ys)"
      using Cons.prems unfolding total_preorder_def by blast
    with lt have nb: "\<forall>u \<in> set (b # us). \<not> le u (argmin_from le y ys)" by simp
    have e: "argmin_from le b (y # ys) = argmin_from le y ys" using False by simp
    have "b # y # ys = (b # us) @ argmin_from le y ys # vs" using eq by (simp only: append_Cons)
    with nb show ?thesis unfolding e by blast
  qed
qed

lemma min_by_key_first:
  assumes "min_by_key f xs = Some x"
  shows "\<exists>us vs. xs = us @ x # vs \<and> (\<forall>u \<in> set us. f x < f u)"
proof (cases xs)
  case Nil
  with assms show ?thesis by (simp add: min_by_key_def)
next
  case (Cons b ys)
  with assms have "x = argmin_from (\<lambda>x y. f x \<le> f y) b ys"
    by (simp add: min_by_key_def)
  with argmin_from_first [of "\<lambda>x y. f x \<le> f y" b ys] Cons show ?thesis
    by (auto simp: not_le)
qed

lemma find_None_iff_all: "find P xs = None \<longleftrightarrow> (\<forall>x \<in> set xs. \<not> P x)"
  by (auto simp: find_None_iff)

lemma find_filter: "find P (filter Q xs) = find (\<lambda>x. Q x \<and> P x) xs"
  by (induction xs) auto

lemma find_SomeD: "find P xs = Some x \<Longrightarrow> x \<in> set xs \<and> P x"
  by (auto simp: find_Some_iff)

lemma find_distinct_key:
  assumes "distinct (map f xs)"
  shows "find (\<lambda>y. f y = k) xs = Some x \<longleftrightarrow> x \<in> set xs \<and> f x = k"
  using assms by (induction xs) auto

text \<open>
  \<open>if let Some(existing) = iter_mut().find(P) { *existing = x } else { push(x) }\<close>: the
  first match is replaced in place, otherwise the element goes to the end.
\<close>

fun upsert :: "('a \<Rightarrow> bool) \<Rightarrow> 'a \<Rightarrow> 'a list \<Rightarrow> 'a list" where
  "upsert P x [] = [x]"
| "upsert P x (y # ys) = (if P y then x # ys else y # upsert P x ys)"

lemma find_upsert_same: "P x \<Longrightarrow> find P (upsert P x xs) = Some x"
  by (induction xs) auto

lemma find_upsert_other:
  "\<not> Q x \<Longrightarrow> (\<And>y. P y \<Longrightarrow> \<not> Q y) \<Longrightarrow> find Q (upsert P x xs) = find Q xs"
  by (induction xs) auto

lemma upsert_keys:
  "(\<And>y. P y \<longleftrightarrow> key y = key x) \<Longrightarrow> key ` set (upsert P x xs) = insert (key x) (key ` set xs)"
  by (induction xs) (auto simp: image_iff)

lemma upsert_distinct:
  assumes "\<And>y. P y \<longleftrightarrow> key y = key x" and "distinct (map key xs)"
  shows "distinct (map key (upsert P x xs))"
  using assms(2)
proof (induction xs)
  case Nil
  then show ?case by simp
next
  case (Cons y ys)
  have "key y \<notin> key ` set (upsert P x ys)" if "\<not> P y"
    using that Cons.prems assms(1) [of y] by (simp add: upsert_keys [of P key x, OF assms(1)])
  with Cons assms(1) [of y] show ?case by auto
qed

lemma upsert_set: "set (upsert P x xs) \<subseteq> insert x (set xs)" "x \<in> set (upsert P x xs)"
  by (induction xs) auto

section \<open>Strings\<close>

text \<open>
  A Rust \<open>String\<close> is its UTF-8 bytes: a \<open>string\<close> of the model is that byte sequence,
  and the lexicographic order of lists is the byte order \<open>str\<close> is compared by.
  \<open>str::trim\<close> removes the characters with the property White_Space at both ends;
  \<open>whitespace\<close> lists their UTF-8 encodings. UTF-8 is self-synchronising, so on a
  valid string a byte prefix or suffix equal to such an encoding is that character.
\<close>

definition whitespace :: "string list" where
  "whitespace =
     [[CHR 0x09], [CHR 0x0A], [CHR 0x0B], [CHR 0x0C], [CHR 0x0D], [CHR 0x20],
      [CHR 0xC2, CHR 0x85], [CHR 0xC2, CHR 0xA0], [CHR 0xE1, CHR 0x9A, CHR 0x80],
      [CHR 0xE2, CHR 0x80, CHR 0x80], [CHR 0xE2, CHR 0x80, CHR 0x81],
      [CHR 0xE2, CHR 0x80, CHR 0x82], [CHR 0xE2, CHR 0x80, CHR 0x83],
      [CHR 0xE2, CHR 0x80, CHR 0x84], [CHR 0xE2, CHR 0x80, CHR 0x85],
      [CHR 0xE2, CHR 0x80, CHR 0x86], [CHR 0xE2, CHR 0x80, CHR 0x87],
      [CHR 0xE2, CHR 0x80, CHR 0x88], [CHR 0xE2, CHR 0x80, CHR 0x89],
      [CHR 0xE2, CHR 0x80, CHR 0x8A], [CHR 0xE2, CHR 0x80, CHR 0xA8],
      [CHR 0xE2, CHR 0x80, CHR 0xA9], [CHR 0xE2, CHR 0x80, CHR 0xAF],
      [CHR 0xE2, CHR 0x81, CHR 0x9F], [CHR 0xE3, CHR 0x80, CHR 0x80]]"

definition starts_with :: "string \<Rightarrow> string \<Rightarrow> bool" where
  "starts_with s p = (take (length p) s = p)"

definition leading_ws :: "string \<Rightarrow> nat" where
  "leading_ws s = (case find (starts_with s) whitespace of None \<Rightarrow> 0 | Some p \<Rightarrow> length p)"

definition trailing_ws :: "string \<Rightarrow> nat" where
  "trailing_ws s =
     (case find (\<lambda>p. starts_with (rev s) (rev p)) whitespace of
        None \<Rightarrow> 0 | Some p \<Rightarrow> length p)"

lemma starts_with_length: "starts_with s p \<Longrightarrow> length p \<le> length s"
  by (metis starts_with_def length_take min.cobounded1)

lemma leading_ws_le: "leading_ws s \<le> length s"
  by (auto simp: leading_ws_def split: option.splits dest!: find_SomeD starts_with_length)

lemma trailing_ws_le: "trailing_ws s \<le> length s"
  by (auto simp: trailing_ws_def split: option.splits dest!: find_SomeD starts_with_length)

function trim_start :: "string \<Rightarrow> string" where
  "trim_start s = (if leading_ws s = 0 then s else trim_start (drop (leading_ws s) s))"
  by pat_completeness auto
termination
proof (relation "measure length")
  fix s :: string
  assume "leading_ws s \<noteq> 0"
  with leading_ws_le [of s] show "(drop (leading_ws s) s, s) \<in> measure length" by simp
qed simp

function trim_end :: "string \<Rightarrow> string" where
  "trim_end s =
     (if trailing_ws s = 0 then s else trim_end (take (length s - trailing_ws s) s))"
  by pat_completeness auto
termination
proof (relation "measure length")
  fix s :: string
  assume "trailing_ws s \<noteq> 0"
  with trailing_ws_le [of s] show "(take (length s - trailing_ws s) s, s) \<in> measure length"
    by simp
qed simp

declare trim_start.simps [simp del]
declare trim_end.simps [simp del]

definition trim :: "string \<Rightarrow> string" where
  "trim s = trim_end (trim_start s)"

text \<open>Decimal \<open>Display\<close> of an unsigned integer.\<close>

definition digit_char :: "nat \<Rightarrow> char" where
  "digit_char d = char_of (48 + d)"

fun show_nat :: "nat \<Rightarrow> string" where
  "show_nat n =
     (if n < 10 then [digit_char n] else show_nat (n div 10) @ [digit_char (n mod 10)])"

declare show_nat.simps [simp del]

lemma trim_end_prefix: "\<exists>n. trim_end s = take n s"
proof (induction s rule: trim_end.induct)
  case (1 s)
  show ?case
  proof (cases "trailing_ws s = 0")
    case True
    then show ?thesis by (intro exI [of _ "length s"]) (simp add: trim_end.simps)
  next
    case False
    with "1.IH" obtain n where
      "trim_end (take (length s - trailing_ws s) s) = take n (take (length s - trailing_ws s) s)"
      by blast
    with False show ?thesis
      by (subst trim_end.simps) (auto intro!: exI [of _ "min n (length s - trailing_ws s)"])
  qed
qed

lemma trailing_ws_trim_end [simp]: "trailing_ws (trim_end s) = 0"
proof (induction s rule: trim_end.induct)
  case (1 s)
  then show ?case by (cases "trailing_ws s = 0") (simp_all add: trim_end.simps [of s])
qed

lemma leading_ws_trim_start [simp]: "leading_ws (trim_start s) = 0"
proof (induction s rule: trim_start.induct)
  case (1 s)
  then show ?case by (cases "leading_ws s = 0") (simp_all add: trim_start.simps [of s])
qed

lemma whitespace_nonempty: "p \<in> set whitespace \<Longrightarrow> p \<noteq> []"
  by (auto simp: whitespace_def)

lemma leading_ws_0_iff: "leading_ws s = 0 \<longleftrightarrow> (\<forall>p \<in> set whitespace. \<not> starts_with s p)"
proof (cases "find (starts_with s) whitespace")
  case None
  then have "\<forall>p \<in> set whitespace. \<not> starts_with s p" by (simp only: find_None_iff_all)
  with None show ?thesis by (simp add: leading_ws_def)
next
  case (Some p)
  then have "p \<in> set whitespace" "starts_with s p" by (auto dest: find_SomeD)
  with Some whitespace_nonempty [of p] show ?thesis by (auto simp: leading_ws_def)
qed

lemma starts_with_take: "starts_with (take n s) p \<Longrightarrow> starts_with s p"
proof -
  assume h: "starts_with (take n s) p"
  then have "length p \<le> length (take n s)"
    by (rule starts_with_length)
  with h show ?thesis by (simp add: starts_with_def min_absorb1)
qed

lemma trim_idem [simp]: "trim (trim s) = trim s"
proof -
  have "leading_ws (trim s) = 0"
  proof -
    obtain n where "trim s = take n (trim_start s)"
      using trim_end_prefix by (auto simp: trim_def)
    moreover have "\<forall>p \<in> set whitespace. \<not> starts_with (trim_start s) p"
      using leading_ws_trim_start [of s] by (simp only: leading_ws_0_iff)
    ultimately show ?thesis by (auto simp: leading_ws_0_iff dest: starts_with_take)
  qed
  moreover have "trailing_ws (trim s) = 0" by (simp add: trim_def)
  ultimately show ?thesis
    by (simp add: trim_def [of "trim s"] trim_start.simps [of "trim s"] trim_end.simps [of "trim s"])
qed

end
