(* ===== verification/BTree_Map.thy ===== *)
theory BTree_Map
  imports Prelude
begin

text \<open>
  \<open>std::collections::BTreeMap\<close> as an association list in ascending key order: lookup,
  insertion, removal and iteration in key order, the interface \<open>ordered_map\<close> the
  components use it through, and its interpretation on the list operations.
\<close>

type_synonym ('k, 'v) btree_map = "('k \<times> 'v) list"

fun bt_get :: "('k::linorder, 'v) btree_map \<Rightarrow> 'k \<Rightarrow> 'v option" where
  "bt_get [] k = None"
| "bt_get ((k', v) # m) k = (if k = k' then Some v else bt_get m k)"

fun bt_insert :: "'k::linorder \<Rightarrow> 'v \<Rightarrow> ('k, 'v) btree_map \<Rightarrow> ('k, 'v) btree_map" where
  "bt_insert k v [] = [(k, v)]"
| "bt_insert k v ((k', v') # m) =
     (if k < k' then (k, v) # (k', v') # m
      else if k = k' then (k, v) # m
      else (k', v') # bt_insert k v m)"

fun bt_remove :: "'k::linorder \<Rightarrow> ('k, 'v) btree_map \<Rightarrow> ('k, 'v) btree_map" where
  "bt_remove k [] = []"
| "bt_remove k ((k', v') # m) = (if k = k' then m else (k', v') # bt_remove k m)"

definition bt_contains :: "('k::linorder, 'v) btree_map \<Rightarrow> 'k \<Rightarrow> bool" where
  "bt_contains m k = (bt_get m k \<noteq> None)"

definition bt_wf :: "('k::linorder, 'v) btree_map \<Rightarrow> bool" where
  "bt_wf m = sorted_wrt (<) (map fst m)"

lemma bt_wf_Nil [simp]: "bt_wf []"
  by (simp add: bt_wf_def)

lemma bt_wf_Cons: "bt_wf ((k, v) # m) \<longleftrightarrow> (\<forall>x \<in> set m. k < fst x) \<and> bt_wf m"
  by (auto simp: bt_wf_def)

lemma bt_wf_distinct: "bt_wf m \<Longrightarrow> distinct (map fst m)"
  by (simp add: bt_wf_def strict_sorted_iff)

lemma bt_get_map_of: "bt_get m = map_of m"
proof
  show "bt_get m k = map_of m k" for k by (induction m) auto
qed

lemma bt_get_mem: "bt_get m k = Some v \<Longrightarrow> (k, v) \<in> set m"
  by (simp add: bt_get_map_of map_of_SomeD)

lemma bt_get_iff: "bt_wf m \<Longrightarrow> bt_get m k = Some v \<longleftrightarrow> (k, v) \<in> set m"
  by (simp add: bt_get_map_of bt_wf_distinct)

lemma bt_get_None_iff: "bt_get m k = None \<longleftrightarrow> k \<notin> fst ` set m"
  by (auto simp: bt_get_map_of map_of_eq_None_iff)

lemma bt_get_insert: "bt_get (bt_insert k v m) k' = (if k' = k then Some v else bt_get m k')"
  by (induction m) auto

lemma bt_insert_keys: "fst ` set (bt_insert k v m) = insert k (fst ` set m)"
  by (induction k v m rule: bt_insert.induct) (simp_all add: insert_commute)

lemma bt_wf_insert: "bt_wf m \<Longrightarrow> bt_wf (bt_insert k v m)"
proof (induction m)
  case Nil
  then show ?case by (simp add: bt_wf_Cons)
next
  case (Cons e m)
  obtain k' v' where e: "e = (k', v')" by (cases e)
  have "\<And>x. x \<in> set (bt_insert k v m) \<Longrightarrow> fst x = k \<or> fst x \<in> fst ` set m"
    using bt_insert_keys [of k v m] by (metis image_eqI insert_iff)
  with Cons e show ?case by (fastforce simp: bt_wf_Cons)
qed

lemma bt_remove_subset: "set (bt_remove k m) \<subseteq> set m"
  by (induction k m rule: bt_remove.induct) (auto split: if_splits)

lemma bt_wf_remove: "bt_wf m \<Longrightarrow> bt_wf (bt_remove k m)"
proof (induction m)
  case Nil
  then show ?case by simp
next
  case (Cons e m)
  then show ?case
    using bt_remove_subset [of k m] by (cases e) (auto simp: bt_wf_Cons)
qed

lemma bt_get_remove: "bt_wf m \<Longrightarrow> bt_get (bt_remove k m) k' = (if k' = k then None else bt_get m k')"
proof (induction m)
  case Nil
  then show ?case by simp
next
  case (Cons e m)
  obtain a b where e: "e = (a, b)" by (cases e)
  with Cons.prems have "bt_get m a = None"
    by (cases "bt_get m a") (auto simp: bt_wf_Cons dest!: bt_get_mem)
  with Cons e show ?case by (auto simp: bt_wf_Cons)
qed

lemma bt_get_eq_set: "bt_wf m \<Longrightarrow> set m = {(k, v). bt_get m k = Some v}"
  by (auto simp: bt_get_iff)

lemma bt_set_remove: "bt_wf m \<Longrightarrow> set (bt_remove k m) = {e \<in> set m. fst e \<noteq> k}"
  by (auto simp: bt_get_eq_set [of m] bt_get_eq_set [of "bt_remove k m"] bt_wf_remove bt_get_remove
      split: if_splits)

lemma bt_set_insert: "bt_wf m \<Longrightarrow> set (bt_insert k v m) = insert (k, v) {e \<in> set m. fst e \<noteq> k}"
  by (auto simp: bt_get_eq_set [of m] bt_get_eq_set [of "bt_insert k v m"] bt_wf_insert bt_get_insert
      split: if_splits)

lemma bt_remove_id: "bt_get m k = None \<Longrightarrow> bt_remove k m = m"
  by (induction m) (auto split: if_splits)

lemma bt_remove_length:
  "bt_get m k = Some v \<Longrightarrow> length m = Suc (length (bt_remove k m))"
  by (induction m) (auto split: if_splits)

lemma bt_remove_length_less: "k \<in> fst ` set m \<Longrightarrow> length (bt_remove k m) < length m"
  by (induction k m rule: bt_remove.induct) auto

text \<open>Weights summed over the entries, as the caches account for them.\<close>

definition bt_weight :: "('v \<Rightarrow> nat) \<Rightarrow> ('k, 'v) btree_map \<Rightarrow> nat" where
  "bt_weight f m = sum_list (map (f \<circ> snd) m)"

lemma bt_weight_Nil [simp]: "bt_weight f [] = 0"
  by (simp add: bt_weight_def)

lemma bt_weight_Cons [simp]: "bt_weight f (e # m) = f (snd e) + bt_weight f m"
  by (simp add: bt_weight_def)

lemma bt_weight_remove:
  "bt_get m k = Some v \<Longrightarrow> bt_weight f m = f v + bt_weight f (bt_remove k m)"
  by (induction m) (auto split: if_splits)

lemma bt_weight_insert_new:
  "bt_get m k = None \<Longrightarrow> bt_weight f (bt_insert k v m) = f v + bt_weight f m"
  by (induction m) (auto split: if_splits)

lemma bt_weight_insert_old:
  "bt_wf m \<Longrightarrow> bt_get m k = Some v' \<Longrightarrow>
    bt_weight f (bt_insert k v m) + f v' = f v + bt_weight f m"
proof (induction m)
  case Nil
  then show ?case by simp
next
  case (Cons e m)
  then show ?case
    by (cases e) (fastforce simp: bt_wf_Cons dest: bt_get_mem split: if_splits)
qed

lemma bt_weight_get_le: "bt_get m k = Some v \<Longrightarrow> f v \<le> bt_weight f m"
  by (simp add: bt_weight_remove)

lemma bt_weight_sole: "bt_wf m \<Longrightarrow> (\<And>x. x \<in> fst ` set m \<Longrightarrow> x = k) \<Longrightarrow>
    bt_weight f m = (case bt_get m k of None \<Rightarrow> 0 | Some v \<Rightarrow> f v)"
proof (cases m)
  case (Cons e es)
  assume wf: "bt_wf m" and only: "\<And>x. x \<in> fst ` set m \<Longrightarrow> x = k"
  have "es = []"
  proof (rule ccontr)
    assume "es \<noteq> []"
    then obtain e' es' where "es = e' # es'" by (cases es) auto
    with only Cons have "fst e = k" "fst e' = k" by auto
    with wf Cons \<open>es = e' # es'\<close> show False by (cases e) (auto simp: bt_wf_Cons)
  qed
  with only Cons show ?thesis by (cases e) auto
qed simp

section \<open>The interface\<close>

locale ordered_map =
  fixes empty :: "'m"
    and lookup :: "'m \<Rightarrow> 'k::linorder \<Rightarrow> 'v option"
    and insert_key :: "'k \<Rightarrow> 'v \<Rightarrow> 'm \<Rightarrow> 'm"
    and remove_key :: "'k \<Rightarrow> 'm \<Rightarrow> 'm"
    and entries :: "'m \<Rightarrow> ('k \<times> 'v) list"
    and invar :: "'m \<Rightarrow> bool"
  assumes law_empty: "invar empty" "entries empty = []"
    and law_lookup: "invar m \<Longrightarrow> lookup m k = Some v \<longleftrightarrow> (k, v) \<in> set (entries m)"
    and law_insert: "invar m \<Longrightarrow> lookup (insert_key k v m) = (lookup m)(k \<mapsto> v)"
    and law_remove: "invar m \<Longrightarrow> lookup (remove_key k m) = (lookup m)(k := None)"
    and law_invar_insert: "invar m \<Longrightarrow> invar (insert_key k v m)"
    and law_invar_remove: "invar m \<Longrightarrow> invar (remove_key k m)"
    and law_sorted: "invar m \<Longrightarrow> sorted_wrt (<) (map fst (entries m))"
begin

definition keys :: "'m \<Rightarrow> 'k set" where
  "keys m = fst ` set (entries m)"

lemma lookup_dom: "invar m \<Longrightarrow> dom (lookup m) = keys m"
  by (force simp: keys_def law_lookup)

lemma keys_insert: "invar m \<Longrightarrow> keys (insert_key k v m) = insert k (keys m)"
  using lookup_dom [of m] lookup_dom [of "insert_key k v m"]
  by (simp add: law_insert law_invar_insert)

lemma keys_remove: "invar m \<Longrightarrow> keys (remove_key k m) = keys m - {k}"
  using lookup_dom [of m] lookup_dom [of "remove_key k m"]
  by (simp add: law_remove law_invar_remove)

lemma distinct_keys: "invar m \<Longrightarrow> distinct (map fst (entries m))"
  using law_sorted by (simp add: strict_sorted_iff)

lemma insert_all_invar: "invar m \<Longrightarrow> invar (fold (\<lambda>(k, v). insert_key k v) kvs m)"
  by (induction kvs arbitrary: m) (auto simp: law_invar_insert)

lemma keys_insert_all:
  "invar m \<Longrightarrow> keys (fold (\<lambda>(k, v). insert_key k v) kvs m) = fst ` set kvs \<union> keys m"
  by (induction kvs arbitrary: m) (simp_all add: law_invar_insert keys_insert split_beta)

end

interpretation bt: ordered_map "[]" bt_get bt_insert bt_remove "\<lambda>m. m" bt_wf
proof (unfold_locales, goal_cases)
  case (4 m k v)
  show ?case by (simp add: fun_eq_iff bt_get_insert)
next
  case (5 m k)
  then show ?case by (simp add: fun_eq_iff bt_get_remove)
qed (simp_all add: bt_get_iff bt_wf_insert bt_wf_remove, simp add: bt_wf_def)

end
