(* ===== verification/Rust_Float.thy ===== *)
theory Rust_Float
  imports Prelude
begin

text \<open>
  The floating-point types \<open>f32\<close> and \<open>f64\<close>: IEEE 754 binary interchange formats as bit
  patterns, with addition, multiplication and division rounded to nearest, ties to even.
  A format has \<open>p\<close> fraction bits and \<open>w\<close> exponent bits; \<open>p = 23, w = 8\<close> is \<open>f32\<close> and
  \<open>p = 52, w = 11\<close> is \<open>f64\<close>. Magnitudes are natural numbers in units of the smallest
  subnormal, so that an addition is exact before it is rounded. Every operation that
  yields a NaN yields the default quiet NaN; Rust leaves the payload open.
\<close>

section \<open>Magnitudes\<close>

text \<open>The value of a non-negative pattern, in units of the smallest positive subnormal.\<close>

definition fval :: "nat \<Rightarrow> nat \<Rightarrow> nat" where
  "fval p m = (if m div 2 ^ p = 0 then m else (2 ^ p + m mod 2 ^ p) * 2 ^ (m div 2 ^ p - 1))"

fun ilog2 :: "nat \<Rightarrow> nat" where
  "ilog2 n = (if n < 2 then 0 else Suc (ilog2 (n div 2)))"

declare ilog2.simps [simp del]

text \<open>The pattern of the largest magnitude that is at most \<open>n\<close>.\<close>

definition trunc_pattern :: "nat \<Rightarrow> nat \<Rightarrow> nat" where
  "trunc_pattern p n =
     (if n < 2 ^ (p + 1) then n
      else let k = ilog2 n - p in n div 2 ^ k + k * 2 ^ p)"

definition inf_pattern :: "nat \<Rightarrow> nat \<Rightarrow> nat" where
  "inf_pattern p w = (2 ^ w - 1) * 2 ^ p"

text \<open>
  The nearest pattern to \<open>num / den\<close>, the even one of two equally near ones, and the
  infinity for everything that rounds beyond the largest finite magnitude.
\<close>

definition round_nearest :: "nat \<Rightarrow> nat \<Rightarrow> nat \<Rightarrow> nat" where
  "round_nearest p num den =
     (let t = trunc_pattern p (num div den);
          mid = (fval p t + fval p (Suc t)) * den
      in if 2 * num < mid then t
         else if mid < 2 * num then Suc t
         else if even t then t else Suc t)"

definition round_pattern :: "nat \<Rightarrow> nat \<Rightarrow> nat \<Rightarrow> nat \<Rightarrow> nat" where
  "round_pattern p w num den = min (round_nearest p num den) (inf_pattern p w)"

lemma ilog2_bounds: "0 < n \<Longrightarrow> 2 ^ ilog2 n \<le> n \<and> n < 2 ^ Suc (ilog2 n)"
proof (induction n rule: ilog2.induct)
  case (1 n)
  show ?case
  proof (cases "n < 2")
    case True
    with 1 show ?thesis by (simp add: ilog2.simps)
  next
    case False
    with 1 have "2 ^ ilog2 (n div 2) \<le> n div 2 \<and> n div 2 < 2 ^ Suc (ilog2 (n div 2))" by simp
    with False show ?thesis by (simp add: ilog2.simps [of n]) linarith
  qed
qed

lemma ilog2_ge: "2 ^ (p + 1) \<le> n \<Longrightarrow> p < ilog2 n"
proof (rule ccontr)
  assume n: "2 ^ (p + 1) \<le> n" and "\<not> p < ilog2 n"
  then have "Suc (ilog2 n) \<le> p + 1" by simp
  then have h: "(2::nat) ^ Suc (ilog2 n) \<le> 2 ^ (p + 1)" by (rule power_increasing) simp
  have "0 < n" by (rule ccontr) (use n in simp)
  from ilog2_bounds [OF this] n h show False by linarith
qed

lemma ilog2_mono: "0 < m \<Longrightarrow> m \<le> n \<Longrightarrow> ilog2 m \<le> ilog2 n"
proof (rule ccontr)
  assume m: "0 < m" "m \<le> n" "\<not> ilog2 m \<le> ilog2 n"
  then have "(2::nat) ^ Suc (ilog2 n) \<le> 2 ^ ilog2 m" by (intro power_increasing) auto
  with m ilog2_bounds [of n] ilog2_bounds [of m] show False by simp
qed

lemma fval_Suc: "fval p m < fval p (Suc m)"
proof (cases "Suc (m mod 2 ^ p) = 2 ^ p")
  case True
  then have d: "Suc m div 2 ^ p = Suc (m div 2 ^ p)" and r: "Suc m mod 2 ^ p = 0"
    by (simp_all add: div_Suc mod_Suc)
  show ?thesis
  proof (cases "m div 2 ^ p = 0")
    case True
    then have "m < 2 ^ p" by (simp add: div_eq_0_iff)
    with True d r show ?thesis by (simp add: fval_def)
  next
    case False
    then obtain e where e: "m div 2 ^ p = Suc e" by (cases "m div 2 ^ p") auto
    have "(2 ^ p + m mod 2 ^ p) * 2 ^ e < (2 ^ p * 2) * (2::nat) ^ e"
      by (rule mult_strict_right_mono) (simp_all add: mult_2_right)
    with d r e show ?thesis by (simp add: fval_def mult.assoc)
  qed
next
  case False
  then have "Suc m div 2 ^ p = m div 2 ^ p" "Suc m mod 2 ^ p = Suc (m mod 2 ^ p)"
    by (simp_all add: div_Suc mod_Suc)
  then show ?thesis by (auto simp: fval_def)
qed

lemma fval_strict_mono: "strict_mono (fval p)"
  by (rule strict_mono_Suc_iff [THEN iffD2]) (simp add: fval_Suc)

lemma fval_le_iff: "fval p a \<le> fval p b \<longleftrightarrow> a \<le> b"
  by (rule strict_mono_less_eq [OF fval_strict_mono])

lemma fval_less_iff: "fval p a < fval p b \<longleftrightarrow> a < b"
  by (rule strict_mono_less [OF fval_strict_mono])

lemma fval_0 [simp]: "fval p 0 = 0"
  by (simp add: fval_def)

text \<open>\<open>trunc_pattern\<close> is the greatest pattern at or below the value.\<close>

lemma fval_sum_pattern:
  assumes "2 ^ p \<le> s" "s < 2 ^ (p + 1)"
  shows "fval p (s + k * 2 ^ p) = s * 2 ^ k"
proof -
  have s: "s div 2 ^ p = 1" "s mod 2 ^ p = s - 2 ^ p"
    using assms by (simp_all add: div_nat_eqI mod_if le_mod_geq)
  then have "(s + k * 2 ^ p) div 2 ^ p = Suc k" "(s + k * 2 ^ p) mod 2 ^ p = s - 2 ^ p"
    by simp_all
  with assms show ?thesis by (simp add: fval_def)
qed

lemma trunc_pattern_bounds: "fval p (trunc_pattern p n) \<le> n \<and> n < fval p (Suc (trunc_pattern p n))"
proof (cases "n < 2 ^ (p + 1)")
  case True
  have ident: "fval p i = i" if "i < 2 ^ (p + 1)" for i
  proof (cases "i < 2 ^ p")
    case True
    then show ?thesis by (simp add: fval_def)
  next
    case False
    with that fval_sum_pattern [of p i 0] show ?thesis by simp
  qed
  show ?thesis
  proof (cases "Suc n < 2 ^ (p + 1)")
    case True
    then show ?thesis by (simp add: trunc_pattern_def ident)
  next
    case False
    with True have "Suc n = 2 ^ p + 1 * 2 ^ p" by simp
    then have "fval p (Suc n) = 2 ^ p * 2 ^ 1"
      using fval_sum_pattern [of p "2 ^ p" 1] by simp
    with True \<open>Suc n = _\<close> show ?thesis by (simp add: trunc_pattern_def ident)
  qed
next
  case False
  define k where "k = ilog2 n - p"
  define s where "s = n div 2 ^ k"
  have "0 < n" by (rule ccontr) (use False in simp)
  then have n: "2 ^ (p + k) \<le> n" "n < 2 ^ (p + k + 1)"
    using ilog2_ge [of p n] ilog2_bounds [of n] False by (simp_all add: k_def)
  have s: "2 ^ p \<le> s" "s < 2 ^ (p + 1)"
    using n by (simp_all add: s_def less_eq_div_iff_mult_less_eq div_less_iff_less_mult
        power_add mult.commute)
  have t: "trunc_pattern p n = s + k * 2 ^ p"
    using False by (simp add: trunc_pattern_def k_def s_def Let_def)
  have hi: "fval p (Suc (s + k * 2 ^ p)) = Suc s * 2 ^ k"
  proof (cases "Suc s < 2 ^ (p + 1)")
    case True
    with s fval_sum_pattern [of p "Suc s" k] show ?thesis by simp
  next
    case False
    with s have e: "Suc s = 2 ^ (p + 1)" by simp
    then have pat: "Suc (s + k * 2 ^ p) = 2 ^ p + Suc k * 2 ^ p" by simp
    have "fval p (Suc (s + k * 2 ^ p)) = 2 ^ p * 2 ^ Suc k"
      unfolding pat by (rule fval_sum_pattern) simp_all
    then show ?thesis unfolding e by (simp only: power_add power_Suc power_one_right ac_simps)
  qed
  have "s * 2 ^ k \<le> n" by (simp add: s_def)
  moreover have "n < Suc s * 2 ^ k"
    unfolding s_def by (metis dividend_less_div_times mult_Suc mult.commute add.commute
        zero_less_numeral zero_less_power)
  ultimately show ?thesis
    using s by (simp add: t hi fval_sum_pattern)
qed

lemma trunc_pattern_mono: "m \<le> n \<Longrightarrow> trunc_pattern p m \<le> trunc_pattern p n"
proof -
  assume "m \<le> n"
  then have "fval p (trunc_pattern p m) < fval p (Suc (trunc_pattern p n))"
    using trunc_pattern_bounds [of p m] trunc_pattern_bounds [of p n] by linarith
  then show ?thesis by (simp add: fval_less_iff)
qed

lemma trunc_pattern_fval [simp]: "trunc_pattern p (fval p b) = b"
proof -
  have "fval p (trunc_pattern p (fval p b)) \<le> fval p b"
    "fval p b < fval p (Suc (trunc_pattern p (fval p b)))"
    using trunc_pattern_bounds by auto
  then show ?thesis by (simp add: fval_le_iff fval_less_iff)
qed

lemma round_nearest_exact: "round_nearest p (fval p b) 1 = b"
  using fval_Suc [of p b] by (simp add: round_nearest_def)

lemma round_nearest_bounds:
  "trunc_pattern p (num div den) \<le> round_nearest p num den"
  "round_nearest p num den \<le> Suc (trunc_pattern p (num div den))"
  by (simp_all add: round_nearest_def Let_def)

text \<open>Rounding is monotone: the fact the routing and planning arithmetic rests on.\<close>

lemma round_nearest_mono:
  assumes "m \<le> n"
  shows "round_nearest p m den \<le> round_nearest p n den"
proof -
  let ?s = "trunc_pattern p (m div den)" and ?t = "trunc_pattern p (n div den)"
  have "?s \<le> ?t" by (rule trunc_pattern_mono) (rule div_le_mono [OF assms])
  then consider "?s = ?t" | "Suc ?s \<le> ?t" by linarith
  then show ?thesis
  proof cases
    case 1
    with assms show ?thesis by (auto simp: round_nearest_def Let_def)
  next
    case 2
    with round_nearest_bounds [where p = p and den = den] show ?thesis
      by (meson order_trans)
  qed
qed

lemma round_pattern_mono: "m \<le> n \<Longrightarrow> round_pattern p w m den \<le> round_pattern p w n den"
  using round_nearest_mono [of m n p den] by (auto simp: round_pattern_def)

lemma round_pattern_exact: "b \<le> inf_pattern p w \<Longrightarrow> round_pattern p w (fval p b) 1 = b"
  by (simp only: round_pattern_def round_nearest_exact min_def if_True)

lemma round_pattern_le_inf: "round_pattern p w num den \<le> inf_pattern p w"
  by (simp add: round_pattern_def)

text \<open>The result is a nearest representable magnitude.\<close>

lemma round_nearest_is_nearest:
  "\<bar>int num - int (fval p (round_nearest p num 1))\<bar> \<le> \<bar>int num - int (fval p b)\<bar>"
proof -
  let ?t = "trunc_pattern p num"
  have lo: "fval p ?t \<le> num" and hi: "num < fval p (Suc ?t)"
    using trunc_pattern_bounds [of p num] by auto
  have "fval p b \<le> fval p ?t \<or> fval p (Suc ?t) \<le> fval p b"
    by (simp add: fval_le_iff) linarith
  with lo hi show ?thesis by (auto simp: round_nearest_def Let_def)
qed

section \<open>The operations\<close>

text \<open>A pattern of the format is a natural number below \<open>2 ^ (p + w + 1)\<close>.\<close>

definition magnitude :: "nat \<Rightarrow> nat \<Rightarrow> nat \<Rightarrow> nat" where
  "magnitude p w x = x mod 2 ^ (p + w)"

definition is_negative :: "nat \<Rightarrow> nat \<Rightarrow> nat \<Rightarrow> bool" where
  "is_negative p w x = (2 ^ (p + w) \<le> x)"

definition with_sign :: "nat \<Rightarrow> nat \<Rightarrow> bool \<Rightarrow> nat \<Rightarrow> nat" where
  "with_sign p w s m = (if s then 2 ^ (p + w) + m else m)"

definition pattern_nan :: "nat \<Rightarrow> nat \<Rightarrow> nat" where
  "pattern_nan p w = inf_pattern p w + 2 ^ (p - 1)"

definition is_nan :: "nat \<Rightarrow> nat \<Rightarrow> nat \<Rightarrow> bool" where
  "is_nan p w x = (inf_pattern p w < magnitude p w x)"

definition is_inf :: "nat \<Rightarrow> nat \<Rightarrow> nat \<Rightarrow> bool" where
  "is_inf p w x = (magnitude p w x = inf_pattern p w)"

definition is_finite_pattern :: "nat \<Rightarrow> nat \<Rightarrow> nat \<Rightarrow> bool" where
  "is_finite_pattern p w x = (magnitude p w x < inf_pattern p w)"

definition signed_value :: "nat \<Rightarrow> nat \<Rightarrow> nat \<Rightarrow> int" where
  "signed_value p w x =
     (if is_negative p w x then - int (fval p (magnitude p w x)) else int (fval p (magnitude p w x)))"

definition pattern_add :: "nat \<Rightarrow> nat \<Rightarrow> nat \<Rightarrow> nat \<Rightarrow> nat" where
  "pattern_add p w x y =
     (if is_nan p w x \<or> is_nan p w y then pattern_nan p w
      else if is_inf p w x then
        (if is_inf p w y \<and> is_negative p w x \<noteq> is_negative p w y then pattern_nan p w else x)
      else if is_inf p w y then y
      else let s = signed_value p w x + signed_value p w y
        in if s = 0 then with_sign p w (is_negative p w x \<and> is_negative p w y) 0
           else with_sign p w (s < 0) (round_pattern p w (nat \<bar>s\<bar>) 1))"

text \<open>The exponent of the unit: the value \<open>1.0\<close> is \<open>2 ^ unit_exponent\<close> units.\<close>

definition unit_exponent :: "nat \<Rightarrow> nat \<Rightarrow> nat" where
  "unit_exponent p w = 2 ^ (w - 1) - 2 + p"

definition pattern_mul :: "nat \<Rightarrow> nat \<Rightarrow> nat \<Rightarrow> nat \<Rightarrow> nat" where
  "pattern_mul p w x y =
     (let s = (is_negative p w x \<noteq> is_negative p w y); a = magnitude p w x; b = magnitude p w y
      in if is_nan p w x \<or> is_nan p w y then pattern_nan p w
         else if is_inf p w x \<or> is_inf p w y then
           (if a = 0 \<or> b = 0 then pattern_nan p w else with_sign p w s (inf_pattern p w))
         else with_sign p w s (round_pattern p w (fval p a * fval p b) (2 ^ unit_exponent p w)))"

definition pattern_div :: "nat \<Rightarrow> nat \<Rightarrow> nat \<Rightarrow> nat \<Rightarrow> nat" where
  "pattern_div p w x y =
     (let s = (is_negative p w x \<noteq> is_negative p w y); a = magnitude p w x; b = magnitude p w y
      in if is_nan p w x \<or> is_nan p w y then pattern_nan p w
         else if is_inf p w x then
           (if is_inf p w y then pattern_nan p w else with_sign p w s (inf_pattern p w))
         else if is_inf p w y then with_sign p w s 0
         else if b = 0 then
           (if a = 0 then pattern_nan p w else with_sign p w s (inf_pattern p w))
         else with_sign p w s (round_pattern p w (fval p a * 2 ^ unit_exponent p w) (fval p b)))"

definition pattern_neg :: "nat \<Rightarrow> nat \<Rightarrow> nat \<Rightarrow> nat" where
  "pattern_neg p w x = with_sign p w (\<not> is_negative p w x) (magnitude p w x)"

definition pattern_less :: "nat \<Rightarrow> nat \<Rightarrow> nat \<Rightarrow> nat \<Rightarrow> bool" where
  "pattern_less p w x y =
     (\<not> is_nan p w x \<and> \<not> is_nan p w y \<and> signed_value p w x < signed_value p w y)"

definition pattern_eq :: "nat \<Rightarrow> nat \<Rightarrow> nat \<Rightarrow> nat \<Rightarrow> bool" where
  "pattern_eq p w x y =
     (\<not> is_nan p w x \<and> \<not> is_nan p w y \<and> signed_value p w x = signed_value p w y)"

definition pattern_le :: "nat \<Rightarrow> nat \<Rightarrow> nat \<Rightarrow> nat \<Rightarrow> bool" where
  "pattern_le p w x y =
     (\<not> is_nan p w x \<and> \<not> is_nan p w y \<and> signed_value p w x \<le> signed_value p w y)"

text \<open>Comparisons by the patterns alone, for evaluation: the values themselves have hundreds of bits.\<close>

definition magnitude_le :: "nat \<Rightarrow> nat \<Rightarrow> nat \<Rightarrow> nat \<Rightarrow> bool" where
  "magnitude_le p w x y =
     (if is_negative p w x
      then (if is_negative p w y then magnitude p w y \<le> magnitude p w x else True)
      else if is_negative p w y then magnitude p w x = 0 \<and> magnitude p w y = 0
      else magnitude p w x \<le> magnitude p w y)"

lemma signed_value_le: "signed_value p w x \<le> signed_value p w y \<longleftrightarrow> magnitude_le p w x y"
proof -
  let ?a = "magnitude p w x" and ?b = "magnitude p w y"
  have zero: "fval p m = 0 \<longleftrightarrow> m = 0" for m using fval_le_iff [of p m 0] by simp
  have "int (fval p ?a) \<le> - int (fval p ?b) \<longleftrightarrow> fval p ?a = 0 \<and> fval p ?b = 0"
    "- int (fval p ?a) \<le> int (fval p ?b)" by arith+
  then show ?thesis
    unfolding signed_value_def magnitude_le_def
    by (cases "is_negative p w x"; cases "is_negative p w y") (simp_all only: if_True if_False neg_le_iff_le
        of_nat_le_iff fval_le_iff zero)
qed

lemma pattern_compare_code [code]:
  "pattern_le p w x y \<longleftrightarrow> \<not> is_nan p w x \<and> \<not> is_nan p w y \<and> magnitude_le p w x y"
  "pattern_less p w x y \<longleftrightarrow> \<not> is_nan p w x \<and> \<not> is_nan p w y \<and> \<not> magnitude_le p w y x"
  "pattern_eq p w x y \<longleftrightarrow> \<not> is_nan p w x \<and> \<not> is_nan p w y \<and> magnitude_le p w x y \<and> magnitude_le p w y x"
  unfolding pattern_le_def pattern_less_def pattern_eq_def signed_value_le [symmetric] by (simp_all add: not_le order_eq_iff)

text \<open>The key of \<open>total_cmp\<close>: the IEEE total order, with \<open>-0.0\<close> below \<open>0.0\<close>.\<close>

definition total_key :: "nat \<Rightarrow> nat \<Rightarrow> nat \<Rightarrow> int" where
  "total_key p w x =
     (if is_negative p w x then - int (magnitude p w x) - 1 else int (magnitude p w x))"

section \<open>Non-negative sums\<close>

text \<open>
  A cost is a pattern that is \<open>-0.0\<close> or non-negative and not a NaN. Sums of costs are
  costs, and adding a cost is monotone for the order of \<open>total_cmp\<close>.
\<close>

definition is_cost :: "nat \<Rightarrow> nat \<Rightarrow> nat \<Rightarrow> bool" where
  "is_cost p w x = (x \<le> inf_pattern p w \<or> x = 2 ^ (p + w))"

lemma inf_pattern_less: "inf_pattern p w < 2 ^ (p + w)"
  by (simp add: inf_pattern_def power_add algebra_simps)

lemma inf_pattern_pos: "0 < w \<Longrightarrow> 0 < inf_pattern p w"
  using one_less_power [of "2::nat" w] by (simp add: inf_pattern_def)

lemma cost_facts:
  assumes "is_cost p w x"
  shows "\<not> is_nan p w x"
    and "is_negative p w x \<longleftrightarrow> x = 2 ^ (p + w)"
    and "magnitude p w x = (if x = 2 ^ (p + w) then 0 else x)"
    and "signed_value p w x = (if x = 2 ^ (p + w) then 0 else int (fval p x))"
    and "total_key p w x = (if x = 2 ^ (p + w) then - 1 else int x)"
  using assms inf_pattern_less [of p w]
  by (auto simp: is_cost_def is_nan_def is_negative_def magnitude_def signed_value_def total_key_def)

lemma pattern_add_cost:
  assumes "0 < w" and x: "is_cost p w x" and y: "is_cost p w y"
  shows "pattern_add p w x y =
    (if x = 2 ^ (p + w) \<and> y = 2 ^ (p + w) then 2 ^ (p + w)
     else round_pattern p w (nat (signed_value p w x + signed_value p w y)) 1)"
proof -
  let ?N = "2 ^ (p + w) :: nat" and ?I = "inf_pattern p w"
  note lt = inf_pattern_less [of p w] and pos = inf_pattern_pos [OF assms(1), of p]
  have absorb: "round_pattern p w (fval p ?I + n) 1 = ?I" for n
    using round_pattern_mono [of "fval p ?I" "fval p ?I + n" p w 1]
      round_pattern_exact [of ?I p w] round_pattern_le_inf [of p w "fval p ?I + n" 1] by simp
  show ?thesis
  proof (cases "x = ?I \<or> y = ?I")
    case True
    with lt pos show ?thesis
      using cost_facts [OF x] cost_facts [OF y] absorb [of 0]
        absorb [of "fval p x"] absorb [of "fval p y"]
      by (auto simp: pattern_add_def is_inf_def nat_add_distrib add.commute split: if_splits)
  next
    case False
    have zero: "round_pattern p w 0 1 = 0" using round_pattern_exact [of 0 p w] by simp
    from False lt pos show ?thesis
      using cost_facts [OF x] cost_facts [OF y] zero
      by (auto simp: pattern_add_def is_inf_def with_sign_def Let_def split: if_splits)
  qed
qed

lemma is_cost_add: "0 < w \<Longrightarrow> is_cost p w x \<Longrightarrow> is_cost p w y \<Longrightarrow> is_cost p w (pattern_add p w x y)"
  using round_pattern_le_inf [of p w] by (auto simp: pattern_add_cost is_cost_def)

lemma total_key_round [simp]: "total_key p w (round_pattern p w n d) = int (round_pattern p w n d)"
proof -
  have "round_pattern p w n d < 2 ^ (p + w)"
    using round_pattern_le_inf [of p w n d] inf_pattern_less [of p w] by simp
  then show ?thesis by (simp add: total_key_def is_negative_def magnitude_def)
qed

lemma pattern_add_mono:
  assumes "0 < w" "is_cost p w x" "is_cost p w x'" "is_cost p w y"
    and le: "total_key p w x \<le> total_key p w x'"
  shows "total_key p w (pattern_add p w x y) \<le> total_key p w (pattern_add p w x' y)"
proof -
  let ?N = "2 ^ (p + w) :: nat"
  have neg: "total_key p w ?N = - 1"
    by (simp add: total_key_def is_negative_def magnitude_def)
  have sv: "signed_value p w x \<le> signed_value p w x'"
    using le assms(2,3) by (auto simp: cost_facts fval_le_iff split: if_splits)
  show ?thesis
  proof (cases "x = ?N \<and> y = ?N")
    case True
    then show ?thesis using assms by (auto simp: pattern_add_cost neg)
  next
    case False
    have "x' = ?N \<Longrightarrow> x = ?N"
      using le assms(2,3) by (auto simp: cost_facts split: if_splits)
    with False have "\<not> (x' = ?N \<and> y = ?N)" by blast
    with False assms sv show ?thesis
      by (auto simp: pattern_add_cost intro!: round_pattern_mono nat_mono)
  qed
qed

lemma pattern_add_zero: "0 < w \<Longrightarrow> x \<le> inf_pattern p w \<Longrightarrow> pattern_add p w x 0 = x"
proof -
  assume a: "0 < w" "x \<le> inf_pattern p w"
  then have "is_cost p w x" "is_cost p w 0" "x < 2 ^ (p + w)"
    using inf_pattern_less [of p w] by (auto simp: is_cost_def)
  with a show ?thesis
    by (simp add: pattern_add_cost cost_facts round_pattern_exact [simplified])
qed

lemma pattern_add_commute_cost:
  "0 < w \<Longrightarrow> is_cost p w x \<Longrightarrow> is_cost p w y \<Longrightarrow> pattern_add p w x y = pattern_add p w y x"
  by (simp add: pattern_add_cost add.commute conj_commute)

text \<open>A value of the format rounds to itself.\<close>

lemma round_nearest_fval:
  assumes "num = fval p t * den" "0 < den"
  shows "round_nearest p num den = t"
proof -
  have "num div den = fval p t" using assms by simp
  moreover from trunc_pattern_bounds [of p "fval p t"] have "trunc_pattern p (fval p t) = t"
    by (simp add: fval_le_iff fval_less_iff)
  moreover have "2 * num < (fval p t + fval p (Suc t)) * den"
    using fval_Suc [of p t] assms by (simp add: algebra_simps)
  ultimately show ?thesis by (simp add: round_nearest_def)
qed

lemmas pattern_defs = is_nan_def is_inf_def is_negative_def magnitude_def with_sign_def inf_pattern_def
  pattern_nan_def round_pattern_def unit_exponent_def fval_def signed_value_def

section \<open>The two formats\<close>

type_synonym f32 = "32 word"
type_synonym f64 = "64 word"

definition f32_add :: "f32 \<Rightarrow> f32 \<Rightarrow> f32" where
  "f32_add x y = of_nat (pattern_add 23 8 (unat x) (unat y))"

definition f32_mul :: "f32 \<Rightarrow> f32 \<Rightarrow> f32" where
  "f32_mul x y = of_nat (pattern_mul 23 8 (unat x) (unat y))"

definition f32_div :: "f32 \<Rightarrow> f32 \<Rightarrow> f32" where
  "f32_div x y = of_nat (pattern_div 23 8 (unat x) (unat y))"

definition f32_sub :: "f32 \<Rightarrow> f32 \<Rightarrow> f32" where
  "f32_sub x y = of_nat (pattern_add 23 8 (unat x) (pattern_neg 23 8 (unat y)))"

definition f32_is_finite :: "f32 \<Rightarrow> bool" where
  "f32_is_finite x = is_finite_pattern 23 8 (unat x)"

definition f32_is_nan :: "f32 \<Rightarrow> bool" where
  "f32_is_nan x = is_nan 23 8 (unat x)"

definition f32_less :: "f32 \<Rightarrow> f32 \<Rightarrow> bool" where
  "f32_less x y = pattern_less 23 8 (unat x) (unat y)"

definition f32_le :: "f32 \<Rightarrow> f32 \<Rightarrow> bool" where
  "f32_le x y = pattern_le 23 8 (unat x) (unat y)"

definition f32_eq :: "f32 \<Rightarrow> f32 \<Rightarrow> bool" where
  "f32_eq x y = pattern_eq 23 8 (unat x) (unat y)"

text \<open>\<open>f32::max\<close>: the other operand when one is a NaN.\<close>

definition f32_max :: "f32 \<Rightarrow> f32 \<Rightarrow> f32" where
  "f32_max x y =
     (if f32_is_nan x then y else if f32_is_nan y then x else if f32_less x y then y else x)"

definition f32_neg_infinity :: f32 where
  "f32_neg_infinity = 0xFF800000"

definition f64_add :: "f64 \<Rightarrow> f64 \<Rightarrow> f64" where
  "f64_add x y = of_nat (pattern_add 52 11 (unat x) (unat y))"

definition f64_mul :: "f64 \<Rightarrow> f64 \<Rightarrow> f64" where
  "f64_mul x y = of_nat (pattern_mul 52 11 (unat x) (unat y))"

definition f64_is_finite :: "f64 \<Rightarrow> bool" where
  "f64_is_finite x = is_finite_pattern 52 11 (unat x)"

definition f64_less :: "f64 \<Rightarrow> f64 \<Rightarrow> bool" where
  "f64_less x y = pattern_less 52 11 (unat x) (unat y)"

definition f64_le :: "f64 \<Rightarrow> f64 \<Rightarrow> bool" where
  "f64_le x y = pattern_le 52 11 (unat x) (unat y)"

text \<open>\<open>total_cmp\<close> as a key to compare by.\<close>

definition f64_key :: "f64 \<Rightarrow> int" where
  "f64_key x = total_key 52 11 (unat x)"

text \<open>\<open>f64::from\<close> on a small unsigned integer.\<close>

definition f64_of_nat :: "nat \<Rightarrow> f64" where
  "f64_of_nat n = of_nat (round_pattern 52 11 (n * 2 ^ unit_exponent 52 11) 1)"

definition f64_cost :: "f64 \<Rightarrow> bool" where
  "f64_cost x = is_cost 52 11 (unat x)"

lemma total_key_inj:
  "a < 2 ^ 64 \<Longrightarrow> b < 2 ^ 64 \<Longrightarrow> total_key 52 11 a = total_key 52 11 b \<longleftrightarrow> a = b"
  by (auto simp: total_key_def magnitude_def is_negative_def mod_if split: if_splits)

lemma f64_key_inj: "f64_key x = f64_key y \<longleftrightarrow> x = y"
  using total_key_inj [of "unat x" "unat y"] unat_lt2p_num [of x] unat_lt2p_num [of y]
  by (simp add: f64_key_def word_unat_eq_iff)

lemma unat_of_cost: "is_cost 52 11 n \<Longrightarrow> unat (of_nat n :: 64 word) = n"
  by (auto simp: is_cost_def inf_pattern_def unat_of_nat)

lemma f64_cost_add [simp, intro]: "f64_cost x \<Longrightarrow> f64_cost y \<Longrightarrow> f64_cost (f64_add x y)"
  by (simp add: f64_cost_def f64_add_def unat_of_cost is_cost_add)

lemma f64_add_mono:
  "f64_cost x \<Longrightarrow> f64_cost x' \<Longrightarrow> f64_cost y \<Longrightarrow> f64_key x \<le> f64_key x' \<Longrightarrow>
    f64_key (f64_add x y) \<le> f64_key (f64_add x' y)"
  by (simp add: f64_cost_def f64_add_def f64_key_def unat_of_cost is_cost_add pattern_add_mono)

lemma f64_cost_iff: "f64_cost x \<longleftrightarrow> f64_le 0 x"
proof -
  have "unat x < 2 * 2 ^ 63" using unat_lt2p_num by auto
  then have m: "magnitude 52 11 (unat x) =
      (if is_negative 52 11 (unat x) then unat x - 2 ^ 63 else unat x)"
    by (auto simp: magnitude_def is_negative_def mod_if)
  have z: "fval 52 n = 0 \<longleftrightarrow> n = 0" for n
    using fval_le_iff [of 52 n 0] by auto
  show ?thesis
    by (auto simp: f64_cost_def f64_le_def pattern_le_def is_cost_def is_nan_def signed_value_def
        m z is_negative_def inf_pattern_def magnitude_def [of _ _ 0] split: if_splits)
qed

lemma f64_cost_zero [simp]: "f64_cost 0"
  by (simp add: f64_cost_def is_cost_def)

text \<open>Products of finite costs are costs.\<close>

lemma is_cost_mul:
  assumes "0 < w" "is_cost p w x" "is_finite_pattern p w x" "is_cost p w y" "is_finite_pattern p w y"
  shows "is_cost p w (pattern_mul p w x y)"
proof -
  have cases: "magnitude p w z = 0 \<or> \<not> is_negative p w z" if "is_cost p w z" for z
    using that inf_pattern_less [of p w] by (auto simp: is_cost_def magnitude_def is_negative_def)
  have fin: "\<not> is_nan p w z \<and> \<not> is_inf p w z" if "is_finite_pattern p w z" for z
    using that by (auto simp: is_nan_def is_inf_def is_finite_pattern_def)
  have zero: "round_pattern p w 0 n = 0" for n
    by (simp add: round_pattern_def round_nearest_def trunc_pattern_def Let_def)
  show ?thesis
    using cases [OF assms(2)] cases [OF assms(4)] fin [OF assms(3)] fin [OF assms(5)]
    by (auto simp: pattern_mul_def Let_def zero is_cost_def with_sign_def round_pattern_le_inf)
qed

lemma f64_cost_mul:
  "f64_cost x \<Longrightarrow> f64_is_finite x \<Longrightarrow> f64_cost y \<Longrightarrow> f64_is_finite y \<Longrightarrow> f64_cost (f64_mul x y)"
  by (simp add: f64_cost_def f64_mul_def f64_is_finite_def unat_of_cost is_cost_mul)

lemma f64_cost_code [code]: "f64_cost x \<longleftrightarrow> x \<le> 0x7FF0000000000000 \<or> x = 0x8000000000000000"
  by (simp add: f64_cost_def is_cost_def inf_pattern_def word_le_nat_alt word_unat_eq_iff)

lemma f64_is_finite_code [code]:
  "f64_is_finite x \<longleftrightarrow> unat x mod 0x8000000000000000 < 0x7FF0000000000000"
  by (simp add: f64_is_finite_def is_finite_pattern_def magnitude_def inf_pattern_def)

text \<open>Not below zero and not a NaN: a cost.\<close>

lemma f64_not_less_zero: "f64_is_finite x \<Longrightarrow> \<not> f64_less x 0 \<longleftrightarrow> f64_cost x"
  unfolding f64_cost_iff
  by (auto simp: f64_is_finite_def f64_less_def f64_le_def pattern_less_def pattern_le_def
      is_finite_pattern_def is_nan_def magnitude_def [of _ _ 0])

text \<open>Small integers convert to finite costs; \<open>4.0\<close> has the pattern \<open>0x4010000000000000\<close>.\<close>

lemma f64_of_nat_cost: "f64_cost (f64_of_nat n)"
  using round_pattern_le_inf [of 52 11 "n * 2 ^ unit_exponent 52 11" 1]
  by (simp add: f64_cost_def f64_of_nat_def unat_of_cost is_cost_def)

lemma f64_of_nat_finite:
  assumes "n \<le> 4"
  shows "f64_is_finite (f64_of_nat n)"
proof -
  have four: "fval 52 0x4010000000000000 = 4 * 2 ^ unit_exponent 52 11"
    by (simp add: fval_def unit_exponent_def)
  have "round_pattern 52 11 (n * 2 ^ unit_exponent 52 11) 1 \<le> round_pattern 52 11 (4 * 2 ^ unit_exponent 52 11) 1"
    using assms by (intro round_pattern_mono) simp
  also have "\<dots> = 0x4010000000000000"
    unfolding four [symmetric] by (rule round_pattern_exact) (simp add: inf_pattern_def)
  finally have le: "round_pattern 52 11 (n * 2 ^ unit_exponent 52 11) 1 \<le> 0x4010000000000000" .
  then have "is_cost 52 11 (round_pattern 52 11 (n * 2 ^ unit_exponent 52 11) 1)"
    by (simp add: is_cost_def round_pattern_le_inf)
  with le show ?thesis
    by (simp add: f64_is_finite_def f64_of_nat_def unat_of_cost is_finite_pattern_def magnitude_def inf_pattern_def)
qed

text \<open>Sums of subnormal patterns are sums of the patterns, which evaluation uses.\<close>

lemma pattern_add_small:
  assumes "x + y < 2 ^ p" "0 < w"
  shows "pattern_add p w x y = x + y"
proof -
  have inf: "2 ^ p \<le> inf_pattern p w"
  proof -
    have "(2::nat) ^ 1 \<le> 2 ^ w" using assms(2) by (intro power_increasing) simp_all
    then have "1 \<le> (2::nat) ^ w - 1" by simp
    then show ?thesis unfolding inf_pattern_def by (metis mult_le_mono1 nat_mult_1)
  qed
  have pw: "(2::nat) ^ p \<le> 2 ^ (p + w)" by (simp add: power_increasing)
  have m: "magnitude p w z = z \<and> \<not> is_negative p w z \<and> fval p z = z" if "z < 2 ^ p" for z
  proof -
    have "z < 2 ^ (p + w)" using that pw by (rule less_le_trans)
    with that show ?thesis by (simp add: magnitude_def is_negative_def fval_def)
  qed
  have "round_pattern p w (x + y) 1 = x + y"
    using round_pattern_exact [of "x + y" p w] m [OF assms(1)] assms(1) inf by simp
  with m [of x] m [of y] assms(1) inf show ?thesis
    by (auto simp: pattern_add_def is_nan_def is_inf_def signed_value_def with_sign_def Let_def nat_add_distrib)
qed

lemma f64_add_code [code]:
  "f64_add x y = (if unat x + unat y < 0x10000000000000 then x + y
     else of_nat (pattern_add 52 11 (unat x) (unat y)))"
  by (simp add: f64_add_def pattern_add_small)

end
