(* ===== verification/Core.thy ===== *)
theory Core
  imports BTree_Map Rust_Float
begin

text \<open>
  The crate \<open>vrb-core\<close>: backend identifiers, capabilities, the performance table, the
  default routing policy \<open>FastestCompatible\<close>, the backend registry and the runtime with
  its builder. A backend is a record of what its trait methods return; a routing policy is
  a function. The interface \<open>routing_policy\<close> is what the runtime expects of a policy.
\<close>

section \<open>Data\<close>

datatype backend_id = BackendId (id_str: string)

instantiation backend_id :: linorder
begin

definition less_eq_backend_id :: "backend_id \<Rightarrow> backend_id \<Rightarrow> bool" where
  "less_eq_backend_id a b = (id_str a \<le> id_str b)"

definition less_backend_id :: "backend_id \<Rightarrow> backend_id \<Rightarrow> bool" where
  "less_backend_id a b = (id_str a < id_str b)"

instance
  by standard (auto simp: less_eq_backend_id_def less_backend_id_def backend_id.expand)

end

datatype backend_kind = Cpu | Vulkan | Hip | Hybrid | Plugin

datatype operation_kind =
  OpCopy | VectorAdd | Gemv | OpGemm | Softmax | OpAttention | RmsNorm | OpCustom

datatype data_type = F32 | F16 | Bf16 | I8 | Q4 | Unknown

record capability_set =
  cs_operations :: "operation_kind list"
  cs_data_types :: "data_type list"
  cs_external_memory :: bool
  cs_external_semaphore :: bool
  cs_zero_copy :: bool

record route_request =
  rq_operation :: operation_kind
  rq_data_type :: data_type
  rq_requires_external_memory :: bool
  rq_requires_external_semaphore :: bool
  rq_requires_zero_copy :: bool

record backend_probe =
  bp_id :: backend_id
  bp_kind :: backend_kind
  bp_name :: string
  bp_vendor :: string
  bp_available :: bool
  bp_device_count :: u32
  bp_detail :: string
  bp_capabilities :: capability_set

datatype backend_error =
    Unavailable string
  | Probe string
  | Unsupported string
  | Internal string

datatype runtime_error =
    InvalidBackendId
  | DuplicateBackend backend_id
  | NoCompatibleBackend
  | Routing string

record performance_record =
  pr_backend :: backend_id
  pr_operation :: operation_kind
  pr_data_type :: data_type
  pr_median_microseconds :: f64
  pr_samples :: u32

type_synonym performance_table = "performance_record list"

text \<open>What the methods of a \<open>dyn ComputeBackend\<close> return.\<close>

record compute_backend =
  cb_id :: backend_id
  cb_kind :: backend_kind
  cb_probe :: "backend_error + backend_probe"

section \<open>Operations on the data\<close>

definition backend_id_new :: "string \<Rightarrow> runtime_error + backend_id" where
  "backend_id_new value =
     (let trimmed = trim value
      in if trimmed = [] then Inl InvalidBackendId else Inr (BackendId trimmed))"

definition supports :: "capability_set \<Rightarrow> route_request \<Rightarrow> bool" where
  "supports c request =
     (rq_operation request \<in> set (cs_operations c)
      \<and> rq_data_type request \<in> set (cs_data_types c)
      \<and> (\<not> rq_requires_external_memory request \<or> cs_external_memory c)
      \<and> (\<not> rq_requires_external_semaphore request \<or> cs_external_semaphore c)
      \<and> (\<not> rq_requires_zero_copy request \<or> cs_zero_copy c))"

definition route_request_new :: "operation_kind \<Rightarrow> data_type \<Rightarrow> route_request" where
  "route_request_new operation dtype =
     \<lparr>rq_operation = operation, rq_data_type = dtype, rq_requires_external_memory = False,
      rq_requires_external_semaphore = False, rq_requires_zero_copy = False\<rparr>"

definition zero_copy :: "route_request \<Rightarrow> route_request" where
  "zero_copy r = r\<lparr>rq_requires_external_memory := True,
     rq_requires_external_semaphore := True, rq_requires_zero_copy := True\<rparr>"

fun backend_error_to_string :: "backend_error \<Rightarrow> string" where
  "backend_error_to_string (Unavailable s) = ''backend unavailable: '' @ s"
| "backend_error_to_string (Probe s) = ''backend probe failed: '' @ s"
| "backend_error_to_string (Unsupported s) = ''backend operation unsupported: '' @ s"
| "backend_error_to_string (Internal s) = ''backend internal error: '' @ s"

definition same_measurement :: "performance_record \<Rightarrow> performance_record \<Rightarrow> bool" where
  "same_measurement record existing =
     (pr_backend existing = pr_backend record \<and> pr_operation existing = pr_operation record
      \<and> pr_data_type existing = pr_data_type record)"

definition table_record :: "performance_table \<Rightarrow> performance_record \<Rightarrow> performance_table" where
  "table_record table record = upsert (same_measurement record) record table"

definition median_us ::
  "performance_table \<Rightarrow> backend_id \<Rightarrow> operation_kind \<Rightarrow> data_type \<Rightarrow> f64 option" where
  "median_us table backend operation dtype =
     map_option pr_median_microseconds
       (find (\<lambda>record. pr_backend record = backend \<and> pr_operation record = operation
          \<and> pr_data_type record = dtype) table)"

section \<open>The default routing policy\<close>

fun bootstrap_rank :: "backend_kind \<Rightarrow> nat" where
  "bootstrap_rank Hip = 0"
| "bootstrap_rank Vulkan = 1"
| "bootstrap_rank Hybrid = 2"
| "bootstrap_rank Plugin = 3"
| "bootstrap_rank Cpu = 4"

definition compatible_probe :: "route_request \<Rightarrow> backend_probe \<Rightarrow> bool" where
  "compatible_probe request probe = (bp_available probe \<and> supports (bp_capabilities probe) request)"

text \<open>\<open>.filter(|value| value.is_finite() && *value >= 0.0)\<close> on a measurement.\<close>

definition usable_measurement :: "f64 \<Rightarrow> bool" where
  "usable_measurement value = (f64_is_finite value \<and> f64_le 0 value)"

definition measured_us :: "performance_table \<Rightarrow> route_request \<Rightarrow> backend_probe \<Rightarrow> f64 option" where
  "measured_us performance request probe =
     (case median_us performance (bp_id probe) (rq_operation request) (rq_data_type request) of
        None \<Rightarrow> None
      | Some value \<Rightarrow> if usable_measurement value then Some value else None)"

definition fastest_compatible ::
  "route_request \<Rightarrow> backend_probe list \<Rightarrow> performance_table \<Rightarrow> runtime_error + backend_id" where
  "fastest_compatible request candidates performance =
     (let compatible = filter (compatible_probe request) candidates
      in if compatible = [] then Inl NoCompatibleBackend
         else case min_by_key (\<lambda>best. f64_key (snd best))
                (List.map_filter
                   (\<lambda>probe. map_option (\<lambda>value. (probe, value)) (measured_us performance request probe))
                   compatible) of
             Some best \<Rightarrow> Inr (bp_id (fst best))
           | None \<Rightarrow>
               ok_or (map_option bp_id (min_by_key (\<lambda>probe. bootstrap_rank (bp_kind probe)) compatible))
                 NoCompatibleBackend)"

section \<open>Registry, runtime and builder\<close>

type_synonym backend_registry = "(backend_id, compute_backend) btree_map"

definition registry_register ::
  "backend_registry \<Rightarrow> compute_backend \<Rightarrow> runtime_error + backend_registry" where
  "registry_register backends backend =
     (let bid = cb_id backend
      in if bt_contains backends bid then Inl (DuplicateBackend bid)
         else Inr (bt_insert bid backend backends))"

definition registry_get :: "backend_registry \<Rightarrow> backend_id \<Rightarrow> compute_backend option" where
  "registry_get backends bid = bt_get backends bid"

definition failed_probe :: "compute_backend \<Rightarrow> backend_error \<Rightarrow> backend_probe" where
  "failed_probe backend error =
     \<lparr>bp_id = cb_id backend, bp_kind = cb_kind backend, bp_name = id_str (cb_id backend),
      bp_vendor = [], bp_available = False, bp_device_count = 0,
      bp_detail = backend_error_to_string error,
      bp_capabilities = \<lparr>cs_operations = [], cs_data_types = [], cs_external_memory = False,
        cs_external_semaphore = False, cs_zero_copy = False\<rparr>\<rparr>"

definition backend_probe_result :: "compute_backend \<Rightarrow> backend_probe" where
  "backend_probe_result backend =
     (case cb_probe backend of Inr probe \<Rightarrow> probe | Inl error \<Rightarrow> failed_probe backend error)"

definition registry_probes :: "backend_registry \<Rightarrow> backend_probe list" where
  "registry_probes backends = map (backend_probe_result \<circ> snd) backends"

type_synonym routing_policy_fn =
  "route_request \<Rightarrow> backend_probe list \<Rightarrow> performance_table \<Rightarrow> runtime_error + backend_id"

record runtime =
  rt_registry :: backend_registry
  rt_policy :: routing_policy_fn
  rt_performance :: performance_table

definition runtime_probes :: "runtime \<Rightarrow> backend_probe list" where
  "runtime_probes r = registry_probes (rt_registry r)"

definition runtime_route :: "runtime \<Rightarrow> route_request \<Rightarrow> runtime_error + backend_id" where
  "runtime_route r request =
     (let probes = registry_probes (rt_registry r)
      in rt_policy r request probes (rt_performance r))"

definition runtime_backend :: "runtime \<Rightarrow> backend_id \<Rightarrow> compute_backend option" where
  "runtime_backend r bid = registry_get (rt_registry r) bid"

text \<open>The builder has the fields of the runtime; \<open>build\<close> moves them over.\<close>

definition builder_new :: runtime where
  "builder_new = \<lparr>rt_registry = [], rt_policy = fastest_compatible, rt_performance = []\<rparr>"

definition builder_backend :: "runtime \<Rightarrow> compute_backend \<Rightarrow> runtime_error + runtime" where
  "builder_backend b backend =
     and_then (registry_register (rt_registry b) backend)
       (\<lambda>registry. Inr (b\<lparr>rt_registry := registry\<rparr>))"

definition builder_routing_policy :: "runtime \<Rightarrow> routing_policy_fn \<Rightarrow> runtime" where
  "builder_routing_policy b policy = b\<lparr>rt_policy := policy\<rparr>"

definition builder_performance_table :: "runtime \<Rightarrow> performance_table \<Rightarrow> runtime" where
  "builder_performance_table b performance = b\<lparr>rt_performance := performance\<rparr>"

definition builder_build :: "runtime \<Rightarrow> runtime" where
  "builder_build b =
     \<lparr>rt_registry = rt_registry b, rt_policy = rt_policy b, rt_performance = rt_performance b\<rparr>"

text \<open>A chain of \<open>.backend(..)?\<close> calls.\<close>

definition builder_backends :: "runtime \<Rightarrow> compute_backend list \<Rightarrow> runtime_error + runtime" where
  "builder_backends b backends = try_fold builder_backend b backends"

text \<open>A usable measurement is \<open>-0.0\<close> or a pattern below the one of infinity.\<close>

lemma usable_measurement_code [code]:
  "usable_measurement v \<longleftrightarrow> v < 0x7FF0000000000000 \<or> v = 0x8000000000000000"
proof -
  have "unat v < 2 * 2 ^ 63" using unat_lt2p_num by auto
  then show ?thesis
    by (auto simp: usable_measurement_def f64_cost_iff [symmetric] f64_cost_def is_cost_def f64_is_finite_def
        is_finite_pattern_def magnitude_def inf_pattern_def word_less_nat_alt word_unat_eq_iff mod_if
        split: if_splits)
qed

section \<open>Laws of the data operations\<close>

lemma backend_id_new_trimmed:
  "backend_id_new s = Inr i \<Longrightarrow> id_str i \<noteq> [] \<and> backend_id_new (id_str i) = Inr i"
  by (auto simp: backend_id_new_def Let_def split: if_splits)

lemma median_us_record_same:
  "median_us (table_record t r) (pr_backend r) (pr_operation r) (pr_data_type r)
    = Some (pr_median_microseconds r)"
  by (simp add: median_us_def table_record_def same_measurement_def [abs_def] find_upsert_same)

lemma median_us_record_other:
  "(b, ok, dt) \<noteq> (pr_backend r, pr_operation r, pr_data_type r) \<Longrightarrow>
    median_us (table_record t r) b ok dt = median_us t b ok dt"
  unfolding median_us_def table_record_def
  by (subst find_upsert_other) (auto simp: same_measurement_def)

definition measurement_key :: "performance_record \<Rightarrow> backend_id \<times> operation_kind \<times> data_type" where
  "measurement_key r = (pr_backend r, pr_operation r, pr_data_type r)"

definition table_wf :: "performance_table \<Rightarrow> bool" where
  "table_wf t = distinct (map measurement_key t)"

lemma same_measurement_key: "same_measurement r y \<longleftrightarrow> measurement_key y = measurement_key r"
  by (auto simp: same_measurement_def measurement_key_def)

lemma table_wf_record: "table_wf t \<Longrightarrow> table_wf (table_record t r)"
  unfolding table_wf_def table_record_def
  by (rule upsert_distinct) (simp_all add: same_measurement_key)

section \<open>What a routing policy promises\<close>

text \<open>
  The runtime relies on two laws: a selected backend is compatible with the request, and
  the policy gives up only when no candidate is.
\<close>

locale routing_policy =
  fixes select :: routing_policy_fn
  assumes law_sound: "select rq ps t = Inr i \<Longrightarrow> \<exists>p \<in> set ps. bp_id p = i \<and> compatible_probe rq p"
    and law_complete: "select rq ps t = Inl e \<Longrightarrow> \<forall>p \<in> set ps. \<not> compatible_probe rq p"
begin

lemma select_ok_iff: "is_ok (select rq ps t) \<longleftrightarrow> (\<exists>p \<in> set ps. compatible_probe rq p)"
proof (cases "select rq ps t")
  case (Inl e)
  with law_complete [OF Inl] show ?thesis by auto
next
  case (Inr i)
  with law_sound [OF Inr] show ?thesis by auto
qed

lemma runtime_route_ok:
  assumes "rt_policy r = select" and "runtime_route r rq = Inr i"
  shows "\<exists>p \<in> set (runtime_probes r). bp_id p = i \<and> compatible_probe rq p"
  using assms law_sound by (auto simp: runtime_route_def runtime_probes_def Let_def)

lemma runtime_route_ok_iff:
  assumes "rt_policy r = select"
  shows "is_ok (runtime_route r rq) \<longleftrightarrow> (\<exists>p \<in> set (runtime_probes r). compatible_probe rq p)"
  using assms select_ok_iff by (simp add: runtime_route_def runtime_probes_def Let_def)

text \<open>Backends that report their own identifier are found under the routed one.\<close>

lemma runtime_route_registered:
  assumes "rt_policy r = select" and wf: "bt_wf (rt_registry r)"
    and keyed: "\<And>k b. (k, b) \<in> set (rt_registry r) \<Longrightarrow> k = cb_id b \<and> bp_id (backend_probe_result b) = cb_id b"
    and route: "runtime_route r rq = Inr i"
  shows "\<exists>b. runtime_backend r i = Some b \<and> compatible_probe rq (backend_probe_result b)"
proof -
  from runtime_route_ok [OF assms(1) route] obtain k b
    where kb: "(k, b) \<in> set (rt_registry r)" and i: "bp_id (backend_probe_result b) = i"
      and c: "compatible_probe rq (backend_probe_result b)"
    by (auto simp: runtime_probes_def registry_probes_def)
  with keyed [OF kb] have "k = i" by simp
  with kb wf have "runtime_backend r i = Some b"
    by (simp add: runtime_backend_def registry_get_def bt_get_iff)
  with c show ?thesis by blast
qed

end

section \<open>The default policy\<close>

definition measured :: "performance_table \<Rightarrow> route_request \<Rightarrow> backend_probe list \<Rightarrow> (backend_probe \<times> f64) list" where
  "measured t rq ps =
     List.map_filter (\<lambda>p. map_option (\<lambda>v. (p, v)) (measured_us t rq p)) (filter (compatible_probe rq) ps)"

lemma set_measured:
  "(p, v) \<in> set (measured t rq ps) \<longleftrightarrow> p \<in> set ps \<and> compatible_probe rq p \<and> measured_us t rq p = Some v"
  by (auto simp: measured_def map_filter_def split: option.splits) force+

lemma fastest_compatible_cases:
  "fastest_compatible rq ps t =
     (if filter (compatible_probe rq) ps = [] then Inl NoCompatibleBackend
      else case min_by_key (\<lambda>x. f64_key (snd x)) (measured t rq ps) of
        Some best \<Rightarrow> Inr (bp_id (fst best))
      | None \<Rightarrow> ok_or (map_option bp_id
          (min_by_key (\<lambda>p. bootstrap_rank (bp_kind p)) (filter (compatible_probe rq) ps))) NoCompatibleBackend)"
  by (simp add: fastest_compatible_def measured_def Let_def)

lemma fastest_compatible_measured:
  assumes "fastest_compatible rq ps t = Inr i" and "p \<in> set ps" "compatible_probe rq p"
    and "measured_us t rq p = Some v"
  obtains q u where "q \<in> set ps" "compatible_probe rq q" "bp_id q = i"
    "measured_us t rq q = Some u" "f64_key u \<le> f64_key v"
proof -
  have mem: "(p, v) \<in> set (measured t rq ps)" using assms by (simp add: set_measured)
  then obtain best where best: "min_by_key (\<lambda>x. f64_key (snd x)) (measured t rq ps) = Some best"
    by (cases "min_by_key (\<lambda>x. f64_key (snd x)) (measured t rq ps)") auto
  obtain q u where qu: "best = (q, u)" by (cases best)
  have "bp_id q = i"
    using assms(1) best qu by (auto simp: fastest_compatible_cases split: if_splits)
  moreover have "(q, u) \<in> set (measured t rq ps)"
    using min_by_key_mem [OF best] qu by simp
  moreover have "f64_key u \<le> f64_key v"
    using min_by_key_le [OF best mem] qu by simp
  ultimately show thesis by (auto simp: set_measured intro: that)
qed

lemma fastest_compatible_bootstrap:
  assumes "fastest_compatible rq ps t = Inr i"
    and none: "\<And>p. p \<in> set ps \<Longrightarrow> compatible_probe rq p \<Longrightarrow> measured_us t rq p = None"
  shows "\<exists>us q vs. filter (compatible_probe rq) ps = us @ q # vs \<and> bp_id q = i \<and>
    (\<forall>u \<in> set us. bootstrap_rank (bp_kind q) < bootstrap_rank (bp_kind u)) \<and>
    (\<forall>v \<in> set vs. bootstrap_rank (bp_kind q) \<le> bootstrap_rank (bp_kind v))"
proof -
  let ?c = "filter (compatible_probe rq) ps" and ?f = "\<lambda>p. bootstrap_rank (bp_kind p)"
  have "measured t rq ps = []"
  proof (rule ccontr)
    assume "measured t rq ps \<noteq> []"
    then obtain p v where "(p, v) \<in> set (measured t rq ps)" by (metis list.set_intros(1) neq_Nil_conv surj_pair)
    then show False using none [of p] by (simp add: set_measured)
  qed
  note nil = this
  have "?c \<noteq> []" using assms(1) unfolding fastest_compatible_cases by (metis sum.distinct(1))
  then obtain q0 where q0: "min_by_key ?f ?c = Some q0" by (cases "min_by_key ?f ?c") auto
  have "bp_id q0 = i"
    using assms(1) \<open>?c \<noteq> []\<close> unfolding fastest_compatible_cases nil q0 by simp
  with q0 obtain q where q: "min_by_key ?f ?c = Some q" "bp_id q = i" by blast
  from min_by_key_first [OF q(1)] obtain us vs
    where c: "?c = us @ q # vs" and less: "\<forall>u \<in> set us. ?f q < ?f u" by (elim exE conjE)
  have "\<forall>v \<in> set vs. ?f q \<le> ?f v"
  proof
    fix v assume "v \<in> set vs"
    then have "v \<in> set ?c" unfolding c by simp
    then show "?f q \<le> ?f v" by (rule min_by_key_le [OF q(1)])
  qed
  with c less q(2) show ?thesis by (intro exI [of _ us] exI [of _ q] exI [of _ vs] conjI)
qed

lemma fastest_compatible_ok: "fastest_compatible rq ps t = Inr i \<Longrightarrow>
    \<exists>p \<in> set ps. bp_id p = i \<and> compatible_probe rq p"
proof -
  assume h: "fastest_compatible rq ps t = Inr i"
  show ?thesis
  proof (cases "\<exists>p \<in> set ps. compatible_probe rq p \<and> measured_us t rq p \<noteq> None")
    case True
    then obtain p v where "p \<in> set ps" "compatible_probe rq p" "measured_us t rq p = Some v" by auto
    with fastest_compatible_measured [OF h] show ?thesis by metis
  next
    case False
    with fastest_compatible_bootstrap [OF h] obtain us q vs
      where q: "filter (compatible_probe rq) ps = us @ q # vs" "bp_id q = i" by blast
    have "q \<in> set (filter (compatible_probe rq) ps)" unfolding q(1) by simp
    with q(2) show ?thesis by auto
  qed
qed

lemma fastest_compatible_err:
  "fastest_compatible rq ps t = Inl e \<longleftrightarrow> e = NoCompatibleBackend \<and> (\<forall>p \<in> set ps. \<not> compatible_probe rq p)"
  by (auto simp: fastest_compatible_cases ok_or_Inl_iff filter_empty_conv split: option.splits if_splits)

interpretation fastest: routing_policy fastest_compatible
  by unfold_locales (auto dest: fastest_compatible_ok simp: fastest_compatible_err)

section \<open>The registry\<close>

definition registry_wf :: "backend_registry \<Rightarrow> bool" where
  "registry_wf m = (bt_wf m \<and> (\<forall>(k, b) \<in> set m. k = cb_id b))"

lemma registry_wf_Nil [simp]: "registry_wf []"
  by (simp add: registry_wf_def)

lemma registry_register_iff:
  "registry_register m b = Inr m' \<longleftrightarrow> bt_get m (cb_id b) = None \<and> m' = bt_insert (cb_id b) b m"
  by (auto simp: registry_register_def bt_contains_def Let_def)

lemma registry_register_wf: "registry_wf m \<Longrightarrow> registry_register m b = Inr m' \<Longrightarrow> registry_wf m'"
  by (auto simp: registry_wf_def registry_register_iff bt_wf_insert bt_set_insert)

lemma registry_register_keys:
  "registry_wf m \<Longrightarrow> registry_register m b = Inr m' \<Longrightarrow> bt.keys m' = insert (cb_id b) (bt.keys m)"
  by (simp add: registry_register_iff registry_wf_def bt.keys_insert)

text \<open>A chain of registrations succeeds exactly when all identifiers are different.\<close>

lemma builder_backend_iff:
  "builder_backend s b = Inr s' \<longleftrightarrow>
    (\<exists>m. registry_register (rt_registry s) b = Inr m \<and> s' = s\<lparr>rt_registry := m\<rparr>)"
  by (auto simp: builder_backend_def and_then_Inr_iff)

lemma builder_backends_ok:
  "registry_wf (rt_registry s) \<Longrightarrow> builder_backends s bs = Inr s' \<Longrightarrow>
    registry_wf (rt_registry s') \<and> distinct (map cb_id bs) \<and>
    set (rt_registry s') = set (rt_registry s) \<union> (\<lambda>b. (cb_id b, b)) ` set bs \<and>
    rt_policy s' = rt_policy s \<and> rt_performance s' = rt_performance s \<and>
    cb_id ` set bs \<inter> fst ` set (rt_registry s) = {}"
proof (induction bs arbitrary: s)
  case Nil
  then show ?case by (simp add: builder_backends_def)
next
  case (Cons b bs)
  from Cons.prems(2) obtain m where m: "registry_register (rt_registry s) b = Inr m"
    and rest: "builder_backends (s\<lparr>rt_registry := m\<rparr>) bs = Inr s'"
    by (auto simp: builder_backends_def and_then_Inr_iff builder_backend_iff)
  have new: "bt_get (rt_registry s) (cb_id b) = None" and ins: "m = bt_insert (cb_id b) b (rt_registry s)"
    using m by (auto simp: registry_register_iff)
  have wf: "registry_wf m" by (rule registry_register_wf [OF Cons.prems(1) m])
  have notin: "cb_id b \<notin> fst ` set (rt_registry s)" using new by (simp add: bt_get_None_iff)
  then have set_m: "set m = insert (cb_id b, b) (set (rt_registry s))"
    using Cons.prems(1) ins by (force simp: registry_wf_def bt_set_insert)
  from Cons.IH [OF _ rest] wf set_m notin show ?case by auto
qed

text \<open>A duplicate identifier stops the chain with that identifier.\<close>

lemma builder_backends_err:
  "builder_backends s bs = Inl e \<Longrightarrow> \<exists>us b vs. bs = us @ b # vs \<and> e = DuplicateBackend (cb_id b) \<and>
    cb_id b \<in> fst ` set (rt_registry s) \<union> cb_id ` set us"
proof (induction bs arbitrary: s)
  case Nil
  then show ?case by (simp add: builder_backends_def)
next
  case (Cons b bs)
  show ?case
  proof (cases "builder_backend s b")
    case (Inl e')
    with Cons.prems have "e = DuplicateBackend (cb_id b)" "bt_get (rt_registry s) (cb_id b) \<noteq> None"
      by (auto simp: builder_backends_def builder_backend_def registry_register_def bt_contains_def
          Let_def split: if_splits)
    then show ?thesis by (intro exI [of _ "[]"] exI [of _ b] exI [of _ bs]) (auto simp: bt_get_None_iff)
  next
    case (Inr s')
    then have "rt_registry s' = bt_insert (cb_id b) b (rt_registry s)"
      by (auto simp: builder_backend_iff registry_register_iff)
    moreover from Inr Cons.prems have "builder_backends s' bs = Inl e" by (simp add: builder_backends_def)
    from Cons.IH [OF this] obtain us b' vs where "bs = us @ b' # vs" "e = DuplicateBackend (cb_id b')"
      "cb_id b' \<in> fst ` set (rt_registry s') \<union> cb_id ` set us" by (elim exE conjE)
    ultimately show ?thesis
      by (intro exI [of _ "b # us"] exI [of _ b'] exI [of _ vs]) (auto simp: bt_insert_keys)
  qed
qed

lemma builder_backends_ok_iff:
  assumes "registry_wf (rt_registry s)"
  shows "is_ok (builder_backends s bs) \<longleftrightarrow>
    distinct (map cb_id bs) \<and> cb_id ` set bs \<inter> fst ` set (rt_registry s) = {}"
proof (cases "builder_backends s bs")
  case (Inr s')
  then show ?thesis using builder_backends_ok [OF assms Inr] by simp
next
  case (Inl e)
  from builder_backends_err [OF Inl] obtain us b vs where "bs = us @ b # vs"
    "cb_id b \<in> fst ` set (rt_registry s) \<union> cb_id ` set us" by (elim exE conjE)
  with Inl show ?thesis by auto
qed

text \<open>
  Every way to use the builder: any number of calls of \<open>backend\<close>, \<open>routing_policy\<close> and
  \<open>performance_table\<close>, in any order, with the backends registered so far.
\<close>

inductive builder_chain :: "compute_backend list \<Rightarrow> runtime \<Rightarrow> bool" where
  chain_new: "builder_chain [] builder_new"
| chain_backend: "builder_chain bs s \<Longrightarrow> builder_backend s b = Inr s' \<Longrightarrow> builder_chain (bs @ [b]) s'"
| chain_policy: "builder_chain bs s \<Longrightarrow> builder_chain bs (builder_routing_policy s policy)"
| chain_table: "builder_chain bs s \<Longrightarrow> builder_chain bs (builder_performance_table s performance)"

lemma builder_chain_registry:
  "builder_chain bs s \<Longrightarrow> registry_wf (rt_registry s) \<and> set (rt_registry s) = (\<lambda>b. (cb_id b, b)) ` set bs"
proof (induction rule: builder_chain.induct)
  case (chain_backend bs s b s')
  then have "builder_backends s [b] = Inr s'" by (simp add: builder_backends_def)
  from builder_backends_ok [OF _ this] chain_backend.IH show ?case by auto
qed (simp_all add: builder_new_def builder_routing_policy_def builder_performance_table_def)

lemma measured_us_by_id:
  "measured_us t rq p = Some u \<longleftrightarrow>
    median_us t (bp_id p) (rq_operation rq) (rq_data_type rq) = Some u \<and> usable_measurement u"
  by (auto simp: measured_us_def split: option.splits if_splits)

text \<open>
  The choice is a compatible candidate that no compatible candidate beats: not on measurements,
  and not in the bootstrap order when there is no measurement.
\<close>

definition best_candidate :: "performance_table \<Rightarrow> route_request \<Rightarrow> backend_probe set \<Rightarrow> backend_probe \<Rightarrow> bool" where
  "best_candidate t rq P p \<longleftrightarrow> compatible_probe rq p
     \<and> (\<forall>p' \<in> P. \<forall>v'. compatible_probe rq p' \<and> measured_us t rq p' = Some v' \<longrightarrow>
          (\<exists>v. measured_us t rq p = Some v \<and> f64_key v \<le> f64_key v'))
     \<and> ((\<forall>p' \<in> P. compatible_probe rq p' \<longrightarrow> measured_us t rq p' = None) \<longrightarrow>
          (\<forall>p' \<in> P. compatible_probe rq p' \<longrightarrow> bootstrap_rank (bp_kind p) \<le> bootstrap_rank (bp_kind p')))"

lemma best_candidate_cong:
  assumes "\<And>p. compatible_probe rq p \<Longrightarrow> p \<in> P \<longleftrightarrow> p \<in> P'"
  shows "best_candidate t rq P q = best_candidate t rq P' q"
  using assms by (auto simp: best_candidate_def)

lemma measured_us_same_id: "bp_id p = bp_id q \<Longrightarrow> measured_us t rq p = measured_us t rq q"
  by (simp add: measured_us_def)

lemma fastest_compatible_best:
  assumes sel: "fastest_compatible rq ps t = Inr i"
  shows "\<exists>q \<in> set ps. bp_id q = i \<and> best_candidate t rq (set ps) q"
proof (cases "\<exists>p \<in> set ps. compatible_probe rq p \<and> measured_us t rq p \<noteq> None")
  case True
  then obtain p v where p: "p \<in> set ps" "compatible_probe rq p" "measured_us t rq p = Some v" by auto
  from fastest_compatible_measured [OF sel p] obtain q u where q: "q \<in> set ps" "compatible_probe rq q" "bp_id q = i"
    and u: "measured_us t rq q = Some u" by metis
  have "f64_key u \<le> f64_key v'" if p': "p' \<in> set ps" "compatible_probe rq p'" "measured_us t rq p' = Some v'" for p' v'
  proof -
    from fastest_compatible_measured [OF sel p'] obtain q' u' where "bp_id q' = i"
      "measured_us t rq q' = Some u'" "f64_key u' \<le> f64_key v'" by metis
    with q(3) u show ?thesis using measured_us_same_id [of q' q t rq] by simp
  qed
  with q u p show ?thesis by (auto simp: best_candidate_def intro!: bexI [of _ q])
next
  case False
  with fastest_compatible_bootstrap [OF sel] obtain us q vs where
    q: "filter (compatible_probe rq) ps = us @ q # vs" "bp_id q = i"
    and le: "\<forall>u \<in> set us. bootstrap_rank (bp_kind q) < bootstrap_rank (bp_kind u)"
      "\<forall>v \<in> set vs. bootstrap_rank (bp_kind q) \<le> bootstrap_rank (bp_kind v)" by blast
  have mem: "p \<in> set ps \<and> compatible_probe rq p \<longleftrightarrow> p \<in> set us \<or> p = q \<or> p \<in> set vs" for p
    using arg_cong [OF q(1), of set] by auto
  have "bootstrap_rank (bp_kind q) \<le> bootstrap_rank (bp_kind p)" if "p \<in> set ps" "compatible_probe rq p" for p
    using mem [of p] that le by (auto intro: less_imp_le)
  moreover have "q \<in> set ps" "compatible_probe rq q" using mem [of q] by auto
  ultimately show ?thesis using False q(2) by (auto simp: best_candidate_def intro!: bexI [of _ q])
qed

section \<open>Properties\<close>

definition demo_probe :: "string \<Rightarrow> backend_kind \<Rightarrow> backend_probe" where
  "demo_probe i kind =
     \<lparr>bp_id = BackendId i, bp_kind = kind, bp_name = i, bp_vendor = [], bp_available = True,
      bp_device_count = 1, bp_detail = [],
      bp_capabilities = \<lparr>cs_operations = [OpGemm], cs_data_types = [F32], cs_external_memory = False,
        cs_external_semaphore = False, cs_zero_copy = False\<rparr>\<rparr>"

definition demo_backend :: "string \<Rightarrow> backend_kind \<Rightarrow> compute_backend" where
  "demo_backend i kind = \<lparr>cb_id = BackendId i, cb_kind = kind, cb_probe = Inr (demo_probe i kind)\<rparr>"

definition demo_table :: performance_table where
  "demo_table = table_record (table_record []
     \<lparr>pr_backend = BackendId ''hip'', pr_operation = OpGemm, pr_data_type = F32,
      pr_median_microseconds = 0x4049000000000000, pr_samples = 5\<rparr>)
     \<lparr>pr_backend = BackendId ''vulkan'', pr_operation = OpGemm, pr_data_type = F32,
      pr_median_microseconds = 0x4044000000000000, pr_samples = 5\<rparr>"

definition demo_request :: route_request where
  "demo_request = route_request_new OpGemm F32"

text \<open>
  C10. With at least one usable measurement (finite and not negative) among the compatible
  backends, \<open>FastestCompatible\<close> returns a compatible backend whose own measurement is
  usable and the smallest of them; the bootstrap preference does not count.
\<close>

theorem fastest_measured_wins:
  assumes sel: "fastest_compatible rq ps t = Inr i"
    and p: "p \<in> set ps" "compatible_probe rq p" "measured_us t rq p = Some v"
  shows "(\<exists>q \<in> set ps. bp_id q = i \<and> compatible_probe rq q) \<and>
    (\<exists>u. median_us t i (rq_operation rq) (rq_data_type rq) = Some u \<and> usable_measurement u \<and>
      f64_key u \<le> f64_key v \<and>
      (\<forall>p' \<in> set ps. \<forall>v'. compatible_probe rq p' \<and> measured_us t rq p' = Some v' \<longrightarrow> f64_key u \<le> f64_key v'))"
proof -
  from fastest_compatible_measured [OF sel p] obtain q u where q: "q \<in> set ps" "compatible_probe rq q"
    "bp_id q = i" and u: "measured_us t rq q = Some u" "f64_key u \<le> f64_key v" by metis
  from u(1) q(3) have med: "median_us t i (rq_operation rq) (rq_data_type rq) = Some u" "usable_measurement u"
    by (simp_all add: measured_us_by_id)
  have "f64_key u \<le> f64_key v'" if p': "p' \<in> set ps" "compatible_probe rq p'" "measured_us t rq p' = Some v'" for p' v'
  proof -
    from fastest_compatible_measured [OF sel p'] obtain q' u' where "bp_id q' = i"
      "measured_us t rq q' = Some u'" "f64_key u' \<le> f64_key v'" by metis
    with med show ?thesis by (simp add: measured_us_by_id)
  qed
  with q u(2) med show ?thesis by blast
qed

theorem fastest_measured_wins_witness:
  "median_us demo_table (BackendId ''vulkan'') OpGemm F32 = Some 0x4044000000000000 \<and>
   f64_key 0x4044000000000000 \<le> f64_key 0x4049000000000000"
proof -
  let ?ps = "[demo_probe ''hip'' Hip, demo_probe ''vulkan'' Vulkan]"
  have "fastest_compatible demo_request ?ps demo_table = Inr (BackendId ''vulkan'')"
    "compatible_probe demo_request (demo_probe ''hip'' Hip)"
    "measured_us demo_table demo_request (demo_probe ''hip'' Hip) = Some 0x4049000000000000"
    by code_simp+
  from fastest_measured_wins [OF this(1) _ this(2,3)] obtain u where
    "median_us demo_table (BackendId ''vulkan'') (rq_operation demo_request) (rq_data_type demo_request) = Some u"
    "f64_key u \<le> f64_key 0x4049000000000000" by auto
  moreover have "median_us demo_table (BackendId ''vulkan'') (rq_operation demo_request) (rq_data_type demo_request)
      = Some 0x4044000000000000" by code_simp
  ultimately show ?thesis by (simp add: demo_request_def route_request_new_def)
qed

text \<open>
  Without any usable measurement the choice is the bootstrap order HIP, Vulkan, hybrid,
  plugin, CPU: the first compatible candidate of the best kind present. In every case the
  policy fails exactly when no candidate is compatible, and with \<open>NoCompatibleBackend\<close>.
\<close>

theorem fastest_bootstrap_order:
  assumes none: "\<forall>p \<in> set ps. compatible_probe rq p \<longrightarrow> measured_us t rq p = None"
  shows "(\<forall>i. fastest_compatible rq ps t = Inr i \<longrightarrow>
      (\<exists>us q vs. filter (compatible_probe rq) ps = us @ q # vs \<and> bp_id q = i \<and>
        (\<forall>u \<in> set us. bootstrap_rank (bp_kind q) < bootstrap_rank (bp_kind u)) \<and>
        (\<forall>v \<in> set vs. bootstrap_rank (bp_kind q) \<le> bootstrap_rank (bp_kind v)))) \<and>
    (\<forall>t' e. fastest_compatible rq ps t' = Inl e \<longleftrightarrow>
      e = NoCompatibleBackend \<and> (\<forall>p \<in> set ps. \<not> compatible_probe rq p))"
  using fastest_compatible_bootstrap [of rq ps t] none fastest_compatible_err by blast

theorem fastest_bootstrap_order_witness:
  "fastest_compatible demo_request [demo_probe ''cpu'' Cpu, demo_probe ''vulkan'' Vulkan] []
    = Inr (BackendId ''vulkan'') \<and>
   (\<exists>us q vs. filter (compatible_probe demo_request) [demo_probe ''cpu'' Cpu, demo_probe ''vulkan'' Vulkan]
      = us @ q # vs \<and> bp_id q = BackendId ''vulkan'')"
proof -
  have sel: "fastest_compatible demo_request [demo_probe ''cpu'' Cpu, demo_probe ''vulkan'' Vulkan] []
      = Inr (BackendId ''vulkan'')" by code_simp
  have "\<forall>p \<in> set [demo_probe ''cpu'' Cpu, demo_probe ''vulkan'' Vulkan].
      compatible_probe demo_request p \<longrightarrow> measured_us [] demo_request p = None"
    by (simp add: measured_us_def median_us_def)
  from fastest_bootstrap_order [OF this] sel show ?thesis by blast
qed

text \<open>
  The performance table keeps one record per backend, operation and data type: after
  \<open>record\<close> the new median is the one found under its key, every other lookup is as before,
  and no two records share a key.
\<close>

theorem table_record_lookup:
  assumes "table_wf t"
  shows "median_us (table_record t r) b op dt =
      (if (b, op, dt) = measurement_key r then Some (pr_median_microseconds r) else median_us t b op dt) \<and>
    table_wf (table_record t r) \<and>
    measurement_key ` set (table_record t r) = insert (measurement_key r) (measurement_key ` set t)"
  using table_wf_record [OF assms, of r] median_us_record_same [of t r] median_us_record_other [of b op dt r t]
    upsert_keys [of "same_measurement r" measurement_key r t]
  by (auto simp: measurement_key_def [of r] table_record_def same_measurement_key)

theorem table_record_lookup_witness:
  "median_us demo_table (BackendId ''hip'') OpGemm F32 = Some 0x4049000000000000 \<and> table_wf demo_table"
proof -
  let ?r = "\<lambda>b v. \<lparr>pr_backend = BackendId b, pr_operation = OpGemm, pr_data_type = F32,
      pr_median_microseconds = v, pr_samples = 5\<rparr>"
  have "table_wf (table_record [] (?r ''hip'' 0x4049000000000000))" by (rule table_wf_record) (simp add: table_wf_def)
  from table_record_lookup [OF this, of "?r ''vulkan'' 0x4044000000000000" "BackendId ''hip''" OpGemm F32]
  show ?thesis by (simp add: demo_table_def measurement_key_def median_us_record_same [of "[]" "?r ''hip'' 0x4049000000000000", simplified])
qed

text \<open>
  A chain of \<open>RuntimeBuilder::backend\<close> calls on a fresh builder succeeds exactly when
  the identifiers of the backends are all different, and a failure names a backend whose
  identifier came before in the chain. On success every backend is found in the built
  runtime under its own identifier, no other identifier is, and policy and table are the
  defaults.
\<close>

theorem builder_registers_all:
  "(is_ok (builder_backends builder_new bs) \<longleftrightarrow> distinct (map cb_id bs)) \<and>
   (\<forall>e. builder_backends builder_new bs = Inl e \<longrightarrow>
      (\<exists>us b vs. bs = us @ b # vs \<and> e = DuplicateBackend (cb_id b) \<and> cb_id b \<in> cb_id ` set us)) \<and>
   (\<forall>s i. builder_backends builder_new bs = Inr s \<longrightarrow>
      runtime_backend (builder_build s) i = find (\<lambda>b. cb_id b = i) bs \<and>
      rt_policy (builder_build s) = fastest_compatible \<and> rt_performance (builder_build s) = [])"
proof (intro conjI allI impI)
  have wf: "registry_wf (rt_registry builder_new)" by (simp add: builder_new_def)
  show "is_ok (builder_backends builder_new bs) \<longleftrightarrow> distinct (map cb_id bs)"
    using builder_backends_ok_iff [OF wf] by (simp add: builder_new_def)
  fix e
  assume "builder_backends builder_new bs = Inl e"
  from builder_backends_err [OF this] show "\<exists>us b vs. bs = us @ b # vs \<and>
      e = DuplicateBackend (cb_id b) \<and> cb_id b \<in> cb_id ` set us"
    by (simp add: builder_new_def)
next
  fix s i
  assume "builder_backends builder_new bs = Inr s"
  from builder_backends_ok [OF _ this] have ok: "registry_wf (rt_registry s)" "distinct (map cb_id bs)"
    "set (rt_registry s) = (\<lambda>b. (cb_id b, b)) ` set bs"
    "rt_policy s = fastest_compatible" "rt_performance s = []" by (simp_all add: builder_new_def)
  then show "rt_policy (builder_build s) = fastest_compatible" "rt_performance (builder_build s) = []"
    by (simp_all add: builder_build_def)
  have "runtime_backend (builder_build s) i = Some b \<longleftrightarrow> find (\<lambda>b. cb_id b = i) bs = Some b" for b
  proof -
    have "runtime_backend (builder_build s) i = Some b \<longleftrightarrow> b \<in> set bs \<and> cb_id b = i"
      using ok(1) by (auto simp: runtime_backend_def registry_get_def builder_build_def registry_wf_def bt_get_iff ok(3))
    also have "\<dots> \<longleftrightarrow> find (\<lambda>b. cb_id b = i) bs = Some b"
      by (rule find_distinct_key [OF ok(2), symmetric])
    finally show ?thesis .
  qed
  then show "runtime_backend (builder_build s) i = find (\<lambda>b. cb_id b = i) bs"
    by (metis not_Some_eq)
qed

theorem builder_registers_all_witness:
  "is_ok (builder_backends builder_new [demo_backend ''cpu'' Cpu, demo_backend ''hip'' Hip]) \<and>
   \<not> is_ok (builder_backends builder_new [demo_backend ''cpu'' Cpu, demo_backend ''cpu'' Hip])"
  using builder_registers_all [of "[demo_backend ''cpu'' Cpu, demo_backend ''hip'' Hip]"]
    builder_registers_all [of "[demo_backend ''cpu'' Cpu, demo_backend ''cpu'' Hip]"]
  by (simp add: demo_backend_def)

text \<open>
  C11. Take any runtime made by the builder, from any sequence of \<open>backend\<close>, \<open>routing_policy\<close>
  and \<open>performance_table\<close> calls that leaves the default policy in force. Routing a request
  returns the identifier reported by the probe of a registered backend that answered, is available
  and supports the request, and no other such backend is better: if any of them has a usable
  measurement in the table, the chosen one has the smallest, otherwise it comes first in the
  bootstrap order. When the backends report their own identifiers, \<open>backend\<close> finds that backend
  under the routed identifier. Routing fails only when no registered backend's probe is compatible.
\<close>

theorem runtime_routes_to_compatible:
  assumes chain: "builder_chain bs s" and policy: "rt_policy s = fastest_compatible"
  defines "probed \<equiv> {p. \<exists>b \<in> set bs. cb_probe b = Inr p}"
  shows "case runtime_route (builder_build s) rq of
      Inr i \<Rightarrow> \<exists>b \<in> set bs. \<exists>p. cb_probe b = Inr p \<and> bp_id p = i \<and> compatible_probe rq p
        \<and> (\<forall>p' \<in> probed. \<forall>v'. compatible_probe rq p' \<and> measured_us (rt_performance s) rq p' = Some v' \<longrightarrow>
            (\<exists>v. measured_us (rt_performance s) rq p = Some v \<and> f64_key v \<le> f64_key v'))
        \<and> ((\<forall>p' \<in> probed. compatible_probe rq p' \<longrightarrow> measured_us (rt_performance s) rq p' = None) \<longrightarrow>
            (\<forall>p' \<in> probed. compatible_probe rq p' \<longrightarrow> bootstrap_rank (bp_kind p) \<le> bootstrap_rank (bp_kind p')))
        \<and> ((\<forall>b' \<in> set bs. \<forall>p'. cb_probe b' = Inr p' \<longrightarrow> bp_id p' = cb_id b') \<longrightarrow>
            runtime_backend (builder_build s) i = Some b)
    | Inl e \<Rightarrow> e = NoCompatibleBackend \<and> (\<forall>p \<in> probed. \<not> compatible_probe rq p)"
proof -
  from builder_chain_registry [OF chain] have wf: "registry_wf (rt_registry s)"
    and regs: "set (rt_registry s) = (\<lambda>b. (cb_id b, b)) ` set bs" by simp_all
  let ?ps = "registry_probes (rt_registry s)"
  have ps: "set ?ps = backend_probe_result ` set bs" by (auto simp: registry_probes_def regs image_image)
  have answered: "cb_probe b = Inr (backend_probe_result b)" if "compatible_probe rq (backend_probe_result b)" for b
    using that by (auto simp: backend_probe_result_def failed_probe_def compatible_probe_def split: sum.splits)
  have probed: "probed \<subseteq> set ?ps" by (force simp: probed_def ps backend_probe_result_def)
  have route: "runtime_route (builder_build s) rq = fastest_compatible rq ?ps (rt_performance s)"
    by (simp add: runtime_route_def builder_build_def policy Let_def)
  show ?thesis
  proof (cases "runtime_route (builder_build s) rq")
    case (Inr i)
    with fastest_compatible_best route obtain q where q: "q \<in> set ?ps" "bp_id q = i"
      and best: "best_candidate (rt_performance s) rq (set ?ps) q" by metis
    from q(1) ps obtain b where b: "b \<in> set bs" "q = backend_probe_result b" by auto
    have "cb_probe b = Inr q" using answered best b(2) by (simp add: best_candidate_def)
    moreover have "best_candidate (rt_performance s) rq probed q"
    proof -
      have "p \<in> set ?ps \<longleftrightarrow> p \<in> probed" if "compatible_probe rq p" for p
      proof
        assume "p \<in> set ?ps"
        then obtain b where "b \<in> set bs" "p = backend_probe_result b" using ps by auto
        with answered that show "p \<in> probed" by (auto simp: probed_def)
      qed (use probed in blast)
      from best_candidate_cong [OF this] best show ?thesis by blast
    qed
    moreover have "runtime_backend (builder_build s) i = Some b"
      if "\<forall>b' \<in> set bs. \<forall>p'. cb_probe b' = Inr p' \<longrightarrow> bp_id p' = cb_id b'"
    proof -
      have "(i, b) \<in> set (rt_registry s)" using that b(1) \<open>cb_probe b = Inr q\<close> q(2) regs by auto
      with wf show ?thesis by (simp add: runtime_backend_def registry_get_def builder_build_def registry_wf_def bt_get_iff)
    qed
    ultimately show ?thesis using b(1) q(2) Inr unfolding best_candidate_def by (auto intro!: bexI [of _ b])
  next
    case (Inl e)
    have "fastest_compatible rq ?ps (rt_performance s) = Inl e" using Inl route by metis
    then have "e = NoCompatibleBackend" "\<forall>p \<in> set ?ps. \<not> compatible_probe rq p"
      by (simp_all add: fastest_compatible_err)
    with probed show ?thesis unfolding Inl sum.case by blast
  qed
qed

text \<open>
  HIP would come first in the bootstrap order and the CPU is measured fastest, but the CPU cannot
  run the request and Vulkan is measured faster than HIP.
\<close>

definition demo_weak_backend :: compute_backend where
  "demo_weak_backend = \<lparr>cb_id = BackendId ''cpu'', cb_kind = Cpu, cb_probe = Inr ((demo_probe ''cpu'' Cpu)
     \<lparr>bp_available := False\<rparr>)\<rparr>"

definition demo_routed_table :: performance_table where
  "demo_routed_table = table_record demo_table \<lparr>pr_backend = BackendId ''cpu'', pr_operation = OpGemm,
     pr_data_type = F32, pr_median_microseconds = 1, pr_samples = 5\<rparr>"

theorem runtime_routes_to_compatible_witness:
  "\<exists>s b p. builder_chain [demo_weak_backend, demo_backend ''hip'' Hip, demo_backend ''vulkan'' Vulkan] s
    \<and> rt_performance s = demo_routed_table
    \<and> runtime_route (builder_build s) demo_request = Inr (BackendId ''vulkan'')
    \<and> cb_probe b = Inr p \<and> compatible_probe demo_request p
    \<and> runtime_backend (builder_build s) (BackendId ''vulkan'') = Some b"
proof -
  let ?bs = "[demo_weak_backend, demo_backend ''hip'' Hip, demo_backend ''vulkan'' Vulkan]"
  let ?b = "builder_performance_table builder_new demo_routed_table"
  obtain s1 s2 s where s: "builder_backend ?b demo_weak_backend = Inr s1"
    "builder_backend s1 (demo_backend ''hip'' Hip) = Inr s2" "builder_backend s2 (demo_backend ''vulkan'' Vulkan) = Inr s"
    by (simp add: builder_backend_def registry_register_def demo_weak_backend_def demo_backend_def builder_new_def
        builder_performance_table_def bt_contains_def Let_def less_backend_id_def)
  from builder_chain.chain_backend [OF builder_chain.chain_backend [OF builder_chain.chain_backend
      [OF builder_chain.chain_table [OF builder_chain.chain_new] s(1)] s(2)] s(3)]
  have chain: "builder_chain ?bs s" by simp
  from s have table: "rt_performance s = demo_routed_table" and policy: "rt_policy s = fastest_compatible"
    by (auto simp: builder_backend_iff builder_new_def builder_performance_table_def)
  have "s = projr (and_then (and_then (builder_backend ?b demo_weak_backend)
      (\<lambda>s. builder_backend s (demo_backend ''hip'' Hip))) (\<lambda>s. builder_backend s (demo_backend ''vulkan'' Vulkan)))"
    by (simp add: s)
  moreover have "runtime_route (builder_build (projr (and_then (and_then (builder_backend ?b demo_weak_backend)
      (\<lambda>s. builder_backend s (demo_backend ''hip'' Hip))) (\<lambda>s. builder_backend s (demo_backend ''vulkan'' Vulkan)))))
      demo_request = Inr (BackendId ''vulkan'')" by code_simp
  ultimately have route: "runtime_route (builder_build s) demo_request = Inr (BackendId ''vulkan'')" by simp
  have own: "\<forall>b' \<in> set ?bs. \<forall>p'. cb_probe b' = Inr p' \<longrightarrow> bp_id p' = cb_id b'"
    by (simp add: demo_weak_backend_def demo_backend_def demo_probe_def)
  from runtime_routes_to_compatible [OF chain policy, of demo_request] own obtain b p where
    "cb_probe b = Inr p" "compatible_probe demo_request p"
    "runtime_backend (builder_build s) (BackendId ''vulkan'') = Some b"
    unfolding route sum.case by blast
  with chain table route show ?thesis by blast
qed

end
