(* ===== verification/Lru.thy ===== *)
theory Lru
  imports BTree_Map
begin

text \<open>
  What the two capacity-bounded caches (\<open>vrb-residency\<close> and \<open>vrb-kv-cache\<close>) share: the
  choice of the least recently touched entry, the touch clock, and the interface
  \<open>lru_store\<close> of a state whose byte count is kept beside its entries. Inside the locale
  the relation \<open>evicts\<close> describes a run of the eviction loop, and its lemmas say what such
  a run keeps: the accounting, the protected entries, and the order of eviction.
\<close>

definition lru_victim ::
  "('e \<Rightarrow> u64) \<Rightarrow> ('k::linorder \<Rightarrow> bool) \<Rightarrow> ('k, 'e) btree_map \<Rightarrow> 'k option" where
  "lru_victim touch eligible entries =
     map_option fst (min_by_key (\<lambda>(k, e). touch e) (filter (\<lambda>(k, e). eligible k) entries))"

text \<open>\<open>clock.wrapping_add(1).max(1)\<close>\<close>

definition next_clock :: "u64 \<Rightarrow> u64" where
  "next_clock clock = max (clock + 1) 1"

text \<open>\<open>used.checked_add(additional).is_none_or(|total| total > capacity)\<close>\<close>

definition over_capacity :: "u64 \<Rightarrow> u64 \<Rightarrow> u64 \<Rightarrow> bool" where
  "over_capacity used additional capacity =
     (case checked_add used additional of None \<Rightarrow> True | Some sum_bytes \<Rightarrow> capacity < sum_bytes)"

lemma over_capacity_iff: "over_capacity u a c \<longleftrightarrow> unat c < unat u + unat a"
proof (cases "checked_add u a")
  case None
  then have "2 ^ 64 \<le> unat u + unat a" by (simp add: checked_add_None_iff)
  with None unat_lt2p_num [of c] show ?thesis by (simp add: over_capacity_def)
next
  case (Some t)
  moreover from this have "unat t = unat u + unat a" by (simp only: checked_add_iff)
  ultimately show ?thesis by (simp add: over_capacity_def word_less_nat_alt)
qed

lemma next_clock_pos: "0 < next_clock c"
  by (simp add: next_clock_def max_def word_le_nat_alt word_less_nat_alt)

lemma next_clock_no_wrap: "c \<noteq> - 1 \<Longrightarrow> unat (next_clock c) = unat c + 1"
proof -
  assume "c \<noteq> - 1"
  then have n: "unat (c + 1) = unat c + 1"
    by (metis Suc_eq_plus1 add.commute add_eq_0_iff2 unatSuc)
  then have "1 \<le> c + 1" by (simp add: word_le_nat_alt)
  with n show ?thesis by (simp add: next_clock_def max_absorb1)
qed

lemma lru_victim_Some:
  assumes "lru_victim touch eligible m = Some k"
  obtains e where "(k, e) \<in> set m" "eligible k"
    "\<And>k' e'. (k', e') \<in> set m \<Longrightarrow> eligible k' \<Longrightarrow> touch e \<le> touch e'"
proof -
  let ?c = "filter (\<lambda>(k, e). eligible k) m"
  from assms obtain e where min: "min_by_key (\<lambda>(k, e). touch e) ?c = Some (k, e)"
    by (auto simp: lru_victim_def)
  show thesis
  proof (rule that)
    show "(k, e) \<in> set m" "eligible k" using min_by_key_mem [OF min] by auto
    show "touch e \<le> touch e'" if "(k', e') \<in> set m" "eligible k'" for k' e'
      using min_by_key_le [OF min, of "(k', e')"] that by simp
  qed
qed

lemma lru_victim_None: "lru_victim touch eligible m = None \<longleftrightarrow> (\<forall>k \<in> fst ` set m. \<not> eligible k)"
  by (force simp: lru_victim_def filter_empty_conv)

lemma lru_victim_key: "lru_victim touch eligible m = Some k \<Longrightarrow> k \<in> fst ` set m \<and> eligible k"
  by (elim lru_victim_Some) force

section \<open>The interface\<close>

locale lru_store =
  fixes entries :: "'s \<Rightarrow> ('k::linorder, 'e) btree_map"
    and used :: "'s \<Rightarrow> u64"
    and size_of :: "'e \<Rightarrow> u64"
    and touch_of :: "'e \<Rightarrow> u64"
    and drop_key :: "'k \<Rightarrow> 's \<Rightarrow> 's"
  assumes law_drop_entries: "entries (drop_key k s) = bt_remove k (entries s)"
    and law_drop_used: "bt_get (entries s) k = Some e \<Longrightarrow>
      used (drop_key k s) = saturating_sub (used s) (size_of e)"
begin

definition accounted :: "'s \<Rightarrow> bool" where
  "accounted s \<longleftrightarrow> bt_wf (entries s) \<and> unat (used s) = bt_weight (\<lambda>e. unat (size_of e)) (entries s)"

inductive evicts :: "('s \<Rightarrow> bool) \<Rightarrow> ('k \<Rightarrow> bool) \<Rightarrow> 's \<Rightarrow> 's \<Rightarrow> bool" for need eligible where
  evicts_done: "evicts need eligible s s"
| evicts_step: "need s \<Longrightarrow> lru_victim touch_of eligible (entries s) = Some k \<Longrightarrow>
    evicts need eligible (drop_key k s) s' \<Longrightarrow> evicts need eligible s s'"

lemma accounted_drop:
  assumes "accounted s" "bt_get (entries s) k = Some e"
  shows "accounted (drop_key k s)" and "unat (used s) = unat (size_of e) + unat (used (drop_key k s))"
proof -
  let ?f = "\<lambda>e. unat (size_of e)"
  have used: "unat (used s) = unat (size_of e) + bt_weight ?f (bt_remove k (entries s))"
    using assms(1) bt_weight_remove [OF assms(2), of ?f] unfolding accounted_def by argo
  have "unat (used (drop_key k s)) = unat (used s) - unat (size_of e)"
    by (simp only: law_drop_used [OF assms(2)] unat_saturating_sub)
  with used have rest: "unat (used (drop_key k s)) = bt_weight ?f (bt_remove k (entries s))"
    by linarith
  with assms(1) show "accounted (drop_key k s)"
    by (simp add: accounted_def law_drop_entries bt_wf_remove)
  show "unat (used s) = unat (size_of e) + unat (used (drop_key k s))"
    using used rest by linarith
qed

lemma victim_get:
  assumes acc: "accounted s" and v: "lru_victim touch_of eligible (entries s) = Some k"
  obtains e where "bt_get (entries s) k = Some e" "eligible k"
    "\<And>k' e'. bt_get (entries s) k' = Some e' \<Longrightarrow> eligible k' \<Longrightarrow> touch_of e \<le> touch_of e'"
proof -
  have wf: "bt_wf (entries s)" using acc by (simp add: accounted_def)
  from v obtain e where "(k, e) \<in> set (entries s)" "eligible k"
    "\<And>k' e'. (k', e') \<in> set (entries s) \<Longrightarrow> eligible k' \<Longrightarrow> touch_of e \<le> touch_of e'"
    by (rule lru_victim_Some) blast
  with wf show thesis by (intro that) (simp_all add: bt_get_iff)
qed

lemma accounted_step:
  "accounted s \<Longrightarrow> lru_victim touch_of eligible (entries s) = Some k \<Longrightarrow> accounted (drop_key k s)"
  by (rule victim_get, assumption+) (rule accounted_drop)

lemma evicts_accounted: "evicts need eligible s s' \<Longrightarrow> accounted s \<Longrightarrow> accounted s'"
  by (induction rule: evicts.induct) (auto dest: accounted_step)

lemma evicts_get_subset:
  "evicts need eligible s s' \<Longrightarrow> accounted s \<Longrightarrow>
    bt_get (entries s') k = Some e \<Longrightarrow> bt_get (entries s) k = Some e"
proof (induction rule: evicts.induct)
  case (evicts_done s)
  then show ?case by simp
next
  case (evicts_step s v s')
  then have "bt_get (entries (drop_key v s)) k = Some e" by (blast dest: accounted_step)
  with evicts_step.prems show ?case
    by (auto simp: accounted_def law_drop_entries bt_get_remove split: if_splits)
qed

lemma evicts_protected:
  "evicts need eligible s s' \<Longrightarrow> accounted s \<Longrightarrow> \<not> eligible k \<Longrightarrow>
    bt_get (entries s') k = bt_get (entries s) k"
proof (induction rule: evicts.induct)
  case (evicts_done s)
  then show ?case by simp
next
  case (evicts_step s v s')
  then have "v \<noteq> k" by (auto dest: lru_victim_key)
  with evicts_step.prems(1) have "bt_get (entries (drop_key v s)) k = bt_get (entries s) k"
    by (simp add: accounted_def law_drop_entries bt_get_remove)
  with evicts_step.IH [OF accounted_step [OF evicts_step.prems(1) evicts_step.hyps(2)]]
    evicts_step.prems(2)
  show ?case by simp
qed

text \<open>Least recently used first: whatever is evicted was touched no later than what stays.\<close>

lemma evicts_lru:
  "evicts need eligible s s' \<Longrightarrow> accounted s \<Longrightarrow>
    bt_get (entries s) k = Some e \<Longrightarrow> bt_get (entries s') k = None \<Longrightarrow>
    bt_get (entries s') k' = Some e' \<Longrightarrow> eligible k' \<Longrightarrow> touch_of e \<le> touch_of e'"
proof (induction rule: evicts.induct)
  case (evicts_done s)
  then show ?case by simp
next
  case (evicts_step s v s')
  have acc: "accounted (drop_key v s)"
    by (rule accounted_step [OF evicts_step.prems(1) evicts_step.hyps(2)])
  have stay: "bt_get (entries s) k' = Some e'"
    using evicts_get_subset [OF evicts_step.hyps(3) acc evicts_step.prems(4)] evicts_step.prems(1)
    by (auto simp: accounted_def law_drop_entries bt_get_remove split: if_splits)
  show ?case
  proof (cases "k = v")
    case True
    obtain e0 where "bt_get (entries s) v = Some e0"
      and "\<And>k' e'. bt_get (entries s) k' = Some e' \<Longrightarrow> eligible k' \<Longrightarrow> touch_of e0 \<le> touch_of e'"
      by (rule victim_get [OF evicts_step.prems(1) evicts_step.hyps(2)]) blast
    with True evicts_step.prems(2,5) stay show ?thesis by simp
  next
    case False
    then have "bt_get (entries (drop_key v s)) k = Some e"
      using evicts_step.prems by (simp add: accounted_def law_drop_entries bt_get_remove)
    with evicts_step.IH [OF acc] evicts_step.prems show ?thesis by blast
  qed
qed

lemma evicts_used_le: "evicts need eligible s s' \<Longrightarrow> accounted s \<Longrightarrow> used s' \<le> used s"
proof (induction rule: evicts.induct)
  case (evicts_done s)
  then show ?case by simp
next
  case (evicts_step s k s')
  then obtain e where "bt_get (entries s) k = Some e" by (blast elim: victim_get)
  with evicts_step accounted_drop show ?case by (force simp: word_le_nat_alt)
qed

lemma evicts_no_need: "evicts need eligible s s' \<Longrightarrow> \<not> need s \<Longrightarrow> s' = s"
  by (induction rule: evicts.induct) auto

text \<open>When no entry but the protected one is left, its size is all that is used.\<close>

lemma no_victim_used:
  assumes "accounted s" "lru_victim touch_of (\<lambda>x. x \<noteq> k) (entries s) = None"
  shows "unat (used s) = (case bt_get (entries s) k of None \<Rightarrow> 0 | Some e \<Rightarrow> unat (size_of e))"
  using assms bt_weight_sole [of "entries s" k "\<lambda>e. unat (size_of e)"]
  by (auto simp: accounted_def lru_victim_None)

lemma no_victim_empty:
  assumes "accounted s" "lru_victim touch_of (\<lambda>x. True) (entries s) = None"
  shows "used s = 0"
  using assms by (auto simp: accounted_def lru_victim_None word_unat_eq_iff)

end

end
