(* ===== verification/Residency.thy ===== *)
theory Residency
  imports Lru
begin

text \<open>
  The crate \<open>vrb-residency\<close>: the cache of durable GPU allocations. The state behind the
  mutex is a record, the mutex is the flag that says whether it is poisoned, and an
  operation that takes the lock runs as one step. A provider is a function from the
  requested spec to what its \<open>open\<close> does: return an allocation or an error, or panic
  while the lock is held, which poisons it.
\<close>

section \<open>Data\<close>

datatype residency_key = ResidencyKey (key_str: string)

instantiation residency_key :: linorder
begin

definition less_eq_residency_key :: "residency_key \<Rightarrow> residency_key \<Rightarrow> bool" where
  "less_eq_residency_key a b = (key_str a \<le> key_str b)"

definition less_residency_key :: "residency_key \<Rightarrow> residency_key \<Rightarrow> bool" where
  "less_residency_key a b = (key_str a < key_str b)"

instance
  by standard (auto simp: less_eq_residency_key_def less_residency_key_def residency_key.expand)

end

record residency_spec =
  rs_key :: residency_key
  rs_generation :: u64
  rs_device_index :: i32
  rs_bytes :: u64

datatype residency_error =
    InvalidKey
  | InvalidSpec residency_key i32 u64
  | ResidencyZeroCapacity
  | ResidencyCapacityExceeded u64 u64
  | Provider string
  | ProviderContract residency_spec residency_spec
  | Poisoned

text \<open>
  An allocation is shared by reference; \<open>al_handle\<close> stands for its identity, \<open>al_spec\<close>
  for what its \<open>spec()\<close> reports.
\<close>

record resident_allocation =
  al_handle :: nat
  al_spec :: residency_spec

type_synonym residency_provider =
  "residency_spec \<Rightarrow> (residency_error + resident_allocation) unwinding"

record residency_stats =
  rstat_entries :: nat
  rstat_resident_bytes :: u64
  rstat_hits :: u64
  rstat_misses :: u64
  rstat_evictions :: u64

record cache_entry =
  ce_allocation :: resident_allocation
  ce_last_touch :: u64

record cache_state =
  st_entries :: "(residency_key, cache_entry) btree_map"
  st_resident_bytes :: u64
  st_clock :: u64
  st_hits :: u64
  st_misses :: u64
  st_evictions :: u64

record residency_cache =
  rc_capacity_bytes :: u64
  rc_state :: cache_state
  rc_poisoned :: bool

section \<open>Operations\<close>

definition residency_key_new :: "string \<Rightarrow> residency_error + residency_key" where
  "residency_key_new value =
     (let trimmed = trim value
      in if trimmed = [] then Inl InvalidKey else Inr (ResidencyKey trimmed))"

definition spec_validate :: "residency_spec \<Rightarrow> residency_error + unit" where
  "spec_validate spec =
     (if sint (rs_device_index spec) < 0 \<or> rs_bytes spec = 0
      then Inl (InvalidSpec (rs_key spec) (rs_device_index spec) (rs_bytes spec))
      else Inr ())"

definition residency_cache_new :: "u64 \<Rightarrow> residency_error + residency_cache" where
  "residency_cache_new capacity_bytes =
     (if capacity_bytes = 0 then Inl ResidencyZeroCapacity
      else Inr \<lparr>rc_capacity_bytes = capacity_bytes,
        rc_state = \<lparr>st_entries = [], st_resident_bytes = 0, st_clock = 0, st_hits = 0,
          st_misses = 0, st_evictions = 0\<rparr>, rc_poisoned = False\<rparr>)"

text \<open>
  \<open>if let Some(removed) = entries.remove(key)\<close> with the bookkeeping that follows it: the
  stale entry of \<open>acquire\<close>, the victim of its loop, and the entry of \<open>invalidate\<close>.
\<close>

definition entry_bytes :: "cache_entry \<Rightarrow> u64" where
  "entry_bytes e = rs_bytes (al_spec (ce_allocation e))"

definition discard_entry :: "residency_key \<Rightarrow> cache_state \<Rightarrow> cache_state" where
  "discard_entry key s =
     (case bt_get (st_entries s) key of
        None \<Rightarrow> s
      | Some removed \<Rightarrow> s\<lparr>st_entries := bt_remove key (st_entries s),
          st_resident_bytes := saturating_sub (st_resident_bytes s) (entry_bytes removed),
          st_evictions := saturating_add (st_evictions s) 1\<rparr>)"

text \<open>The \<open>while\<close> loop of \<open>acquire\<close>. \<open>Unwound\<close> is the \<open>expect\<close> on a victim not found.\<close>

function make_room ::
  "u64 \<Rightarrow> u64 \<Rightarrow> cache_state \<Rightarrow> cache_state \<times> (residency_error + unit) unwinding" where
  "make_room capacity bytes s =
     (if over_capacity (st_resident_bytes s) bytes capacity then
        case lru_victim ce_last_touch (\<lambda>key. True) (st_entries s) of
          None \<Rightarrow> (s, Returned (Inl (ResidencyCapacityExceeded bytes capacity)))
        | Some victim \<Rightarrow>
            (case bt_get (st_entries s) victim of
               None \<Rightarrow> (s, Unwound)
             | Some removed \<Rightarrow> make_room capacity bytes (discard_entry victim s))
      else (s, Returned (Inr ())))"
  by pat_completeness auto
termination
proof (relation "measure (\<lambda>(capacity, bytes, s). length (st_entries s))")
  fix capacity bytes :: u64 and s :: cache_state and victim removed
  assume "bt_get (st_entries s) victim = Some removed"
  then show "((capacity, bytes, discard_entry victim s), capacity, bytes, s)
      \<in> measure (\<lambda>(capacity, bytes, s). length (st_entries s))"
    using bt_remove_length [of "st_entries s" victim removed] by (simp add: discard_entry_def)
qed simp

declare make_room.simps [simp del]

definition store_allocation ::
  "u64 \<Rightarrow> residency_spec \<Rightarrow> u64 \<Rightarrow> resident_allocation \<Rightarrow> cache_state
    \<Rightarrow> cache_state \<times> (residency_error + resident_allocation) unwinding" where
  "store_allocation capacity spec touch allocation s =
     (if al_spec allocation \<noteq> spec
      then (s, Returned (Inl (ProviderContract spec (al_spec allocation))))
      else case checked_add (st_resident_bytes s) (rs_bytes spec) of
        None \<Rightarrow> (s, Returned (Inl (ResidencyCapacityExceeded (rs_bytes spec) capacity)))
      | Some resident_bytes \<Rightarrow>
          (s\<lparr>st_resident_bytes := resident_bytes,
             st_entries := bt_insert (rs_key spec)
               \<lparr>ce_allocation = allocation, ce_last_touch = touch\<rparr> (st_entries s)\<rparr>,
           Returned (Inr allocation)))"

definition acquire_miss ::
  "u64 \<Rightarrow> residency_provider \<Rightarrow> residency_spec \<Rightarrow> u64 \<Rightarrow> cache_state
    \<Rightarrow> cache_state \<times> (residency_error + resident_allocation) unwinding" where
  "acquire_miss capacity provider spec touch s =
     (case make_room capacity (rs_bytes spec) (s\<lparr>st_misses := saturating_add (st_misses s) 1\<rparr>) of
        (s', Unwound) \<Rightarrow> (s', Unwound)
      | (s', Returned (Inl e)) \<Rightarrow> (s', Returned (Inl e))
      | (s', Returned (Inr _)) \<Rightarrow>
          (case provider spec of
             Unwound \<Rightarrow> (s', Unwound)
           | Returned (Inl e) \<Rightarrow> (s', Returned (Inl e))
           | Returned (Inr allocation) \<Rightarrow> store_allocation capacity spec touch allocation s'))"

text \<open>The part of \<open>acquire\<close> that runs with the lock held.\<close>

definition acquire_locked ::
  "u64 \<Rightarrow> residency_provider \<Rightarrow> residency_spec \<Rightarrow> cache_state
    \<Rightarrow> cache_state \<times> (residency_error + resident_allocation) unwinding" where
  "acquire_locked capacity provider spec s0 =
     (let touch = next_clock (st_clock s0);
          s = s0\<lparr>st_clock := touch\<rparr>;
          miss = acquire_miss capacity provider spec touch (discard_entry (rs_key spec) s)
      in case bt_get (st_entries s) (rs_key spec) of
           None \<Rightarrow> miss
         | Some entry \<Rightarrow>
             if al_spec (ce_allocation entry) = spec
             then (s\<lparr>st_entries := bt_insert (rs_key spec) (entry\<lparr>ce_last_touch := touch\<rparr>) (st_entries s),
                     st_hits := saturating_add (st_hits s) 1\<rparr>,
                   Returned (Inr (ce_allocation entry)))
             else miss)"

text \<open>Running a step under the lock: a panic while it is held poisons it.\<close>

definition with_lock ::
  "(cache_state \<Rightarrow> cache_state \<times> (residency_error + 'a) unwinding) \<Rightarrow> residency_cache
    \<Rightarrow> residency_cache \<times> (residency_error + 'a) unwinding" where
  "with_lock step cache =
     (if rc_poisoned cache then (cache, Returned (Inl Poisoned))
      else case step (rc_state cache) of
        (s, result) \<Rightarrow> (cache\<lparr>rc_state := s, rc_poisoned := (result = Unwound)\<rparr>, result))"

definition acquire ::
  "residency_cache \<Rightarrow> residency_provider \<Rightarrow> residency_spec
    \<Rightarrow> residency_cache \<times> (residency_error + resident_allocation) unwinding" where
  "acquire cache provider spec =
     (case spec_validate spec of
        Inl e \<Rightarrow> (cache, Returned (Inl e))
      | Inr _ \<Rightarrow>
          if rc_capacity_bytes cache < rs_bytes spec
          then (cache, Returned (Inl (ResidencyCapacityExceeded (rs_bytes spec) (rc_capacity_bytes cache))))
          else with_lock (acquire_locked (rc_capacity_bytes cache) provider spec) cache)"

definition invalidate ::
  "residency_cache \<Rightarrow> residency_key \<Rightarrow> residency_cache \<times> (residency_error + bool) unwinding" where
  "invalidate cache key =
     with_lock (\<lambda>s. (discard_entry key s, Returned (Inr (bt_contains (st_entries s) key)))) cache"

definition clear_state :: "cache_state \<Rightarrow> cache_state" where
  "clear_state s =
     s\<lparr>st_evictions := saturating_add (st_evictions s)
         (case u64_try_from (length (st_entries s)) of None \<Rightarrow> - 1 | Some n \<Rightarrow> n),
       st_entries := [], st_resident_bytes := 0\<rparr>"

definition residency_clear :: "residency_cache \<Rightarrow> residency_cache \<times> (residency_error + unit) unwinding" where
  "residency_clear cache = with_lock (\<lambda>s. (clear_state s, Returned (Inr ()))) cache"

definition residency_stats_of ::
  "residency_cache \<Rightarrow> residency_cache \<times> (residency_error + residency_stats) unwinding" where
  "residency_stats_of cache =
     with_lock (\<lambda>s. (s, Returned (Inr
       \<lparr>rstat_entries = length (st_entries s), rstat_resident_bytes = st_resident_bytes s,
        rstat_hits = st_hits s, rstat_misses = st_misses s, rstat_evictions = st_evictions s\<rparr>))) cache"

section \<open>The store\<close>

lemma residency_drop_entries: "st_entries (discard_entry k s) = bt_remove k (st_entries s)"
  by (simp add: discard_entry_def bt_remove_id split: option.split)

interpretation rstore: lru_store st_entries st_resident_bytes entry_bytes ce_last_touch discard_entry
  by unfold_locales (simp_all add: residency_drop_entries, simp add: discard_entry_def)

lemma discard_absent: "bt_get (st_entries s) k = None \<Longrightarrow> discard_entry k s = s"
  by (simp add: discard_entry_def)

text \<open>What is stored under a key is a valid allocation of that key that fits the capacity.\<close>

definition entries_valid :: "u64 \<Rightarrow> cache_state \<Rightarrow> bool" where
  "entries_valid capacity s =
     (\<forall>(key, entry) \<in> set (st_entries s).
        let spec = al_spec (ce_allocation entry)
        in rs_key spec = key \<and> spec_validate spec = Inr () \<and> rs_bytes spec \<le> capacity)"

definition state_inv :: "u64 \<Rightarrow> cache_state \<Rightarrow> bool" where
  "state_inv capacity s =
     (rstore.accounted s \<and> st_resident_bytes s \<le> capacity \<and> entries_valid capacity s)"

definition residency_inv :: "residency_cache \<Rightarrow> bool" where
  "residency_inv cache =
     (rc_capacity_bytes cache \<noteq> 0 \<and> state_inv (rc_capacity_bytes cache) (rc_state cache))"

lemma state_inv_update [simp]:
  "state_inv c (s\<lparr>st_clock := x\<rparr>) = state_inv c s"
  "state_inv c (s\<lparr>st_hits := x\<rparr>) = state_inv c s"
  "state_inv c (s\<lparr>st_misses := x\<rparr>) = state_inv c s"
  "state_inv c (s\<lparr>st_evictions := x\<rparr>) = state_inv c s"
  by (simp_all add: state_inv_def rstore.accounted_def entries_valid_def)

lemma state_inv_wf: "state_inv c s \<Longrightarrow> bt_wf (st_entries s)"
  by (simp add: state_inv_def rstore.accounted_def)

text \<open>The invariant survives any run of the eviction loop, and the removal of one entry.\<close>

lemma entries_valid_subset:
  "entries_valid c s \<Longrightarrow> set (st_entries s') \<subseteq> set (st_entries s) \<Longrightarrow> entries_valid c s'"
  unfolding entries_valid_def by blast

lemma state_inv_discard: "state_inv c s \<Longrightarrow> state_inv c (discard_entry k s)"
proof (cases "bt_get (st_entries s) k")
  case None
  then show "state_inv c s \<Longrightarrow> ?thesis" by (simp add: discard_absent)
next
  case (Some e)
  assume inv: "state_inv c s"
  then have acc: "rstore.accounted s" by (simp add: state_inv_def)
  from rstore.accounted_drop [OF acc Some] inv
  have "rstore.accounted (discard_entry k s)" "st_resident_bytes (discard_entry k s) \<le> c"
    by (auto simp: state_inv_def word_le_nat_alt)
  moreover have "entries_valid c (discard_entry k s)"
    by (rule entries_valid_subset [of c s])
      (use inv bt_remove_subset [of k "st_entries s"] in \<open>simp_all add: state_inv_def residency_drop_entries\<close>)
  ultimately show ?thesis by (simp add: state_inv_def)
qed

lemma state_inv_evicts: "rstore.evicts need eligible s s' \<Longrightarrow> state_inv c s \<Longrightarrow> state_inv c s'"
  by (induction rule: rstore.evicts.induct) (auto dest: state_inv_discard)

section \<open>The eviction loop\<close>

definition needs_room :: "u64 \<Rightarrow> u64 \<Rightarrow> cache_state \<Rightarrow> bool" where
  "needs_room capacity bytes s = over_capacity (st_resident_bytes s) bytes capacity"

lemma make_room_run:
  assumes "state_inv c s" and "bytes \<le> c"
  shows "\<exists>s'. make_room c bytes s = (s', Returned (Inr ())) \<and>
    rstore.evicts (needs_room c bytes) (\<lambda>key. True) s s' \<and> \<not> needs_room c bytes s'"
  using assms
proof (induction c bytes s rule: make_room.induct)
  case (1 c bytes s)
  note acc = "1.prems"(1) [unfolded state_inv_def, THEN conjunct1]
  show ?case
  proof (cases "needs_room c bytes s")
    case False
    then have "make_room c bytes s = (s, Returned (Inr ()))"
      by (simp add: make_room.simps [of c bytes s] needs_room_def)
    with False show ?thesis by (blast intro: rstore.evicts.intros)
  next
    case True
    obtain k where k: "lru_victim ce_last_touch (\<lambda>key. True) (st_entries s) = Some k"
    proof (cases "lru_victim ce_last_touch (\<lambda>key. True) (st_entries s)")
      case None
      from rstore.no_victim_empty [OF acc None] True "1.prems"(2) have False
        by (simp add: needs_room_def over_capacity_iff word_le_nat_alt)
      then show thesis ..
    qed
    obtain e where e: "bt_get (st_entries s) k = Some e"
      by (rule rstore.victim_get [OF acc k]) blast
    have step: "make_room c bytes s = make_room c bytes (discard_entry k s)"
      using True k e by (simp add: make_room.simps [of c bytes s] needs_room_def)
    have "\<exists>s'. make_room c bytes (discard_entry k s) = (s', Returned (Inr ())) \<and>
        rstore.evicts (needs_room c bytes) (\<lambda>key. True) (discard_entry k s) s' \<and> \<not> needs_room c bytes s'"
      by (rule "1.IH") (use True k e "1.prems" state_inv_discard in \<open>simp_all add: needs_room_def\<close>)
    with True k show ?thesis unfolding step by (blast intro: rstore.evicts.intros)
  qed
qed

text \<open>Every round of the loop evicts one entry and counts it.\<close>

lemma evicts_rounds:
  "rstore.evicts need eligible s s' \<Longrightarrow> state_inv c s \<Longrightarrow>
    length (st_entries s') \<le> length (st_entries s)
    \<and> unat (st_evictions s') =
        min (unat (st_evictions s) + (length (st_entries s) - length (st_entries s'))) (2 ^ 64 - 1)"
proof (induction rule: rstore.evicts.induct)
  case (evicts_done s)
  then show ?case using unat_lt2p_num [of "st_evictions s"] by (simp add: min_def)
next
  case (evicts_step s k s')
  then have acc: "rstore.accounted s" by (simp add: state_inv_def)
  obtain e where e: "bt_get (st_entries s) k = Some e" by (rule rstore.victim_get [OF acc evicts_step.hyps(2)]) blast
  then have "length (st_entries s) = Suc (length (st_entries (discard_entry k s)))"
    "unat (st_evictions (discard_entry k s)) = min (unat (st_evictions s) + 1) (2 ^ 64 - 1)"
    using bt_remove_length [OF e] by (simp_all add: residency_drop_entries discard_entry_def unat_saturating_add)
  with evicts_step.IH [OF state_inv_discard [OF evicts_step.prems]] show ?case by (auto simp: min_def)
qed

text \<open>The result of a miss is the provider's answer: making room cannot fail.\<close>

definition miss_state :: "u64 \<Rightarrow> residency_spec \<Rightarrow> cache_state \<Rightarrow> cache_state" where
  "miss_state c spec s = fst (make_room c (rs_bytes spec) (s\<lparr>st_misses := saturating_add (st_misses s) 1\<rparr>))"

lemma acquire_miss_eq:
  assumes "state_inv c s" and "rs_bytes spec \<le> c"
  shows "acquire_miss c provider spec touch s =
    (case provider spec of
       Unwound \<Rightarrow> (miss_state c spec s, Unwound)
     | Returned (Inl e) \<Rightarrow> (miss_state c spec s, Returned (Inl e))
     | Returned (Inr allocation) \<Rightarrow> store_allocation c spec touch allocation (miss_state c spec s))"
proof -
  have "state_inv c (s\<lparr>st_misses := saturating_add (st_misses s) 1\<rparr>)" using assms(1) by simp
  from make_room_run [OF this assms(2)] obtain s' where
    "make_room c (rs_bytes spec) (s\<lparr>st_misses := saturating_add (st_misses s) 1\<rparr>)
      = (s', Returned (Inr ()))" by blast
  moreover from this have "miss_state c spec s = s'" by (simp add: miss_state_def)
  ultimately show ?thesis by (simp add: acquire_miss_def split: unwinding.split sum.split)
qed

lemma miss_state_run:
  assumes "state_inv c s" and "rs_bytes spec \<le> c"
  shows "rstore.evicts (needs_room c (rs_bytes spec)) (\<lambda>key. True)
      (s\<lparr>st_misses := saturating_add (st_misses s) 1\<rparr>) (miss_state c spec s)"
    and "state_inv c (miss_state c spec s)"
    and "unat (st_resident_bytes (miss_state c spec s)) + unat (rs_bytes spec) \<le> unat c"
proof -
  have inv: "state_inv c (s\<lparr>st_misses := saturating_add (st_misses s) 1\<rparr>)" using assms(1) by simp
  from make_room_run [OF inv assms(2)]
  show run: "rstore.evicts (needs_room c (rs_bytes spec)) (\<lambda>key. True)
      (s\<lparr>st_misses := saturating_add (st_misses s) 1\<rparr>) (miss_state c spec s)"
    and "unat (st_resident_bytes (miss_state c spec s)) + unat (rs_bytes spec) \<le> unat c"
    by (auto simp: miss_state_def needs_room_def over_capacity_iff)
  show "state_inv c (miss_state c spec s)" by (rule state_inv_evicts [OF run inv])
qed

section \<open>Acquiring\<close>

definition stored :: "residency_spec \<Rightarrow> u64 \<Rightarrow> resident_allocation \<Rightarrow> cache_state \<Rightarrow> cache_state" where
  "stored spec touch allocation s =
     s\<lparr>st_resident_bytes := st_resident_bytes s + rs_bytes spec,
       st_entries := bt_insert (rs_key spec)
         \<lparr>ce_allocation = allocation, ce_last_touch = touch\<rparr> (st_entries s)\<rparr>"

lemma store_allocation_eq:
  assumes "unat (st_resident_bytes s) + unat (rs_bytes spec) \<le> unat (c :: u64)"
  shows "store_allocation c spec touch allocation s =
    (if al_spec allocation = spec then (stored spec touch allocation s, Returned (Inr allocation))
     else (s, Returned (Inl (ProviderContract spec (al_spec allocation)))))"
  using assms unat_lt2p_num [of c]
  by (simp add: store_allocation_def checked_add_def stored_def)

lemma state_inv_stored:
  assumes inv: "state_inv c s" and room: "unat (st_resident_bytes s) + unat (rs_bytes spec) \<le> unat c"
    and new: "bt_get (st_entries s) (rs_key spec) = None"
    and ok: "spec_validate spec = Inr ()" "al_spec allocation = spec"
  shows "state_inv c (stored spec touch allocation s)"
proof -
  let ?e = "\<lparr>ce_allocation = allocation, ce_last_touch = touch\<rparr>"
  have wf: "bt_wf (st_entries s)" using inv by (rule state_inv_wf)
  have sum_eq: "unat (st_resident_bytes s + rs_bytes spec) = unat (st_resident_bytes s) + unat (rs_bytes spec)"
    using room unat_lt2p_num [of c] by (simp add: unat_word_ariths)
  have bytes: "entry_bytes ?e = rs_bytes spec" using ok by (simp add: entry_bytes_def)
  have "rstore.accounted (stored spec touch allocation s)"
    using inv wf bytes
    by (simp add: state_inv_def rstore.accounted_def stored_def sum_eq bt_wf_insert
        bt_weight_insert_new [OF new])
  moreover have "entries_valid c (stored spec touch allocation s)"
    using inv ok room wf
    by (auto simp: state_inv_def entries_valid_def stored_def Let_def bt_set_insert word_le_nat_alt)
  ultimately show ?thesis
    using room by (simp add: state_inv_def stored_def sum_eq word_le_nat_alt)
qed

text \<open>The state a miss starts from: the clock advanced, a stale entry of the key removed.\<close>

definition miss_base :: "residency_spec \<Rightarrow> cache_state \<Rightarrow> cache_state" where
  "miss_base spec s = discard_entry (rs_key spec) (s\<lparr>st_clock := next_clock (st_clock s)\<rparr>)"

definition resident :: "residency_spec \<Rightarrow> cache_state \<Rightarrow> cache_entry option" where
  "resident spec s =
     (case bt_get (st_entries s) (rs_key spec) of
        None \<Rightarrow> None
      | Some entry \<Rightarrow> if al_spec (ce_allocation entry) = spec then Some entry else None)"

lemma acquire_locked_eq:
  "acquire_locked c provider spec s =
    (case resident spec s of
       Some entry \<Rightarrow>
         (s\<lparr>st_clock := next_clock (st_clock s),
            st_entries := bt_insert (rs_key spec) (entry\<lparr>ce_last_touch := next_clock (st_clock s)\<rparr>) (st_entries s),
            st_hits := saturating_add (st_hits s) 1\<rparr>, Returned (Inr (ce_allocation entry)))
     | None \<Rightarrow> acquire_miss c provider spec (next_clock (st_clock s)) (miss_base spec s))"
  by (auto simp: acquire_locked_def resident_def miss_base_def Let_def split: option.split)

lemma miss_base_inv: "state_inv c s \<Longrightarrow> state_inv c (miss_base spec s)"
  unfolding miss_base_def by (rule state_inv_discard) simp

lemma miss_base_get:
  "state_inv c s \<Longrightarrow> bt_get (st_entries (miss_base spec s)) k =
    (if k = rs_key spec then None else bt_get (st_entries s) k)"
  by (simp add: miss_base_def residency_drop_entries bt_get_remove state_inv_wf)

lemma miss_state_absent:
  assumes "state_inv c s" "rs_bytes spec \<le> c"
  shows "bt_get (st_entries (miss_state c spec (miss_base spec s))) (rs_key spec) = None"
proof (rule ccontr)
  note inv = miss_base_inv [OF assms(1), of spec]
  note run = miss_state_run(1) [OF inv assms(2)]
  assume "bt_get (st_entries (miss_state c spec (miss_base spec s))) (rs_key spec) \<noteq> None"
  then obtain e where "bt_get (st_entries (miss_state c spec (miss_base spec s))) (rs_key spec) = Some e"
    by blast
  from rstore.evicts_get_subset [OF run _ this] inv
  have "bt_get (st_entries (miss_base spec s)) (rs_key spec) = Some e"
    by (simp add: state_inv_def rstore.accounted_def)
  with miss_base_get [OF assms(1), of spec "rs_key spec"] show False by simp
qed

lemma hit_inv:
  assumes inv: "state_inv c s" and hit: "resident spec s = Some entry"
  shows "state_inv c (s\<lparr>st_entries := bt_insert (rs_key spec) (entry\<lparr>ce_last_touch := t\<rparr>) (st_entries s)\<rparr>)"
proof -
  let ?e = "entry\<lparr>ce_last_touch := t\<rparr>"
  have get: "bt_get (st_entries s) (rs_key spec) = Some entry"
    using hit by (auto simp: resident_def split: option.splits if_splits)
  have wf: "bt_wf (st_entries s)" using inv by (rule state_inv_wf)
  then have mem: "(rs_key spec, entry) \<in> set (st_entries s)" using get by (simp add: bt_get_iff)
  have same: "entry_bytes ?e = entry_bytes entry" by (simp add: entry_bytes_def)
  have "bt_weight (\<lambda>e. unat (entry_bytes e)) (bt_insert (rs_key spec) ?e (st_entries s))
      = bt_weight (\<lambda>e. unat (entry_bytes e)) (st_entries s)"
    using bt_weight_insert_old [OF wf get, of "\<lambda>e. unat (entry_bytes e)" ?e] same by simp
  then show ?thesis
    using inv mem wf unfolding state_inv_def rstore.accounted_def entries_valid_def
    by (auto simp: bt_wf_insert bt_set_insert Let_def)
qed

lemma acquire_locked_inv:
  assumes inv: "state_inv c s" and "spec_validate spec = Inr ()" and fits: "rs_bytes spec \<le> c"
  shows "state_inv c (fst (acquire_locked c provider spec s))"
proof (cases "resident spec s")
  case None
  note base = miss_base_inv [OF inv, of spec]
  note run = miss_state_run [OF base fits]
  show ?thesis
    using None run(2) state_inv_stored [OF run(2,3) miss_state_absent [OF inv fits] assms(2)]
    by (auto simp: acquire_locked_eq acquire_miss_eq [OF base fits] store_allocation_eq [OF run(3)]
        split: unwinding.split sum.split)
next
  case (Some entry)
  have "state_inv c (s\<lparr>st_clock := next_clock (st_clock s)\<rparr>)"
    "resident spec (s\<lparr>st_clock := next_clock (st_clock s)\<rparr>) = Some entry"
    using inv Some by (simp_all add: resident_def)
  from hit_inv [OF this, of "next_clock (st_clock s)"] Some show ?thesis
    by (simp add: acquire_locked_eq)
qed

lemma with_lock_inv:
  assumes "residency_inv cache"
    and "\<And>s. state_inv (rc_capacity_bytes cache) s \<Longrightarrow> state_inv (rc_capacity_bytes cache) (fst (step s))"
  shows "residency_inv (fst (with_lock step cache))"
  using assms(1) assms(2) [of "rc_state cache"]
  by (cases "step (rc_state cache)") (simp add: with_lock_def residency_inv_def)

lemma acquire_inv: "residency_inv cache \<Longrightarrow> residency_inv (fst (acquire cache provider spec))"
  by (auto simp: acquire_def not_less split: sum.split intro!: with_lock_inv acquire_locked_inv)

lemma invalidate_inv: "residency_inv cache \<Longrightarrow> residency_inv (fst (invalidate cache key))"
  by (auto simp: invalidate_def intro!: with_lock_inv state_inv_discard)

lemma clear_inv: "residency_inv cache \<Longrightarrow> residency_inv (fst (residency_clear cache))"
  unfolding residency_clear_def
  by (rule with_lock_inv)
    (auto simp: clear_state_def state_inv_def rstore.accounted_def entries_valid_def)

lemma new_inv: "residency_cache_new capacity = Inr cache \<Longrightarrow> residency_inv cache"
  by (auto simp: residency_cache_new_def residency_inv_def state_inv_def rstore.accounted_def
      entries_valid_def split: if_splits)

section \<open>Reachable caches\<close>

text \<open>
  A cache in use: created with some capacity, then any sequence of the public calls, each
  \<open>acquire\<close> with a provider of its own.
\<close>

inductive residency_reachable :: "u64 \<Rightarrow> residency_cache \<Rightarrow> bool" where
  reach_new: "residency_cache_new capacity = Inr cache \<Longrightarrow> residency_reachable capacity cache"
| reach_acquire: "residency_reachable capacity cache \<Longrightarrow>
    residency_reachable capacity (fst (acquire cache provider spec))"
| reach_invalidate: "residency_reachable capacity cache \<Longrightarrow>
    residency_reachable capacity (fst (invalidate cache key))"
| reach_clear: "residency_reachable capacity cache \<Longrightarrow>
    residency_reachable capacity (fst (residency_clear cache))"

lemma with_lock_capacity [simp]:
  "rc_capacity_bytes (fst (with_lock step cache)) = rc_capacity_bytes cache"
  by (simp add: with_lock_def split: prod.split)

lemma acquire_capacity [simp]:
  "rc_capacity_bytes (fst (acquire cache provider spec)) = rc_capacity_bytes cache"
  by (simp add: acquire_def split: sum.split)

lemma reachable_inv:
  "residency_reachable capacity cache \<Longrightarrow> residency_inv cache \<and> rc_capacity_bytes cache = capacity"
proof (induction rule: residency_reachable.induct)
  case (reach_new capacity cache)
  then show ?case using new_inv [OF reach_new] by (auto simp: residency_cache_new_def split: if_splits)
next
  case (reach_acquire capacity cache provider spec)
  then show ?case by (simp add: acquire_inv)
next
  case (reach_invalidate capacity cache key)
  then show ?case using invalidate_inv [of cache key] by (simp add: invalidate_def)
next
  case (reach_clear capacity cache)
  then show ?case using clear_inv [of cache] by (simp add: residency_clear_def)
qed

section \<open>What acquiring does\<close>

text \<open>The contract of \<open>acquire\<close>: its result as a function of the cache's content.\<close>

definition acquire_outcome ::
  "residency_cache \<Rightarrow> residency_provider \<Rightarrow> residency_spec
    \<Rightarrow> (residency_error + resident_allocation) unwinding" where
  "acquire_outcome cache provider spec =
     (if sint (rs_device_index spec) < 0 \<or> rs_bytes spec = 0
      then Returned (Inl (InvalidSpec (rs_key spec) (rs_device_index spec) (rs_bytes spec)))
      else if rc_capacity_bytes cache < rs_bytes spec
      then Returned (Inl (ResidencyCapacityExceeded (rs_bytes spec) (rc_capacity_bytes cache)))
      else if rc_poisoned cache then Returned (Inl Poisoned)
      else case resident spec (rc_state cache) of
        Some entry \<Rightarrow> Returned (Inr (ce_allocation entry))
      | None \<Rightarrow>
          (case provider spec of
             Unwound \<Rightarrow> Unwound
           | Returned (Inl e) \<Rightarrow> Returned (Inl e)
           | Returned (Inr a) \<Rightarrow>
               if al_spec a = spec then Returned (Inr a)
               else Returned (Inl (ProviderContract spec (al_spec a)))))"

lemma acquire_locked_result:
  assumes inv: "state_inv c s" and fits: "rs_bytes spec \<le> c"
  shows "snd (acquire_locked c provider spec s) =
    (case resident spec s of
       Some entry \<Rightarrow> Returned (Inr (ce_allocation entry))
     | None \<Rightarrow>
         (case provider spec of
            Unwound \<Rightarrow> Unwound
          | Returned (Inl e) \<Rightarrow> Returned (Inl e)
          | Returned (Inr a) \<Rightarrow>
              if al_spec a = spec then Returned (Inr a)
              else Returned (Inl (ProviderContract spec (al_spec a)))))"
proof -
  note base = miss_base_inv [OF inv, of spec]
  note run = miss_state_run [OF base fits]
  show ?thesis
    by (simp add: acquire_locked_eq acquire_miss_eq [OF base fits] store_allocation_eq [OF run(3)]
        split: option.split unwinding.split sum.split)
qed

lemma acquire_eq_outcome:
  "residency_inv cache \<Longrightarrow> snd (acquire cache provider spec) = acquire_outcome cache provider spec"
  using acquire_locked_result [of "rc_capacity_bytes cache" "rc_state cache" spec provider]
  by (auto simp: acquire_def acquire_outcome_def spec_validate_def residency_inv_def with_lock_def
      not_less split: prod.split)

lemma acquire_locked_resident:
  assumes inv: "state_inv c s" and fits: "rs_bytes spec \<le> c"
    and ok: "snd (acquire_locked c provider spec s) = Returned (Inr a)"
  shows "al_spec a = spec \<and>
    (\<exists>e. resident spec (fst (acquire_locked c provider spec s)) = Some e \<and> ce_allocation e = a)"
proof (cases "resident spec s")
  case None
  note base = miss_base_inv [OF inv, of spec]
  note run = miss_state_run [OF base fits]
  from ok None have "provider spec = Returned (Inr a)" "al_spec a = spec"
    by (auto simp: acquire_locked_result [OF inv fits] split: unwinding.splits sum.splits if_splits)
  with None show ?thesis
    by (simp add: acquire_locked_eq acquire_miss_eq [OF base fits] store_allocation_eq [OF run(3)]
        stored_def resident_def bt_get_insert)
next
  case (Some e)
  with ok show ?thesis
    by (auto simp: acquire_locked_result [OF inv fits] acquire_locked_eq resident_def bt_get_insert
        split: option.splits if_splits)
qed

text \<open>A call with a valid spec that fits runs the locked part.\<close>

definition admitted :: "residency_cache \<Rightarrow> residency_spec \<Rightarrow> bool" where
  "admitted cache spec =
     (\<not> rc_poisoned cache \<and> spec_validate spec = Inr () \<and> rs_bytes spec \<le> rc_capacity_bytes cache)"

lemma acquire_admitted:
  "admitted cache spec \<Longrightarrow>
    rc_state (fst (acquire cache provider spec))
      = fst (acquire_locked (rc_capacity_bytes cache) provider spec (rc_state cache))"
  by (auto simp: admitted_def acquire_def with_lock_def not_less [symmetric] split: prod.split)

lemma acquire_ok_admitted:
  "snd (acquire cache provider spec) = Returned (Inr a) \<Longrightarrow> admitted cache spec \<and>
    snd (acquire_locked (rc_capacity_bytes cache) provider spec (rc_state cache)) = Returned (Inr a) \<and>
    \<not> rc_poisoned (fst (acquire cache provider spec))"
  by (auto simp: admitted_def acquire_def with_lock_def split: prod.splits sum.splits if_splits)

lemma acquire_poisons:
  assumes "residency_inv cache"
  shows "rc_poisoned (fst (acquire cache provider spec)) \<longleftrightarrow> rc_poisoned cache \<or>
      admitted cache spec \<and> resident spec (rc_state cache) = None \<and> provider spec = Unwound"
proof (cases "admitted cache spec")
  case False
  then show ?thesis
    by (auto simp: admitted_def acquire_def with_lock_def not_less split: sum.split)
next
  case True
  have inv: "state_inv (rc_capacity_bytes cache) (rc_state cache)"
    and fits: "rs_bytes spec \<le> rc_capacity_bytes cache"
    using assms True by (simp_all add: residency_inv_def admitted_def)
  have "rc_poisoned (fst (acquire cache provider spec)) \<longleftrightarrow>
      snd (acquire_locked (rc_capacity_bytes cache) provider spec (rc_state cache)) = Unwound"
    using True by (auto simp: admitted_def acquire_def with_lock_def not_less [symmetric] split: prod.split)
  with True show ?thesis
    by (auto simp: admitted_def acquire_locked_result [OF inv fits]
        split: option.split unwinding.split sum.split)
qed

lemma locked_poisoned:
  "rc_poisoned (fst (invalidate cache key)) = rc_poisoned cache"
  "rc_poisoned (fst (residency_clear cache)) = rc_poisoned cache"
  by (simp_all add: invalidate_def residency_clear_def with_lock_def)

lemma poisoned_refused:
  assumes "rc_poisoned cache"
  shows "fst (acquire cache provider spec) = cache"
    and "\<exists>e. snd (acquire cache provider spec) = Returned (Inl e)"
    and "invalidate cache key = (cache, Returned (Inl Poisoned))"
    and "residency_clear cache = (cache, Returned (Inl Poisoned))"
    and "residency_stats_of cache = (cache, Returned (Inl Poisoned))"
  using assms
  by (auto simp: invalidate_def residency_clear_def residency_stats_of_def acquire_def with_lock_def
      split: sum.split)

section \<open>Properties\<close>

text \<open>The concrete values the witnesses evaluate on.\<close>

definition demo_spec :: "string \<Rightarrow> u64 \<Rightarrow> residency_spec" where
  "demo_spec key bytes = \<lparr>rs_key = ResidencyKey key, rs_generation = 1, rs_device_index = 0, rs_bytes = bytes\<rparr>"

definition demo_provider :: residency_provider where
  "demo_provider spec = Returned (Inr \<lparr>al_handle = 7, al_spec = spec\<rparr>)"

definition demo_empty :: residency_cache where
  "demo_empty = \<lparr>rc_capacity_bytes = 10, rc_state = \<lparr>st_entries = [], st_resident_bytes = 0, st_clock = 0,
     st_hits = 0, st_misses = 0, st_evictions = 0\<rparr>, rc_poisoned = False\<rparr>"

definition demo_cache :: residency_cache where
  "demo_cache = fst (acquire (fst (acquire demo_empty demo_provider (demo_spec ''a'' 4))) demo_provider
     (demo_spec ''b'' 5))"

lemma demo_empty_reachable: "residency_reachable 10 demo_empty"
  by (rule reach_new) (simp add: residency_cache_new_def demo_empty_def)

lemma demo_cache_reachable: "residency_reachable 10 demo_cache"
  unfolding demo_cache_def by (intro reach_acquire demo_empty_reachable)

lemma demo_cache_inv: "residency_inv demo_cache" "rc_capacity_bytes demo_cache = 10"
  using reachable_inv [OF demo_cache_reachable] by simp_all

lemma demo_cache_eq:
  "demo_cache = \<lparr>rc_capacity_bytes = 10, rc_state =
     \<lparr>st_entries =
        [(ResidencyKey ''a'', \<lparr>ce_allocation = \<lparr>al_handle = 7, al_spec = demo_spec ''a'' 4\<rparr>, ce_last_touch = 1\<rparr>),
         (ResidencyKey ''b'', \<lparr>ce_allocation = \<lparr>al_handle = 7, al_spec = demo_spec ''b'' 5\<rparr>, ce_last_touch = 2\<rparr>)],
      st_resident_bytes = 9, st_clock = 2, st_hits = 0, st_misses = 2, st_evictions = 0\<rparr>,
     rc_poisoned = False\<rparr>"
  by code_simp

text \<open>
  C1. In every cache reached by creating one and calling \<open>acquire\<close>, \<open>invalidate\<close> and
  \<open>clear\<close> in any order, with providers that may fail, break their contract or panic,
  the entries are ordered by key, \<open>resident_bytes\<close> is exactly the sum of the bytes of the
  stored allocations, never above the capacity, and each entry holds a valid allocation of
  the key it is stored under.
\<close>

theorem residency_reachable_invariant:
  assumes "residency_reachable capacity cache"
  shows "bt_wf (st_entries (rc_state cache)) \<and>
    unat (st_resident_bytes (rc_state cache))
      = sum_list (map (\<lambda>(key, entry). unat (rs_bytes (al_spec (ce_allocation entry)))) (st_entries (rc_state cache))) \<and>
    st_resident_bytes (rc_state cache) \<le> capacity \<and>
    (\<forall>(key, entry) \<in> set (st_entries (rc_state cache)).
       rs_key (al_spec (ce_allocation entry)) = key \<and> spec_validate (al_spec (ce_allocation entry)) = Inr ())"
  using reachable_inv [OF assms]
  by (auto simp: residency_inv_def state_inv_def rstore.accounted_def entries_valid_def Let_def
      bt_weight_def entry_bytes_def case_prod_unfold comp_def)

theorem residency_reachable_invariant_witness:
  "bt_wf (st_entries (rc_state demo_cache)) \<and> st_resident_bytes (rc_state demo_cache) \<le> 10"
  using residency_reachable_invariant [OF demo_cache_reachable] by blast

text \<open>
  C2. The result of \<open>acquire\<close> is its contract: an invalid spec, a spec above the capacity
  and a poisoned lock are refused in this order; a resident allocation of the same spec is
  returned without asking the provider; otherwise the provider's answer is returned, an
  allocation of another spec as a contract violation. Making room never fails and never
  panics: no other capacity error and no other panic than the provider's exists.
\<close>

theorem acquire_result:
  assumes "residency_inv cache"
  shows "snd (acquire cache provider spec) = acquire_outcome cache provider spec"
  using assms by (rule acquire_eq_outcome)

theorem acquire_result_witness:
  "snd (acquire demo_cache demo_provider (demo_spec ''c'' 8))
    = acquire_outcome demo_cache demo_provider (demo_spec ''c'' 8)"
  using acquire_result [OF demo_cache_inv(1)] by simp

text \<open>
  C7. After a successful \<open>acquire\<close> the allocation is the requested one and stays resident:
  a second \<open>acquire\<close> of the same spec returns it whatever the provider would do, and counts
  a hit. A request of the same key with another generation, device or size is not served
  from it.
\<close>

theorem acquire_then_hit:
  assumes "residency_inv cache" and "acquire cache provider spec = (cache', Returned (Inr a))"
  shows "al_spec a = spec \<and>
    snd (acquire cache' provider' spec) = Returned (Inr a) \<and>
    st_hits (rc_state (fst (acquire cache' provider' spec))) = saturating_add (st_hits (rc_state cache')) 1 \<and>
    (spec' \<noteq> spec \<and> rs_key spec' = rs_key spec \<longrightarrow> resident spec' (rc_state cache') = None)"
proof -
  have inv: "state_inv (rc_capacity_bytes cache) (rc_state cache)"
    using assms(1) by (simp add: residency_inv_def)
  have snd: "snd (acquire cache provider spec) = Returned (Inr a)" and cache': "cache' = fst (acquire cache provider spec)"
    using assms(2) by simp_all
  from acquire_ok_admitted [OF snd] have adm: "admitted cache spec"
    and lk: "snd (acquire_locked (rc_capacity_bytes cache) provider spec (rc_state cache)) = Returned (Inr a)"
    and np: "\<not> rc_poisoned cache'" by (simp_all add: cache')
  from acquire_locked_resident [OF inv _ lk] adm obtain e where spec: "al_spec a = spec"
    and res: "resident spec (rc_state cache') = Some e" "ce_allocation e = a"
    by (auto simp: admitted_def cache' acquire_admitted [OF adm])
  have adm': "admitted cache' spec" using adm np by (simp add: admitted_def cache')
  have "residency_inv cache'" using acquire_inv [OF assms(1)] by (simp add: cache')
  from acquire_eq_outcome [OF this, of provider' spec] adm' res
  have "snd (acquire cache' provider' spec) = Returned (Inr a)"
    by (auto simp: acquire_outcome_def admitted_def spec_validate_def split: if_splits)
  then show ?thesis
    using spec res acquire_admitted [OF adm', of provider']
    by (auto simp: acquire_locked_eq resident_def split: option.splits if_splits)
qed

theorem acquire_then_hit_witness:
  "snd (acquire demo_cache (\<lambda>spec. Unwound) (demo_spec ''b'' 5))
    = Returned (Inr \<lparr>al_handle = 7, al_spec = demo_spec ''b'' 5\<rparr>)"
proof -
  let ?c = "fst (acquire demo_empty demo_provider (demo_spec ''a'' 4))"
  have inv: "residency_inv ?c"
    using reachable_inv [OF reach_acquire [OF demo_empty_reachable]] by blast
  have "acquire ?c demo_provider (demo_spec ''b'' 5)
      = (demo_cache, Returned (Inr \<lparr>al_handle = 7, al_spec = demo_spec ''b'' 5\<rparr>))"
    unfolding demo_cache_eq by code_simp
  from acquire_then_hit [OF inv this] show ?thesis by blast
qed

text \<open>
  C9. The lock is poisoned by nothing but a provider that panics while \<open>acquire\<close> holds it,
  which needs an admitted request that is not a hit. From then on every operation returns
  the poisoned error (an invalid or oversized request its own) and changes nothing.
\<close>

theorem residency_poisoning:
  assumes "residency_inv cache"
  shows "(rc_poisoned (fst (acquire cache provider spec)) \<longleftrightarrow> rc_poisoned cache \<or>
      admitted cache spec \<and> resident spec (rc_state cache) = None \<and> provider spec = Unwound) \<and>
    rc_poisoned (fst (invalidate cache key)) = rc_poisoned cache \<and>
    rc_poisoned (fst (residency_clear cache)) = rc_poisoned cache \<and>
    (rc_poisoned cache \<longrightarrow> fst (acquire cache provider spec) = cache \<and>
      (\<exists>e. snd (acquire cache provider spec) = Returned (Inl e)) \<and>
      invalidate cache key = (cache, Returned (Inl Poisoned)) \<and>
      residency_clear cache = (cache, Returned (Inl Poisoned)) \<and>
      residency_stats_of cache = (cache, Returned (Inl Poisoned)))"
  using acquire_poisons [OF assms, of provider spec]
  by (simp add: locked_poisoned poisoned_refused)

theorem residency_poisoning_witness:
  "rc_poisoned (fst (acquire demo_cache (\<lambda>spec. Unwound) (demo_spec ''c'' 3)))"
proof -
  have "admitted demo_cache (demo_spec ''c'' 3)" "resident (demo_spec ''c'' 3) (rc_state demo_cache) = None"
    unfolding demo_cache_eq by code_simp+
  with residency_poisoning [OF demo_cache_inv(1), THEN conjunct1] show ?thesis by simp
qed

text \<open>
  C8. The eviction loop of \<open>acquire\<close> ends. In every reachable cache, and for every size the
  capacity admits, it runs at most one round per entry, never reaches its \<open>expect\<close> or its
  error, makes enough room, and the counter of evictions grows, up to its maximum, by the
  number of rounds, which is the number of entries dropped.
\<close>

theorem eviction_loop_terminates:
  assumes "residency_reachable capacity cache" and "bytes \<le> capacity"
  shows "\<exists>s'. make_room capacity bytes (rc_state cache) = (s', Returned (Inr ()))
    \<and> unat (st_resident_bytes s') + unat bytes \<le> unat capacity
    \<and> length (st_entries s') \<le> length (st_entries (rc_state cache))
    \<and> unat (st_evictions s') = min (unat (st_evictions (rc_state cache))
        + (length (st_entries (rc_state cache)) - length (st_entries s'))) (2 ^ 64 - 1)"
proof -
  have inv: "state_inv capacity (rc_state cache)" using reachable_inv [OF assms(1)] by (auto simp: residency_inv_def)
  from make_room_run [OF this assms(2)] obtain s' where run: "make_room capacity bytes (rc_state cache) = (s', Returned (Inr ()))"
    "rstore.evicts (needs_room capacity bytes) (\<lambda>key. True) (rc_state cache) s'" "\<not> needs_room capacity bytes s'" by blast
  moreover have "unat (st_resident_bytes s') + unat bytes \<le> unat capacity"
    using run(3) by (simp add: needs_room_def over_capacity_iff)
  ultimately show ?thesis using evicts_rounds [OF run(2) inv] by blast
qed

theorem eviction_loop_terminates_witness:
  "\<exists>s'. make_room 10 6 (rc_state demo_cache) = (s', Returned (Inr ())) \<and> length (st_entries s') \<le> 2"
  using eviction_loop_terminates [OF demo_cache_reachable, of 6] by (auto simp: demo_cache_eq)

end
