(* ===== verification/Kv_Cache.thy ===== *)
theory Kv_Cache
  imports Residency
begin

text \<open>
  The crate \<open>vrb-kv-cache\<close>: the capacity-bounded metadata of KV blocks per sequence and
  layer. Every operation takes the cache and returns the new one beside its result, on
  error paths as well; \<open>Unwound\<close> stands for the \<open>expect\<close> on an eviction victim.
\<close>

section \<open>Data\<close>

datatype kv_cache_key = KvCacheKey (sequence_id: u64) (layer: u32)

text \<open>The derived \<open>Ord\<close> compares the fields in order.\<close>

instantiation kv_cache_key :: linorder
begin

definition less_eq_kv_cache_key :: "kv_cache_key \<Rightarrow> kv_cache_key \<Rightarrow> bool" where
  "less_eq_kv_cache_key a b =
     (sequence_id a < sequence_id b \<or> sequence_id a = sequence_id b \<and> layer a \<le> layer b)"

definition less_kv_cache_key :: "kv_cache_key \<Rightarrow> kv_cache_key \<Rightarrow> bool" where
  "less_kv_cache_key a b =
     (sequence_id a < sequence_id b \<or> sequence_id a = sequence_id b \<and> layer a < layer b)"

instance
  by standard (auto simp: less_eq_kv_cache_key_def less_kv_cache_key_def kv_cache_key.expand)

end

record kv_block =
  kb_token_start :: u64
  kb_token_count :: u32
  kb_key_resource :: residency_key
  kb_value_resource :: residency_key
  kb_bytes :: u64

record kv_entry =
  ke_blocks :: "kv_block list"
  ke_bytes :: u64
  ke_last_touch :: u64

record kv_cache_view =
  kv_key :: kv_cache_key
  kv_blocks :: "kv_block list"
  kv_bytes :: u64
  kv_tokens :: u64

record kv_cache_stats =
  kstat_entries :: nat
  kstat_blocks :: nat
  kstat_bytes :: u64
  kstat_evictions :: u64

record kv_cache =
  kc_capacity_bytes :: u64
  kc_entries :: "(kv_cache_key, kv_entry) btree_map"
  kc_bytes :: u64
  kc_clock :: u64
  kc_evictions :: u64

datatype kv_cache_error =
    KvZeroCapacity
  | InvalidBlock
  | TokenRangeOverflow
  | NonContiguous u64 u64
  | SizeOverflow
  | KvCapacityExceeded u64 u64

section \<open>Operations\<close>

definition token_end :: "kv_block \<Rightarrow> kv_cache_error + u64" where
  "token_end b = ok_or (checked_add (kb_token_start b) (ucast (kb_token_count b))) TokenRangeOverflow"

definition block_validate :: "kv_block \<Rightarrow> kv_cache_error + unit" where
  "block_validate b =
     (if kb_token_count b = 0 \<or> kb_bytes b = 0 then Inl InvalidBlock
      else and_then (token_end b) (\<lambda>_. Inr ()))"

definition kv_cache_new :: "u64 \<Rightarrow> kv_cache_error + kv_cache" where
  "kv_cache_new capacity_bytes =
     (if capacity_bytes = 0 then Inl KvZeroCapacity
      else Inr \<lparr>kc_capacity_bytes = capacity_bytes, kc_entries = [], kc_bytes = 0, kc_clock = 0,
        kc_evictions = 0\<rparr>)"

definition kv_evict :: "kv_cache_key \<Rightarrow> kv_cache \<Rightarrow> kv_cache" where
  "kv_evict victim c =
     (case bt_get (kc_entries c) victim of
        None \<Rightarrow> c
      | Some removed \<Rightarrow> c\<lparr>kc_entries := bt_remove victim (kc_entries c),
          kc_bytes := saturating_sub (kc_bytes c) (ke_bytes removed),
          kc_evictions := saturating_add (kc_evictions c) 1\<rparr>)"

function evict_for :: "kv_cache \<Rightarrow> kv_cache_key \<Rightarrow> u64 \<Rightarrow> kv_cache \<times> (kv_cache_error + unit) unwinding" where
  "evict_for c protected additional =
     (if over_capacity (kc_bytes c) additional (kc_capacity_bytes c) then
        case lru_victim ke_last_touch (\<lambda>key. key \<noteq> protected) (kc_entries c) of
          None \<Rightarrow> (c, Returned (Inl (KvCapacityExceeded (saturating_add (kc_bytes c) additional)
                   (kc_capacity_bytes c))))
        | Some victim \<Rightarrow>
            (case bt_get (kc_entries c) victim of
               None \<Rightarrow> (c, Unwound)
             | Some removed \<Rightarrow> evict_for (kv_evict victim c) protected additional)
      else (c, Returned (Inr ())))"
  by pat_completeness auto
termination
proof (relation "measure (\<lambda>(c, protected, additional). length (kc_entries c))")
  fix c :: kv_cache and protected victim removed and additional :: u64
  assume "bt_get (kc_entries c) victim = Some removed"
  then show "((kv_evict victim c, protected, additional), c, protected, additional)
      \<in> measure (\<lambda>(c, protected, additional). length (kc_entries c))"
    using bt_remove_length [of "kc_entries c" victim removed] by (simp add: kv_evict_def)
qed simp

declare evict_for.simps [simp del]

text \<open>The token a block of \<open>key\<close> has to start at, from the last block of its entry.\<close>

definition expected_start :: "kv_cache \<Rightarrow> kv_cache_key \<Rightarrow> kv_cache_error + u64" where
  "expected_start c key =
     (case bt_get (kc_entries c) key of
        None \<Rightarrow> Inr 0
      | Some entry \<Rightarrow>
          if ke_blocks entry = [] then Inl InvalidBlock else token_end (last (ke_blocks entry)))"

text \<open>The checks of \<open>append\<close> before it changes anything.\<close>

definition append_check :: "kv_cache \<Rightarrow> kv_cache_key \<Rightarrow> kv_block \<Rightarrow> kv_cache_error + unit" where
  "append_check c key block =
     and_then (block_validate block) (\<lambda>_.
     and_then (ensure (\<not> kc_capacity_bytes c < kb_bytes block)
       (KvCapacityExceeded (kb_bytes block) (kc_capacity_bytes c))) (\<lambda>_.
     and_then (expected_start c key) (\<lambda>start.
     and_then (ensure (kb_token_start block = start) (NonContiguous start (kb_token_start block))) (\<lambda>_.
     and_then (ok_or (checked_add
         (case bt_get (kc_entries c) key of None \<Rightarrow> 0 | Some entry \<Rightarrow> ke_bytes entry) (kb_bytes block))
       SizeOverflow) (\<lambda>new_entry_bytes.
     ensure (\<not> kc_capacity_bytes c < new_entry_bytes)
       (KvCapacityExceeded new_entry_bytes (kc_capacity_bytes c)))))))"

text \<open>The rest of \<open>append\<close>, once there is room: the clock, the entry and the total.\<close>

definition append_push :: "kv_cache \<Rightarrow> kv_cache_key \<Rightarrow> kv_block \<Rightarrow> kv_cache \<times> (kv_cache_error + unit) unwinding" where
  "append_push c0 key block =
     (let touch = next_clock (kc_clock c0);
          entry = (case bt_get (kc_entries c0) key of
                     Some entry \<Rightarrow> entry
                   | None \<Rightarrow> \<lparr>ke_blocks = [], ke_bytes = 0, ke_last_touch = touch\<rparr>);
          c = c0\<lparr>kc_clock := touch, kc_entries := bt_insert key entry (kc_entries c0)\<rparr>
      in case checked_add (ke_bytes entry) (kb_bytes block) of
           None \<Rightarrow> (c, Returned (Inl SizeOverflow))
         | Some grown_bytes \<Rightarrow>
             let c' = c\<lparr>kc_entries := bt_insert key
                   \<lparr>ke_blocks = ke_blocks entry @ [block], ke_bytes = grown_bytes, ke_last_touch = touch\<rparr>
                   (kc_entries c)\<rparr>
             in case checked_add (kc_bytes c') (kb_bytes block) of
                  None \<Rightarrow> (c', Returned (Inl SizeOverflow))
                | Some sum_bytes \<Rightarrow> (c'\<lparr>kc_bytes := sum_bytes\<rparr>, Returned (Inr ())))"

definition kv_append :: "kv_cache \<Rightarrow> kv_cache_key \<Rightarrow> kv_block \<Rightarrow> kv_cache \<times> (kv_cache_error + unit) unwinding" where
  "kv_append c key block =
     (case append_check c key block of
        Inl e \<Rightarrow> (c, Returned (Inl e))
      | Inr _ \<Rightarrow>
          (case evict_for c key (kb_bytes block) of
             (c', Unwound) \<Rightarrow> (c', Unwound)
           | (c', Returned (Inl e)) \<Rightarrow> (c', Returned (Inl e))
           | (c', Returned (Inr _)) \<Rightarrow> append_push c' key block))"

definition kv_view :: "kv_cache \<Rightarrow> kv_cache_key \<Rightarrow> kv_cache \<times> (kv_cache_error + kv_cache_view option)" where
  "kv_view c0 key =
     (let touch = next_clock (kc_clock c0);
          c = c0\<lparr>kc_clock := touch\<rparr>
      in case bt_get (kc_entries c) key of
           None \<Rightarrow> (c, Inr None)
         | Some entry \<Rightarrow>
             (c\<lparr>kc_entries := bt_insert key (entry\<lparr>ke_last_touch := touch\<rparr>) (kc_entries c)\<rparr>,
              and_then (if ke_blocks entry = [] then Inr 0 else token_end (last (ke_blocks entry)))
                (\<lambda>tokens. Inr (Some \<lparr>kv_key = key, kv_blocks = ke_blocks entry, kv_bytes = ke_bytes entry,
                   kv_tokens = tokens\<rparr>))))"

definition kv_remove :: "kv_cache \<Rightarrow> kv_cache_key \<Rightarrow> kv_cache \<times> bool" where
  "kv_remove c key =
     (case bt_get (kc_entries c) key of
        None \<Rightarrow> (c, False)
      | Some entry \<Rightarrow>
          (c\<lparr>kc_entries := bt_remove key (kc_entries c),
             kc_bytes := saturating_sub (kc_bytes c) (ke_bytes entry)\<rparr>, True))"

definition kv_clear :: "kv_cache \<Rightarrow> kv_cache" where
  "kv_clear c = c\<lparr>kc_entries := [], kc_bytes := 0\<rparr>"

definition kv_stats :: "kv_cache \<Rightarrow> kv_cache_stats" where
  "kv_stats c =
     \<lparr>kstat_entries = length (kc_entries c),
      kstat_blocks = sum_list (map (\<lambda>(key, entry). length (ke_blocks entry)) (kc_entries c)),
      kstat_bytes = kc_bytes c, kstat_evictions = kc_evictions c\<rparr>"

section \<open>The store\<close>

lemma kv_evict_entries: "kc_entries (kv_evict k c) = bt_remove k (kc_entries c)"
  by (simp add: kv_evict_def bt_remove_id split: option.split)

interpretation kstore: lru_store kc_entries kc_bytes ke_bytes ke_last_touch kv_evict
  by unfold_locales (simp_all add: kv_evict_entries, simp add: kv_evict_def)

text \<open>A run of blocks without gaps from token \<open>n\<close> on, and the tokens it holds.\<close>

fun contiguous :: "nat \<Rightarrow> kv_block list \<Rightarrow> bool" where
  "contiguous n [] = True"
| "contiguous n (b # bs) =
     (unat (kb_token_start b) = n \<and> contiguous (n + unat (kb_token_count b)) bs)"

definition block_tokens :: "kv_block list \<Rightarrow> nat" where
  "block_tokens bs = sum_list (map (\<lambda>b. unat (kb_token_count b)) bs)"

definition block_bytes :: "kv_block list \<Rightarrow> nat" where
  "block_bytes bs = sum_list (map (\<lambda>b. unat (kb_bytes b)) bs)"

definition entry_ok :: "kv_entry \<Rightarrow> bool" where
  "entry_ok e =
     (ke_blocks e \<noteq> [] \<and> contiguous 0 (ke_blocks e) \<and>
      (\<forall>b \<in> set (ke_blocks e). block_validate b = Inr ()) \<and>
      unat (ke_bytes e) = block_bytes (ke_blocks e))"

definition kv_inv :: "kv_cache \<Rightarrow> bool" where
  "kv_inv c =
     (kc_capacity_bytes c \<noteq> 0 \<and> kstore.accounted c \<and> kc_bytes c \<le> kc_capacity_bytes c \<and>
      (\<forall>(key, entry) \<in> set (kc_entries c). entry_ok entry))"

lemma block_sums [simp]:
  "block_tokens [] = 0" "block_bytes [] = 0"
  "block_tokens (b # bs) = unat (kb_token_count b) + block_tokens bs"
  "block_bytes (b # bs) = unat (kb_bytes b) + block_bytes bs"
  "block_tokens (xs @ ys) = block_tokens xs + block_tokens ys"
  "block_bytes (xs @ ys) = block_bytes xs + block_bytes ys"
  by (simp_all add: block_tokens_def block_bytes_def)

lemma contiguous_append:
  "contiguous n (xs @ ys) \<longleftrightarrow> contiguous n xs \<and> contiguous (n + block_tokens xs) ys"
  by (induction xs arbitrary: n) (auto simp: add.assoc)

lemma token_end_iff: "token_end b = Inr t \<longleftrightarrow> unat t = unat (kb_token_start b) + unat (kb_token_count b)"
proof -
  have "unat (ucast (kb_token_count b) :: u64) = unat (kb_token_count b)"
    by (simp add: unat_ucast_up)
  then show ?thesis by (simp add: token_end_def ok_or_Inr_iff checked_add_iff)
qed

lemma contiguous_token_end:
  assumes "contiguous n bs" "bs \<noteq> []" "token_end (last bs) = Inr t"
  shows "unat t = n + block_tokens bs"
proof -
  from assms(2) obtain xs b where bs: "bs = xs @ [b]" by (cases bs rule: rev_cases) auto
  with assms show ?thesis by (simp add: contiguous_append token_end_iff)
qed

section \<open>The eviction loop\<close>

lemma kv_inv_acc: "kv_inv c \<Longrightarrow> kstore.accounted c"
  by (simp add: kv_inv_def)

lemma kv_inv_wf: "kv_inv c \<Longrightarrow> bt_wf (kc_entries c)"
  by (simp add: kv_inv_def kstore.accounted_def)

lemma kv_inv_entry: "kv_inv c \<Longrightarrow> bt_get (kc_entries c) k = Some e \<Longrightarrow> entry_ok e"
  by (auto simp: kv_inv_def dest!: bt_get_mem)

lemma kv_evict_capacity [simp]: "kc_capacity_bytes (kv_evict k c) = kc_capacity_bytes c"
  "kc_clock (kv_evict k c) = kc_clock c"
  by (simp_all add: kv_evict_def split: option.split)

lemma kv_inv_evict: "kv_inv c \<Longrightarrow> kv_inv (kv_evict k c)"
proof (cases "bt_get (kc_entries c) k")
  case None
  then show "kv_inv c \<Longrightarrow> ?thesis" by (simp add: kv_evict_def)
next
  case (Some e)
  assume inv: "kv_inv c"
  from kstore.accounted_drop [OF kv_inv_acc [OF inv] Some] inv
  have "kstore.accounted (kv_evict k c)" "kc_bytes (kv_evict k c) \<le> kc_capacity_bytes c"
    by (auto simp: kv_inv_def word_le_nat_alt)
  with inv bt_remove_subset [of k "kc_entries c"] show ?thesis
    by (auto simp: kv_inv_def kv_evict_entries)
qed

definition kv_needs_room :: "u64 \<Rightarrow> kv_cache \<Rightarrow> bool" where
  "kv_needs_room additional c = over_capacity (kc_bytes c) additional (kc_capacity_bytes c)"

definition own_bytes :: "kv_cache \<Rightarrow> kv_cache_key \<Rightarrow> nat" where
  "own_bytes c key = (case bt_get (kc_entries c) key of None \<Rightarrow> 0 | Some e \<Rightarrow> unat (ke_bytes e))"

lemma evict_for_run:
  assumes "kv_inv c" and "own_bytes c key + unat additional \<le> unat (kc_capacity_bytes c)"
  shows "\<exists>c'. evict_for c key additional = (c', Returned (Inr ())) \<and>
    kstore.evicts (kv_needs_room additional) (\<lambda>k. k \<noteq> key) c c' \<and> \<not> kv_needs_room additional c' \<and>
    kv_inv c' \<and> kc_capacity_bytes c' = kc_capacity_bytes c \<and> kc_clock c' = kc_clock c"
  using assms
proof (induction c key additional rule: evict_for.induct)
  case (1 c key additional)
  note acc = kv_inv_acc [OF "1.prems"(1)]
  show ?case
  proof (cases "kv_needs_room additional c")
    case False
    then have "evict_for c key additional = (c, Returned (Inr ()))"
      by (simp add: evict_for.simps [of c key additional] kv_needs_room_def)
    with False "1.prems"(1) show ?thesis by (blast intro: kstore.evicts.intros)
  next
    case True
    obtain k where k: "lru_victim ke_last_touch (\<lambda>k. k \<noteq> key) (kc_entries c) = Some k"
    proof (cases "lru_victim ke_last_touch (\<lambda>k. k \<noteq> key) (kc_entries c)")
      case None
      from kstore.no_victim_used [OF acc None] True "1.prems"(2) have False
        by (simp add: kv_needs_room_def over_capacity_iff own_bytes_def)
      then show thesis ..
    qed
    obtain e where e: "bt_get (kc_entries c) k = Some e"
      by (rule kstore.victim_get [OF acc k]) blast
    have step: "evict_for c key additional = evict_for (kv_evict k c) key additional"
      using True k e by (simp add: evict_for.simps [of c key additional] kv_needs_room_def)
    have "k \<noteq> key" using k by (auto dest: lru_victim_key)
    then have own: "own_bytes (kv_evict k c) key = own_bytes c key"
      by (simp add: own_bytes_def kv_evict_entries bt_get_remove kv_inv_wf [OF "1.prems"(1)])
    have "\<exists>c'. evict_for (kv_evict k c) key additional = (c', Returned (Inr ())) \<and>
        kstore.evicts (kv_needs_room additional) (\<lambda>k. k \<noteq> key) (kv_evict k c) c' \<and>
        \<not> kv_needs_room additional c' \<and> kv_inv c' \<and>
        kc_capacity_bytes c' = kc_capacity_bytes (kv_evict k c) \<and> kc_clock c' = kc_clock (kv_evict k c)"
      by (rule "1.IH")
        (use True k e "1.prems" own kv_inv_evict in \<open>simp_all add: kv_needs_room_def\<close>)
    with True k show ?thesis unfolding step kv_evict_capacity by (blast intro: kstore.evicts.intros)
  qed
qed

section \<open>Appending\<close>

text \<open>What the key holds, in tokens and bytes.\<close>

definition key_blocks :: "kv_cache \<Rightarrow> kv_cache_key \<Rightarrow> kv_block list" where
  "key_blocks c key = (case bt_get (kc_entries c) key of None \<Rightarrow> [] | Some e \<Rightarrow> ke_blocks e)"

lemma key_blocks_None: "kv_inv c \<Longrightarrow> bt_get (kc_entries c) key = None \<longleftrightarrow> key_blocks c key = []"
  by (auto simp: key_blocks_def entry_ok_def dest: kv_inv_entry split: option.split)

lemma own_bytes_eq: "kv_inv c \<Longrightarrow> own_bytes c key = block_bytes (key_blocks c key)"
  by (auto simp: key_blocks_def own_bytes_def entry_ok_def dest: kv_inv_entry split: option.split)

lemma block_validate_iff: "block_validate b = Inr () \<longleftrightarrow>
    kb_token_count b \<noteq> 0 \<and> kb_bytes b \<noteq> 0 \<and> unat (kb_token_start b) + unat (kb_token_count b) < 2 ^ 64"
proof -
  have "(\<exists>t. token_end b = Inr t) \<longleftrightarrow> unat (kb_token_start b) + unat (kb_token_count b) < 2 ^ 64"
  proof -
    have "unat (ucast (kb_token_count b) :: u64) = unat (kb_token_count b)" by (simp add: unat_ucast_up)
    then show ?thesis by (simp add: token_end_def ok_or_Inr_iff checked_add_def)
  qed
  then show ?thesis by (auto simp: block_validate_def and_then_Inr_iff)
qed

lemma expected_start_eq:
  assumes "kv_inv c"
  shows "\<exists>t. expected_start c key = Inr t \<and> unat t = block_tokens (key_blocks c key)"
proof (cases "bt_get (kc_entries c) key")
  case None
  then show ?thesis by (simp add: expected_start_def key_blocks_def)
next
  case (Some e)
  then have ok: "entry_ok e" by (rule kv_inv_entry [OF assms])
  then have "block_validate (last (ke_blocks e)) = Inr ()" by (simp add: entry_ok_def)
  then obtain t where t: "token_end (last (ke_blocks e)) = Inr t"
    by (auto simp: block_validate_def and_then_Inr_iff split: if_splits)
  with contiguous_token_end [OF _ _ t] ok Some show ?thesis
    by (auto simp: expected_start_def key_blocks_def entry_ok_def)
qed

text \<open>The contract of \<open>append\<close>: its result as a function of what the cache holds.\<close>

definition append_outcome :: "kv_cache \<Rightarrow> kv_cache_key \<Rightarrow> kv_block \<Rightarrow> kv_cache_error + unit" where
  "append_outcome c key block =
     (let tokens = block_tokens (key_blocks c key);
          bytes = block_bytes (key_blocks c key) + unat (kb_bytes block)
      in if kb_token_count block = 0 \<or> kb_bytes block = 0 then Inl InvalidBlock
         else if 2 ^ 64 \<le> unat (kb_token_start block) + unat (kb_token_count block) then Inl TokenRangeOverflow
         else if kc_capacity_bytes c < kb_bytes block
         then Inl (KvCapacityExceeded (kb_bytes block) (kc_capacity_bytes c))
         else if unat (kb_token_start block) \<noteq> tokens
         then Inl (NonContiguous (of_nat tokens) (kb_token_start block))
         else if 2 ^ 64 \<le> bytes then Inl SizeOverflow
         else if unat (kc_capacity_bytes c) < bytes
         then Inl (KvCapacityExceeded (of_nat bytes) (kc_capacity_bytes c))
         else Inr ())"

lemma block_validate_cases: "block_validate b =
    (if kb_token_count b = 0 \<or> kb_bytes b = 0 then Inl InvalidBlock
     else if 2 ^ 64 \<le> unat (kb_token_start b) + unat (kb_token_count b) then Inl TokenRangeOverflow
     else Inr ())"
proof -
  have "unat (ucast (kb_token_count b) :: u64) = unat (kb_token_count b)" by (simp add: unat_ucast_up)
  then show ?thesis by (simp add: block_validate_def token_end_def checked_add_def)
qed

lemma append_check_eq:
  assumes inv: "kv_inv c"
  shows "append_check c key block = append_outcome c key block"
proof -
  obtain t where t: "expected_start c key = Inr t" "unat t = block_tokens (key_blocks c key)"
    using expected_start_eq [OF inv] by blast
  then have t': "t = of_nat (block_tokens (key_blocks c key))" by (metis unat_of_nat_inverse)
  have own: "unat (case bt_get (kc_entries c) key of None \<Rightarrow> 0 | Some e \<Rightarrow> ke_bytes e)
      = block_bytes (key_blocks c key)"
    using own_bytes_eq [OF inv, of key] by (simp add: own_bytes_def split: option.splits)
  let ?own = "case bt_get (kc_entries c) key of None \<Rightarrow> 0 | Some e \<Rightarrow> ke_bytes e"
  have start: "kb_token_start block = t \<longleftrightarrow> unat (kb_token_start block) = block_tokens (key_blocks c key)"
    using t(2) by (simp add: word_unat_eq_iff)
  have sum_eq: "of_nat (block_bytes (key_blocks c key) + unat (kb_bytes block)) = ?own + kb_bytes block"
    by (metis own of_nat_add unat_of_nat_inverse)
  have less: "kc_capacity_bytes c < ?own + kb_bytes block \<longleftrightarrow>
      unat (kc_capacity_bytes c) < block_bytes (key_blocks c key) + unat (kb_bytes block)"
    if "block_bytes (key_blocks c key) + unat (kb_bytes block) < 2 ^ 64"
    using that own by (simp add: word_less_nat_alt unat_word_ariths)
  show ?thesis
    unfolding append_check_def append_outcome_def Let_def block_validate_cases t(1) checked_add_def own
      sum_eq t' [symmetric]
    using start less by (auto simp: ensure_def not_le not_less)
qed

definition pushed :: "kv_cache \<Rightarrow> kv_cache_key \<Rightarrow> kv_block \<Rightarrow> kv_cache" where
  "pushed c key block =
     c\<lparr>kc_clock := next_clock (kc_clock c),
       kc_entries := bt_insert key
         \<lparr>ke_blocks = key_blocks c key @ [block],
          ke_bytes = of_nat (own_bytes c key) + kb_bytes block,
          ke_last_touch = next_clock (kc_clock c)\<rparr> (kc_entries c),
       kc_bytes := kc_bytes c + kb_bytes block\<rparr>"

lemma bt_insert_twice: "bt_insert k v (bt_insert k v' m) = bt_insert k v m"
  by (induction m) auto

lemma own_bytes_le: "kv_inv c \<Longrightarrow> own_bytes c key \<le> unat (kc_bytes c)"
  using kv_inv_acc [of c] bt_weight_get_le [of "kc_entries c" key _ "\<lambda>e. unat (ke_bytes e)"]
  by (auto simp: own_bytes_def kstore.accounted_def split: option.split)

lemma key_blocks_ok:
  assumes "kv_inv c"
  shows "contiguous 0 (key_blocks c key)" and "\<forall>b \<in> set (key_blocks c key). block_validate b = Inr ()"
proof (atomize (full), cases "bt_get (kc_entries c) key")
  case (Some e)
  with kv_inv_entry [OF assms Some] show "contiguous 0 (key_blocks c key) \<and>
      (\<forall>b \<in> set (key_blocks c key). block_validate b = Inr ())"
    by (simp add: key_blocks_def entry_ok_def)
qed (simp add: key_blocks_def)

lemma append_push_eq:
  assumes "kv_inv c" and room: "unat (kc_bytes c) + unat (kb_bytes block) < 2 ^ 64"
  shows "append_push c key block = (pushed c key block, Returned (Inr ()))"
proof -
  from own_bytes_le [OF assms(1), of key] room have lt: "own_bytes c key + unat (kb_bytes block) < 2 ^ 64" by linarith
  show ?thesis
    using room lt
    by (cases "bt_get (kc_entries c) key")
      (simp_all add: append_push_def Let_def checked_add_def own_bytes_def pushed_def key_blocks_def
        bt_insert_twice)
qed

lemma pushed_inv:
  assumes inv: "kv_inv c" and room: "unat (kc_bytes c) + unat (kb_bytes block) \<le> unat (kc_capacity_bytes c)"
    and ok: "block_validate block = Inr ()" "unat (kb_token_start block) = block_tokens (key_blocks c key)"
  shows "kv_inv (pushed c key block)"
proof -
  let ?e = "\<lparr>ke_blocks = key_blocks c key @ [block], ke_bytes = of_nat (own_bytes c key) + kb_bytes block,
     ke_last_touch = next_clock (kc_clock c)\<rparr>"
  let ?f = "\<lambda>e. unat (ke_bytes e)"
  have acc: "unat (kc_bytes c) = bt_weight ?f (kc_entries c)" and wf: "bt_wf (kc_entries c)"
    using kv_inv_acc [OF inv] by (simp_all add: kstore.accounted_def)
  note own = own_bytes_le [OF inv, of key]
  have cap: "unat (kc_capacity_bytes c) < 2 ^ 64" using unat_lt2p_num by simp
  have e_bytes: "?f ?e = own_bytes c key + unat (kb_bytes block)"
    using own room cap by (simp add: unat_word_ariths unat_of_nat)
  have sum_eq: "unat (kc_bytes c + kb_bytes block) = unat (kc_bytes c) + unat (kb_bytes block)"
    using room cap by (simp add: unat_word_ariths)
  have "bt_weight ?f (bt_insert key ?e (kc_entries c)) = unat (kc_bytes c) + unat (kb_bytes block)"
  proof (cases "bt_get (kc_entries c) key")
    case None
    with e_bytes acc show ?thesis by (simp add: bt_weight_insert_new own_bytes_def)
  next
    case (Some e')
    with e_bytes acc bt_weight_insert_old [OF wf Some, of ?f ?e] show ?thesis
      by (simp add: own_bytes_def)
  qed
  moreover have "entry_ok ?e"
    using key_blocks_ok [OF inv, of key] ok e_bytes own_bytes_eq [OF inv, of key]
    by (simp add: entry_ok_def contiguous_append)
  ultimately show ?thesis
    using inv wf room sum_eq
    by (auto simp: kv_inv_def kstore.accounted_def pushed_def bt_wf_insert bt_set_insert word_le_nat_alt)
qed

text \<open>The state \<open>append\<close> pushes into: the loop's result.\<close>

definition evicted :: "kv_cache \<Rightarrow> kv_cache_key \<Rightarrow> kv_block \<Rightarrow> kv_cache" where
  "evicted c key block = fst (evict_for c key (kb_bytes block))"

lemma append_outcome_ok:
  "append_outcome c key block = Inr () \<longleftrightarrow>
    block_validate block = Inr () \<and> unat (kb_token_start block) = block_tokens (key_blocks c key) \<and>
    block_bytes (key_blocks c key) + unat (kb_bytes block) \<le> unat (kc_capacity_bytes c)"
  using unat_lt2p_num [of "kc_capacity_bytes c"]
  by (auto simp: append_outcome_def Let_def block_validate_iff word_less_nat_alt not_le)

lemma evicted_run:
  assumes inv: "kv_inv c" and ok: "append_outcome c key block = Inr ()"
  shows "evict_for c key (kb_bytes block) = (evicted c key block, Returned (Inr ()))"
    and "kstore.evicts (kv_needs_room (kb_bytes block)) (\<lambda>k. k \<noteq> key) c (evicted c key block)"
    and "unat (kc_bytes (evicted c key block)) + unat (kb_bytes block) \<le> unat (kc_capacity_bytes c)"
    and "kv_inv (evicted c key block)"
    and "kc_capacity_bytes (evicted c key block) = kc_capacity_bytes c"
    and "kc_clock (evicted c key block) = kc_clock c"
proof -
  have "own_bytes c key + unat (kb_bytes block) \<le> unat (kc_capacity_bytes c)"
    using ok by (simp add: append_outcome_ok own_bytes_eq [OF inv])
  from evict_for_run [OF inv this] obtain c' where
    c': "evict_for c key (kb_bytes block) = (c', Returned (Inr ()))"
      "kstore.evicts (kv_needs_room (kb_bytes block)) (\<lambda>k. k \<noteq> key) c c'"
      "\<not> kv_needs_room (kb_bytes block) c'" "kv_inv c'"
      "kc_capacity_bytes c' = kc_capacity_bytes c" "kc_clock c' = kc_clock c" by blast
  moreover from c'(1) have "evicted c key block = c'" by (simp add: evicted_def)
  moreover from c'(3,5) have "unat (kc_bytes c') + unat (kb_bytes block) \<le> unat (kc_capacity_bytes c)"
    by (simp add: kv_needs_room_def over_capacity_iff)
  ultimately show
    "evict_for c key (kb_bytes block) = (evicted c key block, Returned (Inr ()))"
    "kstore.evicts (kv_needs_room (kb_bytes block)) (\<lambda>k. k \<noteq> key) c (evicted c key block)"
    "unat (kc_bytes (evicted c key block)) + unat (kb_bytes block) \<le> unat (kc_capacity_bytes c)"
    "kv_inv (evicted c key block)"
    "kc_capacity_bytes (evicted c key block) = kc_capacity_bytes c"
    "kc_clock (evicted c key block) = kc_clock c" by simp_all
qed

lemma evicted_own:
  assumes inv: "kv_inv c" and ok: "append_outcome c key block = Inr ()"
  shows "bt_get (kc_entries (evicted c key block)) key = bt_get (kc_entries c) key"
  by (rule kstore.evicts_protected [OF evicted_run(2) [OF inv ok] kv_inv_acc [OF inv]]) simp

lemma kv_append_eq:
  assumes inv: "kv_inv c"
  shows "kv_append c key block =
    (case append_outcome c key block of
       Inl e \<Rightarrow> (c, Returned (Inl e))
     | Inr _ \<Rightarrow> (pushed (evicted c key block) key block, Returned (Inr ())))"
proof (cases "append_outcome c key block")
  case (Inl e)
  then show ?thesis by (simp add: kv_append_def append_check_eq [OF inv])
next
  case (Inr u)
  then have ok: "append_outcome c key block = Inr ()" by simp
  note run = evicted_run [OF inv ok]
  have "append_push (evicted c key block) key block
      = (pushed (evicted c key block) key block, Returned (Inr ()))"
    by (rule append_push_eq [OF run(4)]) (use run(3) unat_lt2p_num [of "kc_capacity_bytes c"] in simp)
  with ok show ?thesis by (simp add: kv_append_def append_check_eq [OF inv] run(1))
qed

lemma kv_append_inv: "kv_inv c \<Longrightarrow> kv_inv (fst (kv_append c key block))"
proof (cases "append_outcome c key block")
  case (Inl e)
  then show "kv_inv c \<Longrightarrow> ?thesis" by (simp add: kv_append_eq)
next
  case (Inr u)
  then have ok: "append_outcome c key block = Inr ()" by simp
  assume inv: "kv_inv c"
  note run = evicted_run [OF inv ok]
  have "key_blocks (evicted c key block) key = key_blocks c key"
    by (simp add: key_blocks_def evicted_own [OF inv ok])
  with ok run have "kv_inv (pushed (evicted c key block) key block)"
    by (intro pushed_inv) (simp_all add: append_outcome_ok)
  with ok show ?thesis by (simp add: kv_append_eq [OF inv])
qed

section \<open>Viewing, removing, clearing\<close>

lemma kv_touch_inv:
  assumes inv: "kv_inv c" and get: "bt_get (kc_entries c) key = Some e"
  shows "kv_inv (c\<lparr>kc_clock := t, kc_entries := bt_insert key (e\<lparr>ke_last_touch := t\<rparr>) (kc_entries c)\<rparr>)"
proof -
  have wf: "bt_wf (kc_entries c)" using inv by (rule kv_inv_wf)
  have "bt_weight (\<lambda>e. unat (ke_bytes e)) (bt_insert key (e\<lparr>ke_last_touch := t\<rparr>) (kc_entries c))
      = bt_weight (\<lambda>e. unat (ke_bytes e)) (kc_entries c)"
    using bt_weight_insert_old [OF wf get, of "\<lambda>e. unat (ke_bytes e)" "e\<lparr>ke_last_touch := t\<rparr>"] by simp
  moreover have "entry_ok (e\<lparr>ke_last_touch := t\<rparr>)"
    using kv_inv_entry [OF inv get] by (simp add: entry_ok_def)
  ultimately show ?thesis
    using inv wf by (auto simp: kv_inv_def kstore.accounted_def bt_wf_insert bt_set_insert)
qed

lemma kv_inv_clock: "kv_inv (c\<lparr>kc_clock := t\<rparr>) = kv_inv c" "kv_inv (c\<lparr>kc_evictions := n\<rparr>) = kv_inv c"
  by (simp_all add: kv_inv_def kstore.accounted_def)

lemma kv_view_inv: "kv_inv c \<Longrightarrow> kv_inv (fst (kv_view c key))"
  by (auto simp: kv_view_def Let_def kv_inv_clock dest: kv_touch_inv split: option.split)

lemma kv_remove_eq: "kc_entries (fst (kv_remove c key)) = kc_entries (kv_evict key c) \<and>
    kc_bytes (fst (kv_remove c key)) = kc_bytes (kv_evict key c) \<and>
    kc_capacity_bytes (fst (kv_remove c key)) = kc_capacity_bytes c"
  by (simp add: kv_remove_def kv_evict_def split: option.split)

lemma kv_remove_inv: "kv_inv c \<Longrightarrow> kv_inv (fst (kv_remove c key))"
  using kv_inv_evict [of c key] by (simp add: kv_inv_def kstore.accounted_def kv_remove_eq)

lemma kv_clear_inv: "kv_inv c \<Longrightarrow> kv_inv (kv_clear c)"
  by (simp add: kv_inv_def kstore.accounted_def kv_clear_def)

lemma kv_new_inv: "kv_cache_new capacity = Inr c \<Longrightarrow> kv_inv c"
  by (auto simp: kv_cache_new_def kv_inv_def kstore.accounted_def split: if_splits)

inductive kv_reachable :: "u64 \<Rightarrow> kv_cache \<Rightarrow> bool" where
  kv_reach_new: "kv_cache_new capacity = Inr c \<Longrightarrow> kv_reachable capacity c"
| kv_reach_append: "kv_reachable capacity c \<Longrightarrow> kv_reachable capacity (fst (kv_append c key block))"
| kv_reach_view: "kv_reachable capacity c \<Longrightarrow> kv_reachable capacity (fst (kv_view c key))"
| kv_reach_remove: "kv_reachable capacity c \<Longrightarrow> kv_reachable capacity (fst (kv_remove c key))"
| kv_reach_clear: "kv_reachable capacity c \<Longrightarrow> kv_reachable capacity (kv_clear c)"

lemma kv_append_capacity: "kv_inv c \<Longrightarrow> kc_capacity_bytes (fst (kv_append c key block)) = kc_capacity_bytes c"
  using evicted_run(5) [of c key block]
  by (auto simp: kv_append_eq pushed_def split: sum.split)

lemma kv_reachable_inv: "kv_reachable capacity c \<Longrightarrow> kv_inv c \<and> kc_capacity_bytes c = capacity"
proof (induction rule: kv_reachable.induct)
  case (kv_reach_new capacity c)
  then show ?case using kv_new_inv [OF kv_reach_new] by (auto simp: kv_cache_new_def split: if_splits)
next
  case (kv_reach_append capacity c key block)
  then show ?case by (simp add: kv_append_inv kv_append_capacity)
next
  case (kv_reach_view capacity c key)
  then show ?case using kv_view_inv [of c key] by (simp add: kv_view_def Let_def split: option.split)
next
  case (kv_reach_remove capacity c key)
  then show ?case by (simp add: kv_remove_inv kv_remove_eq)
next
  case (kv_reach_clear capacity c)
  then show ?case using kv_clear_inv [of c] by (simp add: kv_clear_def)
qed

lemma kv_append_others:
  assumes inv: "kv_inv c" and ok: "append_outcome c key block = Inr ()" and k: "k \<noteq> key"
  shows "bt_get (kc_entries (fst (kv_append c key block))) k = bt_get (kc_entries (evicted c key block)) k"
  using ok k by (simp add: kv_append_eq [OF inv] pushed_def bt_get_insert)

lemma kv_append_own:
  assumes inv: "kv_inv c" and ok: "append_outcome c key block = Inr ()"
  shows "key_blocks (fst (kv_append c key block)) key = key_blocks c key @ [block]"
  using ok
  by (simp add: kv_append_eq [OF inv] pushed_def bt_get_insert key_blocks_def evicted_own [OF inv ok])

section \<open>Properties\<close>

definition demo_block :: "u64 \<Rightarrow> u32 \<Rightarrow> u64 \<Rightarrow> kv_block" where
  "demo_block start count bytes =
     \<lparr>kb_token_start = start, kb_token_count = count, kb_key_resource = ResidencyKey ''k'',
      kb_value_resource = ResidencyKey ''v'', kb_bytes = bytes\<rparr>"

definition demo_kv_empty :: kv_cache where
  "demo_kv_empty = \<lparr>kc_capacity_bytes = 100, kc_entries = [], kc_bytes = 0, kc_clock = 0, kc_evictions = 0\<rparr>"

definition demo_kv :: kv_cache where
  "demo_kv = fst (kv_append (fst (kv_append demo_kv_empty (KvCacheKey 1 0) (demo_block 0 16 40)))
     (KvCacheKey 2 0) (demo_block 0 16 50))"

lemma demo_kv_reachable: "kv_reachable 100 demo_kv"
  unfolding demo_kv_def
  by (intro kv_reach_append kv_reach_new) (simp add: kv_cache_new_def demo_kv_empty_def)

lemma demo_kv_inv: "kv_inv demo_kv"
  using kv_reachable_inv [OF demo_kv_reachable] by simp

lemma demo_kv_eq:
  "demo_kv = \<lparr>kc_capacity_bytes = 100, kc_entries =
     [(KvCacheKey 1 0, \<lparr>ke_blocks = [demo_block 0 16 40], ke_bytes = 40, ke_last_touch = 1\<rparr>),
      (KvCacheKey 2 0, \<lparr>ke_blocks = [demo_block 0 16 50], ke_bytes = 50, ke_last_touch = 2\<rparr>)],
     kc_bytes = 90, kc_clock = 2, kc_evictions = 0\<rparr>"
  by code_simp

text \<open>
  C5. In every KV cache reached by \<open>append\<close>, \<open>view\<close>, \<open>remove\<close> and \<open>clear\<close> calls, failing
  ones included, \<open>bytes\<close> is the sum of the bytes of all blocks of all entries and never
  exceeds the capacity, and the blocks of each entry are valid and cover its tokens from 0
  on without gap or overlap.
\<close>

theorem kv_reachable_invariant:
  assumes "kv_reachable capacity c"
  shows "unat (kc_bytes c) = sum_list (map (\<lambda>(key, entry). block_bytes (ke_blocks entry)) (kc_entries c)) \<and>
    kc_bytes c \<le> capacity \<and> bt_wf (kc_entries c) \<and>
    (\<forall>(key, entry) \<in> set (kc_entries c). ke_blocks entry \<noteq> [] \<and> contiguous 0 (ke_blocks entry) \<and>
       (\<forall>b \<in> set (ke_blocks entry). block_validate b = Inr ()))"
proof -
  from kv_reachable_inv [OF assms] have inv: "kv_inv c" and cap: "kc_capacity_bytes c = capacity" by simp_all
  then have bytes: "sum_list (map (\<lambda>(key, entry). block_bytes (ke_blocks entry)) (kc_entries c))
      = bt_weight (\<lambda>e. unat (ke_bytes e)) (kc_entries c)"
    unfolding bt_weight_def by (intro arg_cong [of _ _ sum_list] map_cong) (auto simp: kv_inv_def entry_ok_def)
  show ?thesis
    unfolding bytes using inv cap by (auto simp: kv_inv_def kstore.accounted_def entry_ok_def)
qed

theorem kv_reachable_invariant_witness: "kc_bytes demo_kv \<le> 100 \<and> bt_wf (kc_entries demo_kv)"
  using kv_reachable_invariant [OF demo_kv_reachable] by blast

text \<open>
  C3. The result of \<open>append\<close> is decided by the block and what the key already holds: the
  block's own validity, its size against the capacity, its start against the tokens held,
  and the key's new total against the capacity, in this order. Evicting other keys then
  always makes enough room, so there is no other error and no panic; and a refused block
  leaves the cache as it was, without even an eviction.
\<close>

theorem kv_append_result:
  assumes "kv_inv c"
  shows "snd (kv_append c key block) = Returned (append_outcome c key block) \<and>
    (\<forall>e. append_outcome c key block = Inl e \<longrightarrow> fst (kv_append c key block) = c)"
  using assms by (auto simp: kv_append_eq split: sum.split)

theorem kv_append_result_witness:
  "snd (kv_append demo_kv (KvCacheKey 1 0) (demo_block 15 1 1)) = Returned (Inl (NonContiguous 16 15)) \<and>
   fst (kv_append demo_kv (KvCacheKey 1 0) (demo_block 15 1 1)) = demo_kv"
proof -
  have "append_outcome demo_kv (KvCacheKey 1 0) (demo_block 15 1 1) = Inl (NonContiguous 16 15)"
    unfolding demo_kv_eq by code_simp
  with kv_append_result [OF demo_kv_inv, of "KvCacheKey 1 0" "demo_block 15 1 1"] show ?thesis by simp
qed

text \<open>
  C4. A successful \<open>append\<close> adds the block at the end of the key's blocks and makes the key
  the most recently touched. No other entry changes: some may be evicted, each touched no
  later than every other entry that stays, and none when the block fits beside the bytes in
  use.
\<close>

theorem kv_append_effect:
  assumes inv: "kv_inv c" and ok: "snd (kv_append c key block) = Returned (Inr ())"
  shows "key_blocks (fst (kv_append c key block)) key = key_blocks c key @ [block] \<and>
    map_option ke_last_touch (bt_get (kc_entries (fst (kv_append c key block))) key)
      = Some (next_clock (kc_clock c)) \<and>
    (\<forall>k e. k \<noteq> key \<longrightarrow> bt_get (kc_entries (fst (kv_append c key block))) k = Some e \<longrightarrow>
      bt_get (kc_entries c) k = Some e) \<and>
    (\<forall>k k' e e'. k \<noteq> key \<and> k' \<noteq> key \<and> bt_get (kc_entries c) k = Some e \<and>
      bt_get (kc_entries (fst (kv_append c key block))) k = None \<and>
      bt_get (kc_entries (fst (kv_append c key block))) k' = Some e' \<longrightarrow>
      ke_last_touch e \<le> ke_last_touch e') \<and>
    (unat (kc_bytes c) + unat (kb_bytes block) \<le> unat (kc_capacity_bytes c) \<longrightarrow>
      (\<forall>k. k \<noteq> key \<longrightarrow> bt_get (kc_entries (fst (kv_append c key block))) k = bt_get (kc_entries c) k))"
proof -
  have out: "append_outcome c key block = Inr ()"
    using ok by (simp add: kv_append_eq [OF inv] split: sum.splits)
  note run = evicted_run [OF inv out] and acc = kv_inv_acc [OF inv]
  have touch: "map_option ke_last_touch (bt_get (kc_entries (fst (kv_append c key block))) key)
      = Some (next_clock (kc_clock c))"
    using out run(6) by (simp add: kv_append_eq [OF inv] pushed_def bt_get_insert)
  have fit: "evicted c key block = c"
    if "unat (kc_bytes c) + unat (kb_bytes block) \<le> unat (kc_capacity_bytes c)"
    by (rule kstore.evicts_no_need [OF run(2)]) (use that in \<open>simp add: kv_needs_room_def over_capacity_iff\<close>)
  note others = kv_append_others [OF inv out]
  show ?thesis
  proof (intro conjI allI impI)
    show "key_blocks (fst (kv_append c key block)) key = key_blocks c key @ [block]"
      by (rule kv_append_own [OF inv out])
  next
    fix k e
    assume "k \<noteq> key" "bt_get (kc_entries (fst (kv_append c key block))) k = Some e"
    then show "bt_get (kc_entries c) k = Some e"
      by (intro kstore.evicts_get_subset [OF run(2) acc]) (simp add: others)
  next
    fix k k' e e'
    assume a: "k \<noteq> key \<and> k' \<noteq> key \<and> bt_get (kc_entries c) k = Some e \<and>
      bt_get (kc_entries (fst (kv_append c key block))) k = None \<and>
      bt_get (kc_entries (fst (kv_append c key block))) k' = Some e'"
    then show "ke_last_touch e \<le> ke_last_touch e'"
      by (intro kstore.evicts_lru [OF run(2) acc, of k e k' e'])
        (simp_all add: others [of k, symmetric] others [of k', symmetric])
  qed (use touch fit others in simp_all)
qed

theorem kv_append_effect_witness:
  "key_blocks (fst (kv_append demo_kv (KvCacheKey 2 0) (demo_block 16 4 20))) (KvCacheKey 2 0)
    = [demo_block 0 16 50, demo_block 16 4 20]"
proof -
  have "snd (kv_append demo_kv (KvCacheKey 2 0) (demo_block 16 4 20)) = Returned (Inr ())"
    unfolding demo_kv_eq by code_simp
  from kv_append_effect [OF demo_kv_inv this] have
    "key_blocks (fst (kv_append demo_kv (KvCacheKey 2 0) (demo_block 16 4 20))) (KvCacheKey 2 0)
      = key_blocks demo_kv (KvCacheKey 2 0) @ [demo_block 16 4 20]" by blast
  then show ?thesis by (simp add: demo_kv_eq key_blocks_def)
qed

text \<open>
  \<open>view\<close> returns what the key holds: its blocks, their bytes and the number of their
  tokens, or nothing for an unknown key; it never fails, and changes nothing but the clock
  and the touch of that entry. \<open>remove\<close> takes one entry out, says whether it was there,
  and gives back exactly its bytes.
\<close>

theorem kv_view_remove:
  assumes inv: "kv_inv c"
  shows "snd (kv_view c key) = Inr (map_option (\<lambda>e. \<lparr>kv_key = key, kv_blocks = ke_blocks e, kv_bytes = ke_bytes e,
        kv_tokens = of_nat (block_tokens (ke_blocks e))\<rparr>) (bt_get (kc_entries c) key)) \<and>
    (\<forall>k. map_option ke_blocks (bt_get (kc_entries (fst (kv_view c key))) k)
      = map_option ke_blocks (bt_get (kc_entries c) k)) \<and>
    snd (kv_remove c key) = bt_contains (kc_entries c) key \<and>
    bt_get (kc_entries (fst (kv_remove c key))) = (bt_get (kc_entries c))(key := None) \<and>
    unat (kc_bytes c) = unat (kc_bytes (fst (kv_remove c key))) + block_bytes (key_blocks c key)"
proof (cases "bt_get (kc_entries c) key")
  case None
  then show ?thesis
    by (auto simp: kv_view_def kv_remove_def bt_contains_def key_blocks_def Let_def)
next
  case (Some e)
  then have ok: "entry_ok e" by (rule kv_inv_entry [OF inv])
  obtain t where t: "token_end (last (ke_blocks e)) = Inr t"
    using expected_start_eq [OF inv, of key] Some ok by (auto simp: expected_start_def entry_ok_def)
  have "unat t = block_tokens (ke_blocks e)"
    using contiguous_token_end [of 0, OF _ _ t] ok by (simp add: entry_ok_def)
  then have "t = of_nat (block_tokens (ke_blocks e))" by (metis unat_of_nat_inverse)
  with t ok have "snd (kv_view c key) = Inr (Some \<lparr>kv_key = key, kv_blocks = ke_blocks e,
      kv_bytes = ke_bytes e, kv_tokens = of_nat (block_tokens (ke_blocks e))\<rparr>)"
    by (simp add: kv_view_def Some entry_ok_def Let_def)
  moreover have "unat (kc_bytes c) = unat (kc_bytes (fst (kv_remove c key))) + block_bytes (key_blocks c key)"
    using kstore.accounted_drop(2) [OF kv_inv_acc [OF inv] Some] ok Some
    by (simp add: kv_remove_eq key_blocks_def entry_ok_def)
  ultimately show ?thesis
    using Some
    by (auto simp: kv_view_def kv_remove_def bt_contains_def bt_get_insert Let_def
        bt_get_remove [OF kv_inv_wf [OF inv]])
qed

theorem kv_view_remove_witness:
  "snd (kv_view demo_kv (KvCacheKey 1 0)) = Inr (Some \<lparr>kv_key = KvCacheKey 1 0,
     kv_blocks = [demo_block 0 16 40], kv_bytes = 40, kv_tokens = 16\<rparr>)"
  using kv_view_remove [OF demo_kv_inv, of "KvCacheKey 1 0"]
  by (simp add: demo_kv_eq demo_block_def)

end
