(* ===== verification/Execution_Plan.thy ===== *)
theory Execution_Plan
  imports Core "HOL-Library.Product_Lexorder"
begin

text \<open>
  The crate \<open>vrb-execution-plan\<close>: routing of a whole chain of operations by a layered
  shortest path over the compatible backends, with its reconstruction. The interface
  \<open>monotone_costs\<close> is what the argument needs of the cost arithmetic; it is interpreted on
  the rounded \<open>f64\<close> addition and the order of \<open>total_cmp\<close> the code uses.
\<close>

section \<open>Data\<close>

datatype execution_plan_error =
    PlanNoCompatibleBackend nat
  | InvalidCost string f64

type_synonym transition_cost_table = "(backend_id \<times> backend_id, f64) btree_map"

record planner_config =
  pc_unmeasured_operator_us :: f64
  pc_default_transition_us :: f64
  pc_bootstrap_rank_penalty_us :: f64

record execution_step =
  es_request :: route_request
  es_backend :: backend_id
  es_operator_us :: f64
  es_transition_us :: f64
  es_cumulative_us :: f64

record execution_plan =
  ep_steps :: "execution_step list"
  ep_estimated_total_us :: f64

record planner =
  pl_config :: planner_config
  pl_transitions :: transition_cost_table

record plan_state =
  ps_total_us :: f64
  ps_operator_us :: f64
  ps_transition_us :: f64
  ps_previous :: "backend_id option"

type_synonym plan_layer = "(backend_id, plan_state) btree_map"

text \<open>How planning can stop: with an error of its own, or at one of its \<open>expect\<close>s.\<close>

datatype plan_fault = Fails execution_plan_error | Panics

section \<open>Costs\<close>

definition validate_cost :: "string \<Rightarrow> f64 \<Rightarrow> execution_plan_error + unit" where
  "validate_cost name value =
     (if \<not> f64_is_finite value \<or> f64_less value 0 then Inl (InvalidCost name value) else Inr ())"

definition transition_record ::
  "transition_cost_table \<Rightarrow> backend_id \<Rightarrow> backend_id \<Rightarrow> f64 \<Rightarrow> execution_plan_error + transition_cost_table" where
  "transition_record costs_us source target microseconds =
     and_then (validate_cost ''transition'' microseconds)
       (\<lambda>_. Inr (bt_insert (source, target) microseconds costs_us))"

definition transition_get :: "transition_cost_table \<Rightarrow> backend_id \<Rightarrow> backend_id \<Rightarrow> f64 option" where
  "transition_get costs_us source target = bt_get costs_us (source, target)"

text \<open>\<open>1_000.0\<close>, \<open>50.0\<close> and \<open>10.0\<close>\<close>

definition planner_config_default :: planner_config where
  "planner_config_default =
     \<lparr>pc_unmeasured_operator_us = 0x408F400000000000, pc_default_transition_us = 0x4049000000000000,
      pc_bootstrap_rank_penalty_us = 0x4024000000000000\<rparr>"

definition planner_new :: "planner_config \<Rightarrow> transition_cost_table \<Rightarrow> execution_plan_error + planner" where
  "planner_new config transitions =
     and_then (validate_cost ''unmeasured operator'' (pc_unmeasured_operator_us config)) (\<lambda>_.
     and_then (validate_cost ''default transition'' (pc_default_transition_us config)) (\<lambda>_.
     and_then (validate_cost ''bootstrap rank penalty'' (pc_bootstrap_rank_penalty_us config)) (\<lambda>_.
     Inr \<lparr>pl_config = config, pl_transitions = transitions\<rparr>)))"

definition operator_cost :: "planner \<Rightarrow> backend_probe \<Rightarrow> route_request \<Rightarrow> performance_table \<Rightarrow> f64" where
  "operator_cost pl probe request performance =
     (case measured_us performance request probe of
        Some value \<Rightarrow> value
      | None \<Rightarrow> f64_add (pc_unmeasured_operator_us (pl_config pl))
          (f64_mul (pc_bootstrap_rank_penalty_us (pl_config pl))
            (f64_of_nat (bootstrap_rank (bp_kind probe)))))"

definition transition_cost :: "planner \<Rightarrow> backend_id \<Rightarrow> backend_id \<Rightarrow> f64" where
  "transition_cost pl source target =
     (if source = target then 0
      else case transition_get (pl_transitions pl) source target of
        Some cost \<Rightarrow> cost
      | None \<Rightarrow> pc_default_transition_us (pl_config pl))"

section \<open>Planning\<close>

text \<open>The closure over the entries of the previous layer: total, transition and predecessor.\<close>

fun via_previous ::
  "planner \<Rightarrow> backend_id \<Rightarrow> f64 \<Rightarrow> backend_id \<times> plan_state \<Rightarrow> f64 \<times> f64 \<times> backend_id" where
  "via_previous pl candidate_id operator_us (previous_id, previous_state) =
     (let transition_us = transition_cost pl previous_id candidate_id
      in (f64_add (f64_add (ps_total_us previous_state) transition_us) operator_us,
          transition_us, previous_id))"

text \<open>The state computed for one candidate of step \<open>index\<close>, from the last layer.\<close>

definition candidate_state ::
  "planner \<Rightarrow> performance_table \<Rightarrow> route_request \<Rightarrow> nat \<Rightarrow> plan_layer list \<Rightarrow> backend_probe
    \<Rightarrow> plan_fault + plan_state" where
  "candidate_state pl performance request index layers candidate =
     (let operator_us = operator_cost pl candidate request performance
      in if index = 0
         then Inr \<lparr>ps_total_us = operator_us, ps_operator_us = operator_us, ps_transition_us = 0,
           ps_previous = None\<rparr>
         else if layers = [] then Inl Panics
         else and_then
           (ok_or
             (min_by_key (\<lambda>(total_us, transition_us, previous_id). f64_key total_us)
               (map (via_previous pl (bp_id candidate) operator_us) (last layers)))
             (Fails (PlanNoCompatibleBackend index)))
           (\<lambda>(total_us, transition_us, previous_id).
             Inr \<lparr>ps_total_us = total_us, ps_operator_us = operator_us,
               ps_transition_us = transition_us, ps_previous = Some previous_id\<rparr>))"

definition insert_candidate ::
  "planner \<Rightarrow> performance_table \<Rightarrow> route_request \<Rightarrow> nat \<Rightarrow> plan_layer list \<Rightarrow> plan_layer \<Rightarrow> backend_probe
    \<Rightarrow> plan_fault + plan_layer" where
  "insert_candidate pl performance request index layers layer candidate =
     and_then (candidate_state pl performance request index layers candidate)
       (\<lambda>state. Inr (bt_insert (bp_id candidate) state layer))"

definition plan_layer_of ::
  "planner \<Rightarrow> performance_table \<Rightarrow> route_request \<Rightarrow> nat \<Rightarrow> plan_layer list \<Rightarrow> backend_probe list
    \<Rightarrow> plan_fault + plan_layer" where
  "plan_layer_of pl performance request index layers candidates =
     try_fold (insert_candidate pl performance request index layers) [] candidates"

fun plan_layers ::
  "planner \<Rightarrow> backend_probe list \<Rightarrow> performance_table \<Rightarrow> nat \<Rightarrow> plan_layer list \<Rightarrow> route_request list
    \<Rightarrow> plan_fault + plan_layer list" where
  "plan_layers pl probes performance index layers [] = Inr layers"
| "plan_layers pl probes performance index layers (request # requests) =
     (let candidates = filter (compatible_probe request) probes
      in if candidates = [] then Inl (Fails (PlanNoCompatibleBackend index))
         else and_then (plan_layer_of pl performance request index layers candidates)
           (\<lambda>layer. plan_layers pl probes performance (Suc index) (layers @ [layer]) requests))"

text \<open>The reconstruction, on the pairs of request and layer from the last to the first.\<close>

fun reconstruct :: "(route_request \<times> plan_layer) list \<Rightarrow> backend_id \<Rightarrow> plan_fault + execution_step list" where
  "reconstruct [] current = Inr []"
| "reconstruct ((request, layer) # rest) current =
     (case bt_get layer current of
        None \<Rightarrow> Inl Panics
      | Some state \<Rightarrow>
          let step = \<lparr>es_request = request, es_backend = current, es_operator_us = ps_operator_us state,
                es_transition_us = ps_transition_us state, es_cumulative_us = ps_total_us state\<rparr>
          in case ps_previous state of
               None \<Rightarrow> Inr [step]
             | Some previous \<Rightarrow> and_then (reconstruct rest previous) (\<lambda>reversed. Inr (step # reversed)))"

definition plan ::
  "planner \<Rightarrow> route_request list \<Rightarrow> backend_probe list \<Rightarrow> performance_table \<Rightarrow> plan_fault + execution_plan" where
  "plan pl requests probes performance =
     (if requests = [] then Inr \<lparr>ep_steps = [], ep_estimated_total_us = 0\<rparr>
      else and_then (plan_layers pl probes performance 0 [] requests) (\<lambda>layers.
        if layers = [] then Inl Panics
        else and_then
          (ok_or (min_by_key (\<lambda>(backend, state). f64_key (ps_total_us state)) (last layers))
            (Fails (PlanNoCompatibleBackend (length requests - 1))))
          (\<lambda>(final_backend, final_state).
            and_then (reconstruct (rev (zip requests layers)) final_backend) (\<lambda>reversed.
              Inr \<lparr>ep_steps = rev reversed, ep_estimated_total_us = ps_total_us final_state\<rparr>))))"

section \<open>The cost arithmetic\<close>

locale monotone_costs =
  fixes plus :: "'c \<Rightarrow> 'c \<Rightarrow> 'c"
    and key :: "'c \<Rightarrow> int"
    and is_good :: "'c \<Rightarrow> bool"
  assumes law_good: "is_good x \<Longrightarrow> is_good y \<Longrightarrow> is_good (plus x y)"
    and law_mono: "is_good x \<Longrightarrow> is_good x' \<Longrightarrow> is_good y \<Longrightarrow> key x \<le> key x' \<Longrightarrow>
      key (plus x y) \<le> key (plus x' y)"
begin

text \<open>One step of a path: the transition, then the operator.\<close>

definition extend :: "'c \<Rightarrow> 'c \<Rightarrow> 'c \<Rightarrow> 'c" where
  "extend x t u = plus (plus x t) u"

lemma extend_good: "is_good x \<Longrightarrow> is_good t \<Longrightarrow> is_good u \<Longrightarrow> is_good (extend x t u)"
  by (simp add: extend_def law_good)

lemma extend_mono:
  "is_good x \<Longrightarrow> is_good x' \<Longrightarrow> is_good t \<Longrightarrow> is_good u \<Longrightarrow> key x \<le> key x' \<Longrightarrow>
    key (extend x t u) \<le> key (extend x' t u)"
  by (simp add: extend_def law_good law_mono)

text \<open>The principle of optimality: the best extension is no worse than any extension of a
  worse prefix.\<close>

lemma best_extension:
  assumes best: "\<And>i. i \<in> I \<Longrightarrow> key b \<le> key (extend (c i) (t i) u)"
    and i: "i \<in> I" and good: "is_good (c i)" "is_good x" "is_good (t i)" "is_good u"
    and le: "key (c i) \<le> key x"
  shows "key b \<le> key (extend x (t i) u)"
  using best [OF i] extend_mono [OF good le] by linarith

end

interpretation fcost: monotone_costs f64_add f64_key f64_cost
  by unfold_locales (simp_all add: f64_add_mono)

section \<open>Valid planners\<close>

definition planner_valid :: "planner \<Rightarrow> bool" where
  "planner_valid pl =
     (f64_cost (pc_unmeasured_operator_us (pl_config pl)) \<and>
      f64_cost (pc_default_transition_us (pl_config pl)) \<and>
      f64_cost (pc_bootstrap_rank_penalty_us (pl_config pl)) \<and>
      f64_is_finite (pc_bootstrap_rank_penalty_us (pl_config pl)) \<and>
      (\<forall>(k, v) \<in> set (pl_transitions pl). f64_cost v))"

lemma validate_cost_iff: "validate_cost n v = Inr () \<longleftrightarrow> f64_is_finite v \<and> f64_cost v"
  using f64_not_less_zero [of v] by (auto simp: validate_cost_def)

text \<open>A table built with \<open>record\<close> holds costs only.\<close>

definition record_all ::
  "(backend_id \<times> backend_id \<times> f64) list \<Rightarrow> execution_plan_error + transition_cost_table" where
  "record_all costs = try_fold (\<lambda>t (a, b, us). transition_record t a b us) [] costs"

lemma record_all_costs:
  "try_fold (\<lambda>t (a, b, us). transition_record t a b us) t0 costs = Inr t \<Longrightarrow>
    bt_wf t0 \<Longrightarrow> \<forall>(k, v) \<in> set t0. f64_cost v \<Longrightarrow> bt_wf t \<and> (\<forall>(k, v) \<in> set t. f64_cost v)"
proof (induction costs arbitrary: t0)
  case Nil
  then show ?case by simp
next
  case (Cons c costs)
  obtain a b us where c: "c = (a, b, us)" by (cases c)
  with Cons.prems(1) have us: "f64_cost us"
    and rest: "try_fold (\<lambda>t (a, b, us). transition_record t a b us) (bt_insert (a, b) us t0) costs = Inr t"
    by (auto simp: and_then_Inr_iff transition_record_def validate_cost_iff)
  from Cons.IH [OF rest] Cons.prems(2,3) us show ?case by (auto simp: bt_wf_insert bt_set_insert)
qed

lemma planner_new_valid:
  "record_all costs = Inr transitions \<Longrightarrow> planner_new config transitions = Inr pl \<Longrightarrow> planner_valid pl"
  using record_all_costs [of "[]" costs transitions]
  by (auto simp: record_all_def planner_new_def and_then_Inr_iff validate_cost_iff planner_valid_def)

lemma rank_cost: "f64_cost (f64_of_nat (bootstrap_rank kind)) \<and> f64_is_finite (f64_of_nat (bootstrap_rank kind))"
  by (cases kind) (simp_all add: f64_of_nat_cost f64_of_nat_finite)

lemma operator_cost_valid: "planner_valid pl \<Longrightarrow> f64_cost (operator_cost pl p r perf)"
  using rank_cost [of "bp_kind p"]
  by (auto simp: operator_cost_def planner_valid_def measured_us_by_id usable_measurement_def
      f64_cost_iff [symmetric] f64_cost_mul split: option.split)

lemma transition_cost_valid: "planner_valid pl \<Longrightarrow> f64_cost (transition_cost pl a b)"
  by (auto simp: transition_cost_def transition_get_def planner_valid_def split: option.split dest!: bt_get_mem)

section \<open>Layers\<close>

lemma try_fold_insert:
  assumes "try_fold (\<lambda>m c. and_then (g c) (\<lambda>v. Inr (bt_insert (f c) v m))) m cs = Inr m'"
    and "bt_wf m" and "distinct (map f cs)"
  shows "bt_wf m' \<and> bt.keys m' = f ` set cs \<union> bt.keys m \<and>
    (\<forall>c \<in> set cs. \<exists>v. g c = Inr v \<and> bt_get m' (f c) = Some v) \<and>
    (\<forall>k. k \<notin> f ` set cs \<longrightarrow> bt_get m' k = bt_get m k)"
  using assms
proof (induction cs arbitrary: m)
  case Nil
  then show ?case by simp
next
  case (Cons c cs)
  from Cons.prems(1) obtain v where v: "g c = Inr v"
    and rest: "try_fold (\<lambda>m c. and_then (g c) (\<lambda>v. Inr (bt_insert (f c) v m))) (bt_insert (f c) v m) cs = Inr m'"
    by (auto simp: and_then_Inr_iff)
  from Cons.IH [OF rest] Cons.prems v show ?case
    by (auto simp: bt_wf_insert bt.keys_insert bt_get_insert)
qed

lemma try_fold_insert_ok:
  "(\<And>c. c \<in> set cs \<Longrightarrow> \<exists>v. g c = Inr v) \<Longrightarrow>
    \<exists>m'. try_fold (\<lambda>m c. and_then (g c) (\<lambda>v. Inr (bt_insert (f c) v m))) m cs = Inr m'"
proof (induction cs arbitrary: m)
  case Nil
  then show ?case by simp
next
  case (Cons c cs)
  then obtain v where "g c = Inr v" by auto
  with Cons.IH [of "bt_insert (f c) v m"] Cons.prems show ?case by auto
qed

definition compatible :: "backend_probe list \<Rightarrow> route_request \<Rightarrow> backend_probe set" where
  "compatible probes r = {p \<in> set probes. compatible_probe r p}"

text \<open>What the state of candidate \<open>p\<close> at step \<open>i\<close> is, given the layer before.\<close>

definition state_ok ::
  "planner \<Rightarrow> performance_table \<Rightarrow> backend_probe list \<Rightarrow> route_request list \<Rightarrow> plan_layer list \<Rightarrow> nat
    \<Rightarrow> backend_probe \<Rightarrow> plan_state \<Rightarrow> bool" where
  "state_ok pl perf probes rs layers i p st \<longleftrightarrow>
     ps_operator_us st = operator_cost pl p (rs ! i) perf \<and>
     (if i = 0 then ps_total_us st = ps_operator_us st \<and> ps_transition_us st = 0 \<and> ps_previous st = None
      else (\<exists>q \<in> compatible probes (rs ! (i - 1)). \<exists>sq. bt_get (layers ! (i - 1)) (bp_id q) = Some sq \<and>
          ps_previous st = Some (bp_id q) \<and> ps_transition_us st = transition_cost pl (bp_id q) (bp_id p) \<and>
          ps_total_us st = fcost.extend (ps_total_us sq) (ps_transition_us st) (ps_operator_us st)) \<and>
        (\<forall>k sk. bt_get (layers ! (i - 1)) k = Some sk \<longrightarrow>
          f64_key (ps_total_us st)
            \<le> f64_key (fcost.extend (ps_total_us sk) (transition_cost pl k (bp_id p)) (ps_operator_us st))))"

definition layers_ok ::
  "planner \<Rightarrow> performance_table \<Rightarrow> backend_probe list \<Rightarrow> route_request list \<Rightarrow> plan_layer list \<Rightarrow> bool" where
  "layers_ok pl perf probes rs layers \<longleftrightarrow>
     length layers \<le> length rs \<and>
     (\<forall>i < length layers. bt_wf (layers ! i) \<and> compatible probes (rs ! i) \<noteq> {} \<and>
        bt.keys (layers ! i) = bp_id ` compatible probes (rs ! i) \<and>
        (\<forall>p \<in> compatible probes (rs ! i). \<exists>st. bt_get (layers ! i) (bp_id p) = Some st \<and>
           state_ok pl perf probes rs layers i p st))"

lemma state_ok_append:
  "i \<le> length layers \<Longrightarrow> state_ok pl perf probes rs (layers @ [l]) i p st = state_ok pl perf probes rs layers i p st"
  by (auto simp: state_ok_def nth_append)

lemma layers_ok_layer:
  "layers_ok pl perf probes rs layers \<Longrightarrow> i < length layers \<Longrightarrow> bt_wf (layers ! i) \<and>
    compatible probes (rs ! i) \<noteq> {} \<and> bt.keys (layers ! i) = bp_id ` compatible probes (rs ! i)"
  by (simp add: layers_ok_def)

lemma layers_ok_get:
  "layers_ok pl perf probes rs layers \<Longrightarrow> i < length layers \<Longrightarrow> p \<in> compatible probes (rs ! i) \<Longrightarrow>
    \<exists>st. bt_get (layers ! i) (bp_id p) = Some st \<and> state_ok pl perf probes rs layers i p st"
  by (simp add: layers_ok_def)

lemma layer_get:
  assumes "layers_ok pl perf probes rs layers" "i < length layers" "bt_get (layers ! i) k = Some st"
    and dist: "distinct (map bp_id probes)"
  shows "\<exists>p \<in> compatible probes (rs ! i). bp_id p = k \<and> state_ok pl perf probes rs layers i p st"
proof -
  have "(k, st) \<in> set (layers ! i)" using assms(3) by (rule bt_get_mem)
  then have "k \<in> bt.keys (layers ! i)" by (force simp: bt.keys_def)
  with assms(1,2) obtain p where p: "p \<in> compatible probes (rs ! i)" "bp_id p = k"
    by (auto simp: layers_ok_def)
  with assms show ?thesis by (force simp: layers_ok_def)
qed

lemma candidate_state_ok:
  assumes ok: "layers_ok pl perf probes rs layers" and idx: "length layers < length rs"
    and dist: "distinct (map bp_id probes)"
  shows "\<exists>st. candidate_state pl perf (rs ! length layers) (length layers) layers p = Inr st \<and>
    state_ok pl perf probes rs layers (length layers) p st"
proof (cases "layers = []")
  case True
  then show ?thesis by (simp add: candidate_state_def state_ok_def Let_def)
next
  case False
  let ?n = "length layers" and ?u = "operator_cost pl p (rs ! length layers) perf"
  let ?step = "via_previous pl (bp_id p) ?u"
  have lst: "last layers = layers ! (?n - 1)" "?n - 1 < ?n" using False by (simp_all add: last_conv_nth)
  have wf: "bt_wf (last layers)" and ne: "last layers \<noteq> []"
    using ok lst by (auto simp: layers_ok_def bt.keys_def)
  from ne obtain best where best: "min_by_key (\<lambda>(total, t, k). f64_key total) (map ?step (last layers)) = Some best"
    by (cases "min_by_key (\<lambda>(total, t, k). f64_key total) (map ?step (last layers))") auto
  obtain total t k where b: "best = (total, t, k)" by (cases best)
  from min_by_key_mem [OF best] b obtain sk where sk: "(k, sk) \<in> set (last layers)"
    and eqs: "t = transition_cost pl k (bp_id p)" "total = fcost.extend (ps_total_us sk) t ?u"
    by (auto simp: fcost.extend_def Let_def)
  have get: "bt_get (layers ! (?n - 1)) k = Some sk" using sk wf lst by (simp add: bt_get_iff)
  from layer_get [OF ok lst(2) get dist] obtain q where q: "q \<in> compatible probes (rs ! (?n - 1))" "bp_id q = k"
    by blast
  have least: "f64_key total \<le> f64_key (fcost.extend (ps_total_us sk') (transition_cost pl k' (bp_id p)) ?u)"
    if "bt_get (layers ! (?n - 1)) k' = Some sk'" for k' sk'
  proof -
    have "(k', sk') \<in> set (last layers)" using that lst wf by (simp add: bt_get_iff)
    then have "?step (k', sk') \<in> set (map ?step (last layers))" unfolding set_map by (rule imageI)
    from min_by_key_le [OF best this] b show ?thesis by (simp add: fcost.extend_def Let_def)
  qed
  let ?st = "\<lparr>ps_total_us = total, ps_operator_us = ?u, ps_transition_us = t, ps_previous = Some k\<rparr>"
  have "candidate_state pl perf (rs ! ?n) ?n layers p = Inr ?st"
    using False best b by (simp add: candidate_state_def Let_def cong: prod.case_cong)
  moreover have "state_ok pl perf probes rs layers ?n p ?st"
    using False q get eqs least by (auto simp: state_ok_def)
  ultimately show ?thesis by blast
qed

lemma plan_layer_ok:
  assumes ok: "layers_ok pl perf probes rs layers" and idx: "length layers < length rs"
    and dist: "distinct (map bp_id probes)" and ne: "compatible probes (rs ! length layers) \<noteq> {}"
  shows "\<exists>l. plan_layer_of pl perf (rs ! length layers) (length layers) layers
      (filter (compatible_probe (rs ! length layers)) probes) = Inr l \<and>
    layers_ok pl perf probes rs (layers @ [l])"
proof -
  let ?n = "length layers" and ?cs = "filter (compatible_probe (rs ! length layers)) probes"
  let ?g = "candidate_state pl perf (rs ! ?n) ?n layers"
  have set_cs: "set ?cs = compatible probes (rs ! ?n)" by (auto simp: compatible_def)
  have g: "\<exists>st. ?g p = Inr st \<and> state_ok pl perf probes rs layers ?n p st" for p
    by (rule candidate_state_ok [OF ok idx dist])
  from try_fold_insert_ok [of ?cs ?g bp_id "[]"] g obtain l
    where l: "plan_layer_of pl perf (rs ! ?n) ?n layers ?cs = Inr l" by (auto simp: plan_layer_of_def insert_candidate_def [abs_def])
  have "distinct (map bp_id ?cs)" using dist by (simp add: distinct_map_filter)
  from try_fold_insert [OF l [unfolded plan_layer_of_def insert_candidate_def [abs_def]] _ this]
  have props: "bt_wf l" "bt.keys l = bp_id ` compatible probes (rs ! ?n)"
    "\<forall>c \<in> compatible probes (rs ! ?n). \<exists>v. ?g c = Inr v \<and> bt_get l (bp_id c) = Some v"
    unfolding set_cs by (simp_all add: bt.keys_def)
  have "\<forall>p \<in> compatible probes (rs ! ?n). \<exists>st. bt_get l (bp_id p) = Some st \<and>
      state_ok pl perf probes rs layers ?n p st"
    using props(3) g by (metis sum.inject(2))
  with ok idx ne props have "layers_ok pl perf probes rs (layers @ [l])"
    by (auto simp: layers_ok_def nth_append state_ok_append less_Suc_eq)
  with l show ?thesis by blast
qed

lemma plan_layers_ok:
  assumes "layers_ok pl perf probes rs layers" and "rs = done_rs @ todo" and "length done_rs = length layers"
    and dist: "distinct (map bp_id probes)"
  shows "(\<forall>r \<in> set todo. compatible probes r \<noteq> {}) \<Longrightarrow>
      \<exists>ls. plan_layers pl probes perf (length layers) layers todo = Inr ls \<and>
        layers_ok pl perf probes rs ls \<and> length ls = length rs"
    and "todo = us @ r # vs \<Longrightarrow> \<forall>u \<in> set us. compatible probes u \<noteq> {} \<Longrightarrow> compatible probes r = {} \<Longrightarrow>
      plan_layers pl probes perf (length layers) layers todo
        = Inl (Fails (PlanNoCompatibleBackend (length layers + length us)))"
  using assms(1-3)
proof (induction todo arbitrary: layers done_rs us)
  case Nil
  { case 1 then show ?case by simp }
  { case 2 then show ?case by simp }
next
  case (Cons t todo)
  have set_cs: "set (filter (compatible_probe t) probes) = compatible probes t" by (auto simp: compatible_def)
  have step: "\<exists>l. plan_layers pl probes perf (length layers) layers (t # todo)
        = plan_layers pl probes perf (length (layers @ [l])) (layers @ [l]) todo \<and>
      layers_ok pl perf probes rs (layers @ [l])"
    if ok: "layers_ok pl perf probes rs layers" and rs: "rs = done_rs @ t # todo"
      and len: "length done_rs = length layers" and ne: "compatible probes t \<noteq> {}" for layers done_rs
  proof -
    have t: "rs ! length layers = t" "length layers < length rs" using rs len by (simp_all add: nth_append)
    from plan_layer_ok [OF ok t(2) dist] ne t(1) obtain l where
      l: "plan_layer_of pl perf t (length layers) layers (filter (compatible_probe t) probes) = Inr l"
        "layers_ok pl perf probes rs (layers @ [l])" by auto
    have "filter (compatible_probe t) probes \<noteq> []" using ne set_cs by (metis set_empty)
    with l show ?thesis by (auto simp: Let_def)
  qed
  { case 1
    then obtain l where l: "plan_layers pl probes perf (length layers) layers (t # todo)
        = plan_layers pl probes perf (length (layers @ [l])) (layers @ [l]) todo"
      "layers_ok pl perf probes rs (layers @ [l])" using step [of layers done_rs] by auto
    show ?case
      unfolding l(1) by (rule Cons.IH(1) [where done_rs = "done_rs @ [t]"]) (use 1 l(2) in auto) }
  { case 2
    show ?case
    proof (cases us)
      case Nil
      with 2 have "filter (compatible_probe t) probes = []" using set_cs by (metis append_Nil list.inject set_empty)
      with Nil show ?thesis by simp
    next
      case (Cons u us')
      with 2 obtain l where l: "plan_layers pl probes perf (length layers) layers (t # todo)
          = plan_layers pl probes perf (length (layers @ [l])) (layers @ [l]) todo"
        "layers_ok pl perf probes rs (layers @ [l])" using step [of layers done_rs] by auto
      have "plan_layers pl probes perf (length (layers @ [l])) (layers @ [l]) todo
          = Inl (Fails (PlanNoCompatibleBackend (length (layers @ [l]) + length us')))"
        by (rule Cons.IH(2) [where done_rs = "done_rs @ [t]"]) (use 2 Cons l(2) in auto)
      with l(1) Cons show ?thesis by simp
    qed }
qed

section \<open>Paths\<close>

text \<open>
  A path picks one compatible probe per request. Its cost is added up from the left, step by
  step, in the order the planner adds.
\<close>

definition is_path :: "backend_probe list \<Rightarrow> route_request list \<Rightarrow> backend_probe list \<Rightarrow> bool" where
  "is_path probes rs ps \<longleftrightarrow>
     length ps = length rs \<and> (\<forall>i < length rs. ps ! i \<in> set probes \<and> compatible_probe (rs ! i) (ps ! i))"

fun path_cost :: "planner \<Rightarrow> performance_table \<Rightarrow> route_request list \<Rightarrow> backend_probe list \<Rightarrow> nat \<Rightarrow> f64" where
  "path_cost pl perf rs ps 0 = operator_cost pl (ps ! 0) (rs ! 0) perf"
| "path_cost pl perf rs ps (Suc i) =
     f64_add (f64_add (path_cost pl perf rs ps i) (transition_cost pl (bp_id (ps ! i)) (bp_id (ps ! Suc i))))
       (operator_cost pl (ps ! Suc i) (rs ! Suc i) perf)"

lemma path_cost_valid: "planner_valid pl \<Longrightarrow> f64_cost (path_cost pl perf rs ps i)"
  by (induction i) (simp_all add: operator_cost_valid transition_cost_valid)

lemma state_ok_Suc:
  "state_ok pl perf probes rs layers (Suc i) p st \<Longrightarrow>
    ps_operator_us st = operator_cost pl p (rs ! Suc i) perf \<and>
    (\<exists>q \<in> compatible probes (rs ! i). \<exists>sq. bt_get (layers ! i) (bp_id q) = Some sq \<and>
      ps_previous st = Some (bp_id q) \<and> ps_transition_us st = transition_cost pl (bp_id q) (bp_id p) \<and>
      ps_total_us st = fcost.extend (ps_total_us sq) (ps_transition_us st) (ps_operator_us st))"
  unfolding state_ok_def if_not_P [OF Suc_not_Zero] diff_Suc_1 by blast

lemma state_total_valid:
  assumes "planner_valid pl" "layers_ok pl perf probes rs layers" "distinct (map bp_id probes)"
  shows "i < length layers \<Longrightarrow> bt_get (layers ! i) k = Some st \<Longrightarrow> f64_cost (ps_total_us st)"
proof (induction i arbitrary: k st)
  case 0
  from layer_get [OF assms(2) 0 assms(3)] show ?case
    by (auto simp: state_ok_def operator_cost_valid [OF assms(1)])
next
  case (Suc i)
  from layer_get [OF assms(2) Suc.prems assms(3)] obtain p where
    "state_ok pl perf probes rs layers (Suc i) p st" by blast
  from state_ok_Suc [OF this] obtain q :: backend_probe and sq where "bt_get (layers ! i) (bp_id q) = Some sq"
    "ps_total_us st = fcost.extend (ps_total_us sq) (ps_transition_us st) (ps_operator_us st)"
    "ps_transition_us st = transition_cost pl (bp_id q) (bp_id p)"
    "ps_operator_us st = operator_cost pl p (rs ! Suc i) perf" by blast
  with Suc.IH [of "bp_id q" sq] Suc.prems(1) show ?case
    by (simp add: fcost.extend_good operator_cost_valid transition_cost_valid assms(1))
qed

text \<open>The principle of optimality, layer by layer.\<close>

lemma layer_optimal:
  assumes valid: "planner_valid pl" and ok: "layers_ok pl perf probes rs layers"
    and dist: "distinct (map bp_id probes)" and path: "is_path probes rs ps"
  shows "i < length layers \<Longrightarrow> bt_get (layers ! i) (bp_id (ps ! i)) = Some st \<Longrightarrow>
    f64_key (ps_total_us st) \<le> f64_key (path_cost pl perf rs ps i)"
proof (induction i arbitrary: st)
  case 0
  from layer_get [OF ok 0 dist] path 0 obtain p where "p \<in> compatible probes (rs ! 0)"
    "bp_id p = bp_id (ps ! 0)" "state_ok pl perf probes rs layers 0 p st" by blast
  moreover have "ps ! 0 \<in> set probes"
  proof -
    have "0 < length rs" using ok 0(1) unfolding layers_ok_def by linarith
    with path show ?thesis by (simp add: is_path_def)
  qed
  ultimately have "p = ps ! 0"
    using dist by (auto simp: compatible_def distinct_map dest: inj_onD)
  with \<open>state_ok _ _ _ _ _ 0 p st\<close> show ?case by (simp add: state_ok_def)
next
  case (Suc i)
  have len: "Suc i < length rs" using ok Suc.prems(1) by (auto simp: layers_ok_def)
  from layer_get [OF ok Suc.prems dist] obtain p where p: "p \<in> compatible probes (rs ! Suc i)"
    "bp_id p = bp_id (ps ! Suc i)" "state_ok pl perf probes rs layers (Suc i) p st" by blast
  have mem: "ps ! Suc i \<in> set probes" "ps ! i \<in> compatible probes (rs ! i)"
    using path len by (auto simp: is_path_def compatible_def)
  with p(1,2) dist have pe: "p = ps ! Suc i" by (auto simp: compatible_def distinct_map dest: inj_onD)
  obtain sk where sk: "bt_get (layers ! i) (bp_id (ps ! i)) = Some sk"
    using layers_ok_get [OF ok _ mem(2)] Suc.prems(1) by auto
  have le: "f64_key (ps_total_us st) \<le> f64_key (fcost.extend (ps_total_us sk)
      (transition_cost pl (bp_id (ps ! i)) (bp_id p)) (ps_operator_us st))"
    using p(3) sk by (auto simp: state_ok_def)
  also have "\<dots> \<le> f64_key (fcost.extend (path_cost pl perf rs ps i)
      (transition_cost pl (bp_id (ps ! i)) (bp_id p)) (ps_operator_us st))"
  proof (rule fcost.extend_mono)
    show "f64_key (ps_total_us sk) \<le> f64_key (path_cost pl perf rs ps i)"
      using Suc.IH [OF _ sk] Suc.prems(1) by simp
    show "f64_cost (ps_total_us sk)" using state_total_valid [OF valid ok dist _ sk] Suc.prems(1) by simp
    show "f64_cost (ps_operator_us st)" using p(3) by (simp add: state_ok_def operator_cost_valid valid)
  qed (simp_all add: path_cost_valid transition_cost_valid valid)
  finally show ?case using p(3) by (simp add: pe fcost.extend_def state_ok_def)
qed

section \<open>Reconstruction\<close>

text \<open>The steps report a path: its backends, its costs and its running totals.\<close>

definition reports ::
  "planner \<Rightarrow> performance_table \<Rightarrow> route_request list \<Rightarrow> backend_probe list \<Rightarrow> execution_step list \<Rightarrow> bool" where
  "reports pl perf rs ps steps \<longleftrightarrow>
     length steps = length ps \<and>
     (\<forall>j < length ps. steps ! j =
        \<lparr>es_request = rs ! j, es_backend = bp_id (ps ! j),
         es_operator_us = operator_cost pl (ps ! j) (rs ! j) perf,
         es_transition_us = (if j = 0 then 0 else transition_cost pl (bp_id (ps ! (j - 1))) (bp_id (ps ! j))),
         es_cumulative_us = path_cost pl perf rs ps j\<rparr>)"

lemma path_cost_append: "i < length ps \<Longrightarrow> path_cost pl perf rs (ps @ qs) i = path_cost pl perf rs ps i"
  by (induction i) (simp_all add: nth_append)

lemma reports_snoc:
  assumes "reports pl perf rs ps steps"
  shows "reports pl perf rs (ps @ [p]) (steps @
    [\<lparr>es_request = rs ! length ps, es_backend = bp_id p, es_operator_us = operator_cost pl p (rs ! length ps) perf,
      es_transition_us = (if ps = [] then 0 else transition_cost pl (bp_id (last ps)) (bp_id p)),
      es_cumulative_us = path_cost pl perf rs (ps @ [p]) (length ps)\<rparr>])"
  using assms by (auto simp: reports_def nth_append path_cost_append less_Suc_eq last_conv_nth)

lemma rev_zip_take_Suc:
  "i < length xs \<Longrightarrow> i < length ys \<Longrightarrow>
    rev (zip (take (Suc i) xs) (take (Suc i) ys)) = (xs ! i, ys ! i) # rev (zip (take i xs) (take i ys))"
  by (simp add: take_Suc_conv_app_nth)

lemma reconstruct_ok:
  assumes ok: "layers_ok pl perf probes rs layers" and dist: "distinct (map bp_id probes)"
  shows "i < length layers \<Longrightarrow> bt_get (layers ! i) k = Some st \<Longrightarrow>
    \<exists>ps steps. reconstruct (rev (zip (take (Suc i) rs) (take (Suc i) layers))) k = Inr (rev steps) \<and>
      length ps = Suc i \<and> (\<forall>j \<le> i. ps ! j \<in> compatible probes (rs ! j)) \<and> bp_id (ps ! i) = k \<and>
      reports pl perf rs ps steps \<and> path_cost pl perf rs ps i = ps_total_us st"
proof (induction i arbitrary: k st)
  case 0
  from layer_get [OF ok 0 dist] obtain p where p: "p \<in> compatible probes (rs ! 0)" "bp_id p = k"
    and st: "state_ok pl perf probes rs layers 0 p st" by blast
  let ?step = "\<lparr>es_request = rs ! 0, es_backend = k, es_operator_us = operator_cost pl p (rs ! 0) perf,
     es_transition_us = 0, es_cumulative_us = operator_cost pl p (rs ! 0) perf\<rparr>"
  have "0 < length rs" using ok 0(1) unfolding layers_ok_def by linarith
  with 0 st have "reconstruct (rev (zip (take (Suc 0) rs) (take (Suc 0) layers))) k = Inr (rev [?step])"
    by (simp add: rev_zip_take_Suc state_ok_def del: take_Suc)
  moreover have "reports pl perf rs [p] [?step]" using p by (simp add: reports_def)
  ultimately show ?case
    using p st by (intro exI [of _ "[p]"] exI [of _ "[?step]"]) (simp add: state_ok_def)
next
  case (Suc i)
  have len: "Suc i < length rs" using ok Suc.prems(1) unfolding layers_ok_def by linarith
  from layer_get [OF ok Suc.prems dist] obtain p where p: "p \<in> compatible probes (rs ! Suc i)" "bp_id p = k"
    and st: "state_ok pl perf probes rs layers (Suc i) p st" by blast
  from state_ok_Suc [OF st] obtain q :: backend_probe and sq where q: "bt_get (layers ! i) (bp_id q) = Some sq"
    "ps_previous st = Some (bp_id q)"
    and t: "ps_transition_us st = transition_cost pl (bp_id q) (bp_id p)"
    and u: "ps_operator_us st = operator_cost pl p (rs ! Suc i) perf"
    and tot: "ps_total_us st = fcost.extend (ps_total_us sq) (ps_transition_us st) (ps_operator_us st)" by blast
  from Suc.IH [OF _ q(1)] Suc.prems(1) obtain ps steps where
    rec: "reconstruct (rev (zip (take (Suc i) rs) (take (Suc i) layers))) (bp_id q) = Inr (rev steps)"
    and ps: "length ps = Suc i" "\<forall>j \<le> i. ps ! j \<in> compatible probes (rs ! j)" "bp_id (ps ! i) = bp_id q"
    and rep: "reports pl perf rs ps steps" and cost: "path_cost pl perf rs ps i = ps_total_us sq" by auto
  let ?step = "\<lparr>es_request = rs ! Suc i, es_backend = k, es_operator_us = ps_operator_us st,
     es_transition_us = ps_transition_us st, es_cumulative_us = ps_total_us st\<rparr>"
  have tot': "path_cost pl perf rs (ps @ [p]) (Suc i) = ps_total_us st"
    using ps cost t u tot by (simp add: path_cost_append nth_append fcost.extend_def)
  have "ps \<noteq> []" using ps(1) by auto
  with ps(1) have last: "last ps = ps ! i" "ps \<noteq> []" by (simp_all add: last_conv_nth)
  have "reports pl perf rs (ps @ [p]) (steps @ [?step])"
    using reports_snoc [OF rep, of p] last ps(1,3) tot' p(2) t u by simp
  moreover have "reconstruct (rev (zip (take (Suc (Suc i)) rs) (take (Suc (Suc i)) layers))) k
      = Inr (rev (steps @ [?step]))"
    unfolding rev_zip_take_Suc [OF len Suc.prems(1)] using Suc.prems(2) q(2) rec by (simp add: Let_def)
  moreover have "\<forall>j \<le> Suc i. (ps @ [p]) ! j \<in> compatible probes (rs ! j)"
    using ps(1,2) p(1) by (auto simp: nth_append le_Suc_eq)
  ultimately show ?case
    using ps(1) p(2) tot' by (intro exI [of _ "ps @ [p]"] exI [of _ "steps @ [?step]"]) (simp add: nth_append)
qed

lemma plan_ok:
  assumes dist: "distinct (map bp_id probes)" and ne: "requests \<noteq> []"
    and compat: "\<forall>r \<in> set requests. compatible probes r \<noteq> {}"
  shows "\<exists>layers k st ps steps. layers_ok pl perf probes requests layers \<and> length layers = length requests \<and>
    bt_get (last layers) k = Some st \<and>
    (\<forall>k' st'. bt_get (last layers) k' = Some st' \<longrightarrow> f64_key (ps_total_us st) \<le> f64_key (ps_total_us st')) \<and>
    plan pl requests probes perf = Inr \<lparr>ep_steps = steps, ep_estimated_total_us = ps_total_us st\<rparr> \<and>
    is_path probes requests ps \<and> reports pl perf requests ps steps \<and>
    path_cost pl perf requests ps (length requests - 1) = ps_total_us st"
proof -
  have "layers_ok pl perf probes requests []" by (simp add: layers_ok_def)
  from plan_layers_ok(1) [OF this _ _ dist, of "[]" requests] compat obtain layers where
    ls: "plan_layers pl probes perf 0 [] requests = Inr layers"
    and ok: "layers_ok pl perf probes requests layers" and len: "length layers = length requests" by auto
  have lne: "layers \<noteq> []" using len ne by auto
  let ?i = "length layers - 1"
  have i: "?i < length layers" "Suc ?i = length layers" using lne by simp_all
  have last: "last layers = layers ! ?i" using lne by (simp add: last_conv_nth)
  have wf: "bt_wf (last layers)" and "last layers \<noteq> []"
    using layers_ok_layer [OF ok i(1)] by (auto simp: last bt.keys_def)
  then obtain k st where best: "min_by_key (\<lambda>(backend, state). f64_key (ps_total_us state)) (last layers) = Some (k, st)"
    by (cases "min_by_key (\<lambda>(backend, state). f64_key (ps_total_us state)) (last layers)") auto
  have get: "bt_get (last layers) k = Some st" using min_by_key_mem [OF best] wf by (simp add: bt_get_iff)
  have least: "f64_key (ps_total_us st) \<le> f64_key (ps_total_us st')"
    if "bt_get (last layers) k' = Some st'" for k' st'
    using min_by_key_le [OF best bt_get_mem [OF that]] by simp
  from reconstruct_ok [OF ok dist i(1) get [unfolded last]] obtain ps steps where
    rec: "reconstruct (rev (zip requests layers)) k = Inr (rev steps)"
    and ps: "length ps = length requests" "\<forall>j \<le> ?i. ps ! j \<in> compatible probes (requests ! j)"
    and rep: "reports pl perf requests ps steps" and cost: "path_cost pl perf requests ps ?i = ps_total_us st"
    using i(2) len by auto
  have "is_path probes requests ps"
    using ps len i by (auto simp: is_path_def compatible_def less_Suc_eq_le)
  moreover have "plan pl requests probes perf = Inr \<lparr>ep_steps = steps, ep_estimated_total_us = ps_total_us st\<rparr>"
    using ne ls lne best rec by (simp add: plan_def)
  ultimately show ?thesis
    using ok len get least rep cost by (intro exI conjI allI impI) auto
qed

lemma plan_error:
  assumes dist: "distinct (map bp_id probes)"
    and r: "requests = us @ r # vs" "\<forall>u \<in> set us. compatible probes u \<noteq> {}" "compatible probes r = {}"
  shows "plan pl requests probes perf = Inl (Fails (PlanNoCompatibleBackend (length us)))"
proof -
  have "layers_ok pl perf probes requests []" by (simp add: layers_ok_def)
  from plan_layers_ok(2) [OF this _ _ dist r, of "[]"] show ?thesis using r(1) by (simp add: plan_def)
qed

lemma first_incompatible:
  "\<exists>r \<in> set requests. compatible probes r = {} \<Longrightarrow>
    \<exists>us r vs. requests = us @ r # vs \<and> (\<forall>u \<in> set us. compatible probes u \<noteq> {}) \<and> compatible probes r = {}"
  using split_list_first_prop [of requests "\<lambda>r. compatible probes r = {}"] by blast

lemma plan_served:
  assumes "distinct (map bp_id probes)" and "plan pl requests probes perf = Inr result"
  shows "\<forall>r \<in> set requests. compatible probes r \<noteq> {}"
proof (rule ccontr)
  assume "\<not> (\<forall>r \<in> set requests. compatible probes r \<noteq> {})"
  with first_incompatible [of requests probes] plan_error [OF assms(1)] assms(2) show False by fastforce
qed

text \<open>Some entry of the last layer costs no more than a given path.\<close>

lemma layers_least:
  assumes valid: "planner_valid pl"
    and ok: "layers_ok pl perf probes requests layers" "length layers = length requests"
    and dist: "distinct (map bp_id probes)" and ne: "requests \<noteq> []" and path: "is_path probes requests ps"
    and least: "\<forall>k' st'. bt_get (last layers) k' = Some st' \<longrightarrow> x \<le> f64_key (ps_total_us st')"
  shows "x \<le> f64_key (path_cost pl perf requests ps (length requests - 1))"
proof -
  let ?i = "length requests - 1"
  have i: "?i < length requests" using ne by simp
  then have "ps ! ?i \<in> compatible probes (requests ! ?i)" using path by (simp add: is_path_def compatible_def)
  from layers_ok_get [OF ok(1) _ this] ok(2) i obtain sl where
    sl: "bt_get (layers ! ?i) (bp_id (ps ! ?i)) = Some sl" by auto
  have "layers \<noteq> []" using ok(2) ne by auto
  then have "last layers = layers ! ?i" by (simp add: last_conv_nth ok(2))
  then have "x \<le> f64_key (ps_total_us sl)" using least sl by simp
  also have "\<dots> \<le> f64_key (path_cost pl perf requests ps ?i)"
    using layer_optimal [OF valid ok(1) dist path _ sl] ok(2) i by simp
  finally show ?thesis .
qed

section \<open>Properties\<close>

text \<open>The witnesses use small measurements: the pattern \<open>n\<close> is \<open>n\<close> units.\<close>

definition demo_op_probe :: "string \<Rightarrow> backend_kind \<Rightarrow> backend_probe" where
  "demo_op_probe i kind = (demo_probe i kind)\<lparr>bp_capabilities := \<lparr>cs_operations = [OpGemm, OpAttention],
     cs_data_types = [F32], cs_external_memory = False, cs_external_semaphore = False, cs_zero_copy = False\<rparr>\<rparr>"

definition demo_probes :: "backend_probe list" where
  "demo_probes = [demo_op_probe ''hip'' Hip, demo_op_probe ''vulkan'' Vulkan]"

definition demo_requests :: "route_request list" where
  "demo_requests = [route_request_new OpGemm F32, route_request_new OpAttention F32]"

definition demo_measurements :: performance_table where
  "demo_measurements = map (\<lambda>(b, op, v). \<lparr>pr_backend = BackendId b, pr_operation = op, pr_data_type = F32,
     pr_median_microseconds = v, pr_samples = 20\<rparr>)
     [(''hip'', OpGemm, 10), (''vulkan'', OpGemm, 20), (''hip'', OpAttention, 200), (''vulkan'', OpAttention, 20)]"

definition demo_planner :: planner where
  "demo_planner = \<lparr>pl_config = \<lparr>pc_unmeasured_operator_us = 1000, pc_default_transition_us = 50,
     pc_bootstrap_rank_penalty_us = 10\<rparr>, pl_transitions = [((BackendId ''hip'', BackendId ''vulkan''), 30)]\<rparr>"

lemma demo_planner_built:
  "record_all [(BackendId ''hip'', BackendId ''vulkan'', 30)] = Inr (pl_transitions demo_planner)"
  "planner_new (pl_config demo_planner) (pl_transitions demo_planner) = Inr demo_planner"
  by (simp_all add: demo_planner_def record_all_def transition_record_def planner_new_def and_then_Inr_iff
      validate_cost_def f64_is_finite_code f64_not_less_zero f64_cost_code)

lemma demo_probes_distinct: "distinct (map bp_id demo_probes)"
  by (simp add: demo_probes_def demo_op_probe_def demo_probe_def)

text \<open>
  C15. The planner is optimal. Take a planner made by \<open>new\<close> from recorded transition costs and
  probes with different identifiers. The estimated total of the plan it returns is the minimum of
  the totals of all choices of one compatible backend for each request, every total being added
  up in the \<open>f64\<close> arithmetic of the code and compared by \<open>total_cmp\<close>: the backends of the
  plan's own steps are such a choice and cost exactly the estimate, and no choice costs less.
\<close>

theorem plan_is_optimal:
  assumes "record_all costs = Inr transitions" and "planner_new config transitions = Inr pl"
    and dist: "distinct (map bp_id probes)" and ne: "requests \<noteq> []"
    and plan: "plan pl requests probes perf = Inr result"
  shows "(\<exists>ps. is_path probes requests ps \<and> map es_backend (ep_steps result) = map bp_id ps \<and>
      ep_estimated_total_us result = path_cost pl perf requests ps (length requests - 1)) \<and>
    (\<forall>ps. is_path probes requests ps \<longrightarrow>
      f64_key (ep_estimated_total_us result) \<le> f64_key (path_cost pl perf requests ps (length requests - 1)))"
proof -
  have valid: "planner_valid pl" using assms(1,2) by (rule planner_new_valid)
  from plan_ok [OF dist ne plan_served [OF dist plan], of pl perf] obtain layers and st :: plan_state and best steps where
    ok: "layers_ok pl perf probes requests layers" "length layers = length requests"
    and least: "\<forall>k' st'. bt_get (last layers) k' = Some st' \<longrightarrow> f64_key (ps_total_us st) \<le> f64_key (ps_total_us st')"
    and eq: "plan pl requests probes perf = Inr \<lparr>ep_steps = steps, ep_estimated_total_us = ps_total_us st\<rparr>"
    and best: "is_path probes requests best" "reports pl perf requests best steps"
      "path_cost pl perf requests best (length requests - 1) = ps_total_us st"
    by blast
  from eq plan have total: "ep_estimated_total_us result = ps_total_us st" "ep_steps result = steps" by auto
  have "map es_backend steps = map bp_id best"
    using best(2) by (intro nth_equalityI) (simp_all add: reports_def)
  moreover have "f64_key (ps_total_us st) \<le> f64_key (path_cost pl perf requests ps (length requests - 1))"
    if "is_path probes requests ps" for ps
    using layers_least [OF valid ok dist ne that] least by blast
  ultimately show ?thesis using best(1,3) total by auto
qed

lemmas demo_plan_eval = plan_def plan_layer_of_def insert_candidate_def candidate_state_def operator_cost_def
  transition_cost_def transition_get_def demo_planner_def demo_requests_def demo_probes_def
  demo_measurements_def demo_op_probe_def demo_probe_def compatible_probe_def supports_def
  route_request_new_def measured_us_def median_us_def usable_measurement_code f64_add_code f64_key_def
  total_key_def min_by_key_def magnitude_def is_negative_def Let_def less_eq_backend_id_def less_backend_id_def

lemma demo_plan: "\<exists>steps. plan demo_planner demo_requests demo_probes demo_measurements
    = Inr \<lparr>ep_steps = steps, ep_estimated_total_us = 40\<rparr>"
  by (simp add: demo_plan_eval)

text \<open>Choosing the locally fastest kernel first costs \<open>10 + 30 + 20\<close>, more than the plan's 40.\<close>

theorem plan_is_optimal_witness:
  "f64_key 40 \<le> f64_key (path_cost demo_planner demo_measurements demo_requests
     [demo_op_probe ''hip'' Hip, demo_op_probe ''vulkan'' Vulkan] 1) \<and>
   path_cost demo_planner demo_measurements demo_requests
     [demo_op_probe ''hip'' Hip, demo_op_probe ''vulkan'' Vulkan] 1 = 60"
proof -
  let ?ps = "[demo_op_probe ''hip'' Hip, demo_op_probe ''vulkan'' Vulkan]"
  obtain steps where plan: "plan demo_planner demo_requests demo_probes demo_measurements
      = Inr \<lparr>ep_steps = steps, ep_estimated_total_us = 40\<rparr>" using demo_plan by blast
  have path: "is_path demo_probes demo_requests ?ps"
    by (simp add: is_path_def demo_plan_eval less_Suc_eq nth_Cons split: nat.split)
  have len: "length demo_requests = 2" "demo_requests \<noteq> []" by (simp_all add: demo_requests_def)
  have "f64_key 40 \<le> f64_key (path_cost demo_planner demo_measurements demo_requests ?ps 1)"
    using plan_is_optimal [OF demo_planner_built demo_probes_distinct len(2) plan, THEN conjunct2, rule_format, OF path]
    unfolding len(1) by (simp del: path_cost.simps)
  moreover have "path_cost demo_planner demo_measurements demo_requests ?ps 1 = 60"
    by (simp add: demo_plan_eval One_nat_def del: One_nat_def [symmetric])
  ultimately show ?thesis by blast
qed

text \<open>
  C16. A returned plan reports a real path: one step per request, in order, each on a backend
  whose probe is available and supports the request, with the operator cost of that backend,
  the transition cost from the backend before it (none for the first step), and the running
  total; the estimated total is the last running total. The reconstruction never fails.
\<close>

theorem plan_reports_a_path:
  assumes dist: "distinct (map bp_id probes)" and ne: "requests \<noteq> []"
    and plan: "plan pl requests probes perf = Inr result"
  shows "\<exists>ps. is_path probes requests ps \<and> reports pl perf requests ps (ep_steps result) \<and>
    ep_estimated_total_us result = path_cost pl perf requests ps (length requests - 1) \<and>
    ep_estimated_total_us result = es_cumulative_us (last (ep_steps result))"
proof -
  from plan_ok [OF dist ne plan_served [OF dist plan], of pl perf] obtain st :: plan_state and ps steps where
    eq: "plan pl requests probes perf = Inr \<lparr>ep_steps = steps, ep_estimated_total_us = ps_total_us st\<rparr>"
    and path: "is_path probes requests ps" "reports pl perf requests ps steps"
      "path_cost pl perf requests ps (length requests - 1) = ps_total_us st" by blast
  have len: "length steps = length requests" "length ps = length requests"
    using path(1,2) by (auto simp: is_path_def reports_def)
  then have "steps \<noteq> []" using ne by auto
  then have "last steps = steps ! (length requests - 1)" by (simp add: last_conv_nth len(1))
  with path(2,3) len ne have "es_cumulative_us (last steps) = ps_total_us st" by (simp add: reports_def)
  with path eq plan show ?thesis by auto
qed

theorem plan_reports_a_path_witness:
  "\<exists>ps. is_path demo_probes demo_requests ps \<and> 40 = path_cost demo_planner demo_measurements demo_requests ps 1"
proof -
  obtain steps where plan: "plan demo_planner demo_requests demo_probes demo_measurements
      = Inr \<lparr>ep_steps = steps, ep_estimated_total_us = 40\<rparr>" using demo_plan by blast
  have "length demo_requests - 1 = 1" "demo_requests \<noteq> []" by (simp_all add: demo_requests_def)
  with plan_reports_a_path [OF demo_probes_distinct _ plan] show ?thesis by auto
qed

text \<open>
  C17. Planning succeeds exactly when every request has a compatible probe; otherwise it
  fails with \<open>NoCompatibleBackend\<close> at the first request that has none. The empty workload
  has the empty plan of cost zero.
\<close>

theorem plan_error_iff:
  assumes dist: "distinct (map bp_id probes)"
  shows "(is_ok (plan pl requests probes perf) \<longleftrightarrow> (\<forall>r \<in> set requests. \<exists>p \<in> set probes. compatible_probe r p)) \<and>
    (\<forall>f. plan pl requests probes perf = Inl f \<longleftrightarrow>
      (\<exists>us r vs. requests = us @ r # vs \<and> (\<forall>u \<in> set us. \<exists>p \<in> set probes. compatible_probe u p) \<and>
        (\<forall>p \<in> set probes. \<not> compatible_probe r p) \<and> f = Fails (PlanNoCompatibleBackend (length us)))) \<and>
    plan pl [] probes perf = Inr \<lparr>ep_steps = [], ep_estimated_total_us = 0\<rparr>"
proof -
  have c: "(\<exists>p \<in> set probes. compatible_probe r p) \<longleftrightarrow> compatible probes r \<noteq> {}" for r
    by (auto simp: compatible_def)
  have c': "(\<forall>p \<in> set probes. \<not> compatible_probe r p) \<longleftrightarrow> compatible probes r = {}" for r
    by (auto simp: compatible_def)
  have empty: "plan pl [] probes perf = Inr \<lparr>ep_steps = [], ep_estimated_total_us = 0\<rparr>" by (simp add: plan_def)
  show ?thesis
    unfolding c c'
  proof (cases "\<forall>r \<in> set requests. compatible probes r \<noteq> {}")
    case True
    then obtain result where "plan pl requests probes perf = Inr result"
      using plan_ok [OF dist _ True, of pl perf] empty by (cases "requests = []") blast+
    with True empty show "(is_ok (plan pl requests probes perf) \<longleftrightarrow> (\<forall>r \<in> set requests. compatible probes r \<noteq> {})) \<and>
      (\<forall>f. plan pl requests probes perf = Inl f \<longleftrightarrow> (\<exists>us r vs. requests = us @ r # vs \<and>
        (\<forall>u \<in> set us. compatible probes u \<noteq> {}) \<and> compatible probes r = {} \<and>
        f = Fails (PlanNoCompatibleBackend (length us)))) \<and>
      plan pl [] probes perf = Inr \<lparr>ep_steps = [], ep_estimated_total_us = 0\<rparr>" by auto
  next
    case False
    then obtain us r vs where r: "requests = us @ r # vs" "\<forall>u \<in> set us. compatible probes u \<noteq> {}"
      "compatible probes r = {}" using first_incompatible by meson
    note err = plan_error [OF dist r, of pl perf]
    have "plan pl requests probes perf = Inl f \<longleftrightarrow> (\<exists>us r vs. requests = us @ r # vs \<and>
        (\<forall>u \<in> set us. compatible probes u \<noteq> {}) \<and> compatible probes r = {} \<and>
        f = Fails (PlanNoCompatibleBackend (length us)))" for f
      using plan_error [OF dist, of requests _ _ _ pl perf] r err by (metis sum.inject(1))
    moreover have "\<not> is_ok (plan pl requests probes perf)" by (simp add: err)
    ultimately show "(is_ok (plan pl requests probes perf) \<longleftrightarrow> (\<forall>r \<in> set requests. compatible probes r \<noteq> {})) \<and>
      (\<forall>f. plan pl requests probes perf = Inl f \<longleftrightarrow> (\<exists>us r vs. requests = us @ r # vs \<and>
        (\<forall>u \<in> set us. compatible probes u \<noteq> {}) \<and> compatible probes r = {} \<and>
        f = Fails (PlanNoCompatibleBackend (length us)))) \<and>
      plan pl [] probes perf = Inr \<lparr>ep_steps = [], ep_estimated_total_us = 0\<rparr>" using False empty by blast
  qed
qed

theorem plan_error_iff_witness:
  "plan demo_planner (demo_requests @ [route_request_new Softmax F32]) demo_probes demo_measurements
    = Inl (Fails (PlanNoCompatibleBackend 2))"
proof -
  have "\<exists>us r vs. demo_requests @ [route_request_new Softmax F32] = us @ r # vs \<and>
      (\<forall>u \<in> set us. \<exists>p \<in> set demo_probes. compatible_probe u p) \<and>
      (\<forall>p \<in> set demo_probes. \<not> compatible_probe r p) \<and>
      Fails (PlanNoCompatibleBackend 2) = Fails (PlanNoCompatibleBackend (length us))"
    by (intro exI [of _ demo_requests] exI [of _ "route_request_new Softmax F32"] exI [of _ "[]"])
      (simp add: demo_plan_eval)
  with plan_error_iff [OF demo_probes_distinct, of demo_planner _ demo_measurements] show ?thesis by blast
qed

end
