(* ===== verification/Bytes.thy ===== *)
theory Bytes
  imports Prelude
begin

text \<open>
  Byte buffers and the little-endian conversions of the integer types (\<open>to_le_bytes\<close>,
  \<open>from_le_bytes\<close>). \<open>f32\<close> and \<open>f64\<close> are their bit patterns, so they share the
  conversions of \<open>u32\<close> and \<open>u64\<close>. The interface \<open>byte_codec\<close> is a fixed-width
  encoding; what the protocols need of sequences of values is proved in it.
\<close>

type_synonym bytes = "u8 list"

section \<open>Little-endian numbers\<close>

fun le_of_nat :: "nat \<Rightarrow> nat \<Rightarrow> bytes" where
  "le_of_nat 0 v = []"
| "le_of_nat (Suc n) v = of_nat (v mod 256) # le_of_nat n (v div 256)"

fun nat_of_le :: "bytes \<Rightarrow> nat" where
  "nat_of_le [] = 0"
| "nat_of_le (b # bs) = unat b + 256 * nat_of_le bs"

lemma length_le_of_nat [simp]: "length (le_of_nat n v) = n"
  by (induction n arbitrary: v) simp_all

lemma unat_byte: "unat (b :: u8) < 256"
  using unsigned_less [of b, where ?'a = nat] by simp

lemma nat_of_le_of_nat: "nat_of_le (le_of_nat n v) = v mod 256 ^ n"
proof (induction n arbitrary: v)
  case 0
  then show ?case by simp
next
  case (Suc n)
  have "v mod 256 + 256 * (v div 256 mod 256 ^ n) = v mod 256 ^ Suc n"
    by (simp add: mod_mult2_eq)
  with Suc show ?case by (simp add: unat_of_nat)
qed

lemma le_of_nat_of_le: "le_of_nat (length bs) (nat_of_le bs) = bs"
proof (induction bs)
  case Nil
  then show ?case by simp
next
  case (Cons b bs)
  then show ?case using unat_byte [of b] by simp
qed

lemma nat_of_le_less: "nat_of_le bs < 256 ^ length bs"
proof (induction bs)
  case Nil
  then show ?case by simp
next
  case (Cons b bs)
  then show ?case using unat_byte [of b] by simp
qed

section \<open>The integer types\<close>

definition u16_to_le :: "u16 \<Rightarrow> bytes" where
  "u16_to_le x = le_of_nat 2 (unat x)"

definition u32_to_le :: "u32 \<Rightarrow> bytes" where
  "u32_to_le x = le_of_nat 4 (unat x)"

definition u64_to_le :: "u64 \<Rightarrow> bytes" where
  "u64_to_le x = le_of_nat 8 (unat x)"

definition u16_from_le :: "bytes \<Rightarrow> u16" where
  "u16_from_le bs = of_nat (nat_of_le bs)"

definition u32_from_le :: "bytes \<Rightarrow> u32" where
  "u32_from_le bs = of_nat (nat_of_le bs)"

definition u64_from_le :: "bytes \<Rightarrow> u64" where
  "u64_from_le bs = of_nat (nat_of_le bs)"

lemma length_to_le [simp]:
  "length (u16_to_le x) = 2" "length (u32_to_le y) = 4" "length (u64_to_le z) = 8"
  by (simp_all add: u16_to_le_def u32_to_le_def u64_to_le_def)

text \<open>The bytes \<open>input[offset..offset + n]\<close>.\<close>

definition slice :: "bytes \<Rightarrow> nat \<Rightarrow> nat \<Rightarrow> bytes" where
  "slice bs offset n = take n (drop offset bs)"

lemma slice_length: "offset + n \<le> length bs \<Longrightarrow> length (slice bs offset n) = n"
  by (simp add: slice_def)

lemma drop_slice: "drop offset bs = slice bs offset n @ drop (offset + n) bs"
  by (simp add: slice_def add.commute flip: drop_drop)

section \<open>The interface\<close>

locale byte_codec =
  fixes enc :: "'a \<Rightarrow> bytes"
    and dec :: "bytes \<Rightarrow> 'a"
    and width :: nat
  assumes law_width: "length (enc x) = width"
    and law_dec_enc: "dec (enc x) = x"
    and law_enc_dec: "length bs = width \<Longrightarrow> enc (dec bs) = bs"
begin

definition enc_all :: "'a list \<Rightarrow> bytes" where
  "enc_all xs = concat (map enc xs)"

fun dec_all :: "nat \<Rightarrow> bytes \<Rightarrow> 'a list" where
  "dec_all 0 bs = []"
| "dec_all (Suc n) bs = dec (take width bs) # dec_all n (drop width bs)"

lemma length_enc_all: "length (enc_all xs) = width * length xs"
  by (induction xs) (simp_all add: enc_all_def law_width)

lemma dec_enc_all: "dec_all (length xs) (enc_all xs @ bs) = xs"
  by (induction xs) (simp_all add: enc_all_def law_width law_dec_enc)

lemma length_dec_all [simp]: "length (dec_all n bs) = n"
  by (induction n arbitrary: bs) simp_all

lemma enc_dec_all: "width * n \<le> length bs \<Longrightarrow> enc_all (dec_all n bs) = take (width * n) bs"
proof (induction n arbitrary: bs)
  case 0
  then show ?case by (simp add: enc_all_def)
next
  case (Suc n)
  then have "enc (dec (take width bs)) = take width bs" by (intro law_enc_dec) simp
  moreover have "enc_all (dec_all n (drop width bs)) = take (width * n) (drop width bs)"
    by (rule Suc.IH) (use Suc.prems in simp)
  ultimately show ?case by (simp add: enc_all_def take_add)
qed

lemma enc_inj: "enc x = enc y \<Longrightarrow> x = y"
  using law_dec_enc by metis

lemma dec_slice_enc: "length xs = offset \<Longrightarrow> dec (slice (xs @ enc x @ ys) offset width) = x"
  by (simp add: slice_def law_width law_dec_enc)

lemma enc_dec_slice: "offset + width \<le> length bs \<Longrightarrow> enc (dec (slice bs offset width)) = slice bs offset width"
  by (simp add: law_enc_dec slice_length)

end

interpretation le16: byte_codec u16_to_le u16_from_le 2
proof
  fix x :: u16 and bs :: bytes
  show "u16_from_le (u16_to_le x) = x"
    using unsigned_less [of x, where ?'a = nat]
    by (simp add: u16_from_le_def u16_to_le_def nat_of_le_of_nat)
  show "length bs = 2 \<Longrightarrow> u16_to_le (u16_from_le bs) = bs"
    using nat_of_le_less [of bs] le_of_nat_of_le [of bs]
    by (simp add: u16_from_le_def u16_to_le_def unat_of_nat)
qed simp

interpretation le32: byte_codec u32_to_le u32_from_le 4
proof
  fix x :: u32 and bs :: bytes
  show "u32_from_le (u32_to_le x) = x"
    using unsigned_less [of x, where ?'a = nat]
    by (simp add: u32_from_le_def u32_to_le_def nat_of_le_of_nat)
  show "length bs = 4 \<Longrightarrow> u32_to_le (u32_from_le bs) = bs"
    using nat_of_le_less [of bs] le_of_nat_of_le [of bs]
    by (simp add: u32_from_le_def u32_to_le_def unat_of_nat)
qed simp

interpretation le64: byte_codec u64_to_le u64_from_le 8
proof
  fix x :: u64 and bs :: bytes
  show "u64_from_le (u64_to_le x) = x"
    using unsigned_less [of x, where ?'a = nat]
    by (simp add: u64_from_le_def u64_to_le_def nat_of_le_of_nat)
  show "length bs = 8 \<Longrightarrow> u64_to_le (u64_from_le bs) = bs"
    using nat_of_le_less [of bs] le_of_nat_of_le [of bs]
    by (simp add: u64_from_le_def u64_to_le_def unat_of_nat)
qed simp

text \<open>Writing \<open>value.to_le_bytes()\<close> at an offset of a fixed array.\<close>

definition write_at :: "bytes \<Rightarrow> nat \<Rightarrow> bytes \<Rightarrow> bytes" where
  "write_at output offset value = take offset output @ value @ drop (offset + length value) output"

lemma length_write_at [simp]: "offset + length value \<le> length output \<Longrightarrow> length (write_at output offset value) = length output"
  by (simp add: write_at_def)

text \<open>A byte string literal \<open>*b"..."\<close>.\<close>

definition byte_string :: "string \<Rightarrow> bytes" where
  "byte_string s = map (\<lambda>c. of_nat (of_char c)) s"

lemma length_byte_string [simp]: "length (byte_string s) = length s"
  by (simp add: byte_string_def)

end
