(* ===== verification/Attention_Protocol.thy ===== *)
theory Attention_Protocol
  imports Bytes Rust_Float
begin

text \<open>
  The crate \<open>vrb-attention-protocol\<close>: the fixed 64-byte control header of shared-resource
  attention, its validation, encoding and decoding. A buffer is written with \<open>write_at\<close>
  into the zeroed array, in the order of the code; a read past the end cannot occur, as
  every read follows the check of the length.
\<close>

section \<open>Data\<close>

definition attention_magic :: u32 where "attention_magic = 0x41425256"
definition attention_protocol_version :: u16 where "attention_protocol_version = 1"
definition attention_header_len :: nat where "attention_header_len = 64"
definition attention_resource_count :: u32 where "attention_resource_count = 4"
definition flag_causal :: u32 where "flag_causal = 1"
definition attention_known_flags :: u32 where "attention_known_flags = flag_causal"

datatype attention_data_type = AttF32 | AttF16 | AttBf16

datatype attention_protocol_error =
    AttInvalidLength nat nat
  | AttInvalidMagic
  | AttUnsupportedVersion u16
  | AttInvalidHeaderLength u16
  | AttUnsupportedFlags u32
  | AttUnsupportedDataType u32
  | AttZeroDimension
  | AttInvalidHeadGrouping u32 u32
  | AttInvalidCausalLengths u32 u32
  | AttInvalidScale f32
  | AttInvalidDeviceIndex i32
  | AttInvalidResourceCount u32
  | AttReservedFieldNonZero
  | AttSizeOverflow

record attention_control =
  ac_flags :: u32
  ac_data_type :: attention_data_type
  ac_batch :: u32
  ac_query_heads :: u32
  ac_kv_heads :: u32
  ac_query_len :: u32
  ac_kv_len :: u32
  ac_head_dim :: u32
  ac_scale :: f32
  ac_device_index :: i32

text \<open>The discriminants of the \<open>repr(u32)\<close> enum.\<close>

fun data_type_tag :: "attention_data_type \<Rightarrow> u32" where
  "data_type_tag AttF32 = 1"
| "data_type_tag AttF16 = 2"
| "data_type_tag AttBf16 = 3"

fun element_bytes :: "attention_data_type \<Rightarrow> u64" where
  "element_bytes AttF32 = 4"
| "element_bytes AttF16 = 2"
| "element_bytes AttBf16 = 2"

definition data_type_from_raw :: "u32 \<Rightarrow> attention_protocol_error + attention_data_type" where
  "data_type_from_raw value =
     (if value = 1 then Inr AttF32
      else if value = 2 then Inr AttF16
      else if value = 3 then Inr AttBf16
      else Inl (AttUnsupportedDataType value))"

section \<open>Validation\<close>

definition is_causal :: "attention_control \<Rightarrow> bool" where
  "is_causal c = (ac_flags c AND flag_causal \<noteq> 0)"

definition checked_product :: "u64 list \<Rightarrow> attention_protocol_error + u64" where
  "checked_product values =
     try_fold (\<lambda>acc value. ok_or (checked_mul acc value) AttSizeOverflow) 1 values"

definition expected_attention_lengths :: "attention_control \<Rightarrow> attention_protocol_error + u64 list" where
  "expected_attention_lengths c =
     (let width = element_bytes (ac_data_type c)
      in and_then (checked_product [ucast (ac_batch c), ucast (ac_query_heads c), ucast (ac_query_len c),
           ucast (ac_head_dim c)]) (\<lambda>q_elements.
         and_then (checked_product [ucast (ac_batch c), ucast (ac_kv_heads c), ucast (ac_kv_len c),
           ucast (ac_head_dim c)]) (\<lambda>kv_elements.
         and_then (ok_or (checked_mul q_elements width) AttSizeOverflow) (\<lambda>q_bytes.
         and_then (ok_or (checked_mul kv_elements width) AttSizeOverflow) (\<lambda>kv_bytes.
         Inr [q_bytes, kv_bytes, kv_bytes, q_bytes])))))"

definition attention_validate :: "attention_control \<Rightarrow> attention_protocol_error + unit" where
  "attention_validate c =
     (if ac_flags c AND NOT attention_known_flags \<noteq> 0 then Inl (AttUnsupportedFlags (ac_flags c))
      else if ac_batch c = 0 \<or> ac_query_heads c = 0 \<or> ac_kv_heads c = 0 \<or> ac_query_len c = 0
        \<or> ac_kv_len c = 0 \<or> ac_head_dim c = 0 then Inl AttZeroDimension
      else if ac_query_heads c < ac_kv_heads c \<or> ac_query_heads c mod ac_kv_heads c \<noteq> 0
      then Inl (AttInvalidHeadGrouping (ac_query_heads c) (ac_kv_heads c))
      else if is_causal c \<and> ac_kv_len c < ac_query_len c
      then Inl (AttInvalidCausalLengths (ac_query_len c) (ac_kv_len c))
      else if \<not> f32_is_finite (ac_scale c) \<or> f32_le (ac_scale c) 0
      then Inl (AttInvalidScale (ac_scale c))
      else if sint (ac_device_index c) < 0 then Inl (AttInvalidDeviceIndex (ac_device_index c))
      else and_then (expected_attention_lengths c) (\<lambda>_. Inr ()))"

section \<open>Encoding and decoding\<close>

definition write_u16 :: "bytes \<Rightarrow> nat \<Rightarrow> u16 \<Rightarrow> bytes" where
  "write_u16 output offset value = write_at output offset (u16_to_le value)"

definition write_u32 :: "bytes \<Rightarrow> nat \<Rightarrow> u32 \<Rightarrow> bytes" where
  "write_u32 output offset value = write_at output offset (u32_to_le value)"

definition write_u64 :: "bytes \<Rightarrow> nat \<Rightarrow> u64 \<Rightarrow> bytes" where
  "write_u64 output offset value = write_at output offset (u64_to_le value)"

definition att_read_u16 :: "bytes \<Rightarrow> nat \<Rightarrow> u16" where
  "att_read_u16 input offset = u16_from_le (slice input offset 2)"

definition att_read_u32 :: "bytes \<Rightarrow> nat \<Rightarrow> u32" where
  "att_read_u32 input offset = u32_from_le (slice input offset 4)"

definition att_read_u64 :: "bytes \<Rightarrow> nat \<Rightarrow> u64" where
  "att_read_u64 input offset = u64_from_le (slice input offset 8)"

definition encode_attention :: "attention_control \<Rightarrow> attention_protocol_error + bytes" where
  "encode_attention c =
     and_then (attention_validate c) (\<lambda>_.
       let output = replicate attention_header_len 0;
           output = write_u32 output 0 attention_magic;
           output = write_u16 output 4 attention_protocol_version;
           output = write_u16 output 6 (of_nat attention_header_len);
           output = write_u32 output 8 (ac_flags c);
           output = write_u32 output 12 (data_type_tag (ac_data_type c));
           output = write_u32 output 16 (ac_batch c);
           output = write_u32 output 20 (ac_query_heads c);
           output = write_u32 output 24 (ac_kv_heads c);
           output = write_u32 output 28 (ac_query_len c);
           output = write_u32 output 32 (ac_kv_len c);
           output = write_u32 output 36 (ac_head_dim c);
           output = write_u32 output 40 (ac_scale c);
           output = write_u32 output 44 (ac_device_index c);
           output = write_u32 output 48 attention_resource_count;
           output = write_u32 output 52 0;
           output = write_u64 output 56 0
       in Inr output)"

definition decode_attention :: "bytes \<Rightarrow> attention_protocol_error + attention_control" where
  "decode_attention input =
     (if length input \<noteq> attention_header_len
      then Inl (AttInvalidLength attention_header_len (length input))
      else if att_read_u32 input 0 \<noteq> attention_magic then Inl AttInvalidMagic
      else let version = att_read_u16 input 4
      in if version \<noteq> attention_protocol_version then Inl (AttUnsupportedVersion version)
      else if unat (att_read_u16 input 6) \<noteq> attention_header_len
      then Inl (AttInvalidHeaderLength (att_read_u16 input 6))
      else let resource_count = att_read_u32 input 48
      in if resource_count \<noteq> attention_resource_count then Inl (AttInvalidResourceCount resource_count)
      else if att_read_u32 input 52 \<noteq> 0 \<or> att_read_u64 input 56 \<noteq> 0 then Inl AttReservedFieldNonZero
      else and_then (data_type_from_raw (att_read_u32 input 12)) (\<lambda>dtype.
        let c = \<lparr>ac_flags = att_read_u32 input 8, ac_data_type = dtype, ac_batch = att_read_u32 input 16,
              ac_query_heads = att_read_u32 input 20, ac_kv_heads = att_read_u32 input 24,
              ac_query_len = att_read_u32 input 28, ac_kv_len = att_read_u32 input 32,
              ac_head_dim = att_read_u32 input 36, ac_scale = att_read_u32 input 40,
              ac_device_index = att_read_u32 input 44\<rparr>
        in and_then (attention_validate c) (\<lambda>_. Inr c)))"

section \<open>The layout\<close>

definition attention_fields :: "attention_control \<Rightarrow> bytes" where
  "attention_fields c =
     u32_to_le attention_magic @ u16_to_le attention_protocol_version @ u16_to_le 64 @
     u32_to_le (ac_flags c) @ u32_to_le (data_type_tag (ac_data_type c)) @ u32_to_le (ac_batch c) @
     u32_to_le (ac_query_heads c) @ u32_to_le (ac_kv_heads c) @ u32_to_le (ac_query_len c) @
     u32_to_le (ac_kv_len c) @ u32_to_le (ac_head_dim c) @ u32_to_le (ac_scale c) @
     u32_to_le (ac_device_index c) @ u32_to_le attention_resource_count @ u32_to_le 0 @ u64_to_le 0"

lemma length_attention_fields [simp]: "length (attention_fields c) = 64"
  by (simp add: attention_fields_def)

text \<open>Writing the next field of a zeroed buffer extends the written prefix.\<close>

lemma write_next:
  "length xs = offset \<Longrightarrow> length value \<le> n \<Longrightarrow>
    write_at (xs @ replicate n 0) offset value = (xs @ value) @ replicate (n - length value) 0"
  by (simp add: write_at_def)

lemma write_first:
  "length value \<le> n \<Longrightarrow> write_at (replicate n 0) 0 value = value @ replicate (n - length value) 0"
  by (simp add: write_at_def)

lemma encode_attention_eq:
  "encode_attention c = and_then (attention_validate c) (\<lambda>_. Inr (attention_fields c))"
  unfolding encode_attention_def Let_def write_u16_def write_u32_def write_u64_def attention_header_len_def
  by (simp add: write_first write_next del: append_assoc replicate.simps) (simp add: attention_fields_def)

text \<open>Every field is read back from where it was written.\<close>

lemma read_fields:
  "att_read_u32 (attention_fields c) 0 = attention_magic"
  "att_read_u16 (attention_fields c) 4 = attention_protocol_version"
  "att_read_u16 (attention_fields c) 6 = 64"
  "att_read_u32 (attention_fields c) 8 = ac_flags c"
  "att_read_u32 (attention_fields c) 12 = data_type_tag (ac_data_type c)"
  "att_read_u32 (attention_fields c) 16 = ac_batch c"
  "att_read_u32 (attention_fields c) 20 = ac_query_heads c"
  "att_read_u32 (attention_fields c) 24 = ac_kv_heads c"
  "att_read_u32 (attention_fields c) 28 = ac_query_len c"
  "att_read_u32 (attention_fields c) 32 = ac_kv_len c"
  "att_read_u32 (attention_fields c) 36 = ac_head_dim c"
  "att_read_u32 (attention_fields c) 40 = ac_scale c"
  "att_read_u32 (attention_fields c) 44 = ac_device_index c"
  "att_read_u32 (attention_fields c) 48 = attention_resource_count"
  "att_read_u32 (attention_fields c) 52 = 0"
  "att_read_u64 (attention_fields c) 56 = 0"
  by (simp_all add: att_read_u32_def att_read_u16_def att_read_u64_def slice_def attention_fields_def
      le16.law_dec_enc le32.law_dec_enc le64.law_dec_enc)

lemma data_type_tag_from_raw: "data_type_from_raw (data_type_tag t) = Inr t"
  by (cases t) (simp_all add: data_type_from_raw_def)

lemma data_type_from_raw_iff: "data_type_from_raw v = Inr t \<longleftrightarrow> v = data_type_tag t"
  by (cases t) (auto simp: data_type_from_raw_def)

lemma decode_attention_fields:
  "attention_validate c = Inr () \<Longrightarrow> decode_attention (attention_fields c) = Inr c"
  by (simp add: decode_attention_def read_fields data_type_tag_from_raw attention_header_len_def Let_def)
    (cases c, simp)

text \<open>A decoded buffer is the layout of what it decodes to, byte for byte.\<close>

lemma attention_chunks:
  assumes "length b = 64"
  shows "b = u32_to_le (att_read_u32 b 0) @ u16_to_le (att_read_u16 b 4) @ u16_to_le (att_read_u16 b 6) @
     u32_to_le (att_read_u32 b 8) @ u32_to_le (att_read_u32 b 12) @ u32_to_le (att_read_u32 b 16) @
     u32_to_le (att_read_u32 b 20) @ u32_to_le (att_read_u32 b 24) @ u32_to_le (att_read_u32 b 28) @
     u32_to_le (att_read_u32 b 32) @ u32_to_le (att_read_u32 b 36) @ u32_to_le (att_read_u32 b 40) @
     u32_to_le (att_read_u32 b 44) @ u32_to_le (att_read_u32 b 48) @ u32_to_le (att_read_u32 b 52) @
     u64_to_le (att_read_u64 b 56)"
proof -
  have "b = drop 0 b" by simp
  also have "\<dots> = slice b 0 4 @ slice b 4 2 @ slice b 6 2 @ slice b 8 4 @ slice b 12 4 @ slice b 16 4 @
      slice b 20 4 @ slice b 24 4 @ slice b 28 4 @ slice b 32 4 @ slice b 36 4 @ slice b 40 4 @
      slice b 44 4 @ slice b 48 4 @ slice b 52 4 @ slice b 56 8"
    using assms
    by (simp add: drop_slice [of 0 b 4] drop_slice [of 4 b 2] drop_slice [of 6 b 2] drop_slice [of 8 b 4]
        drop_slice [of 12 b 4] drop_slice [of 16 b 4] drop_slice [of 20 b 4] drop_slice [of 24 b 4]
        drop_slice [of 28 b 4] drop_slice [of 32 b 4] drop_slice [of 36 b 4] drop_slice [of 40 b 4]
        drop_slice [of 44 b 4] drop_slice [of 48 b 4] drop_slice [of 52 b 4] drop_slice [of 56 b 8]
        del: drop0)
  finally show ?thesis
    using assms
    by (simp add: att_read_u32_def att_read_u16_def att_read_u64_def
        le16.enc_dec_slice le32.enc_dec_slice le64.enc_dec_slice)
qed

lemma decode_attention_Inr:
  assumes "decode_attention b = Inr c"
  shows "attention_validate c = Inr () \<and> b = attention_fields c"
proof -
  from assms have len: "length b = 64"
    by (auto simp: decode_attention_def attention_header_len_def split: if_splits)
  from assms len have magic: "att_read_u32 b 0 = attention_magic"
    by (auto simp: decode_attention_def attention_header_len_def split: if_splits)
  from assms len magic have ver: "att_read_u16 b 4 = attention_protocol_version"
    by (auto simp: decode_attention_def attention_header_len_def Let_def split: if_splits)
  from assms len magic ver have hl: "unat (att_read_u16 b 6) = 64"
    by (auto simp: decode_attention_def attention_header_len_def Let_def split: if_splits)
  from assms len magic ver hl have count: "att_read_u32 b 48 = attention_resource_count"
    by (auto simp: decode_attention_def attention_header_len_def Let_def split: if_splits)
  from assms len magic ver hl count have res: "att_read_u32 b 52 = 0" "att_read_u64 b 56 = 0"
    by (auto simp: decode_attention_def attention_header_len_def Let_def split: if_splits)
  have hl': "att_read_u16 b 6 = 64" using hl by (simp add: word_unat_eq_iff)
  from assms len magic ver hl count res obtain t where t: "data_type_from_raw (att_read_u32 b 12) = Inr t"
    and c: "c = \<lparr>ac_flags = att_read_u32 b 8, ac_data_type = t, ac_batch = att_read_u32 b 16,
      ac_query_heads = att_read_u32 b 20, ac_kv_heads = att_read_u32 b 24, ac_query_len = att_read_u32 b 28,
      ac_kv_len = att_read_u32 b 32, ac_head_dim = att_read_u32 b 36, ac_scale = att_read_u32 b 40,
      ac_device_index = att_read_u32 b 44\<rparr>"
    and valid: "attention_validate c = Inr ()"
    by (auto simp: decode_attention_def attention_header_len_def Let_def and_then_Inr_iff)
  from t have tag: "data_type_tag t = att_read_u32 b 12" by (simp add: data_type_from_raw_iff)
  have "b = attention_fields c"
    using attention_chunks [OF len] unfolding magic ver hl' count res by (simp add: attention_fields_def c tag)
  with valid show ?thesis by blast
qed

section \<open>Sizes\<close>

lemma checked_product_iff: "checked_product vs = Inr p \<Longrightarrow> unat p = prod_list (map unat vs)"
  by (auto simp: checked_product_def dest!: try_fold_checked_mul_iff)

lemma unat_u64_u32: "unat (ucast (x :: u32) :: u64) = unat x"
  by (rule unat_ucast_up) simp

lemma expected_attention_lengths_Inr:
  assumes "expected_attention_lengths c = Inr ls"
  shows "map unat ls =
    (let w = unat (element_bytes (ac_data_type c));
         q = unat (ac_batch c) * unat (ac_query_heads c) * unat (ac_query_len c) * unat (ac_head_dim c) * w;
         kv = unat (ac_batch c) * unat (ac_kv_heads c) * unat (ac_kv_len c) * unat (ac_head_dim c) * w
     in [q, kv, kv, q])"
  using assms
  by (auto simp: expected_attention_lengths_def Let_def result_iffs checked_mul_iff unat_u64_u32
      mult.assoc dest!: checked_product_iff)

lemma element_bytes_pos: "0 < unat (element_bytes t)"
  by (cases t) simp_all

lemma attention_validate_iff:
  "attention_validate c = Inr () \<longleftrightarrow>
    ac_flags c AND NOT 1 = 0 \<and>
    ac_batch c \<noteq> 0 \<and> ac_query_heads c \<noteq> 0 \<and> ac_kv_heads c \<noteq> 0 \<and> ac_query_len c \<noteq> 0 \<and>
    ac_kv_len c \<noteq> 0 \<and> ac_head_dim c \<noteq> 0 \<and>
    ac_kv_heads c \<le> ac_query_heads c \<and> ac_query_heads c mod ac_kv_heads c = 0 \<and>
    (is_causal c \<longrightarrow> ac_query_len c \<le> ac_kv_len c) \<and>
    f32_is_finite (ac_scale c) \<and> \<not> f32_le (ac_scale c) 0 \<and> 0 \<le> sint (ac_device_index c) \<and>
    (\<exists>ls. expected_attention_lengths c = Inr ls)"
  by (auto simp: attention_validate_def attention_known_flags_def flag_causal_def and_then_Inr_iff not_less)

section \<open>Properties\<close>

definition demo_attention :: attention_control where
  "demo_attention =
     \<lparr>ac_flags = 1, ac_data_type = AttF16, ac_batch = 2, ac_query_heads = 8, ac_kv_heads = 2,
      ac_query_len = 16, ac_kv_len = 32, ac_head_dim = 64, ac_scale = 0x3E000000, ac_device_index = 0\<rparr>"

lemma demo_attention_lengths: "expected_attention_lengths demo_attention = Inr [32768, 16384, 16384, 32768]"
  by (simp add: expected_attention_lengths_def demo_attention_def checked_product_def checked_mul_def)

lemma demo_attention_valid: "attention_validate demo_attention = Inr ()"
proof -
  have "f32_is_finite 0x3E000000" "\<not> f32_le 0x3E000000 0" by code_simp+
  with demo_attention_lengths show ?thesis
    by (simp add: attention_validate_def attention_known_flags_def is_causal_def flag_causal_def demo_attention_def)
qed

text \<open>
  C20. A valid control encodes to exactly 64 bytes and decodes to itself; an invalid one is
  refused by the encoder with its validation error.
\<close>

theorem attention_roundtrip:
  "(\<forall>e. attention_validate c = Inl e \<longrightarrow> encode_attention c = Inl e) \<and>
   (attention_validate c = Inr () \<longrightarrow>
      (\<exists>bs. encode_attention c = Inr bs \<and> length bs = 64 \<and> decode_attention bs = Inr c))"
  by (simp add: encode_attention_eq decode_attention_fields)

theorem attention_roundtrip_witness:
  "\<exists>bs. encode_attention demo_attention = Inr bs \<and> length bs = 64 \<and> decode_attention bs = Inr demo_attention"
  using attention_roundtrip [of demo_attention] demo_attention_valid by blast

text \<open>
  C21. The decoder accepts nothing but encodings: what it returns is a valid control, and
  encoding that control gives back the input byte for byte. So no two messages decode to
  the same control, and no unknown flag, datatype tag, resource count or reserved byte gets
  through.
\<close>

theorem attention_decode_canonical:
  assumes "decode_attention bs = Inr c"
  shows "attention_validate c = Inr () \<and> encode_attention c = Inr bs"
  using decode_attention_Inr [OF assms] by (simp add: encode_attention_eq)

theorem attention_decode_canonical_witness:
  "encode_attention demo_attention = Inr (attention_fields demo_attention)"
  using attention_decode_canonical [OF decode_attention_fields [OF demo_attention_valid]] by blast

text \<open>
  For a valid control the four tensors have lengths, computed without overflow: Q and O
  are batch times query heads times query length times head dimension elements, K and V
  batch times KV heads times KV length times head dimension, each of the width of the
  datatype; all are non-zero. The query heads are a positive multiple of the KV heads.
\<close>

theorem attention_lengths_exact:
  assumes "attention_validate c = Inr ()"
  shows "\<exists>q kv. expected_attention_lengths c = Inr [q, kv, kv, q] \<and> q \<noteq> 0 \<and> kv \<noteq> 0 \<and>
    unat q = unat (ac_batch c) * unat (ac_query_heads c) * unat (ac_query_len c) * unat (ac_head_dim c)
      * unat (element_bytes (ac_data_type c)) \<and>
    unat kv = unat (ac_batch c) * unat (ac_kv_heads c) * unat (ac_kv_len c) * unat (ac_head_dim c)
      * unat (element_bytes (ac_data_type c)) \<and>
    unat (ac_kv_heads c) dvd unat (ac_query_heads c)"
proof -
  from assms obtain ls where ls: "expected_attention_lengths c = Inr ls" by (auto simp: attention_validate_iff)
  then obtain q kv where qkv: "ls = [q, kv, kv, q]"
    by (auto simp: expected_attention_lengths_def Let_def and_then_Inr_iff)
  have nz: "unat (ac_batch c) \<noteq> 0" "unat (ac_query_heads c) \<noteq> 0" "unat (ac_kv_heads c) \<noteq> 0"
    "unat (ac_query_len c) \<noteq> 0" "unat (ac_kv_len c) \<noteq> 0" "unat (ac_head_dim c) \<noteq> 0"
    using assms by (simp_all add: attention_validate_iff unat_eq_zero)
  have sizes: "unat q = unat (ac_batch c) * unat (ac_query_heads c) * unat (ac_query_len c) * unat (ac_head_dim c)
      * unat (element_bytes (ac_data_type c))"
    "unat kv = unat (ac_batch c) * unat (ac_kv_heads c) * unat (ac_kv_len c) * unat (ac_head_dim c)
      * unat (element_bytes (ac_data_type c))"
    using expected_attention_lengths_Inr [OF ls] unfolding qkv by (simp_all add: Let_def)
  then have "unat q \<noteq> 0" "unat kv \<noteq> 0" using nz element_bytes_pos [of "ac_data_type c"] by simp_all
  moreover have "unat (ac_kv_heads c) dvd unat (ac_query_heads c)"
    using assms by (auto simp: attention_validate_iff unat_mod simp flip: unat_eq_zero)
  ultimately show ?thesis using ls qkv sizes by auto
qed

theorem attention_lengths_exact_witness:
  "expected_attention_lengths demo_attention = Inr [32768, 16384, 16384, 32768]"
proof -
  from attention_lengths_exact [OF demo_attention_valid] obtain q kv where
    e: "expected_attention_lengths demo_attention = Inr [q, kv, kv, q]" "unat q = 32768" "unat kv = 16384"
    by (auto simp: demo_attention_def)
  then have "q = 32768" "kv = 16384" by (simp_all add: word_unat_eq_iff)
  with e(1) show ?thesis by simp
qed

end
