(* ===== verification/Gemm_Protocol.thy ===== *)
theory Gemm_Protocol
  imports Bytes Rust_Float
begin

text \<open>
  The crate \<open>vrb-gemm-protocol\<close>: the request and response messages of GEMM with their
  payload of \<open>f32\<close> values. Floats are bit patterns. A read goes through \<open>read_array\<close> with
  its own bounds check, and \<open>read_f32_values\<close> is the loop of the code with its cursor.
\<close>

section \<open>Data\<close>

definition gemm_protocol_version :: u32 where "gemm_protocol_version = 1"
definition gemm_request_magic :: bytes where "gemm_request_magic = byte_string ''VRBGEMM1''"
definition gemm_response_magic :: bytes where "gemm_response_magic = byte_string ''VRBGEMR1''"
definition gemm_request_header_len :: nat where "gemm_request_header_len = 56"
definition gemm_response_header_len :: nat where "gemm_response_header_len = 32"
definition gemm_flag_has_c :: u32 where "gemm_flag_has_c = 1"
definition gemm_known_flags :: u32 where "gemm_known_flags = gemm_flag_has_c"
definition f32_bytes :: u64 where "f32_bytes = 4"

record gemm_request =
  gr_m :: u64
  gr_n :: u64
  gr_k :: u64
  gr_alpha :: f32
  gr_beta :: f32
  gr_a :: "f32 list"
  gr_b :: "f32 list"
  gr_c :: "f32 list option"

record gemm_request_meta =
  gm_m :: u64
  gm_n :: u64
  gm_k :: u64
  gm_alpha :: f32
  gm_beta :: f32
  gm_has_c :: bool
  gm_a_elements :: u64
  gm_b_elements :: u64
  gm_c_elements :: u64
  gm_encoded_len :: u64

record decoded_gemm_request =
  dg_meta :: gemm_request_meta
  dg_a :: "f32 list"
  dg_b :: "f32 list"
  dg_c :: "f32 list option"

record decoded_gemm_response =
  dr_m :: u64
  dr_n :: u64
  dr_values :: "f32 list"

datatype gemm_protocol_error =
    Truncated nat nat
  | InvalidMagic
  | UnsupportedVersion u32 u32
  | InvalidHeaderLength u32 nat
  | UnsupportedFlags u32
  | DimensionOverflow string
  | LengthOverflow
  | LengthMismatch u64 u64
  | MatrixLengthMismatch string u64 u64
  | AddressSpaceOverflow

section \<open>Reading and writing\<close>

definition checked_elements :: "u64 \<Rightarrow> u64 \<Rightarrow> string \<Rightarrow> gemm_protocol_error + u64" where
  "checked_elements rows columns label = ok_or (checked_mul rows columns) (DimensionOverflow label)"

definition validate_slice_len :: "string \<Rightarrow> u64 \<Rightarrow> nat \<Rightarrow> gemm_protocol_error + unit" where
  "validate_slice_len matrix expected actual_len =
     and_then (ok_or (u64_try_from actual_len) AddressSpaceOverflow) (\<lambda>actual.
       ensure (actual = expected) (MatrixLengthMismatch matrix expected actual))"

definition require_len :: "bytes \<Rightarrow> nat \<Rightarrow> gemm_protocol_error + unit" where
  "require_len input minimum = ensure (\<not> length input < minimum) (Truncated minimum (length input))"

text \<open>\<open>offset.checked_add(N)\<close> on \<open>usize\<close>, then \<open>input.get(offset..end)\<close>.\<close>

definition usize_checked_add :: "nat \<Rightarrow> nat \<Rightarrow> nat option" where
  "usize_checked_add a b = (if a + b \<le> usize_max then Some (a + b) else None)"

definition read_array :: "nat \<Rightarrow> bytes \<Rightarrow> nat \<Rightarrow> gemm_protocol_error + bytes" where
  "read_array n input offset =
     and_then (ok_or (usize_checked_add offset n) LengthOverflow) (\<lambda>stop.
       if stop \<le> length input then Inr (slice input offset n) else Inl (Truncated stop (length input)))"

definition read_u32 :: "bytes \<Rightarrow> nat \<Rightarrow> gemm_protocol_error + u32" where
  "read_u32 input offset = and_then (read_array 4 input offset) (\<lambda>bs. Inr (u32_from_le bs))"

definition read_u64 :: "bytes \<Rightarrow> nat \<Rightarrow> gemm_protocol_error + u64" where
  "read_u64 input offset = and_then (read_array 8 input offset) (\<lambda>bs. Inr (u64_from_le bs))"

definition read_f32 :: "bytes \<Rightarrow> nat \<Rightarrow> gemm_protocol_error + f32" where
  "read_f32 input offset = and_then (read_array 4 input offset) (\<lambda>bs. Inr (u32_from_le bs))"

text \<open>The loop of \<open>read_f32_values\<close>, with the cursor it leaves behind.\<close>

fun read_f32_loop :: "bytes \<Rightarrow> nat \<Rightarrow> nat \<Rightarrow> gemm_protocol_error + f32 list \<times> nat" where
  "read_f32_loop input cursor 0 = Inr ([], cursor)"
| "read_f32_loop input cursor (Suc count) =
     and_then (read_f32 input cursor) (\<lambda>value.
     and_then (ok_or (usize_checked_add cursor 4) LengthOverflow) (\<lambda>cursor'.
     and_then (read_f32_loop input cursor' count) (\<lambda>(values, cursor'').
     Inr (value # values, cursor''))))"

definition read_f32_values :: "bytes \<Rightarrow> nat \<Rightarrow> u64 \<Rightarrow> gemm_protocol_error + f32 list \<times> nat" where
  "read_f32_values input cursor count =
     and_then (ok_or (usize_try_from count) AddressSpaceOverflow) (\<lambda>count.
       read_f32_loop input cursor count)"

definition write_f32_values :: "f32 list \<Rightarrow> bytes" where
  "write_f32_values values = concat (map u32_to_le values)"

section \<open>Messages\<close>

definition encoded_response_len :: "u64 \<Rightarrow> u64 \<Rightarrow> gemm_protocol_error + u64" where
  "encoded_response_len m n =
     and_then (checked_elements m n ''response matrix'') (\<lambda>elements.
     and_then (ok_or (checked_mul elements f32_bytes) LengthOverflow) (\<lambda>payload.
     ok_or (checked_add (of_nat gemm_response_header_len) payload) LengthOverflow))"

text \<open>\<open>a.checked_add(b).and_then(|v| if has_c { v.checked_add(c) } else { Some(v) })\<close>\<close>

definition payload_elements :: "bool \<Rightarrow> u64 \<Rightarrow> u64 \<Rightarrow> u64 \<Rightarrow> u64 option" where
  "payload_elements has_c a b c =
     (case checked_add a b of None \<Rightarrow> None | Some v \<Rightarrow> if has_c then checked_add v c else Some v)"

definition inspect_request :: "bytes \<Rightarrow> gemm_protocol_error + gemm_request_meta" where
  "inspect_request input =
     and_then (require_len input gemm_request_header_len) (\<lambda>_.
     and_then (ensure (take 8 input = gemm_request_magic) InvalidMagic) (\<lambda>_.
     and_then (read_u32 input 8) (\<lambda>version.
     and_then (ensure (version = gemm_protocol_version)
       (UnsupportedVersion version gemm_protocol_version)) (\<lambda>_.
     and_then (read_u32 input 12) (\<lambda>header_len.
     and_then (ensure (unat header_len = gemm_request_header_len)
       (InvalidHeaderLength header_len gemm_request_header_len)) (\<lambda>_.
     and_then (read_u32 input 16) (\<lambda>flags.
     and_then (ensure (flags AND NOT gemm_known_flags = 0) (UnsupportedFlags flags)) (\<lambda>_.
     and_then (read_u64 input 24) (\<lambda>m.
     and_then (read_u64 input 32) (\<lambda>n.
     and_then (read_u64 input 40) (\<lambda>k.
     and_then (read_f32 input 48) (\<lambda>alpha.
     and_then (read_f32 input 52) (\<lambda>beta.
     let has_c = (flags AND gemm_flag_has_c \<noteq> 0) in
     and_then (checked_elements m k ''matrix A'') (\<lambda>a_elements.
     and_then (checked_elements k n ''matrix B'') (\<lambda>b_elements.
     and_then (checked_elements m n ''matrix C'') (\<lambda>c_elements.
     and_then (ok_or (payload_elements has_c a_elements b_elements c_elements) LengthOverflow) (\<lambda>elements.
     and_then (ok_or (checked_mul elements f32_bytes) LengthOverflow) (\<lambda>payload_bytes.
     and_then (ok_or (checked_add (of_nat gemm_request_header_len) payload_bytes) LengthOverflow) (\<lambda>encoded_len.
     and_then (ok_or (u64_try_from (length input)) AddressSpaceOverflow) (\<lambda>actual_len.
     and_then (ensure (actual_len = encoded_len) (LengthMismatch encoded_len actual_len)) (\<lambda>_.
     Inr \<lparr>gm_m = m, gm_n = n, gm_k = k, gm_alpha = alpha, gm_beta = beta, gm_has_c = has_c,
       gm_a_elements = a_elements, gm_b_elements = b_elements, gm_c_elements = c_elements,
       gm_encoded_len = encoded_len\<rparr>)))))))))))))))))))))"

definition decode_request :: "bytes \<Rightarrow> gemm_protocol_error + decoded_gemm_request" where
  "decode_request input =
     and_then (inspect_request input) (\<lambda>meta.
     and_then (read_f32_values input gemm_request_header_len (gm_a_elements meta)) (\<lambda>(a, cursor).
     and_then (read_f32_values input cursor (gm_b_elements meta)) (\<lambda>(b, cursor).
     and_then (if gm_has_c meta
         then and_then (read_f32_values input cursor (gm_c_elements meta)) (\<lambda>(c, cursor). Inr (Some c))
         else Inr None) (\<lambda>c.
     Inr \<lparr>dg_meta = meta, dg_a = a, dg_b = b, dg_c = c\<rparr>))))"

definition request_bytes :: "gemm_request \<Rightarrow> bytes" where
  "request_bytes r =
     gemm_request_magic @ u32_to_le gemm_protocol_version @ u32_to_le (of_nat gemm_request_header_len) @
     u32_to_le (if gr_c r \<noteq> None then gemm_flag_has_c else 0) @ u32_to_le 0 @
     u64_to_le (gr_m r) @ u64_to_le (gr_n r) @ u64_to_le (gr_k r) @
     u32_to_le (gr_alpha r) @ u32_to_le (gr_beta r) @
     write_f32_values (gr_a r) @ write_f32_values (gr_b r) @
     (case gr_c r of None \<Rightarrow> [] | Some c \<Rightarrow> write_f32_values c)"

definition encode_request :: "gemm_request \<Rightarrow> gemm_protocol_error + bytes" where
  "encode_request r =
     and_then (checked_elements (gr_m r) (gr_k r) ''matrix A'') (\<lambda>a_elements.
     and_then (checked_elements (gr_k r) (gr_n r) ''matrix B'') (\<lambda>b_elements.
     and_then (checked_elements (gr_m r) (gr_n r) ''matrix C'') (\<lambda>c_elements.
     and_then (validate_slice_len ''A'' a_elements (length (gr_a r))) (\<lambda>_.
     and_then (validate_slice_len ''B'' b_elements (length (gr_b r))) (\<lambda>_.
     and_then (case gr_c r of None \<Rightarrow> Inr () | Some c \<Rightarrow> validate_slice_len ''C'' c_elements (length c)) (\<lambda>_.
     and_then (ok_or (payload_elements (gr_c r \<noteq> None) a_elements b_elements c_elements) LengthOverflow) (\<lambda>elements.
     and_then (ok_or (checked_mul elements f32_bytes) LengthOverflow) (\<lambda>payload_bytes.
     and_then (ok_or (checked_add (of_nat gemm_request_header_len) payload_bytes) LengthOverflow) (\<lambda>total_len.
     and_then (ok_or (usize_try_from total_len) AddressSpaceOverflow) (\<lambda>capacity.
     Inr (request_bytes r)))))))))))"

definition response_bytes :: "u64 \<Rightarrow> u64 \<Rightarrow> f32 list \<Rightarrow> bytes" where
  "response_bytes m n values =
     gemm_response_magic @ u32_to_le gemm_protocol_version @ u32_to_le (of_nat gemm_response_header_len) @
     u64_to_le m @ u64_to_le n @ write_f32_values values"

definition encode_response :: "u64 \<Rightarrow> u64 \<Rightarrow> f32 list \<Rightarrow> gemm_protocol_error + bytes" where
  "encode_response m n values =
     and_then (checked_elements m n ''response matrix'') (\<lambda>expected_elements.
     and_then (validate_slice_len ''response'' expected_elements (length values)) (\<lambda>_.
     and_then (encoded_response_len m n) (\<lambda>total_len.
     and_then (ok_or (usize_try_from total_len) AddressSpaceOverflow) (\<lambda>capacity.
     Inr (response_bytes m n values)))))"

definition decode_response :: "bytes \<Rightarrow> gemm_protocol_error + decoded_gemm_response" where
  "decode_response input =
     and_then (require_len input gemm_response_header_len) (\<lambda>_.
     and_then (ensure (take 8 input = gemm_response_magic) InvalidMagic) (\<lambda>_.
     and_then (read_u32 input 8) (\<lambda>version.
     and_then (ensure (version = gemm_protocol_version)
       (UnsupportedVersion version gemm_protocol_version)) (\<lambda>_.
     and_then (read_u32 input 12) (\<lambda>header_len.
     and_then (ensure (unat header_len = gemm_response_header_len)
       (InvalidHeaderLength header_len gemm_response_header_len)) (\<lambda>_.
     and_then (read_u64 input 16) (\<lambda>m.
     and_then (read_u64 input 24) (\<lambda>n.
     and_then (encoded_response_len m n) (\<lambda>expected_len.
     and_then (ok_or (u64_try_from (length input)) AddressSpaceOverflow) (\<lambda>actual_len.
     and_then (ensure (expected_len = actual_len) (LengthMismatch expected_len actual_len)) (\<lambda>_.
     and_then (checked_elements m n ''response matrix'') (\<lambda>elements.
     and_then (read_f32_values input gemm_response_header_len elements) (\<lambda>(values, cursor).
     Inr \<lparr>dr_m = m, dr_n = n, dr_values = values\<rparr>)))))))))))))"

section \<open>Reads\<close>

lemma read_array_iff:
  "read_array n input offset = Inr bs \<longleftrightarrow>
    offset + n \<le> usize_max \<and> offset + n \<le> length input \<and> bs = slice input offset n"
  by (auto simp: read_array_def usize_checked_add_def result_iffs)

definition u32_at :: "bytes \<Rightarrow> nat \<Rightarrow> u32" where
  "u32_at input offset = u32_from_le (slice input offset 4)"

definition u64_at :: "bytes \<Rightarrow> nat \<Rightarrow> u64" where
  "u64_at input offset = u64_from_le (slice input offset 8)"

lemma read_header:
  "offset + 4 \<le> length input \<Longrightarrow> offset \<le> 100 \<Longrightarrow> read_u32 input offset = Inr (u32_at input offset)"
  "offset + 4 \<le> length input \<Longrightarrow> offset \<le> 100 \<Longrightarrow> read_f32 input offset = Inr (u32_at input offset)"
  "offset + 8 \<le> length input \<Longrightarrow> offset \<le> 100 \<Longrightarrow> read_u64 input offset = Inr (u64_at input offset)"
  by (simp_all add: read_u32_def read_f32_def read_u64_def read_array_def usize_checked_add_def usize_max_def
      u32_at_def u64_at_def)

lemma read_f32_loop_eq:
  "cursor + 4 * count \<le> length input \<Longrightarrow> length input \<le> usize_max \<Longrightarrow>
    read_f32_loop input cursor count = Inr (le32.dec_all count (drop cursor input), cursor + 4 * count)"
proof (induction count arbitrary: cursor)
  case 0
  then show ?case by simp
next
  case (Suc count)
  then show ?case
    by (simp add: read_f32_def read_array_def usize_checked_add_def slice_def add.commute)
qed

lemma read_f32_values_eq:
  "cursor + 4 * unat count \<le> length input \<Longrightarrow> length input \<le> usize_max \<Longrightarrow>
    read_f32_values input cursor count
      = Inr (le32.dec_all (unat count) (drop cursor input), cursor + 4 * unat count)"
  by (simp add: read_f32_values_def read_f32_loop_eq)

lemma write_f32_values_eq: "write_f32_values = le32.enc_all"
  by (simp add: fun_eq_iff write_f32_values_def le32.enc_all_def)

lemma length_write_f32_values [simp]: "length (write_f32_values xs) = 4 * length xs"
  by (simp add: write_f32_values_eq le32.length_enc_all)

lemma dec_write: "le32.dec_all (length xs) (write_f32_values xs @ rest) = xs"
  by (simp add: write_f32_values_eq le32.dec_enc_all)

section \<open>Sizes\<close>

lemma payload_elements_iff:
  "payload_elements h a b c = Some e \<longleftrightarrow> unat e = unat a + unat b + (if h then unat c else 0)"
proof (cases "checked_add a b")
  case None
  then have "2 ^ 64 \<le> unat a + unat b" by (simp add: checked_add_None_iff)
  with None unat_lt2p_num [of e] show ?thesis by (simp add: payload_elements_def)
next
  case (Some v)
  then have "unat v = unat a + unat b" by (simp add: checked_add_iff)
  moreover have "payload_elements h a b c = (if h then checked_add v c else Some v)"
    by (simp add: payload_elements_def Some)
  ultimately show ?thesis by (auto simp: checked_add_iff word_unat_eq_iff)
qed

lemma ex_u64: "(\<exists>w :: u64. unat w = n) \<longleftrightarrow> n < 2 ^ 64"
proof
  assume "n < 2 ^ 64"
  then have "unat (of_nat n :: u64) = n" by (simp add: unat_of_nat)
  then show "\<exists>w :: u64. unat w = n" by blast
next
  assume "\<exists>w :: u64. unat w = n"
  then show "n < 2 ^ 64" using unat_lt2p_num by auto
qed

lemma unat_of_nat_u64: "n < 2 ^ 64 \<Longrightarrow> unat (of_nat n :: u64) = n"
  by (simp add: unat_of_nat)

text \<open>The payload in bytes, and the header in front of it, fit \<open>u64\<close>.\<close>

definition framed_len :: "nat \<Rightarrow> u64 option \<Rightarrow> gemm_protocol_error + u64" where
  "framed_len header elements =
     and_then (ok_or elements LengthOverflow) (\<lambda>elements.
     and_then (ok_or (checked_mul elements f32_bytes) LengthOverflow) (\<lambda>payload.
     ok_or (checked_add (of_nat header) payload) LengthOverflow))"

lemma framed_len_iff:
  assumes "header < 100"
  shows "framed_len header (Some e) = Inr total_len \<longleftrightarrow> unat total_len = header + 4 * unat e"
proof -
  have h: "unat (of_nat header :: u64) = header" using assms by (simp add: unat_of_nat)
  have "framed_len header (Some e) = Inr total_len \<longleftrightarrow>
      (\<exists>p :: u64. unat p = 4 * unat e \<and> unat total_len = header + unat p)"
    by (auto simp: framed_len_def result_iffs checked_mul_iff checked_add_iff h f32_bytes_def mult.commute)
  also have "\<dots> \<longleftrightarrow> unat total_len = header + 4 * unat e"
    using ex_u64 [of "4 * unat e"] unat_lt2p_num [of total_len] by auto
  finally show ?thesis .
qed

lemma encoded_response_len_iff:
  "encoded_response_len m n = Inr l \<longleftrightarrow> unat l = 32 + 4 * (unat m * unat n)"
proof -
  have "encoded_response_len m n = Inr l \<longleftrightarrow>
      (\<exists>e. unat e = unat m * unat n \<and> framed_len 32 (Some e) = Inr l)"
    by (auto simp: encoded_response_len_def framed_len_def checked_elements_def result_iffs checked_mul_iff
        gemm_response_header_len_def)
  also have "\<dots> \<longleftrightarrow> unat l = 32 + 4 * (unat m * unat n)"
    using ex_u64 [of "unat m * unat n"] unat_lt2p_num [of l] by (auto simp: framed_len_iff)
  finally show ?thesis .
qed

section \<open>Well-formed requests\<close>

definition request_elements :: "gemm_request \<Rightarrow> nat" where
  "request_elements r = length (gr_a r) + length (gr_b r) + (case gr_c r of None \<Rightarrow> 0 | Some c \<Rightarrow> length c)"

definition request_wf :: "gemm_request \<Rightarrow> bool" where
  "request_wf r =
     (length (gr_a r) = unat (gr_m r) * unat (gr_k r) \<and> length (gr_b r) = unat (gr_k r) * unat (gr_n r) \<and>
      (case gr_c r of None \<Rightarrow> True | Some c \<Rightarrow> length c = unat (gr_m r) * unat (gr_n r)) \<and>
      unat (gr_m r) * unat (gr_n r) < 2 ^ 64 \<and> 56 + 4 * request_elements r < 2 ^ 64)"

definition request_meta :: "gemm_request \<Rightarrow> gemm_request_meta" where
  "request_meta r =
     \<lparr>gm_m = gr_m r, gm_n = gr_n r, gm_k = gr_k r, gm_alpha = gr_alpha r, gm_beta = gr_beta r,
      gm_has_c = (gr_c r \<noteq> None), gm_a_elements = gr_m r * gr_k r, gm_b_elements = gr_k r * gr_n r,
      gm_c_elements = gr_m r * gr_n r, gm_encoded_len = of_nat (56 + 4 * request_elements r)\<rparr>"

lemma length_request_bytes [simp]: "length (request_bytes r) = 56 + 4 * request_elements r"
  by (simp add: request_bytes_def request_elements_def gemm_request_magic_def split: option.split)

lemma unat_mult_u64: "unat x * unat y < 2 ^ 64 \<Longrightarrow> unat (x * y) = unat x * unat y" for x y :: u64
  by (simp add: unat_word_ariths)

lemma checked_elements_iff: "checked_elements a b l = Inr e \<longleftrightarrow> unat e = unat a * unat b"
  by (simp add: checked_elements_def result_iffs checked_mul_iff)

lemma checked_elements_ok: "unat a * unat b < 2 ^ 64 \<Longrightarrow> checked_elements a b l = Inr (a * b)"
  by (simp add: checked_elements_iff unat_mult_u64)

lemma validate_slice_len_iff: "validate_slice_len l e n = Inr () \<longleftrightarrow> n = unat e"
  by (auto simp: validate_slice_len_def result_iffs u64_try_from_iff)

lemma request_wf_sizes:
  assumes "request_wf r"
  shows "unat (gr_m r * gr_k r) = unat (gr_m r) * unat (gr_k r)"
    and "unat (gr_k r * gr_n r) = unat (gr_k r) * unat (gr_n r)"
    and "unat (gr_m r * gr_n r) = unat (gr_m r) * unat (gr_n r)"
    and "checked_elements (gr_m r) (gr_k r) l = Inr (gr_m r * gr_k r)"
    and "checked_elements (gr_k r) (gr_n r) l = Inr (gr_k r * gr_n r)"
    and "checked_elements (gr_m r) (gr_n r) l = Inr (gr_m r * gr_n r)"
    and "payload_elements (gr_c r \<noteq> None) (gr_m r * gr_k r) (gr_k r * gr_n r) (gr_m r * gr_n r)
      = Some (of_nat (request_elements r))"
    and "framed_len 56 (Some (of_nat (request_elements r))) = Inr (of_nat (56 + 4 * request_elements r))"
proof -
  have mn: "unat (gr_m r) * unat (gr_n r) < 2 ^ 64" and tot: "56 + 4 * request_elements r < 2 ^ 64"
    using assms by (simp_all add: request_wf_def)
  have "length (gr_a r) \<le> request_elements r" "length (gr_b r) \<le> request_elements r"
    by (simp_all add: request_elements_def)
  with assms tot have mk: "unat (gr_m r) * unat (gr_k r) < 2 ^ 64" and kn: "unat (gr_k r) * unat (gr_n r) < 2 ^ 64"
    by (simp_all add: request_wf_def)
  show sizes: "unat (gr_m r * gr_k r) = unat (gr_m r) * unat (gr_k r)"
    "unat (gr_k r * gr_n r) = unat (gr_k r) * unat (gr_n r)"
    "unat (gr_m r * gr_n r) = unat (gr_m r) * unat (gr_n r)"
    by (rule unat_mult_u64 [OF mk] unat_mult_u64 [OF kn] unat_mult_u64 [OF mn])+
  show "checked_elements (gr_m r) (gr_k r) l = Inr (gr_m r * gr_k r)"
    "checked_elements (gr_k r) (gr_n r) l = Inr (gr_k r * gr_n r)"
    "checked_elements (gr_m r) (gr_n r) l = Inr (gr_m r * gr_n r)"
    by (rule checked_elements_ok [OF mk] checked_elements_ok [OF kn] checked_elements_ok [OF mn])+
  have e: "unat (of_nat (request_elements r) :: u64) = request_elements r"
    and l: "unat (of_nat (56 + 4 * request_elements r) :: u64) = 56 + 4 * request_elements r"
    using tot by (auto intro!: unat_of_nat_u64 simp del: of_nat_add of_nat_mult)
  show "payload_elements (gr_c r \<noteq> None) (gr_m r * gr_k r) (gr_k r * gr_n r) (gr_m r * gr_n r)
      = Some (of_nat (request_elements r))"
    unfolding payload_elements_iff e
    using assms by (auto simp: sizes request_wf_def request_elements_def split: option.splits)
  show "framed_len 56 (Some (of_nat (request_elements r))) = Inr (of_nat (56 + 4 * request_elements r))"
    by (simp add: framed_len_iff e l del: of_nat_add of_nat_mult)
qed

lemma encode_request_wf:
  assumes "request_wf r"
  shows "encode_request r = Inr (request_bytes r)"
proof -
  have len: "validate_slice_len ''A'' (gr_m r * gr_k r) (length (gr_a r)) = Inr ()"
    "validate_slice_len ''B'' (gr_k r * gr_n r) (length (gr_b r)) = Inr ()"
    "(case gr_c r of None \<Rightarrow> Inr () | Some c \<Rightarrow> validate_slice_len ''C'' (gr_m r * gr_n r) (length c)) = Inr ()"
    using assms
    by (auto simp: validate_slice_len_iff request_wf_sizes [OF assms] request_wf_def split: option.splits)
  obtain p where "checked_mul (of_nat (request_elements r)) f32_bytes = Some p"
    "checked_add (56 :: u64) p = Some (of_nat (56 + 4 * request_elements r))"
    using request_wf_sizes(8) [OF assms] by (auto simp: framed_len_def result_iffs)
  then show ?thesis
    by (simp add: encode_request_def request_wf_sizes(4-7) [OF assms] len gemm_request_header_len_def del: not_None_eq)
qed

lemma encode_request_Inr:
  assumes "encode_request r = Inr bs"
  shows "request_wf r \<and> bs = request_bytes r"
proof -
  from assms obtain ea eb ec e p l where
    ea: "checked_elements (gr_m r) (gr_k r) ''matrix A'' = Inr ea"
    and eb: "checked_elements (gr_k r) (gr_n r) ''matrix B'' = Inr eb"
    and ec: "checked_elements (gr_m r) (gr_n r) ''matrix C'' = Inr ec"
    and lens: "validate_slice_len ''A'' ea (length (gr_a r)) = Inr ()"
      "validate_slice_len ''B'' eb (length (gr_b r)) = Inr ()"
      "(case gr_c r of None \<Rightarrow> Inr () | Some c \<Rightarrow> validate_slice_len ''C'' ec (length c)) = Inr ()"
    and e: "payload_elements (gr_c r \<noteq> None) ea eb ec = Some e"
    and p: "checked_mul e f32_bytes = Some p" "checked_add (56 :: u64) p = Some l"
    and bs: "bs = request_bytes r"
    by (auto simp: encode_request_def and_then_Inr_iff ok_or_Inr_iff gemm_request_header_len_def)
  have "framed_len 56 (Some e) = Inr l" using p by (simp add: framed_len_def)
  then have "56 + 4 * unat e < 2 ^ 64" using unat_lt2p_num [of l] by (simp add: framed_len_iff)
  moreover have "request_elements r = unat e"
    using e lens by (auto simp: payload_elements_iff validate_slice_len_iff request_elements_def split: option.splits)
  moreover have "unat (gr_m r) * unat (gr_n r) < 2 ^ 64"
    using ec unat_lt2p_num [of ec] by (simp add: checked_elements_iff)
  ultimately have "request_wf r"
    using ea eb ec lens by (auto simp: request_wf_def checked_elements_iff validate_slice_len_iff split: option.splits)
  with bs show ?thesis by blast
qed

lemma encode_request_iff: "encode_request r = Inr bs \<longleftrightarrow> request_wf r \<and> bs = request_bytes r"
  using encode_request_wf encode_request_Inr by blast

section \<open>Decoding an encoded request\<close>

lemma inspect_request_eq:
  assumes len: "56 \<le> length input"
  shows "inspect_request input =
    and_then (ensure (take 8 input = gemm_request_magic) InvalidMagic) (\<lambda>_.
    and_then (ensure (u32_at input 8 = 1) (UnsupportedVersion (u32_at input 8) 1)) (\<lambda>_.
    and_then (ensure (unat (u32_at input 12) = 56) (InvalidHeaderLength (u32_at input 12) 56)) (\<lambda>_.
    and_then (ensure (u32_at input 16 AND NOT 1 = 0) (UnsupportedFlags (u32_at input 16))) (\<lambda>_.
    let has_c = (u32_at input 16 AND 1 \<noteq> 0); m = u64_at input 24; n = u64_at input 32; k = u64_at input 40 in
    and_then (checked_elements m k ''matrix A'') (\<lambda>ea.
    and_then (checked_elements k n ''matrix B'') (\<lambda>eb.
    and_then (checked_elements m n ''matrix C'') (\<lambda>ec.
    and_then (framed_len 56 (payload_elements has_c ea eb ec)) (\<lambda>encoded_len.
    and_then (ok_or (u64_try_from (length input)) AddressSpaceOverflow) (\<lambda>actual_len.
    and_then (ensure (actual_len = encoded_len) (LengthMismatch encoded_len actual_len)) (\<lambda>_.
    Inr \<lparr>gm_m = m, gm_n = n, gm_k = k, gm_alpha = u32_at input 48, gm_beta = u32_at input 52, gm_has_c = has_c,
      gm_a_elements = ea, gm_b_elements = eb, gm_c_elements = ec, gm_encoded_len = encoded_len\<rparr>))))))))))"
  using len
  by (simp add: inspect_request_def require_len_def gemm_request_header_len_def read_header Let_def
      gemm_protocol_version_def gemm_known_flags_def gemm_flag_has_c_def framed_len_def and_then_assoc)

text \<open>Fields of the request header.\<close>

lemma request_header:
  "take 8 (request_bytes r @ rest) = gemm_request_magic"
  "u32_at (request_bytes r @ rest) 8 = 1" "u32_at (request_bytes r @ rest) 12 = 56"
  "u32_at (request_bytes r @ rest) 16 = (if gr_c r \<noteq> None then 1 else 0)"
  "u64_at (request_bytes r @ rest) 24 = gr_m r" "u64_at (request_bytes r @ rest) 32 = gr_n r"
  "u64_at (request_bytes r @ rest) 40 = gr_k r"
  "u32_at (request_bytes r @ rest) 48 = gr_alpha r" "u32_at (request_bytes r @ rest) 52 = gr_beta r"
  by (simp_all add: request_bytes_def u32_at_def u64_at_def slice_def gemm_request_magic_def
      gemm_protocol_version_def gemm_request_header_len_def gemm_flag_has_c_def
      le32.law_dec_enc le64.law_dec_enc)

lemma inspect_request_wf:
  assumes wf: "request_wf r"
  shows "inspect_request (request_bytes r) = Inr (request_meta r)"
proof -
  have len: "u64_try_from (56 + 4 * request_elements r) = Some (of_nat (56 + 4 * request_elements r))"
  proof -
    have "56 + 4 * request_elements r < 2 ^ 64" using wf by (simp add: request_wf_def)
    then have "unat (of_nat (56 + 4 * request_elements r) :: u64) = 56 + 4 * request_elements r"
      by (rule unat_of_nat_u64)
    then show ?thesis by (simp only: u64_try_from_iff)
  qed
  have flag: "(u32_at (request_bytes r) 16 AND 1 \<noteq> 0) = (gr_c r \<noteq> None)"
    "u32_at (request_bytes r) 16 AND - 2 = 0"
    using request_header(4) [of r "[]"] by simp_all
  show ?thesis
    using request_header(1-3,5-9) [of r "[]"]
    by (simp add: inspect_request_eq flag Let_def request_wf_sizes [OF wf] len request_meta_def
        del: not_None_eq of_nat_add of_nat_mult)
qed

text \<open>The payload is read back section by section.\<close>

lemma decode_request_wf:
  assumes wf: "request_wf r"
  shows "decode_request (request_bytes r)
    = Inr \<lparr>dg_meta = request_meta r, dg_a = gr_a r, dg_b = gr_b r, dg_c = gr_c r\<rparr>"
proof -
  let ?hdr = "take 56 (request_bytes r)"
  let ?pc = "case gr_c r of None \<Rightarrow> [] | Some c \<Rightarrow> write_f32_values c"
  have total: "length (request_bytes r) \<le> usize_max"
    using wf by (simp add: request_wf_def usize_max_def)
  have d56: "drop 56 (request_bytes r) = write_f32_values (gr_a r) @ write_f32_values (gr_b r) @ ?pc"
    by (simp add: request_bytes_def gemm_request_magic_def)
  have da: "drop (56 + n) (request_bytes r) = drop n (drop 56 (request_bytes r))" for n
    by (simp add: add.commute)
  have na: "length (gr_a r) = unat (gm_a_elements (request_meta r))"
    and nb: "length (gr_b r) = unat (gm_b_elements (request_meta r))"
    using wf by (simp_all add: request_meta_def request_wf_sizes(1,2) [OF wf] request_wf_def)
  have elems: "length (gr_a r) + length (gr_b r) \<le> request_elements r" by (simp add: request_elements_def)
  have ra: "read_f32_values (request_bytes r) 56 (gm_a_elements (request_meta r))
      = Inr (gr_a r, 56 + 4 * length (gr_a r))"
    using elems total
    by (subst read_f32_values_eq) (simp_all add: na [symmetric] d56 dec_write)
  have rb: "read_f32_values (request_bytes r) (56 + 4 * length (gr_a r)) (gm_b_elements (request_meta r))
      = Inr (gr_b r, 56 + 4 * length (gr_a r) + 4 * length (gr_b r))"
    using elems total
    by (subst read_f32_values_eq) (simp_all add: nb [symmetric] da d56 dec_write)
  show ?thesis
  proof (cases "gr_c r")
    case None
    then have "\<not> gm_has_c (request_meta r)" by (simp add: request_meta_def)
    then show ?thesis
      using None by (simp add: decode_request_def inspect_request_wf [OF wf] gemm_request_header_len_def ra rb)
  next
    case (Some c)
    then have has: "gm_has_c (request_meta r)" by (simp add: request_meta_def)
    have nc: "length c = unat (gm_c_elements (request_meta r))"
      using wf Some by (simp add: request_meta_def request_wf_sizes(3) [OF wf] request_wf_def)
    have dc: "drop (56 + 4 * length (gr_a r) + 4 * length (gr_b r)) (request_bytes r) = write_f32_values c"
      using da [of "4 * length (gr_a r) + 4 * length (gr_b r)"] Some by (simp add: d56 add.assoc)
    have rc: "read_f32_values (request_bytes r) (56 + 4 * length (gr_a r) + 4 * length (gr_b r))
        (gm_c_elements (request_meta r)) = Inr (c, 56 + 4 * request_elements r)"
      using total Some dec_write [of c "[]"]
      by (subst read_f32_values_eq)
        (simp_all add: nc [symmetric] dc request_elements_def)
    show ?thesis
      using Some has
      by (simp add: decode_request_def inspect_request_wf [OF wf] gemm_request_header_len_def ra rb rc)
  qed
qed

section \<open>What a decoded request says about the input\<close>

lemma known_flag_cases:
  fixes f :: u32
  assumes "f AND - 2 = 0"
  shows "f = (if f AND 1 \<noteq> 0 then 1 else 0)"
proof -
  have "(f AND 1) OR (f AND NOT 1) = f"
    by (rule bit_word_eqI) (auto simp only: bit_or_iff bit_and_iff bit_not_iff possible_bit_word)
  moreover have "f AND NOT 1 = 0" using assms by simp
  ultimately have "f AND 1 = f" by simp
  moreover have "f AND 1 = (if odd f then 1 else 0)"
    by (auto simp: and_one_eq odd_iff_mod_2_eq_one even_iff_mod_2_eq_zero)
  ultimately show ?thesis by (auto split: if_splits)
qed

lemma inspect_request_Inr:
  assumes "inspect_request bs = Inr meta"
  shows "56 \<le> length bs \<and> length bs \<le> usize_max \<and> take 8 bs = gemm_request_magic \<and>
    u32_at bs 8 = 1 \<and> u32_at bs 12 = 56 \<and> u32_at bs 16 = (if gm_has_c meta then 1 else 0) \<and>
    gm_m meta = u64_at bs 24 \<and> gm_n meta = u64_at bs 32 \<and> gm_k meta = u64_at bs 40 \<and>
    gm_alpha meta = u32_at bs 48 \<and> gm_beta meta = u32_at bs 52 \<and>
    unat (gm_a_elements meta) = unat (gm_m meta) * unat (gm_k meta) \<and>
    unat (gm_b_elements meta) = unat (gm_k meta) * unat (gm_n meta) \<and>
    unat (gm_c_elements meta) = unat (gm_m meta) * unat (gm_n meta) \<and>
    unat (gm_encoded_len meta) = length bs \<and>
    length bs = 56 + 4 * (unat (gm_a_elements meta) + unat (gm_b_elements meta)
      + (if gm_has_c meta then unat (gm_c_elements meta) else 0))"
proof -
  have len: "56 \<le> length bs"
    using assms by (auto simp: inspect_request_def require_len_def gemm_request_header_len_def result_iffs)
  from assms obtain ea eb ec l where
    hdr: "take 8 bs = gemm_request_magic" "u32_at bs 8 = 1" "unat (u32_at bs 12) = 56" "u32_at bs 16 AND - 2 = 0"
    and els: "checked_elements (u64_at bs 24) (u64_at bs 40) ''matrix A'' = Inr ea"
      "checked_elements (u64_at bs 40) (u64_at bs 32) ''matrix B'' = Inr eb"
      "checked_elements (u64_at bs 24) (u64_at bs 32) ''matrix C'' = Inr ec"
    and l: "framed_len 56 (payload_elements (u32_at bs 16 AND 1 \<noteq> 0) ea eb ec) = Inr l"
      "u64_try_from (length bs) = Some l"
    and meta: "meta = \<lparr>gm_m = u64_at bs 24, gm_n = u64_at bs 32, gm_k = u64_at bs 40, gm_alpha = u32_at bs 48,
      gm_beta = u32_at bs 52, gm_has_c = (u32_at bs 16 AND 1 \<noteq> 0), gm_a_elements = ea, gm_b_elements = eb,
      gm_c_elements = ec, gm_encoded_len = l\<rparr>"
    by (auto simp: inspect_request_eq [OF len] Let_def and_then_Inr_iff ensure_Inr_iff ok_or_Inr_iff)
  from l(1) obtain e where e: "payload_elements (u32_at bs 16 AND 1 \<noteq> 0) ea eb ec = Some e"
    by (cases "payload_elements (u32_at bs 16 AND 1 \<noteq> 0) ea eb ec") (auto simp: framed_len_def)
  with l(1) have le: "unat l = 56 + 4 * unat e" by (simp add: framed_len_iff)
  have ll: "length bs = unat l" using l(2) by (simp add: u64_try_from_iff)
  have "u32_at bs 12 = 56" using hdr(3) by (simp add: word_unat_eq_iff)
  moreover have "length bs \<le> usize_max" using ll unat_lt2p_num [of l] by (simp add: usize_max_def)
  ultimately show ?thesis
    using len hdr els e le ll known_flag_cases [OF hdr(4)]
    by (simp add: meta checked_elements_iff payload_elements_iff)
qed

text \<open>The request a message decodes to.\<close>

definition decoded_request :: "decoded_gemm_request \<Rightarrow> gemm_request" where
  "decoded_request d =
     \<lparr>gr_m = gm_m (dg_meta d), gr_n = gm_n (dg_meta d), gr_k = gm_k (dg_meta d), gr_alpha = gm_alpha (dg_meta d),
      gr_beta = gm_beta (dg_meta d), gr_a = dg_a d, gr_b = dg_b d, gr_c = dg_c d\<rparr>"

lemma decode_request_of_inspect:
  assumes insp: "inspect_request bs = Inr meta"
  shows "decode_request bs = Inr \<lparr>dg_meta = meta,
    dg_a = le32.dec_all (unat (gm_a_elements meta)) (drop 56 bs),
    dg_b = le32.dec_all (unat (gm_b_elements meta)) (drop (56 + 4 * unat (gm_a_elements meta)) bs),
    dg_c = (if gm_has_c meta
      then Some (le32.dec_all (unat (gm_c_elements meta))
        (drop (56 + 4 * unat (gm_a_elements meta) + 4 * unat (gm_b_elements meta)) bs))
      else None)\<rparr>"
proof -
  note f = inspect_request_Inr [OF insp]
  have len: "length bs = 56 + 4 * (unat (gm_a_elements meta) + unat (gm_b_elements meta)
      + (if gm_has_c meta then unat (gm_c_elements meta) else 0))" "length bs \<le> usize_max" using f by blast+
  have ra: "read_f32_values bs 56 (gm_a_elements meta)
      = Inr (le32.dec_all (unat (gm_a_elements meta)) (drop 56 bs), 56 + 4 * unat (gm_a_elements meta))"
    by (rule read_f32_values_eq) (use len in \<open>simp_all\<close>)
  have rb: "read_f32_values bs (56 + 4 * unat (gm_a_elements meta)) (gm_b_elements meta)
      = Inr (le32.dec_all (unat (gm_b_elements meta)) (drop (56 + 4 * unat (gm_a_elements meta)) bs),
          56 + 4 * unat (gm_a_elements meta) + 4 * unat (gm_b_elements meta))"
    by (rule read_f32_values_eq) (use len in \<open>simp_all\<close>)
  have rc: "gm_has_c meta \<Longrightarrow> read_f32_values bs (56 + 4 * unat (gm_a_elements meta) + 4 * unat (gm_b_elements meta))
      (gm_c_elements meta) = Inr (le32.dec_all (unat (gm_c_elements meta))
          (drop (56 + 4 * unat (gm_a_elements meta) + 4 * unat (gm_b_elements meta)) bs),
        56 + 4 * unat (gm_a_elements meta) + 4 * unat (gm_b_elements meta) + 4 * unat (gm_c_elements meta))"
    by (rule read_f32_values_eq) (use len in \<open>simp_all\<close>)
  show ?thesis
    using rc insp by (simp add: decode_request_def gemm_request_header_len_def ra rb)
qed

lemma decode_request_Inr:
  assumes "decode_request bs = Inr d"
  shows "inspect_request bs = Inr (dg_meta d) \<and>
    dg_a d = le32.dec_all (unat (gm_a_elements (dg_meta d))) (drop 56 bs) \<and>
    dg_b d = le32.dec_all (unat (gm_b_elements (dg_meta d))) (drop (56 + 4 * unat (gm_a_elements (dg_meta d))) bs) \<and>
    dg_c d = (if gm_has_c (dg_meta d)
      then Some (le32.dec_all (unat (gm_c_elements (dg_meta d)))
        (drop (56 + 4 * unat (gm_a_elements (dg_meta d)) + 4 * unat (gm_b_elements (dg_meta d))) bs))
      else None)"
proof -
  from assms obtain meta where insp: "inspect_request bs = Inr meta"
    by (auto simp: decode_request_def and_then_Inr_iff)
  with assms show ?thesis by (auto simp: decode_request_of_inspect [OF insp])
qed

lemma u32_at_to_le: "offset + 4 \<le> length bs \<Longrightarrow> u32_to_le (u32_at bs offset) = slice bs offset 4"
  by (simp add: u32_at_def le32.enc_dec_slice)

lemma u64_at_to_le: "offset + 8 \<le> length bs \<Longrightarrow> u64_to_le (u64_at bs offset) = slice bs offset 8"
  by (simp add: u64_at_def le64.enc_dec_slice)

text \<open>The header: everything before the reserved word, and everything after it.\<close>

lemma request_header_chunks:
  assumes "56 \<le> length bs"
  shows "take 20 bs = take 8 bs @ u32_to_le (u32_at bs 8) @ u32_to_le (u32_at bs 12) @ u32_to_le (u32_at bs 16)"
    and "drop 24 bs = u64_to_le (u64_at bs 24) @ u64_to_le (u64_at bs 32) @ u64_to_le (u64_at bs 40) @
      u32_to_le (u32_at bs 48) @ u32_to_le (u32_at bs 52) @ drop 56 bs"
proof -
  have "take 20 bs = take 8 bs @ take 12 (drop 8 bs)"
    using take_add [of 8 12 bs] by simp
  also have "take 12 (drop 8 bs) = slice bs 8 4 @ take 8 (drop 12 bs)"
    using take_add [of 4 8 "drop 8 bs"] by (simp add: slice_def)
  also have "take 8 (drop 12 bs) = slice bs 12 4 @ slice bs 16 4"
    using take_add [of 4 4 "drop 12 bs"] by (simp add: slice_def)
  finally show "take 20 bs = take 8 bs @ u32_to_le (u32_at bs 8) @ u32_to_le (u32_at bs 12) @ u32_to_le (u32_at bs 16)"
    using assms by (simp add: u32_at_to_le)
  have "drop 24 bs = slice bs 24 8 @ slice bs 32 8 @ slice bs 40 8 @ slice bs 48 4 @ slice bs 52 4 @ drop 56 bs"
    by (simp add: drop_slice [of 24 bs 8] drop_slice [of 32 bs 8] drop_slice [of 40 bs 8]
        drop_slice [of 48 bs 4] drop_slice [of 52 bs 4])
  then show "drop 24 bs = u64_to_le (u64_at bs 24) @ u64_to_le (u64_at bs 32) @ u64_to_le (u64_at bs 40) @
      u32_to_le (u32_at bs 48) @ u32_to_le (u32_at bs 52) @ drop 56 bs"
    using assms by (simp add: u32_at_to_le u64_at_to_le)
qed

lemma write_dec: "4 * n \<le> length bs \<Longrightarrow> write_f32_values (le32.dec_all n bs) = take (4 * n) bs"
  by (simp add: write_f32_values_eq le32.enc_dec_all)

lemma decode_request_canonical:
  assumes "decode_request bs = Inr d"
  shows "request_wf (decoded_request d) \<and> dg_meta d = request_meta (decoded_request d) \<and>
    request_bytes (decoded_request d) = take 20 bs @ [0, 0, 0, 0] @ drop 24 bs"
proof -
  let ?r = "decoded_request d" and ?m = "dg_meta d"
  note dec = decode_request_Inr [OF assms]
  then have insp: "inspect_request bs = Inr ?m" by blast
  define na nb nc where n: "na = unat (gm_a_elements ?m)" "nb = unat (gm_b_elements ?m)" "nc = unat (gm_c_elements ?m)"
  have f: "56 \<le> length bs" "length bs \<le> usize_max" "take 8 bs = gemm_request_magic" "u32_at bs 8 = 1"
    "u32_at bs 12 = 56" "u32_at bs 16 = (if gm_has_c ?m then 1 else 0)"
    and flds: "gm_m ?m = u64_at bs 24" "gm_n ?m = u64_at bs 32" "gm_k ?m = u64_at bs 40"
      "gm_alpha ?m = u32_at bs 48" "gm_beta ?m = u32_at bs 52"
    and els: "na = unat (gm_m ?m) * unat (gm_k ?m)" "nb = unat (gm_k ?m) * unat (gm_n ?m)"
      "nc = unat (gm_m ?m) * unat (gm_n ?m)"
    and l: "unat (gm_encoded_len ?m) = length bs" "length bs = 56 + 4 * (na + nb + (if gm_has_c ?m then nc else 0))"
    using inspect_request_Inr [OF insp] unfolding n by blast+
  have a: "dg_a d = le32.dec_all na (drop 56 bs)" and b: "dg_b d = le32.dec_all nb (drop (56 + 4 * na) bs)"
    and c: "dg_c d = (if gm_has_c ?m then Some (le32.dec_all nc (drop (56 + 4 * na + 4 * nb) bs)) else None)"
    using dec unfolding n by blast+
  have elements: "request_elements ?r = na + nb + (if gm_has_c ?m then nc else 0)"
    by (simp add: request_elements_def decoded_request_def a b c)
  have wf: "request_wf ?r"
    using els l f(2) elements unat_lt2p_num [of "gm_c_elements ?m"]
    by (auto simp: request_wf_def decoded_request_def a b c usize_max_def n)
  have payload: "write_f32_values (dg_a d) @ write_f32_values (dg_b d) @
      (case dg_c d of None \<Rightarrow> [] | Some c \<Rightarrow> write_f32_values c) = drop 56 bs"
  proof -
    have "drop 56 bs = take (4 * na) (drop 56 bs) @ drop (56 + 4 * na) bs"
      by (metis append_take_drop_id drop_drop add.commute)
    also have "drop (56 + 4 * na) bs = take (4 * nb) (drop (56 + 4 * na) bs) @ drop (56 + 4 * na + 4 * nb) bs"
      by (metis append_take_drop_id drop_drop add.commute)
    also have "drop (56 + 4 * na + 4 * nb) bs = (case dg_c d of None \<Rightarrow> [] | Some c \<Rightarrow> write_f32_values c)"
      using l(2) by (simp add: c write_dec)
    also have "take (4 * nb) (drop (56 + 4 * na) bs) = write_f32_values (dg_b d)"
      using l(2) by (simp add: b write_dec)
    also have "take (4 * na) (drop 56 bs) = write_f32_values (dg_a d)"
      using l(2) by (simp add: a write_dec)
    finally show ?thesis ..
  qed
  have gr_c: "(gr_c ?r \<noteq> None) = gm_has_c ?m" by (simp add: decoded_request_def c)
  have z: "u32_to_le 0 = [0, 0, 0, 0]" by code_simp
  have bytes: "request_bytes ?r = take 20 bs @ [0, 0, 0, 0] @ drop 24 bs"
    unfolding request_bytes_def gr_c z request_header_chunks [OF f(1)] f(3-6) payload [symmetric]
    by (simp add: decoded_request_def flds gemm_protocol_version_def gemm_request_header_len_def gemm_flag_has_c_def)
  have "dg_meta d = request_meta ?r"
  proof -
    have "gm_a_elements ?m = gr_m ?r * gr_k ?r" "gm_b_elements ?m = gr_k ?r * gr_n ?r"
      "gm_c_elements ?m = gr_m ?r * gr_n ?r"
      using els request_wf_sizes(1-3) [OF wf] by (simp_all add: word_unat_eq_iff decoded_request_def n)
    moreover have "gm_encoded_len ?m = of_nat (56 + 4 * request_elements ?r)"
      unfolding elements l(2) [symmetric] l(1) [symmetric] by simp
    ultimately show ?thesis
      using gr_c by (simp add: request_meta_def decoded_request_def del: of_nat_add of_nat_mult)
  qed
  with wf bytes show ?thesis by blast
qed

section \<open>Wrong lengths\<close>

lemma slice_take: "offset + n \<le> m \<Longrightarrow> slice (take m bs) offset n = slice bs offset n"
  by (simp add: slice_def min_def drop_take)

lemma same_header:
  assumes "take m bs = take m bs'"
  shows "offset + 4 \<le> m \<Longrightarrow> u32_at bs offset = u32_at bs' offset"
    and "offset + 8 \<le> m \<Longrightarrow> u64_at bs offset = u64_at bs' offset"
    and "n \<le> m \<Longrightarrow> take n bs = take n bs'"
proof -
  show "offset + 4 \<le> m \<Longrightarrow> u32_at bs offset = u32_at bs' offset"
    using slice_take [of offset 4 m bs] slice_take [of offset 4 m bs'] assms by (simp add: u32_at_def)
  show "offset + 8 \<le> m \<Longrightarrow> u64_at bs offset = u64_at bs' offset"
    using slice_take [of offset 8 m bs] slice_take [of offset 8 m bs'] assms by (simp add: u64_at_def)
  show "n \<le> m \<Longrightarrow> take n bs = take n bs'"
    using arg_cong [OF assms, of "take n"] by (simp add: min_def)
qed

lemma decode_request_wrong_length:
  assumes wf: "request_wf r" and hdr: "take 56 bs = take 56 (request_bytes r)"
    and len: "length bs \<le> usize_max" "length bs \<noteq> length (request_bytes r)"
  shows "decode_request bs
    = Inl (LengthMismatch (of_nat (length (request_bytes r))) (of_nat (length bs)))"
proof -
  have l56: "56 \<le> length bs" using arg_cong [OF hdr, of length] by simp
  have flag: "(u32_at (request_bytes r) 16 AND 1 \<noteq> 0) = (gr_c r \<noteq> None)"
    "u32_at (request_bytes r) 16 AND - 2 = 0"
    using request_header(4) [of r "[]"] by simp_all
  have lt: "length bs < 2 ^ 64" "56 + 4 * request_elements r < 2 ^ 64"
    using len(1) wf by (simp_all add: usize_max_def request_wf_def)
  note unat_of_nat_u64 [OF lt(1)] unat_of_nat_u64 [OF lt(2)]
  with len(2) have ne: "(of_nat (length bs) :: u64) \<noteq> of_nat (56 + 4 * request_elements r)"
    and tf: "u64_try_from (length bs) = Some (of_nat (length bs))"
    by (auto simp: u64_try_from_iff)
  have "inspect_request bs
      = Inl (LengthMismatch (of_nat (56 + 4 * request_elements r)) (of_nat (length bs)))"
    using request_header(1-3,5-9) [of r "[]"] same_header [OF hdr] ne l56
    by (simp add: inspect_request_eq flag Let_def request_wf_sizes [OF wf] tf
        del: not_None_eq of_nat_add of_nat_mult)
  then show ?thesis by (simp add: decode_request_def)
qed

section \<open>Responses\<close>

definition response_wf :: "u64 \<Rightarrow> u64 \<Rightarrow> f32 list \<Rightarrow> bool" where
  "response_wf m n values = (length values = unat m * unat n \<and> 32 + 4 * length values < 2 ^ 64)"

lemma length_response_bytes [simp]: "length (response_bytes m n values) = 32 + 4 * length values"
  by (simp add: response_bytes_def gemm_response_magic_def)

lemma encoded_response_len_wf:
  "response_wf m n values \<Longrightarrow> encoded_response_len m n = Inr (of_nat (32 + 4 * length values))"
  unfolding encoded_response_len_iff by (simp add: response_wf_def unat_of_nat_u64 del: of_nat_add of_nat_mult)

lemma encode_response_iff:
  "encode_response m n values = Inr bs \<longleftrightarrow> response_wf m n values \<and> bs = response_bytes m n values"
proof
  assume "encode_response m n values = Inr bs"
  then obtain e l where "checked_elements m n ''response matrix'' = Inr e"
    "validate_slice_len ''response'' e (length values) = Inr ()" "encoded_response_len m n = Inr l"
    "bs = response_bytes m n values"
    by (auto simp: encode_response_def and_then_Inr_iff)
  then show "response_wf m n values \<and> bs = response_bytes m n values"
    using unat_lt2p_num [of l]
    by (simp add: response_wf_def checked_elements_iff validate_slice_len_iff encoded_response_len_iff)
next
  assume a: "response_wf m n values \<and> bs = response_bytes m n values"
  then have "unat m * unat n < 2 ^ 64" by (simp add: response_wf_def)
  then have "checked_elements m n ''response matrix'' = Inr (m * n)"
    "validate_slice_len ''response'' (m * n) (length values) = Inr ()"
    using a by (simp_all add: checked_elements_ok validate_slice_len_iff unat_mult_u64 response_wf_def)
  moreover note encoded_response_len_wf [OF conjunct1 [OF a]]
  ultimately show "encode_response m n values = Inr bs"
    using conjunct2 [OF a] by (simp add: encode_response_def del: of_nat_add of_nat_mult)
qed

lemma response_header:
  "take 8 (response_bytes m n values) = gemm_response_magic"
  "u32_at (response_bytes m n values) 8 = 1" "u32_at (response_bytes m n values) 12 = 32"
  "u64_at (response_bytes m n values) 16 = m" "u64_at (response_bytes m n values) 24 = n"
  "drop 32 (response_bytes m n values) = write_f32_values values"
  by (simp_all add: response_bytes_def u32_at_def u64_at_def slice_def gemm_response_magic_def
      gemm_protocol_version_def gemm_response_header_len_def le32.law_dec_enc le64.law_dec_enc)

lemma decode_response_eq:
  assumes "32 \<le> length input"
  shows "decode_response input =
    and_then (ensure (take 8 input = gemm_response_magic) InvalidMagic) (\<lambda>_.
    and_then (ensure (u32_at input 8 = 1) (UnsupportedVersion (u32_at input 8) 1)) (\<lambda>_.
    and_then (ensure (unat (u32_at input 12) = 32) (InvalidHeaderLength (u32_at input 12) 32)) (\<lambda>_.
    and_then (encoded_response_len (u64_at input 16) (u64_at input 24)) (\<lambda>expected_len.
    and_then (ok_or (u64_try_from (length input)) AddressSpaceOverflow) (\<lambda>actual_len.
    and_then (ensure (expected_len = actual_len) (LengthMismatch expected_len actual_len)) (\<lambda>_.
    and_then (checked_elements (u64_at input 16) (u64_at input 24) ''response matrix'') (\<lambda>elements.
    and_then (read_f32_values input 32 elements) (\<lambda>(values, cursor).
    Inr \<lparr>dr_m = u64_at input 16, dr_n = u64_at input 24, dr_values = values\<rparr>))))))))"
  using assms
  by (simp add: decode_response_def require_len_def gemm_response_header_len_def read_header
      gemm_protocol_version_def)

lemma decode_response_wf:
  assumes wf: "response_wf m n values"
  shows "decode_response (response_bytes m n values) = Inr \<lparr>dr_m = m, dr_n = n, dr_values = values\<rparr>"
proof -
  have lt: "32 + 4 * length values < 2 ^ 64" and mn: "unat m * unat n = length values"
    using wf by (simp_all add: response_wf_def)
  have tf: "u64_try_from (32 + 4 * length values) = Some (of_nat (32 + 4 * length values))"
    unfolding u64_try_from_iff by (rule unat_of_nat_u64 [OF lt, symmetric])
  have lt': "unat m * unat n < 2 ^ 64" using lt mn by simp
  have rd: "read_f32_values (response_bytes m n values) 32 (m * n) = Inr (values, 32 + 4 * length values)"
    using lt dec_write [of "values" "[]"]
    by (subst read_f32_values_eq) (simp_all add: unat_mult_u64 [OF lt'] mn response_header usize_max_def)
  show ?thesis
    by (simp add: decode_response_eq response_header encoded_response_len_wf [OF wf] tf
        checked_elements_ok [OF lt'] rd del: of_nat_add of_nat_mult)
qed

lemma decode_response_Inr:
  assumes "decode_response bs = Inr d"
  shows "response_wf (dr_m d) (dr_n d) (dr_values d) \<and> bs = response_bytes (dr_m d) (dr_n d) (dr_values d)"
proof -
  have len: "32 \<le> length bs"
    using assms by (auto simp: decode_response_def require_len_def gemm_response_header_len_def result_iffs)
  from assms obtain l e vs cur where
    hdr: "take 8 bs = gemm_response_magic" "u32_at bs 8 = 1" "unat (u32_at bs 12) = 32"
    and l: "encoded_response_len (u64_at bs 16) (u64_at bs 24) = Inr l" "u64_try_from (length bs) = Some l"
    and e: "checked_elements (u64_at bs 16) (u64_at bs 24) ''response matrix'' = Inr e"
    and rd: "read_f32_values bs 32 e = Inr (vs, cur)"
    and d: "d = \<lparr>dr_m = u64_at bs 16, dr_n = u64_at bs 24, dr_values = vs\<rparr>"
    by (auto simp: decode_response_eq [OF len] and_then_Inr_iff ensure_Inr_iff ok_or_Inr_iff)
  have ll: "length bs = 32 + 4 * unat e"
    using l e by (simp add: encoded_response_len_iff u64_try_from_iff checked_elements_iff)
  have um: "length bs \<le> usize_max"
    using l(2) unat_lt2p_num [of l] by (simp add: u64_try_from_iff usize_max_def)
  have vs: "vs = le32.dec_all (unat e) (drop 32 bs)"
    using rd read_f32_values_eq [of 32 e bs] ll um by simp
  have pay: "write_f32_values vs = drop 32 bs" using ll by (simp add: vs write_dec)
  have h12: "u32_at bs 12 = 32" using hdr(3) by (simp add: word_unat_eq_iff)
  have "bs = take 8 bs @ slice bs 8 4 @ slice bs 12 4 @ slice bs 16 8 @ slice bs 24 8 @ drop 32 bs"
    using append_take_drop_id [of 8 bs]
    by (simp add: drop_slice [of 8 bs 4] drop_slice [of 12 bs 4] drop_slice [of 16 bs 8] drop_slice [of 24 bs 8])
  then have "bs = response_bytes (u64_at bs 16) (u64_at bs 24) vs"
    using len hdr(1,2) h12
    by (simp add: response_bytes_def pay gemm_protocol_version_def gemm_response_header_len_def
        flip: u32_at_to_le u64_at_to_le)
  moreover have "response_wf (u64_at bs 16) (u64_at bs 24) vs"
    using ll um e by (simp add: response_wf_def vs checked_elements_iff usize_max_def)
  ultimately show ?thesis by (simp add: d)
qed

section \<open>Properties\<close>

definition demo_gemm :: gemm_request where
  "demo_gemm =
     \<lparr>gr_m = 1, gr_n = 2, gr_k = 2, gr_alpha = 0x3F800000, gr_beta = 0, gr_a = [0x3F800000, 0x40000000],
      gr_b = [0, 0x3F800000, 0x3F800000, 0], gr_c = Some [0x40400000, 0x40800000]\<rparr>"

lemma demo_gemm_dims: "gr_m demo_gemm \<noteq> 0" "gr_n demo_gemm \<noteq> 0" "gr_k demo_gemm \<noteq> 0"
  by (simp_all add: demo_gemm_def)

lemma demo_gemm_wf: "request_wf demo_gemm"
  by (simp add: request_wf_def demo_gemm_def request_elements_def)

text \<open>
  C22. Take a request with non-zero dimensions, the only kind the architecture admits. Encoding
  it succeeds exactly when the slices have the lengths the dimensions say and the message
  length fits \<open>u64\<close>; the message then has 56 bytes of header and four per element, and
  decodes to the same request: dimensions, scalars, the three matrices, and the sizes in the
  metadata.
\<close>

theorem gemm_request_roundtrip:
  assumes "gr_m r \<noteq> 0" "gr_n r \<noteq> 0" "gr_k r \<noteq> 0"
  shows "(is_ok (encode_request r) \<longleftrightarrow> request_wf r) \<and>
   (\<forall>bs. encode_request r = Inr bs \<longrightarrow>
      length bs = 56 + 4 * request_elements r \<and>
      (\<exists>d. decode_request bs = Inr d \<and> decoded_request d = r \<and> dg_meta d = request_meta r))"
proof (intro conjI allI impI)
  show "is_ok (encode_request r) \<longleftrightarrow> request_wf r"
    using encode_request_iff [of r] by (cases "encode_request r") auto
  fix bs
  assume "encode_request r = Inr bs"
  then have wf: "request_wf r" and bs: "bs = request_bytes r" by (simp_all add: encode_request_iff)
  show "length bs = 56 + 4 * request_elements r" by (simp add: bs)
  have "decoded_request \<lparr>dg_meta = request_meta r, dg_a = gr_a r, dg_b = gr_b r, dg_c = gr_c r\<rparr> = r"
    by (simp add: decoded_request_def request_meta_def)
  with decode_request_wf [OF wf]
  show "\<exists>d. decode_request bs = Inr d \<and> decoded_request d = r \<and> dg_meta d = request_meta r"
    unfolding bs by (intro exI conjI) (assumption, simp_all)
qed

theorem gemm_request_roundtrip_witness:
  "\<exists>bs d. encode_request demo_gemm = Inr bs \<and> length bs = 88 \<and> decode_request bs = Inr d \<and> dg_a d = gr_a demo_gemm"
proof -
  have enc: "encode_request demo_gemm = Inr (request_bytes demo_gemm)" by (rule encode_request_wf [OF demo_gemm_wf])
  with gemm_request_roundtrip [OF demo_gemm_dims] obtain d where
    len: "length (request_bytes demo_gemm) = 56 + 4 * request_elements demo_gemm"
    and dec: "decode_request (request_bytes demo_gemm) = Inr d" and req: "decoded_request d = demo_gemm" by blast
  have "request_elements demo_gemm = 8" by (simp add: request_elements_def demo_gemm_def)
  moreover have "gr_a (decoded_request d) = dg_a d" by (simp add: decoded_request_def)
  ultimately show ?thesis using enc len dec req by auto
qed

text \<open>
  The request decoder accepts nothing but well-formed messages: what it returns
  satisfies the encoder's conditions, its metadata are the products of its dimensions, and
  encoding it gives the input back, except that the reserved word at offset 20, which the
  decoder does not look at, is written as zero.
\<close>

theorem gemm_decode_canonical:
  assumes "decode_request bs = Inr d"
  shows "dg_meta d = request_meta (decoded_request d) \<and>
    encode_request (decoded_request d) = Inr (take 20 bs @ [0, 0, 0, 0] @ drop 24 bs)"
  using decode_request_canonical [OF assms] by (simp add: encode_request_iff)

theorem gemm_decode_canonical_witness:
  "encode_request demo_gemm = Inr (take 20 (request_bytes demo_gemm) @ [0, 0, 0, 0] @ drop 24 (request_bytes demo_gemm))"
proof -
  have "decoded_request \<lparr>dg_meta = request_meta demo_gemm, dg_a = gr_a demo_gemm, dg_b = gr_b demo_gemm,
      dg_c = gr_c demo_gemm\<rparr> = demo_gemm"
    by (simp add: decoded_request_def request_meta_def)
  with gemm_decode_canonical [OF decode_request_wf [OF demo_gemm_wf]] show ?thesis by simp
qed

text \<open>
  A message cut short or extended is refused, never read out of bounds: below 56 bytes
  as truncated, and with the header of a valid request but another total length as a length
  mismatch that names both lengths.
\<close>

theorem gemm_length_errors:
  "(length bs < 56 \<longrightarrow> decode_request bs = Inl (Truncated 56 (length bs))) \<and>
   (request_wf r \<and> take 56 bs = take 56 (request_bytes r) \<and> length bs \<le> usize_max \<and>
      length bs \<noteq> 56 + 4 * request_elements r \<longrightarrow>
    decode_request bs = Inl (LengthMismatch (of_nat (56 + 4 * request_elements r)) (of_nat (length bs))))"
  using decode_request_wrong_length [of r bs]
  by (simp add: decode_request_def inspect_request_def require_len_def gemm_request_header_len_def ensure_def
      del: of_nat_add of_nat_mult)

theorem gemm_length_errors_witness:
  "decode_request (take 60 (request_bytes demo_gemm)) = Inl (LengthMismatch 88 60)"
  using gemm_length_errors [of "take 60 (request_bytes demo_gemm)" demo_gemm] demo_gemm_wf
  by (simp add: usize_max_def request_elements_def demo_gemm_def)

text \<open>
  Responses: encoding succeeds exactly when the number of values is \<open>m * n\<close> and the
  length fits; a response decodes to the same dimensions and values, and every accepted
  byte string is the encoding of what it decodes to.
\<close>

theorem gemm_response_roundtrip:
  "(encode_response m n vs = Inr bs \<longrightarrow>
      length vs = unat m * unat n \<and> length bs = 32 + 4 * length vs \<and>
      decode_response bs = Inr \<lparr>dr_m = m, dr_n = n, dr_values = vs\<rparr>) \<and>
   (decode_response bs' = Inr d \<longrightarrow> encode_response (dr_m d) (dr_n d) (dr_values d) = Inr bs')"
  using decode_response_wf [of m n vs] decode_response_Inr [of bs' d]
  by (auto simp: encode_response_iff response_wf_def)

theorem gemm_response_roundtrip_witness:
  "decode_response (response_bytes 1 2 [0x3F800000, 0]) = Inr \<lparr>dr_m = 1, dr_n = 2, dr_values = [0x3F800000, 0]\<rparr>"
proof -
  have "encode_response 1 2 [0x3F800000, 0] = Inr (response_bytes 1 2 [0x3F800000, 0])"
    by (simp add: encode_response_iff response_wf_def)
  with gemm_response_roundtrip show ?thesis by blast
qed

text \<open>A request with a zero dimension encodes and decodes.\<close>

lemma gemm_zero_dimension_decodes:
  "is_ok (decode_request (request_bytes
     \<lparr>gr_m = 0, gr_n = 2, gr_k = 0, gr_alpha = 0, gr_beta = 0, gr_a = [], gr_b = [], gr_c = None\<rparr>))"
  by (subst decode_request_wf) (simp_all add: request_wf_def request_elements_def)

end
