(* ===== verification/Shared_Gemm_Protocol.thy ===== *)
theory Shared_Gemm_Protocol
  imports Bytes Rust_Float
begin

text \<open>
  The crate \<open>vrb-gemm-shared-protocol\<close>: the 64-byte control header of GEMM on shared
  resources. The header is a concatenation of fields; reads follow the length check.
\<close>

section \<open>Data\<close>

definition shared_gemm_protocol_version :: u32 where "shared_gemm_protocol_version = 1"
definition shared_gemm_magic :: bytes where "shared_gemm_magic = byte_string ''VRBSGM01''"
definition shared_gemm_header_len :: nat where "shared_gemm_header_len = 64"
definition shared_gemm_resource_count :: nat where "shared_gemm_resource_count = 3"
definition shared_f32_bytes :: u64 where "shared_f32_bytes = 4"

record shared_gemm_control =
  sg_m :: u64
  sg_n :: u64
  sg_k :: u64
  sg_alpha :: f32
  sg_beta :: f32
  sg_hip_device_index :: i32

record shared_gemm_lengths =
  sl_a_bytes :: u64
  sl_b_bytes :: u64
  sl_c_bytes :: u64

datatype shared_gemm_error =
    SgTruncated nat nat
  | SgInvalidMagic
  | SgUnsupportedVersion u32 u32
  | SgInvalidHeaderLength u32 nat
  | SgLengthMismatch nat nat
  | SgResourceCount u32 u32
  | SgZeroDimension u64 u64 u64
  | SgDimensionOverflow string
  | SgByteLengthOverflow string
  | SgInvalidDeviceIndex i32

section \<open>Operations\<close>

definition expected_elements :: "u64 \<Rightarrow> u64 \<Rightarrow> string \<Rightarrow> shared_gemm_error + u64" where
  "expected_elements rows columns label = ok_or (checked_mul rows columns) (SgDimensionOverflow label)"

definition matrix_bytes :: "u64 \<Rightarrow> u64 \<Rightarrow> string \<Rightarrow> shared_gemm_error + u64" where
  "matrix_bytes rows columns label =
     and_then (expected_elements rows columns label) (\<lambda>elements.
       ok_or (checked_mul elements shared_f32_bytes) (SgByteLengthOverflow label))"

definition validate_control :: "shared_gemm_control \<Rightarrow> shared_gemm_error + unit" where
  "validate_control c =
     (if sint (sg_hip_device_index c) < 0 then Inl (SgInvalidDeviceIndex (sg_hip_device_index c))
      else if sg_m c = 0 \<or> sg_n c = 0 \<or> sg_k c = 0 then Inl (SgZeroDimension (sg_m c) (sg_n c) (sg_k c))
      else and_then (expected_elements (sg_m c) (sg_k c) ''matrix A'') (\<lambda>_.
           and_then (expected_elements (sg_k c) (sg_n c) ''matrix B'') (\<lambda>_.
           and_then (expected_elements (sg_m c) (sg_n c) ''matrix C'') (\<lambda>_. Inr ()))))"

definition control_bytes :: "shared_gemm_control \<Rightarrow> bytes" where
  "control_bytes c =
     shared_gemm_magic @ u32_to_le shared_gemm_protocol_version @ u32_to_le (of_nat shared_gemm_header_len) @
     u64_to_le (sg_m c) @ u64_to_le (sg_n c) @ u64_to_le (sg_k c) @
     u32_to_le (sg_alpha c) @ u32_to_le (sg_beta c) @ u32_to_le (sg_hip_device_index c) @
     u32_to_le (of_nat shared_gemm_resource_count) @ replicate 8 0"

definition encode_shared_control :: "shared_gemm_control \<Rightarrow> shared_gemm_error + bytes" where
  "encode_shared_control c = and_then (validate_control c) (\<lambda>_. Inr (control_bytes c))"

definition sg_read_u32 :: "bytes \<Rightarrow> nat \<Rightarrow> u32" where
  "sg_read_u32 input offset = u32_from_le (slice input offset 4)"

definition sg_read_i32 :: "bytes \<Rightarrow> nat \<Rightarrow> i32" where
  "sg_read_i32 input offset = u32_from_le (slice input offset 4)"

definition sg_read_u64 :: "bytes \<Rightarrow> nat \<Rightarrow> u64" where
  "sg_read_u64 input offset = u64_from_le (slice input offset 8)"

definition sg_read_f32 :: "bytes \<Rightarrow> nat \<Rightarrow> f32" where
  "sg_read_f32 input offset = u32_from_le (slice input offset 4)"

definition decode_shared_control :: "bytes \<Rightarrow> shared_gemm_error + shared_gemm_control" where
  "decode_shared_control input =
     (if length input < shared_gemm_header_len
      then Inl (SgTruncated shared_gemm_header_len (length input))
      else if length input \<noteq> shared_gemm_header_len
      then Inl (SgLengthMismatch shared_gemm_header_len (length input))
      else if take 8 input \<noteq> shared_gemm_magic then Inl SgInvalidMagic
      else let version = sg_read_u32 input 8
      in if version \<noteq> shared_gemm_protocol_version
      then Inl (SgUnsupportedVersion version shared_gemm_protocol_version)
      else let header_len = sg_read_u32 input 12
      in if unat header_len \<noteq> shared_gemm_header_len
      then Inl (SgInvalidHeaderLength header_len shared_gemm_header_len)
      else let resource_count = sg_read_u32 input 52
      in if resource_count \<noteq> of_nat shared_gemm_resource_count
      then Inl (SgResourceCount (of_nat shared_gemm_resource_count) resource_count)
      else let c = \<lparr>sg_m = sg_read_u64 input 16, sg_n = sg_read_u64 input 24, sg_k = sg_read_u64 input 32,
          sg_alpha = sg_read_f32 input 40, sg_beta = sg_read_f32 input 44,
          sg_hip_device_index = sg_read_i32 input 48\<rparr>
      in and_then (validate_control c) (\<lambda>_. Inr c))"

definition expected_shared_lengths :: "shared_gemm_control \<Rightarrow> shared_gemm_error + shared_gemm_lengths" where
  "expected_shared_lengths c =
     and_then (validate_control c) (\<lambda>_.
     and_then (matrix_bytes (sg_m c) (sg_k c) ''matrix A'') (\<lambda>a.
     and_then (matrix_bytes (sg_k c) (sg_n c) ''matrix B'') (\<lambda>b.
     and_then (matrix_bytes (sg_m c) (sg_n c) ''matrix C'') (\<lambda>cb.
     Inr \<lparr>sl_a_bytes = a, sl_b_bytes = b, sl_c_bytes = cb\<rparr>))))"

section \<open>Laws\<close>

lemma length_control_bytes [simp]: "length (control_bytes c) = 64"
  by (simp add: control_bytes_def shared_gemm_magic_def)

lemma read_control:
  "take 8 (control_bytes c) = shared_gemm_magic" "sg_read_u32 (control_bytes c) 8 = 1"
  "sg_read_u32 (control_bytes c) 12 = 64" "sg_read_u64 (control_bytes c) 16 = sg_m c"
  "sg_read_u64 (control_bytes c) 24 = sg_n c" "sg_read_u64 (control_bytes c) 32 = sg_k c"
  "sg_read_f32 (control_bytes c) 40 = sg_alpha c" "sg_read_f32 (control_bytes c) 44 = sg_beta c"
  "sg_read_i32 (control_bytes c) 48 = sg_hip_device_index c" "sg_read_u32 (control_bytes c) 52 = 3"
  by (simp_all add: control_bytes_def sg_read_u32_def sg_read_i32_def sg_read_u64_def sg_read_f32_def slice_def
      shared_gemm_magic_def shared_gemm_protocol_version_def shared_gemm_header_len_def
      shared_gemm_resource_count_def le32.law_dec_enc le64.law_dec_enc)

lemma decode_control_bytes: "validate_control c = Inr () \<Longrightarrow> decode_shared_control (control_bytes c) = Inr c"
  by (simp add: decode_shared_control_def read_control shared_gemm_header_len_def Let_def
      shared_gemm_protocol_version_def shared_gemm_resource_count_def) (cases c, simp)

lemma control_chunks:
  assumes "length b = 64"
  shows "take 56 b = take 8 b @ u32_to_le (sg_read_u32 b 8) @ u32_to_le (sg_read_u32 b 12) @
     u64_to_le (sg_read_u64 b 16) @ u64_to_le (sg_read_u64 b 24) @ u64_to_le (sg_read_u64 b 32) @
     u32_to_le (sg_read_f32 b 40) @ u32_to_le (sg_read_f32 b 44) @ u32_to_le (sg_read_i32 b 48) @
     u32_to_le (sg_read_u32 b 52)"
proof -
  have "drop 8 b = slice b 8 4 @ slice b 12 4 @ slice b 16 8 @ slice b 24 8 @ slice b 32 8 @
      slice b 40 4 @ slice b 44 4 @ slice b 48 4 @ slice b 52 4 @ drop 56 b"
    by (simp add: drop_slice [of 8 b 4] drop_slice [of 12 b 4] drop_slice [of 16 b 8] drop_slice [of 24 b 8]
        drop_slice [of 32 b 8] drop_slice [of 40 b 4] drop_slice [of 44 b 4] drop_slice [of 48 b 4]
        drop_slice [of 52 b 4])
  then have "take 56 b = take 56 (take 8 b @ slice b 8 4 @ slice b 12 4 @ slice b 16 8 @ slice b 24 8 @
      slice b 32 8 @ slice b 40 4 @ slice b 44 4 @ slice b 48 4 @ slice b 52 4 @ drop 56 b)"
    by (metis append_take_drop_id)
  also have "\<dots> = take 8 b @ slice b 8 4 @ slice b 12 4 @ slice b 16 8 @ slice b 24 8 @
      slice b 32 8 @ slice b 40 4 @ slice b 44 4 @ slice b 48 4 @ slice b 52 4"
    using assms by (simp add: slice_length)
  finally show ?thesis
    using assms
    by (simp add: sg_read_u32_def sg_read_i32_def sg_read_u64_def sg_read_f32_def le32.enc_dec_slice le64.enc_dec_slice)
qed

lemma decode_shared_control_Inr:
  assumes "decode_shared_control b = Inr c"
  shows "validate_control c = Inr () \<and> control_bytes c = take 56 b @ replicate 8 0"
proof -
  from assms have len: "length b = 64"
    by (auto simp: decode_shared_control_def shared_gemm_header_len_def split: if_splits)
  from assms len have magic: "take 8 b = shared_gemm_magic"
    by (auto simp: decode_shared_control_def shared_gemm_header_len_def split: if_splits)
  from assms len magic have ver: "sg_read_u32 b 8 = 1"
    by (auto simp: decode_shared_control_def shared_gemm_header_len_def shared_gemm_protocol_version_def Let_def
        split: if_splits)
  from assms len magic ver have hl: "unat (sg_read_u32 b 12) = 64"
    by (auto simp: decode_shared_control_def shared_gemm_header_len_def shared_gemm_protocol_version_def Let_def
        split: if_splits)
  then have hl': "sg_read_u32 b 12 = 64" by (simp add: word_unat_eq_iff)
  from assms len magic ver hl' have count: "sg_read_u32 b 52 = 3"
    by (auto simp: decode_shared_control_def shared_gemm_header_len_def shared_gemm_protocol_version_def Let_def
        shared_gemm_resource_count_def split: if_splits)
  from assms len magic ver hl' count have
    c: "c = \<lparr>sg_m = sg_read_u64 b 16, sg_n = sg_read_u64 b 24, sg_k = sg_read_u64 b 32,
      sg_alpha = sg_read_f32 b 40, sg_beta = sg_read_f32 b 44, sg_hip_device_index = sg_read_i32 b 48\<rparr>"
    and valid: "validate_control c = Inr ()"
    by (auto simp: decode_shared_control_def shared_gemm_header_len_def shared_gemm_protocol_version_def Let_def
        shared_gemm_resource_count_def and_then_Inr_iff)
  have "control_bytes c = take 56 b @ replicate 8 0"
    unfolding control_chunks [OF len] magic ver hl' count
    by (simp add: control_bytes_def c shared_gemm_protocol_version_def shared_gemm_header_len_def
        shared_gemm_resource_count_def)
  with valid show ?thesis by blast
qed

lemma expected_elements_iff: "expected_elements a b l = Inr e \<longleftrightarrow> unat e = unat a * unat b"
  by (simp add: expected_elements_def ok_or_Inr_iff checked_mul_iff)

lemma validate_control_iff:
  "validate_control c = Inr () \<longleftrightarrow> 0 \<le> sint (sg_hip_device_index c) \<and> sg_m c \<noteq> 0 \<and> sg_n c \<noteq> 0 \<and> sg_k c \<noteq> 0 \<and>
    unat (sg_m c) * unat (sg_k c) < 2 ^ 64 \<and> unat (sg_k c) * unat (sg_n c) < 2 ^ 64 \<and>
    unat (sg_m c) * unat (sg_n c) < 2 ^ 64"
  by (auto simp: validate_control_def and_then_Inr_iff expected_elements_def ok_or_Inr_iff checked_mul_def not_less)

section \<open>Properties\<close>

definition demo_control :: shared_gemm_control where
  "demo_control = \<lparr>sg_m = 3, sg_n = 4, sg_k = 5, sg_alpha = 0x3F800000, sg_beta = 0, sg_hip_device_index = 0\<rparr>"

lemma demo_control_valid: "validate_control demo_control = Inr ()"
  by (simp add: validate_control_iff demo_control_def)

text \<open>
  C23. A valid shared GEMM control encodes to 64 bytes that decode to itself, an invalid one
  is refused by the encoder. What the decoder accepts is a valid control, and encoding it
  gives the input back up to the last eight bytes, which are reserved, written as zeros and
  not looked at by the decoder.
\<close>

theorem shared_control_roundtrip:
  "(validate_control c = Inr () \<longrightarrow>
      (\<exists>bs. encode_shared_control c = Inr bs \<and> length bs = 64 \<and> decode_shared_control bs = Inr c)) \<and>
   (\<forall>e. validate_control c = Inl e \<longrightarrow> encode_shared_control c = Inl e) \<and>
   (decode_shared_control bs' = Inr c' \<longrightarrow>
      validate_control c' = Inr () \<and> encode_shared_control c' = Inr (take 56 bs' @ replicate 8 0))"
  using decode_control_bytes [of c] decode_shared_control_Inr [of bs' c']
  by (simp add: encode_shared_control_def)

theorem shared_control_roundtrip_witness:
  "decode_shared_control (control_bytes demo_control) = Inr demo_control"
  using shared_control_roundtrip [of demo_control] demo_control_valid
  by (simp add: encode_shared_control_def)

text \<open>
  The byte lengths the three resources must have are exactly four times the products of
  the dimensions. They exist for a valid control unless a product of four times the elements
  exceeds \<open>u64\<close>: then the length computation fails though the control still encodes.
\<close>

theorem shared_lengths_exact:
  "(expected_shared_lengths c = Inr ls \<longrightarrow>
      validate_control c = Inr () \<and> unat (sl_a_bytes ls) = 4 * (unat (sg_m c) * unat (sg_k c)) \<and>
      unat (sl_b_bytes ls) = 4 * (unat (sg_k c) * unat (sg_n c)) \<and>
      unat (sl_c_bytes ls) = 4 * (unat (sg_m c) * unat (sg_n c))) \<and>
   (validate_control c = Inr () \<longrightarrow>
      (is_ok (expected_shared_lengths c) \<longleftrightarrow>
        4 * (unat (sg_m c) * unat (sg_k c)) < 2 ^ 64 \<and> 4 * (unat (sg_k c) * unat (sg_n c)) < 2 ^ 64 \<and>
        4 * (unat (sg_m c) * unat (sg_n c)) < 2 ^ 64) \<and>
      is_ok (encode_shared_control c))"
proof (intro conjI impI)
  assume "expected_shared_lengths c = Inr ls"
  then show "validate_control c = Inr ()" "unat (sl_a_bytes ls) = 4 * (unat (sg_m c) * unat (sg_k c))"
    "unat (sl_b_bytes ls) = 4 * (unat (sg_k c) * unat (sg_n c))"
    "unat (sl_c_bytes ls) = 4 * (unat (sg_m c) * unat (sg_n c))"
    by (auto simp: expected_shared_lengths_def matrix_bytes_def result_iffs expected_elements_iff checked_mul_iff
        shared_f32_bytes_def)
next
  assume valid: "validate_control c = Inr ()"
  then show "is_ok (encode_shared_control c)" by (simp add: encode_shared_control_def)
  have mb: "matrix_bytes x y l = (if 4 * (unat x * unat y) < 2 ^ 64 then Inr (x * y * 4) else Inl (SgByteLengthOverflow l))"
    if "unat x * unat y < 2 ^ 64" for x y l
    using that by (simp add: matrix_bytes_def expected_elements_def checked_mul_def shared_f32_bytes_def
        unat_word_ariths mult.commute)
  show "is_ok (expected_shared_lengths c) \<longleftrightarrow>
        4 * (unat (sg_m c) * unat (sg_k c)) < 2 ^ 64 \<and> 4 * (unat (sg_k c) * unat (sg_n c)) < 2 ^ 64 \<and>
        4 * (unat (sg_m c) * unat (sg_n c)) < 2 ^ 64"
  proof -
    have "unat (sg_m c) * unat (sg_k c) < 2 ^ 64" "unat (sg_k c) * unat (sg_n c) < 2 ^ 64"
      "unat (sg_m c) * unat (sg_n c) < 2 ^ 64" using valid by (simp_all add: validate_control_iff)
    then show ?thesis by (simp add: expected_shared_lengths_def valid mb mult.commute)
  qed
qed

theorem shared_lengths_exact_witness:
  "is_ok (expected_shared_lengths demo_control) \<and>
   \<not> is_ok (expected_shared_lengths (demo_control\<lparr>sg_m := 0x4000000000000000, sg_n := 1, sg_k := 1\<rparr>))"
  using shared_lengths_exact [of demo_control] demo_control_valid
    shared_lengths_exact [of "demo_control\<lparr>sg_m := 0x4000000000000000, sg_n := 1, sg_k := 1\<rparr>"]
  by (simp add: demo_control_def validate_control_iff)

end
