(* ===== verification/Registry.thy ===== *)
theory Registry
  imports Core
begin

text \<open>
  What the two operator registries share: operators filed by kind in registration order
  (\<open>BTreeMap<OperatorKind, Vec<Arc<dyn ..>>>\<close>), the choice of the first compatible
  candidate with a preferred backend, and the interface \<open>operator_selection\<close> a registry
  expects of its injected policy.
\<close>

section \<open>Kinds\<close>

datatype operator_kind = KGemm | KAttention | KQuantize | KDequantize | KTransform | KCustom

text \<open>The derived order is the order of the constructors.\<close>

fun operator_kind_rank :: "operator_kind \<Rightarrow> nat" where
  "operator_kind_rank KGemm = 0"
| "operator_kind_rank KAttention = 1"
| "operator_kind_rank KQuantize = 2"
| "operator_kind_rank KDequantize = 3"
| "operator_kind_rank KTransform = 4"
| "operator_kind_rank KCustom = 5"

lemma operator_kind_rank_inject: "operator_kind_rank a = operator_kind_rank b \<Longrightarrow> a = b"
  by (cases a; cases b) simp_all

instantiation operator_kind :: linorder
begin

definition less_eq_operator_kind :: "operator_kind \<Rightarrow> operator_kind \<Rightarrow> bool" where
  "less_eq_operator_kind a b = (operator_kind_rank a \<le> operator_kind_rank b)"

definition less_operator_kind :: "operator_kind \<Rightarrow> operator_kind \<Rightarrow> bool" where
  "less_operator_kind a b = (operator_kind_rank a < operator_kind_rank b)"

instance
  by standard (auto simp: less_eq_operator_kind_def less_operator_kind_def
    intro: operator_kind_rank_inject)

end

section \<open>Operators filed by kind\<close>

type_synonym 'o kind_index = "(operator_kind, 'o list) btree_map"

text \<open>\<open>get(&kind).map(Vec::as_slice).unwrap_or_default()\<close>\<close>

definition candidates_of :: "'o kind_index \<Rightarrow> operator_kind \<Rightarrow> 'o list" where
  "candidates_of m kind = (case bt_get m kind of None \<Rightarrow> [] | Some os \<Rightarrow> os)"

text \<open>\<open>entry(kind).or_default().push(operator)\<close>\<close>

definition push_operator :: "operator_kind \<Rightarrow> 'o \<Rightarrow> 'o kind_index \<Rightarrow> 'o kind_index" where
  "push_operator kind operator m = bt_insert kind (candidates_of m kind @ [operator]) m"

text \<open>\<open>values().map(Vec::len).sum()\<close>\<close>

definition count_operators :: "'o kind_index \<Rightarrow> nat" where
  "count_operators m = bt_weight length m"

definition push_all :: "('o \<Rightarrow> operator_kind) \<Rightarrow> 'o list \<Rightarrow> 'o kind_index \<Rightarrow> 'o kind_index" where
  "push_all kind_of operators m = fold (\<lambda>operator. push_operator (kind_of operator) operator) operators m"

lemma push_all_simps [simp]:
  "push_all kind_of [] m = m"
  "push_all kind_of (x # xs) m = push_all kind_of xs (push_operator (kind_of x) x m)"
  by (simp_all add: push_all_def)

lemma candidates_of_Nil [simp]: "candidates_of [] k = []"
  by (simp add: candidates_of_def)

lemma candidates_push:
  "candidates_of (push_operator k' x m) k = (if k = k' then candidates_of m k @ [x] else candidates_of m k)"
  by (simp add: push_operator_def candidates_of_def bt_get_insert)

lemma candidates_push_all:
  "candidates_of (push_all kind_of xs m) k = candidates_of m k @ filter (\<lambda>x. kind_of x = k) xs"
  by (induction xs arbitrary: m) (auto simp: candidates_push)

lemma push_wf: "bt_wf m \<Longrightarrow> bt_wf (push_operator k x m)"
  by (simp add: push_operator_def bt_wf_insert)

lemma count_push:
  assumes "bt_wf m"
  shows "count_operators (push_operator k x m) = Suc (count_operators m)"
proof (cases "bt_get m k")
  case None
  then show ?thesis
    by (simp add: count_operators_def push_operator_def candidates_of_def bt_weight_insert_new)
next
  case (Some os)
  with bt_weight_insert_old [OF assms Some, of length "os @ [x]"] show ?thesis
    by (simp add: count_operators_def push_operator_def candidates_of_def)
qed

lemma count_push_all: "bt_wf m \<Longrightarrow> count_operators (push_all kind_of xs m) = count_operators m + length xs"
  by (induction xs arbitrary: m) (simp_all add: push_wf count_push)

lemma count_push_all_new: "count_operators (push_all kind_of xs []) = length xs"
  using count_push_all [of "[]" kind_of xs] by (simp add: count_operators_def)

lemma push_all_empty_iff: "push_all kind_of xs m = [] \<longleftrightarrow> m = [] \<and> xs = []"
proof (induction xs arbitrary: m)
  case (Cons x xs)
  have "push_operator (kind_of x) x m \<noteq> []"
    using bt_insert_keys [of "kind_of x" _ m] by (metis empty_is_image insert_not_empty push_operator_def set_empty)
  with Cons show ?case by simp
qed simp

section \<open>The default choice\<close>

text \<open>
  The body both default policies share: the first compatible candidate of the preferred
  backend, else the first compatible candidate.
\<close>

definition first_preferred ::
  "('o \<Rightarrow> bool) \<Rightarrow> ('o \<Rightarrow> backend_kind) \<Rightarrow> backend_kind option \<Rightarrow> 'o list \<Rightarrow> 'o option" where
  "first_preferred serves backend preferred operators =
     (case preferred of
        None \<Rightarrow> find serves operators
      | Some preferred_backend \<Rightarrow>
          (case find (\<lambda>operator. backend operator = preferred_backend) (filter serves operators) of
             Some operator \<Rightarrow> Some operator
           | None \<Rightarrow> find serves operators))"

lemma first_preferred_mem:
  "first_preferred serves backend preferred os = Some x \<Longrightarrow> x \<in> set os \<and> serves x"
  by (auto simp: first_preferred_def dest!: find_SomeD split: option.splits)

lemma first_preferred_None:
  "first_preferred serves backend preferred os = None \<longleftrightarrow> (\<forall>x \<in> set os. \<not> serves x)"
  by (auto simp: first_preferred_def find_None_iff_all split: option.splits dest!: find_SomeD)

lemma first_preferred_filter:
  "first_preferred serves backend preferred (filter Q os) =
     first_preferred (\<lambda>x. Q x \<and> serves x) backend preferred os"
  by (auto simp: first_preferred_def find_filter conj_assoc conj_commute split: option.split)

lemma first_preferred_cong:
  "(\<And>x. x \<in> set os \<Longrightarrow> serves x = serves' x) \<Longrightarrow>
    first_preferred serves backend preferred os = first_preferred serves' backend preferred os"
  by (simp add: first_preferred_def find_filter cong: find_cong filter_cong option.case_cong)

lemma find_hd: "find P xs = (if filter P xs = [] then None else Some (hd (filter P xs)))"
  by (induction xs) auto

lemma first_preferred_hd:
  "first_preferred serves backend preferred os =
     (let suitable = filter serves os; chosen = filter (\<lambda>x. preferred = Some (backend x)) suitable
      in if chosen \<noteq> [] then Some (hd chosen) else if suitable \<noteq> [] then Some (hd suitable) else None)"
proof (cases preferred)
  case None
  then show ?thesis by (simp add: first_preferred_def find_hd Let_def)
next
  case (Some b)
  have "filter (\<lambda>x. Some b = Some (backend x)) = filter (\<lambda>x. backend x = b)" by (auto intro!: filter_cong)
  with Some show ?thesis by (simp add: first_preferred_def find_hd Let_def eq_commute)
qed

text \<open>The backend asked for is honoured whenever a compatible candidate has it.\<close>

lemma first_preferred_backend:
  assumes "first_preferred serves backend (Some b) os = Some x"
    and "y \<in> set os" "serves y" "backend y = b"
  shows "backend x = b"
proof -
  have "find (\<lambda>x. backend x = b) (filter serves os) \<noteq> None"
    using assms(2-4) by (auto simp: find_None_iff_all)
  with assms(1) show ?thesis
    by (auto simp: first_preferred_def dest!: find_SomeD split: option.splits)
qed

section \<open>The interface of a selection policy\<close>

locale operator_selection =
  fixes select :: "'req \<Rightarrow> 'inv \<Rightarrow> 'o list \<Rightarrow> 'o option"
    and serves :: "'req \<Rightarrow> 'inv \<Rightarrow> 'o \<Rightarrow> bool"
  assumes law_member: "select r i os = Some x \<Longrightarrow> x \<in> set os \<and> serves r i x"
    and law_complete: "select r i os = None \<Longrightarrow> x \<in> set os \<Longrightarrow> \<not> serves r i x"
begin

text \<open>What a registry built by registrations dispatches to.\<close>

lemma registered:
  assumes "select r i (candidates_of (push_all kind_of xs []) k) = Some x"
  shows "x \<in> set xs" "kind_of x = k" "serves r i x"
  using law_member [OF assms] by (auto simp: candidates_push_all)

lemma none_registered_iff:
  "select r i (candidates_of (push_all kind_of xs []) k) = None \<longleftrightarrow>
     (\<forall>x \<in> set xs. kind_of x = k \<longrightarrow> \<not> serves r i x)"
proof -
  have "select r i os = None \<longleftrightarrow> (\<forall>x \<in> set os. \<not> serves r i x)" for os
    using law_complete [of r i os] law_member [of r i os] by (cases "select r i os") auto
  then show ?thesis by (auto simp: candidates_push_all)
qed

end

end
