(* ===== verification/Operators.thy ===== *)
theory Operators
  imports Registry Bytes
begin

text \<open>
  The crate \<open>vrb-operators\<close>: requests, capabilities, the default policy
  \<open>FirstCompatible\<close> and the operator registry. An operator is a record of what its trait
  methods do; running one may change the state it shares with its plugin, so \<open>execute\<close>
  takes that state and returns it, and it may panic (\<open>Unwound\<close>).
\<close>

section \<open>Data\<close>

record operator_request =
  or_kind :: operator_kind
  or_preferred_backend :: "backend_kind option"
  or_requires_zero_copy :: bool

record operator_capabilities =
  oc_kind :: operator_kind
  oc_backend :: backend_kind
  oc_supports_zero_copy :: bool

record operator_invocation =
  oi_input :: bytes

record operator_output =
  oo_bytes :: bytes

datatype operator_error =
    OpUnavailable string
  | OpExecution string
  | OpNoCompatibleOperator operator_kind

text \<open>What the methods of a \<open>dyn Operator\<close> do; \<open>'w\<close> is the state they run in.\<close>

record 'w operator =
  op_name :: string
  op_capabilities :: operator_capabilities
  op_execute :: "operator_invocation \<Rightarrow> 'w \<Rightarrow> (operator_error + operator_output) unwinding \<times> 'w"

type_synonym 'w selection_policy = "operator_request \<Rightarrow> 'w operator list \<Rightarrow> 'w operator option"

record 'w operator_registry =
  og_operators :: "'w operator kind_index"
  og_policy :: "'w selection_policy"

section \<open>Operations\<close>

definition operator_request_new :: "operator_kind \<Rightarrow> operator_request" where
  "operator_request_new kind =
     \<lparr>or_kind = kind, or_preferred_backend = None, or_requires_zero_copy = False\<rparr>"

definition operator_compatible :: "operator_request \<Rightarrow> 'w operator \<Rightarrow> bool" where
  "operator_compatible request operator =
     (let capabilities = op_capabilities operator
      in oc_kind capabilities = or_kind request
         \<and> (\<not> or_requires_zero_copy request \<or> oc_supports_zero_copy capabilities))"

definition first_compatible :: "'w selection_policy" where
  "first_compatible request operators =
     first_preferred (operator_compatible request) (\<lambda>operator. oc_backend (op_capabilities operator))
       (or_preferred_backend request) operators"

definition operator_registry_new :: "'w selection_policy \<Rightarrow> 'w operator_registry" where
  "operator_registry_new policy = \<lparr>og_operators = [], og_policy = policy\<rparr>"

definition operator_register :: "'w operator \<Rightarrow> 'w operator_registry \<Rightarrow> 'w operator_registry" where
  "operator_register operator reg =
     reg\<lparr>og_operators := push_operator (oc_kind (op_capabilities operator)) operator (og_operators reg)\<rparr>"

definition operator_execute ::
  "'w operator_registry \<Rightarrow> operator_request \<Rightarrow> operator_invocation \<Rightarrow> 'w
    \<Rightarrow> (operator_error + operator_output) unwinding \<times> 'w" where
  "operator_execute reg request invocation w =
     (case og_policy reg request (candidates_of (og_operators reg) (or_kind request)) of
        None \<Rightarrow> (Returned (Inl (OpNoCompatibleOperator (or_kind request))), w)
      | Some operator \<Rightarrow> op_execute operator invocation w)"

definition operator_registry_len :: "'w operator_registry \<Rightarrow> nat" where
  "operator_registry_len reg = count_operators (og_operators reg)"

definition operator_registry_is_empty :: "'w operator_registry \<Rightarrow> bool" where
  "operator_registry_is_empty reg = (og_operators reg = [])"

section \<open>Laws\<close>

interpretation first_op: operator_selection "\<lambda>r (_ :: operator_invocation). first_compatible r"
  "\<lambda>r _. operator_compatible r"
  by unfold_locales (auto simp: first_compatible_def dest: first_preferred_mem
    simp: first_preferred_None)

text \<open>A registry filled by registrations, in their order.\<close>

definition operators_registered :: "'w selection_policy \<Rightarrow> 'w operator list \<Rightarrow> 'w operator_registry" where
  "operators_registered policy operators = fold operator_register operators (operator_registry_new policy)"

lemma fold_register:
  "fold operator_register os reg =
     reg\<lparr>og_operators := push_all (\<lambda>x. oc_kind (op_capabilities x)) os (og_operators reg)\<rparr>"
  by (induction os arbitrary: reg) (simp_all add: operator_register_def)

lemma operators_registered_eq:
  "operators_registered policy os =
     \<lparr>og_operators = push_all (\<lambda>x. oc_kind (op_capabilities x)) os [], og_policy = policy\<rparr>"
  by (simp add: operators_registered_def operator_registry_new_def fold_register)

lemma first_compatible_index:
  "first_compatible request (candidates_of (og_operators (operators_registered policy os)) (or_kind request)) =
     first_compatible request os"
proof -
  have "first_compatible request (filter (\<lambda>x. oc_kind (op_capabilities x) = or_kind request) os)
      = first_compatible request os"
    unfolding first_compatible_def first_preferred_filter
    by (rule first_preferred_cong) (auto simp: operator_compatible_def Let_def)
  then show ?thesis by (simp add: operators_registered_eq candidates_push_all)
qed

lemma operator_execute_registered:
  "operator_execute (operators_registered first_compatible os) request invocation w =
     (case first_compatible request os of
        None \<Rightarrow> (Returned (Inl (OpNoCompatibleOperator (or_kind request))), w)
      | Some operator \<Rightarrow> op_execute operator invocation w)"
proof -
  have "og_policy (operators_registered first_compatible os) = first_compatible"
    by (simp add: operators_registered_eq)
  then show ?thesis by (simp add: operator_execute_def first_compatible_index)
qed

section \<open>Properties\<close>

text \<open>
  The registry files operators by kind, but dispatches as one scan of all operators in
  registration order would: to the first compatible one of the preferred backend, else to
  the first compatible one, whatever that returns; without a compatible operator it answers
  \<open>NoCompatibleOperator\<close> and runs nothing. Its length counts the registrations.
\<close>

theorem operator_dispatch_scan:
  "operator_execute (operators_registered first_compatible os) request invocation w =
     (let suitable = filter (operator_compatible request) os;
          preferred = filter (\<lambda>x. or_preferred_backend request = Some (oc_backend (op_capabilities x))) suitable
      in if preferred \<noteq> [] then op_execute (hd preferred) invocation w
         else if suitable \<noteq> [] then op_execute (hd suitable) invocation w
         else (Returned (Inl (OpNoCompatibleOperator (or_kind request))), w))
   \<and> operator_registry_len (operators_registered first_compatible os) = length os
   \<and> operator_registry_is_empty (operators_registered first_compatible os) = (os = [])"
  unfolding operator_execute_registered
  by (simp add: first_compatible_def first_preferred_hd Let_def operators_registered_eq
    operator_registry_len_def operator_registry_is_empty_def count_push_all_new push_all_empty_iff)

end
