(* ===== verification/Arrays.thy ===== *)
theory Arrays
  imports Prelude
begin

text \<open>
  Slices indexed in loops, as the reference kernels use them: an index out of range panics.
  The lemmas turn a loop over an output slice into one map over its positions.
\<close>

datatype 'e fault = Failed 'e | Panicked

definition index_at :: "'a list \<Rightarrow> nat \<Rightarrow> 'e fault + 'a" where
  "index_at xs i = (if i < length xs then Inr (xs ! i) else Inl Panicked)"

definition update_at :: "'a list \<Rightarrow> nat \<Rightarrow> 'a \<Rightarrow> 'e fault + 'a list" where
  "update_at xs i x = (if i < length xs then Inr (xs[i := x]) else Inl Panicked)"

definition failing :: "'e + 'a \<Rightarrow> 'e fault + 'a" where
  "failing r = map_err Failed r"

lemma failing_simps [simp]: "failing (Inr x) = Inr x" "failing (Inl e) = Inl (Failed e)"
  by (simp_all add: failing_def)

lemma index_at_ok [simp]: "i < length xs \<Longrightarrow> index_at xs i = Inr (xs ! i)"
  by (simp add: index_at_def)

lemma update_at_ok [simp]: "i < length xs \<Longrightarrow> update_at xs i x = Inr (xs[i := x])"
  by (simp add: update_at_def)

lemma try_fold_append: "try_fold f acc (xs @ ys) = and_then (try_fold f acc xs) (\<lambda>acc'. try_fold f acc' ys)"
  by (induction xs arbitrary: acc) (simp_all add: and_then_assoc)

lemma try_fold_upt:
  assumes "\<And>i. i < n \<Longrightarrow> f (g i) i = Inr (g (Suc i))" and "c \<le> n"
  shows "try_fold f (g 0) [0..<c] = Inr (g c)"
  using assms(2) by (induction c) (simp_all add: try_fold_append assms(1))

text \<open>A slice as a function of its positions.\<close>

definition tabulate :: "nat \<Rightarrow> (nat \<Rightarrow> 'a) \<Rightarrow> 'a list" where
  "tabulate n f = map f [0..<n]"

lemma length_tabulate [simp]: "length (tabulate n f) = n"
  by (simp add: tabulate_def)

lemma nth_tabulate [simp]: "i < n \<Longrightarrow> tabulate n f ! i = f i"
  by (simp add: tabulate_def)

lemma tabulate_cong: "(\<And>i. i < n \<Longrightarrow> f i = g i) \<Longrightarrow> tabulate n f = tabulate n g"
  by (simp add: tabulate_def)

lemma tabulate_nth: "length xs = n \<Longrightarrow> tabulate n ((!) xs) = xs"
  by (auto simp: tabulate_def intro: map_nth)

lemma update_tabulate: "i < n \<Longrightarrow> (tabulate n f)[i := x] = tabulate n (f(i := x))"
  by (rule nth_equalityI) (auto simp: nth_list_update)

text \<open>
  A loop that either keeps a relation through all its steps or fails at the first bad one.
\<close>

lemma try_fold_upt_or_fail:
  assumes step: "\<And>i s. i < n \<Longrightarrow> R i s \<Longrightarrow>
      if good i then \<exists>s'. f s i = Inr s' \<and> R (Suc i) s' else f s i = Inl e"
    and start: "R 0 s" and "c \<le> n"
  shows "if \<forall>i < c. good i then \<exists>s'. try_fold f s [0..<c] = Inr s' \<and> R c s'
    else try_fold f s [0..<c] = Inl e"
  using \<open>c \<le> n\<close>
proof (induction c)
  case 0
  with start show ?case by simp
next
  case (Suc c)
  show ?case
  proof (cases "\<forall>i < c. good i")
    case True
    with Suc obtain s' where s': "try_fold f s [0..<c] = Inr s'" "R c s'" by auto
    with step [of c s'] Suc.prems True show ?thesis
      by (auto simp: try_fold_append less_Suc_eq split: if_splits)
  next
    case False
    with Suc have "try_fold f s [0..<c] = Inl e" by auto
    with False show ?thesis by (auto simp: try_fold_append less_Suc_eq)
  qed
qed

lemma try_fold_upt_rel:
  assumes "\<And>i s. i < n \<Longrightarrow> R i s \<Longrightarrow> \<exists>s'. f s i = Inr s' \<and> R (Suc i) s'" and "R 0 s"
  shows "\<exists>s'. try_fold f s [0..<n] = Inr s' \<and> R n s'"
  using try_fold_upt_or_fail [of n R "\<lambda>_. True" f "undefined" s n] assms by simp

text \<open>A loop whose body handles the \<open>m\<close> positions of its own block, from position \<open>base\<close> on.\<close>

lemma all_less_blocks: "(\<forall>x < n * m. P x) \<longleftrightarrow> (\<forall>b < n. \<forall>j < m. P (b * m + j))" for n m :: nat
proof safe
  fix b j assume all: "\<forall>x < n * m. P x" and "b < n" "j < m"
  then have "b * m + j < Suc b * m" "Suc b * m \<le> n * m" by (simp, simp only: mult_le_mono1 Suc_leI)
  then have "b * m + j < n * m" by (rule less_le_trans)
  with all show "P (b * m + j)" by blast
next
  fix x assume all: "\<forall>b < n. \<forall>j < m. P (b * m + j)" and x: "x < n * m"
  then have "0 < m" by (cases m) simp_all
  with x have "x div m < n" "x mod m < m" by (simp_all add: less_mult_imp_div_less)
  with all have "P (x div m * m + x mod m)" by blast
  then show "P x" by simp
qed

lemma try_fold_blocks:
  assumes step: "\<And>b s. b < n \<Longrightarrow> R (base + b * m) s \<Longrightarrow>
      if \<forall>j < m. good (base + b * m + j)
      then \<exists>s'. f s b = Inr s' \<and> R (base + b * m + m) s' else f s b = Inl e"
    and start: "R base s"
  shows "if \<forall>x < n * m. good (base + x) then \<exists>s'. try_fold f s [0..<n] = Inr s' \<and> R (base + n * m) s'
    else try_fold f s [0..<n] = Inl e"
proof -
  have "if \<forall>j < m. good (base + b * m + j)
      then \<exists>s'. f s b = Inr s' \<and> R (base + Suc b * m) s' else f s b = Inl e"
    if "b < n" "R (base + b * m) s" for b s
  proof -
    have "base + Suc b * m = base + b * m + m" by simp
    with step [OF that] show ?thesis by (simp only:)
  qed
  from try_fold_upt_or_fail [where R = "\<lambda>b. R (base + b * m)" and s = s, OF this _ order_refl] start
  show ?thesis by (simp add: all_less_blocks add.assoc)
qed

lemma div_mod_of_block:
  fixes x h i :: nat
  assumes "i * h \<le> x" "x < i * h + h"
  shows "x div h = i" "x mod h = x - i * h"
proof -
  have "x = i * h + (x - i * h)" "x - i * h < h" using assms by simp_all
  then show "x div h = i" "x mod h = x - i * h"
    by (metis div_mult_self3 div_less add_0_right less_nat_zero_code add.commute,
        metis mod_mult_self3 mod_less)
qed

end
