(* ===== verification/Gemm_Reference.thy ===== *)
theory Gemm_Reference
  imports Gemm_Protocol Operators Arrays
begin

text \<open>
  The crate \<open>vrb-gemm-reference\<close>: limits, the CPU reference kernel on encoded requests, and
  its use as an operator. The kernel's triple loop updates the output slice in place; its
  equivalence with one dot product per entry is the theorem of this theory.
\<close>

section \<open>Data\<close>

record gemm_limits =
  gl_max_matrix_elements :: u64
  gl_max_multiply_adds :: u64

definition gemm_limits_default :: gemm_limits where
  "gemm_limits_default = \<lparr>gl_max_matrix_elements = 16 * 1024 * 1024, gl_max_multiply_adds = 1000000000\<rparr>"

type_synonym u128 = "128 word"

datatype reference_gemm_error =
    RgProtocol gemm_protocol_error
  | RgResourceLimit string u128 u128
  | RgAddressSpaceOverflow

record cpu_reference_gemm =
  cg_limits :: gemm_limits

definition reference_gemm_name :: string where
  "reference_gemm_name = ''cpu-reference-gemm''"

section \<open>Messages\<close>

fun hex_digit :: "nat \<Rightarrow> char" where
  "hex_digit n = (if n < 10 then digit_char n else char_of (n + 87))"

definition show_hex8 :: "u32 \<Rightarrow> string" where
  "show_hex8 x = map (\<lambda>i. hex_digit (unat x div 16 ^ i mod 16)) (rev [0..<8])"

fun gemm_protocol_error_to_string :: "gemm_protocol_error \<Rightarrow> string" where
  "gemm_protocol_error_to_string (Truncated minimum actual) =
     ''GEMM message is truncated: need at least '' @ show_nat minimum @ '' bytes, got '' @ show_nat actual"
| "gemm_protocol_error_to_string InvalidMagic = ''invalid GEMM message magic''"
| "gemm_protocol_error_to_string (UnsupportedVersion actual expected) =
     ''unsupported GEMM protocol version '' @ show_nat (unat actual) @ ''; expected '' @ show_nat (unat expected)"
| "gemm_protocol_error_to_string (InvalidHeaderLength actual expected) =
     ''invalid GEMM header length '' @ show_nat (unat actual) @ ''; expected '' @ show_nat expected"
| "gemm_protocol_error_to_string (UnsupportedFlags flags) =
     ''unsupported GEMM request flags 0x'' @ show_hex8 flags"
| "gemm_protocol_error_to_string (DimensionOverflow what) = ''GEMM dimensions overflow while computing '' @ what"
| "gemm_protocol_error_to_string LengthOverflow = ''GEMM message length overflow''"
| "gemm_protocol_error_to_string (LengthMismatch expected actual) =
     ''GEMM message length '' @ show_nat (unat actual) @ '' does not match required length '' @
     show_nat (unat expected)"
| "gemm_protocol_error_to_string (MatrixLengthMismatch matrix expected actual) =
     ''matrix '' @ matrix @ '' contains '' @ show_nat (unat actual) @ '' elements; expected '' @
     show_nat (unat expected)"
| "gemm_protocol_error_to_string AddressSpaceOverflow =
     ''GEMM message cannot be represented in this process address space''"

fun reference_gemm_error_to_string :: "reference_gemm_error \<Rightarrow> string" where
  "reference_gemm_error_to_string (RgProtocol e) = gemm_protocol_error_to_string e"
| "reference_gemm_error_to_string (RgResourceLimit resource actual maximum) =
     ''GEMM '' @ resource @ '' requires '' @ show_nat (unat actual) @
     '' units, exceeding configured limit '' @ show_nat (unat maximum)"
| "reference_gemm_error_to_string RgAddressSpaceOverflow =
     ''GEMM dimensions cannot be represented in this process address space''"

section \<open>Limits\<close>

definition check_elements :: "gemm_limits \<Rightarrow> string \<times> u64 \<Rightarrow> reference_gemm_error + unit" where
  "check_elements limits = (\<lambda>(resource, elements).
     if elements > gl_max_matrix_elements limits
     then Inl (RgResourceLimit resource (ucast elements) (ucast (gl_max_matrix_elements limits)))
     else Inr ())"

definition validate_limits :: "gemm_request_meta \<Rightarrow> gemm_limits \<Rightarrow> reference_gemm_error + unit" where
  "validate_limits meta limits =
     and_then (try_all (check_elements limits)
       [(''matrix A elements'', gm_a_elements meta), (''matrix B elements'', gm_b_elements meta),
        (''matrix C/output elements'', gm_c_elements meta)]) (\<lambda>_.
     let operations = ucast (gm_m meta) * ucast (gm_n meta) * ucast (gm_k meta) :: u128
     in if operations > ucast (gl_max_multiply_adds limits)
        then Inl (RgResourceLimit ''multiply-add count'' operations (ucast (gl_max_multiply_adds limits)))
        else Inr ())"

definition required_output_len :: "bytes \<Rightarrow> gemm_limits \<Rightarrow> reference_gemm_error + u64" where
  "required_output_len input limits =
     and_then (map_err RgProtocol (inspect_request input)) (\<lambda>meta.
     and_then (validate_limits meta limits) (\<lambda>_.
     map_err RgProtocol (encoded_response_len (gm_m meta) (gm_n meta))))"

section \<open>The kernel\<close>

definition gemm_column ::
  "f32 \<Rightarrow> f32 list \<Rightarrow> nat \<Rightarrow> nat \<Rightarrow> f32 list \<Rightarrow> nat \<Rightarrow> reference_gemm_error fault + f32 list" where
  "gemm_column scaled_a b b_row output_row output column =
     and_then (index_at b (b_row + column)) (\<lambda>y.
     and_then (index_at output (output_row + column)) (\<lambda>x.
     update_at output (output_row + column) (f32_add x (f32_mul scaled_a y))))"

definition gemm_depth ::
  "f32 \<Rightarrow> f32 list \<Rightarrow> f32 list \<Rightarrow> nat \<Rightarrow> nat \<Rightarrow> nat \<Rightarrow> f32 list \<Rightarrow> nat \<Rightarrow> reference_gemm_error fault + f32 list" where
  "gemm_depth alpha a b n a_row output_row output depth =
     and_then (index_at a (a_row + depth)) (\<lambda>x.
     let scaled_a = f32_mul alpha x; b_row = depth * n
     in try_fold (gemm_column scaled_a b b_row output_row) output [0..<n])"

definition gemm_row ::
  "f32 \<Rightarrow> f32 list \<Rightarrow> f32 list \<Rightarrow> nat \<Rightarrow> nat \<Rightarrow> f32 list \<Rightarrow> nat \<Rightarrow> reference_gemm_error fault + f32 list" where
  "gemm_row alpha a b n k output row =
     (let a_row = row * k; output_row = row * n
      in try_fold (gemm_depth alpha a b n a_row output_row) output [0..<k])"

definition gemm_loops ::
  "f32 \<Rightarrow> f32 list \<Rightarrow> f32 list \<Rightarrow> nat \<Rightarrow> nat \<Rightarrow> nat \<Rightarrow> f32 list \<Rightarrow> reference_gemm_error fault + f32 list" where
  "gemm_loops alpha a b m n k output = try_fold (gemm_row alpha a b n k) output [0..<m]"

text \<open>\<open>output.iter_mut().zip(c)\<close> with \<open>*destination = beta * source\<close>.\<close>

definition scale_c :: "f32 \<Rightarrow> f32 list \<Rightarrow> f32 list \<Rightarrow> f32 list" where
  "scale_c beta c output = map (f32_mul beta) (take (length output) c) @ drop (length c) output"

definition alloc_zeros :: "nat \<Rightarrow> reference_gemm_error fault + f32 list" where
  "alloc_zeros elements = (if 4 * elements > 2 ^ 63 - 1 then Inl Panicked else Inr (replicate elements 0))"

definition execute_gemm_bytes :: "bytes \<Rightarrow> gemm_limits \<Rightarrow> reference_gemm_error fault + bytes" where
  "execute_gemm_bytes input limits =
     and_then (failing (map_err RgProtocol (inspect_request input))) (\<lambda>meta.
     and_then (failing (validate_limits meta limits)) (\<lambda>_.
     and_then (failing (map_err RgProtocol (decode_request input))) (\<lambda>request.
     let meta = dg_meta request in
     and_then (ok_or (usize_try_from (gm_m meta)) (Failed RgAddressSpaceOverflow)) (\<lambda>m.
     and_then (ok_or (usize_try_from (gm_n meta)) (Failed RgAddressSpaceOverflow)) (\<lambda>n.
     and_then (ok_or (usize_try_from (gm_k meta)) (Failed RgAddressSpaceOverflow)) (\<lambda>k.
     and_then (ok_or (usize_try_from (gm_c_elements meta)) (Failed RgAddressSpaceOverflow)) (\<lambda>output_elements.
     and_then (alloc_zeros output_elements) (\<lambda>zeros.
     let output = (case dg_c request of
           None \<Rightarrow> zeros
         | Some c \<Rightarrow> if \<not> f32_eq (gm_beta meta) 0 then scale_c (gm_beta meta) c zeros else zeros)
     in and_then
       (if \<not> f32_eq (gm_alpha meta) 0 \<and> m \<noteq> 0 \<and> n \<noteq> 0 \<and> k \<noteq> 0
        then gemm_loops (gm_alpha meta) (dg_a request) (dg_b request) m n k output else Inr output) (\<lambda>output.
     failing (map_err RgProtocol (encode_response (gm_m meta) (gm_n meta) output)))))))))))"

definition reference_gemm_execute ::
  "cpu_reference_gemm \<Rightarrow> operator_invocation \<Rightarrow> 'w \<Rightarrow> (operator_error + operator_output) unwinding \<times> 'w" where
  "reference_gemm_execute g invocation w =
     (case execute_gemm_bytes (oi_input invocation) (cg_limits g) of
        Inl Panicked \<Rightarrow> (Unwound, w)
      | Inl (Failed e) \<Rightarrow> (Returned (Inl (OpExecution (reference_gemm_error_to_string e))), w)
      | Inr bytes \<Rightarrow> (Returned (Inr \<lparr>oo_bytes = bytes\<rparr>), w))"

definition reference_gemm_operator :: "cpu_reference_gemm \<Rightarrow> 'w operator" where
  "reference_gemm_operator g =
     \<lparr>op_name = reference_gemm_name,
      op_capabilities = \<lparr>oc_kind = KGemm, oc_backend = Cpu, oc_supports_zero_copy = False\<rparr>,
      op_execute = reference_gemm_execute g\<rparr>"

section \<open>The loops as one dot product per entry\<close>

text \<open>What depth \<open>d\<close> adds to the entry in column \<open>j\<close> of row \<open>i\<close>, and the whole sum onto \<open>v\<close>.\<close>

definition dot_onto :: "f32 \<Rightarrow> f32 list \<Rightarrow> f32 list \<Rightarrow> nat \<Rightarrow> nat \<Rightarrow> nat \<Rightarrow> nat \<Rightarrow> f32 \<Rightarrow> f32" where
  "dot_onto alpha a b n a_row depths j v =
     foldl (\<lambda>acc d. f32_add acc (f32_mul (f32_mul alpha (a ! (a_row + d))) (b ! (d * n + j)))) v [0..<depths]"

lemma dot_onto_Suc:
  "dot_onto alpha a b n r (Suc d) j v =
     f32_add (dot_onto alpha a b n r d j v) (f32_mul (f32_mul alpha (a ! (r + d))) (b ! (d * n + j)))"
  by (simp add: dot_onto_def)

lemma dot_onto_0 [simp]: "dot_onto alpha a b n r 0 j v = v"
  by (simp add: dot_onto_def)

lemma column_loop:
  assumes "b_row + n \<le> length b" "output_row + n \<le> len"
  shows "try_fold (gemm_column s b b_row output_row) (tabulate len f) [0..<n] =
    Inr (tabulate len (\<lambda>x. if output_row \<le> x \<and> x < output_row + n
      then f32_add (f x) (f32_mul s (b ! (b_row + (x - output_row)))) else f x))"
proof -
  define g where "g c = tabulate len (\<lambda>x. if output_row \<le> x \<and> x < output_row + c
      then f32_add (f x) (f32_mul s (b ! (b_row + (x - output_row)))) else f x)" for c
  have step: "gemm_column s b b_row output_row (g c) c = Inr (g (Suc c))" if "c < n" for c
    using that assms
    by (auto simp: gemm_column_def g_def update_tabulate intro!: tabulate_cong)
  have "g 0 = tabulate len f" by (auto simp: g_def intro!: tabulate_cong)
  with try_fold_upt [where f = "gemm_column s b b_row output_row" and g = g and c = n, OF step] show ?thesis
    by (simp add: g_def)
qed

lemma depth_loop:
  assumes "a_row + k \<le> length a" "k * n \<le> length b" "output_row + n \<le> len"
  shows "try_fold (gemm_depth alpha a b n a_row output_row) (tabulate len f) [0..<k] =
    Inr (tabulate len (\<lambda>x. if output_row \<le> x \<and> x < output_row + n
      then dot_onto alpha a b n a_row k (x - output_row) (f x) else f x))"
proof -
  define g where "g c = tabulate len (\<lambda>x. if output_row \<le> x \<and> x < output_row + n
      then dot_onto alpha a b n a_row c (x - output_row) (f x) else f x)" for c
  have step: "gemm_depth alpha a b n a_row output_row (g c) c = Inr (g (Suc c))" if "c < k" for c
  proof -
    have "Suc c * n \<le> k * n" using that by (intro mult_le_mono1) simp
    then have "c * n + n \<le> length b" using assms(2) by simp
    with that assms(1,3) show ?thesis
      by (auto simp: gemm_depth_def g_def column_loop dot_onto_Suc intro!: tabulate_cong)
  qed
  have "g 0 = tabulate len f" by (auto simp: g_def intro!: tabulate_cong)
  with try_fold_upt [where f = "gemm_depth alpha a b n a_row output_row" and g = g and c = k, OF step]
  show ?thesis by (simp add: g_def)
qed

lemma row_loop:
  assumes "length a = m * k" "length b = k * n" "0 < n"
  shows "gemm_loops alpha a b m n k (tabulate (m * n) f) =
    Inr (tabulate (m * n) (\<lambda>x. dot_onto alpha a b n (x div n * k) k (x mod n) (f x)))"
proof -
  define g where "g c = tabulate (m * n) (\<lambda>x. if x < c * n
      then dot_onto alpha a b n (x div n * k) k (x mod n) (f x) else f x)" for c
  have step: "gemm_row alpha a b n k (g c) c = Inr (g (Suc c))" if "c < m" for c
  proof -
    have le: "Suc c * k \<le> m * k" "Suc c * n \<le> m * n" using that by (simp_all only: mult_le_mono1 Suc_leI)
    show ?thesis
      using le assms
      by (auto simp: gemm_row_def g_def depth_loop div_mod_of_block not_less intro!: tabulate_cong)
  qed
  have "g 0 = tabulate (m * n) f" by (simp add: g_def)
  with try_fold_upt [where f = "gemm_row alpha a b n k" and g = g and c = m, OF step]
  have "gemm_loops alpha a b m n k (tabulate (m * n) f) = Inr (g m)" by (simp add: gemm_loops_def)
  also have "g m = tabulate (m * n) (\<lambda>x. dot_onto alpha a b n (x div n * k) k (x mod n) (f x))"
    by (simp add: g_def cong: tabulate_cong)
  finally show ?thesis .
qed

section \<open>The kernel on a request\<close>

text \<open>The entry of the product, and of its whole output, as the mathematical definition has it.\<close>

definition gemm_initial :: "gemm_request \<Rightarrow> nat \<Rightarrow> f32" where
  "gemm_initial r x =
     (case gr_c r of
        None \<Rightarrow> 0
      | Some c \<Rightarrow> if f32_eq (gr_beta r) 0 then 0 else f32_mul (gr_beta r) (c ! x))"

definition gemm_entry :: "gemm_request \<Rightarrow> nat \<Rightarrow> nat \<Rightarrow> f32" where
  "gemm_entry r i j =
     (let start = gemm_initial r (i * unat (gr_n r) + j)
      in if f32_eq (gr_alpha r) 0 then start
         else foldl (\<lambda>acc d. f32_add acc
             (f32_mul (f32_mul (gr_alpha r) (gr_a r ! (i * unat (gr_k r) + d))) (gr_b r ! (d * unat (gr_n r) + j))))
           start [0..<unat (gr_k r)])"

definition gemm_values :: "gemm_request \<Rightarrow> f32 list" where
  "gemm_values r = tabulate (unat (gr_m r) * unat (gr_n r))
     (\<lambda>x. gemm_entry r (x div unat (gr_n r)) (x mod unat (gr_n r)))"

definition within_limits :: "gemm_request \<Rightarrow> gemm_limits \<Rightarrow> bool" where
  "within_limits r limits =
     (unat (gr_m r) * unat (gr_k r) \<le> unat (gl_max_matrix_elements limits) \<and>
      unat (gr_k r) * unat (gr_n r) \<le> unat (gl_max_matrix_elements limits) \<and>
      unat (gr_m r) * unat (gr_n r) \<le> unat (gl_max_matrix_elements limits) \<and>
      unat (gr_m r) * unat (gr_n r) * unat (gr_k r) \<le> unat (gl_max_multiply_adds limits))"

lemma unat_ucast_u128: "unat (ucast (x :: u64) :: u128) = unat x"
  by (rule unat_ucast_up) simp

text \<open>The product of the three dimensions never wraps around: it is below \<open>2 ^ 128\<close>.\<close>

lemma operations_exact:
  assumes wf: "request_wf r"
  shows "unat (ucast (gr_m r) * ucast (gr_n r) * ucast (gr_k r) :: u128)
    = unat (gr_m r) * unat (gr_n r) * unat (gr_k r)"
proof -
  let ?m = "unat (gr_m r)" and ?n = "unat (gr_n r)" and ?k = "unat (gr_k r)"
  have mn: "?m * ?n < 2 ^ 64" using wf by (simp add: request_wf_def)
  have "?k < 2 ^ 64" using unat_lt2p_num [of "gr_k r"] by simp
  then have "?m * ?n * ?k < 2 ^ 64 * 2 ^ 64" using mn by (intro mult_strict_mono) simp_all
  with mn show ?thesis
    by (simp add: unat_word_ariths unat_ucast_u128)
qed

lemma validate_limits_iff:
  assumes "request_wf r"
  shows "validate_limits (request_meta r) limits = Inr () \<longleftrightarrow> within_limits r limits"
  using operations_exact [OF assms]
  by (auto simp: validate_limits_def check_elements_def within_limits_def and_then_Inr_iff Let_def
    request_meta_def request_wf_sizes(1-3) [OF assms] word_less_nat_alt word_le_nat_alt unat_ucast_u128
    not_less request_meta_def)

lemma length_gemm_values [simp]: "length (gemm_values r) = unat (gr_m r) * unat (gr_n r)"
  by (simp add: gemm_values_def)

lemma gemm_start:
  assumes "request_wf r"
  shows "(case gr_c r of None \<Rightarrow> replicate (unat (gr_m r) * unat (gr_n r)) 0
      | Some c \<Rightarrow> if \<not> f32_eq (gr_beta r) 0 then scale_c (gr_beta r) c (replicate (unat (gr_m r) * unat (gr_n r)) 0)
          else replicate (unat (gr_m r) * unat (gr_n r)) 0)
    = tabulate (unat (gr_m r) * unat (gr_n r)) (gemm_initial r)"
  using assms
  by (intro nth_equalityI) (auto simp: gemm_initial_def scale_c_def request_wf_def split: option.splits)

lemma gemm_loops_values:
  assumes wf: "request_wf r"
  shows "(if \<not> f32_eq (gr_alpha r) 0 \<and> unat (gr_m r) \<noteq> 0 \<and> unat (gr_n r) \<noteq> 0 \<and> unat (gr_k r) \<noteq> 0
      then gemm_loops (gr_alpha r) (gr_a r) (gr_b r) (unat (gr_m r)) (unat (gr_n r)) (unat (gr_k r))
        (tabulate (unat (gr_m r) * unat (gr_n r)) (gemm_initial r))
      else Inr (tabulate (unat (gr_m r) * unat (gr_n r)) (gemm_initial r))) = Inr (gemm_values r)"
proof -
  have len: "length (gr_a r) = unat (gr_m r) * unat (gr_k r)" "length (gr_b r) = unat (gr_k r) * unat (gr_n r)"
    using wf by (simp_all add: request_wf_def)
  show ?thesis
    by (auto simp: row_loop [OF len] gemm_values_def gemm_entry_def Let_def dot_onto_def
      intro!: tabulate_cong)
qed

lemma execute_decoded:
  assumes dec: "decode_request input = Inr d" and r: "r = decoded_request d"
    and lim: "within_limits r limits" and small: "unat (gl_max_matrix_elements limits) \<le> 2 ^ 60"
  shows "execute_gemm_bytes input limits = Inr (response_bytes (gr_m r) (gr_n r) (gemm_values r))"
    and "response_wf (gr_m r) (gr_n r) (gemm_values r)"
proof -
  have wf: "request_wf r" and meta: "dg_meta d = request_meta r" and insp: "inspect_request input = Inr (request_meta r)"
    using decode_request_canonical [OF dec] decode_request_Inr [OF dec] r by auto
  have c: "unat (gr_m r) * unat (gr_n r) \<le> 2 ^ 60" using lim small by (simp add: within_limits_def)
  then show rwf: "response_wf (gr_m r) (gr_n r) (gemm_values r)" by (simp add: response_wf_def)
  have v: "validate_limits (request_meta r) limits = Inr ()"
    using lim by (simp add: validate_limits_iff [OF wf])
  have d: "gm_m (request_meta r) = gr_m r" "gm_n (request_meta r) = gr_n r" "gm_k (request_meta r) = gr_k r"
    "gm_alpha (request_meta r) = gr_alpha r" "gm_beta (request_meta r) = gr_beta r"
    "unat (gm_c_elements (request_meta r)) = unat (gr_m r) * unat (gr_n r)"
    by (simp_all add: request_meta_def request_wf_sizes(3) [OF wf])
  have e: "dg_a d = gr_a r" "dg_b d = gr_b r" "dg_c d = gr_c r" by (simp_all add: r decoded_request_def)
  have alloc: "alloc_zeros (unat (gr_m r) * unat (gr_n r)) = Inr (replicate (unat (gr_m r) * unat (gr_n r)) 0)"
    using c by (simp add: alloc_zeros_def)
  have enc: "encode_response (gr_m r) (gr_n r) (gemm_values r) = Inr (response_bytes (gr_m r) (gr_n r) (gemm_values r))"
    using rwf by (simp add: encode_response_iff)
  show "execute_gemm_bytes input limits = Inr (response_bytes (gr_m r) (gr_n r) (gemm_values r))"
    by (simp add: execute_gemm_bytes_def insp v dec meta d e alloc enc Let_def gemm_start [OF wf] gemm_loops_values [OF wf, unfolded neq0_conv] cong: option.case_cong if_cong split del: if_split)
qed

section \<open>Properties\<close>

lemma refused_by_limits:
  assumes "validate_limits meta limits = Inl e"
  shows "\<exists>what actual maximum. e = RgResourceLimit what actual maximum"
  using assms by (auto simp: validate_limits_def check_elements_def and_then_Inl_iff Let_def split: if_splits)

lemma execute_refused:
  assumes "inspect_request input = Inr meta" "validate_limits meta limits = Inl e"
  shows "execute_gemm_bytes input limits = Inl (Failed e)" "required_output_len input limits = Inl e"
  using assms by (simp_all add: execute_gemm_bytes_def required_output_len_def)

lemma required_decoded:
  assumes "decode_request input = Inr d" "r = decoded_request d" "within_limits r limits"
    "unat (gl_max_matrix_elements limits) \<le> 2 ^ 60"
  shows "required_output_len input limits = Inr (of_nat (32 + 4 * length (gemm_values r)))"
proof -
  have insp: "inspect_request input = Inr (request_meta r)" and wf: "request_wf r"
    using decode_request_canonical [OF assms(1)] decode_request_Inr [OF assms(1)] assms(2) by auto
  have "encoded_response_len (gr_m r) (gr_n r) = Inr (of_nat (32 + 4 * length (gemm_values r)))"
    by (rule encoded_response_len_wf [OF execute_decoded(2) [OF assms]])
  moreover have "gm_m (request_meta r) = gr_m r" "gm_n (request_meta r) = gr_n r"
    by (simp_all add: request_meta_def)
  moreover have "validate_limits (request_meta r) limits = Inr ()"
    using assms(3) by (simp add: validate_limits_iff [OF wf])
  ultimately show ?thesis
    by (simp add: required_output_len_def insp del: of_nat_add of_nat_mult length_gemm_values)
qed

text \<open>The same from the side of the encoder.\<close>

lemma execute_encoded_ok:
  assumes "encode_request r = Inr input" and lim: "within_limits r limits"
    and small: "unat (gl_max_matrix_elements limits) \<le> 2 ^ 60"
  shows "\<exists>out. execute_gemm_bytes input limits = Inr out
      \<and> decode_response out = Inr \<lparr>dr_m = gr_m r, dr_n = gr_n r, dr_values = gemm_values r\<rparr>
      \<and> required_output_len input limits = Inr (of_nat (length out))"
proof -
  let ?d = "\<lparr>dg_meta = request_meta r, dg_a = gr_a r, dg_b = gr_b r, dg_c = gr_c r\<rparr>"
  have wf: "request_wf r" and input: "input = request_bytes r" using assms(1) by (simp_all add: encode_request_iff)
  have dec: "decode_request input = Inr ?d" unfolding input by (rule decode_request_wf [OF wf])
  have r: "r = decoded_request ?d" by (simp add: decoded_request_def request_meta_def)
  note x = execute_decoded [OF dec r lim small]
  from x(1) required_decoded [OF dec r lim small] decode_response_wf [OF x(2)] show ?thesis
    by (simp del: length_gemm_values)
qed

lemma execute_encoded_refused:
  assumes "encode_request r = Inr input" and lim: "\<not> within_limits r limits"
  shows "\<exists>what actual maximum.
      execute_gemm_bytes input limits = Inl (Failed (RgResourceLimit what actual maximum))
      \<and> required_output_len input limits = Inl (RgResourceLimit what actual maximum)"
proof -
  have wf: "request_wf r" and input: "input = request_bytes r" using assms(1) by (simp_all add: encode_request_iff)
  from lim obtain e where e: "validate_limits (request_meta r) limits = Inl e"
    using validate_limits_iff [OF wf, of limits] by (cases "validate_limits (request_meta r) limits") auto
  from execute_refused [OF inspect_request_wf [OF wf] e] refused_by_limits [OF e] show ?thesis
    by (auto simp: input)
qed

text \<open>
  C25. On the encoding of a request with non-zero dimensions within the limits, the reference kernel succeeds: the
  response decodes to the request's dimensions and to one value per entry, where the entry in
  row \<open>i\<close> and column \<open>j\<close> is the sum, from left to right and in single precision, of
  \<open>beta\<close> times the entry of C and of \<open>alpha * a * b\<close> over the common dimension; and
  \<open>required_output_len\<close> announced its length. The in-place triple loop never indexes out
  of range. A request over the limits is refused by both with the same error.
\<close>

theorem reference_gemm_is_matrix_product:
  assumes "encode_request r = Inr input" and "unat (gl_max_matrix_elements limits) \<le> 2 ^ 60"
    and "gr_m r \<noteq> 0" "gr_n r \<noteq> 0" "gr_k r \<noteq> 0"
  shows "if within_limits r limits
    then \<exists>out. execute_gemm_bytes input limits = Inr out
      \<and> decode_response out = Inr \<lparr>dr_m = gr_m r, dr_n = gr_n r,
          dr_values = [gemm_entry r (x div unat (gr_n r)) (x mod unat (gr_n r)).
            x <- [0..<unat (gr_m r) * unat (gr_n r)]]\<rparr>
      \<and> required_output_len input limits = Inr (of_nat (length out))
    else \<exists>what actual maximum.
      execute_gemm_bytes input limits = Inl (Failed (RgResourceLimit what actual maximum))
      \<and> required_output_len input limits = Inl (RgResourceLimit what actual maximum)"
  using execute_encoded_ok [OF assms(1) _ assms(2)] execute_encoded_refused [OF assms(1), of limits]
  by (simp add: gemm_values_def tabulate_def)

theorem reference_gemm_is_matrix_product_witness:
  "\<exists>out. execute_gemm_bytes (request_bytes demo_gemm) gemm_limits_default = Inr out"
proof -
  have "within_limits demo_gemm gemm_limits_default"
    by (simp add: within_limits_def demo_gemm_def gemm_limits_default_def)
  with reference_gemm_is_matrix_product [OF encode_request_wf [OF demo_gemm_wf] _ demo_gemm_dims, of gemm_limits_default]
  show ?thesis by (auto simp: gemm_limits_default_def)
qed

end
