(* ===== verification/Plugin_Abi.thy ===== *)
theory Plugin_Abi
  imports Registry Bytes
begin

text \<open>
  What the plugin ABIs and their loaders share: statuses and raw tags
  (\<open>vrb-operator-plugin-api\<close>, \<open>vrb-shared-operator-plugin-api\<close>), sizes of \<open>repr(C)\<close>
  structures, fixed character arrays as strings, and the mutex-protected cell of a loaded
  plugin with its \<open>Drop\<close>.
\<close>

section \<open>Statuses and tags\<close>

definition status_ok :: i32 where "status_ok = 0"
definition status_invalid_argument :: i32 where "status_invalid_argument = 1"
definition status_unsupported :: i32 where "status_unsupported = 2"
definition status_unavailable :: i32 where "status_unavailable = 3"
definition status_buffer_too_small :: i32 where "status_buffer_too_small = 4"
definition status_internal_error :: i32 where "status_internal_error = 5"

lemmas status_defs = status_ok_def status_invalid_argument_def status_unsupported_def
  status_unavailable_def status_buffer_too_small_def status_internal_error_def

definition raw_kind_gemm :: u32 where "raw_kind_gemm = 1"
definition raw_kind_attention :: u32 where "raw_kind_attention = 2"
definition raw_kind_quantize :: u32 where "raw_kind_quantize = 3"
definition raw_kind_dequantize :: u32 where "raw_kind_dequantize = 4"
definition raw_kind_transform :: u32 where "raw_kind_transform = 5"
definition raw_kind_custom :: u32 where "raw_kind_custom = 255"

lemmas raw_kind_defs = raw_kind_gemm_def raw_kind_attention_def raw_kind_quantize_def
  raw_kind_dequantize_def raw_kind_transform_def raw_kind_custom_def

definition raw_backend_cpu :: u32 where "raw_backend_cpu = 1"
definition raw_backend_vulkan :: u32 where "raw_backend_vulkan = 2"
definition raw_backend_hip :: u32 where "raw_backend_hip = 3"
definition raw_backend_hybrid :: u32 where "raw_backend_hybrid = 4"
definition raw_backend_plugin :: u32 where "raw_backend_plugin = 255"

lemmas raw_backend_defs = raw_backend_cpu_def raw_backend_vulkan_def raw_backend_hip_def
  raw_backend_hybrid_def raw_backend_plugin_def

definition map_operator_kind :: "u32 \<Rightarrow> operator_kind" where
  "map_operator_kind kind =
     (if kind = raw_kind_gemm then KGemm
      else if kind = raw_kind_attention then KAttention
      else if kind = raw_kind_quantize then KQuantize
      else if kind = raw_kind_dequantize then KDequantize
      else if kind = raw_kind_transform then KTransform
      else KCustom)"

definition map_backend_kind :: "u32 \<Rightarrow> backend_kind" where
  "map_backend_kind kind =
     (if kind = raw_backend_cpu then Cpu
      else if kind = raw_backend_vulkan then Vulkan
      else if kind = raw_backend_hip then Hip
      else if kind = raw_backend_hybrid then Hybrid
      else Plugin)"

section \<open>Structure sizes\<close>

text \<open>
  The size of a \<open>repr(C)\<close> structure from the sizes and alignments of its members: each field
  starts at the next multiple of its alignment, and the whole is padded to the largest one.
\<close>

type_synonym c_field = "nat \<times> nat"

definition align_up :: "nat \<Rightarrow> nat \<Rightarrow> nat" where
  "align_up n a = (n + a - 1) div a * a"

fun c_layout :: "nat \<Rightarrow> nat \<Rightarrow> c_field list \<Rightarrow> nat" where
  "c_layout offset alignment [] = align_up offset alignment"
| "c_layout offset alignment ((width, a) # members) =
     c_layout (align_up offset a + width) (max alignment a) members"

definition c_size_of :: "c_field list \<Rightarrow> u32" where
  "c_size_of members = of_nat (c_layout 0 1 members)"

definition c_u32 :: c_field where "c_u32 = (4, 4)"
definition c_u64 :: c_field where "c_u64 = (8, 8)"
definition c_pointer :: c_field where "c_pointer = (8, 8)"
definition c_array :: "nat \<Rightarrow> c_field \<Rightarrow> c_field" where
  "c_array n field = (n * fst field, snd field)"
definition c_char :: c_field where "c_char = (1, 1)"

lemmas c_layout_defs = c_size_of_def align_up_def c_u32_def c_u64_def c_pointer_def c_array_def c_char_def

section \<open>Character arrays\<close>

text \<open>
  \<open>String::from_utf8_lossy\<close>: every maximal invalid prefix of a character becomes the
  replacement character. \<open>utf8_step\<close> gives the length of the character or of the invalid
  part the bytes start with; bytes past the end read as zero.
\<close>

definition continuation :: "nat \<Rightarrow> bool" where
  "continuation b = (0x80 \<le> b \<and> b \<le> 0xBF)"

definition second_of_three :: "nat \<Rightarrow> nat \<Rightarrow> bool" where
  "second_of_three b c =
     (if b = 0xE0 then 0xA0 \<le> c \<and> c \<le> 0xBF
      else if b = 0xED then 0x80 \<le> c \<and> c \<le> 0x9F
      else continuation c)"

definition second_of_four :: "nat \<Rightarrow> nat \<Rightarrow> bool" where
  "second_of_four b c =
     (if b = 0xF0 then 0x90 \<le> c \<and> c \<le> 0xBF
      else if b = 0xF4 then 0x80 \<le> c \<and> c \<le> 0x8F
      else continuation c)"

definition utf8_step :: "nat \<Rightarrow> (nat \<Rightarrow> nat) \<Rightarrow> bool \<times> nat" where
  "utf8_step b at =
     (if b < 0x80 then (True, 1)
      else if 0xC2 \<le> b \<and> b \<le> 0xDF then if continuation (at 1) then (True, 2) else (False, 1)
      else if 0xE0 \<le> b \<and> b \<le> 0xEF then
        if \<not> second_of_three b (at 1) then (False, 1)
        else if continuation (at 2) then (True, 3) else (False, 2)
      else if 0xF0 \<le> b \<and> b \<le> 0xF4 then
        if \<not> second_of_four b (at 1) then (False, 1)
        else if \<not> continuation (at 2) then (False, 2)
        else if continuation (at 3) then (True, 4) else (False, 3)
      else (False, 1))"

definition byte_at :: "bytes \<Rightarrow> nat \<Rightarrow> nat" where
  "byte_at bs i = (if i < length bs then unat (bs ! i) else 0)"

definition chars_of :: "bytes \<Rightarrow> string" where
  "chars_of bs = map (\<lambda>b. char_of (unat b)) bs"

lemma utf8_step_pos: "0 < snd (utf8_step b at)"
  by (simp add: utf8_step_def)

function from_utf8_lossy :: "bytes \<Rightarrow> string" where
  "from_utf8_lossy [] = []"
| "from_utf8_lossy (b # bs) =
     (case utf8_step (unat b) (byte_at (b # bs)) of
        (valid, n) \<Rightarrow>
          (if valid then chars_of (take n (b # bs)) else [CHR 0xEF, CHR 0xBF, CHR 0xBD])
            @ from_utf8_lossy (drop n (b # bs)))"
  by pat_completeness auto
termination
  by (relation "measure length") (auto simp: utf8_step_def split: if_splits)

definition abi_chars_to_string :: "bytes \<Rightarrow> string" where
  "abi_chars_to_string value = trim (from_utf8_lossy (takeWhile (\<lambda>character. character \<noteq> 0) value))"

text \<open>\<open>c_name\<close>: a name cut to the array with its final zero.\<close>

definition c_name :: "nat \<Rightarrow> bytes \<Rightarrow> bytes" where
  "c_name n value = take (n - 1) value @ replicate (n - length (take (n - 1) value)) 0"

lemma from_utf8_lossy_ascii:
  "list_all (\<lambda>b. unat b < 128) bs \<Longrightarrow> from_utf8_lossy bs = chars_of bs"
proof (induction bs)
  case (Cons b bs)
  then have "utf8_step (unat b) (byte_at (b # bs)) = (True, 1)" by (simp add: utf8_step_def)
  with Cons show ?case by (simp add: chars_of_def)
qed (simp add: chars_of_def)

section \<open>The cell of a loaded plugin\<close>

text \<open>
  \<open>Mutex<PluginCallbacks>\<close>: the poison flag, the flag \<open>shutdown_called\<close> and the state
  \<open>'p\<close> the plugin's callbacks work on. The callbacks themselves never change.
\<close>

record 'p plugin_cell =
  pc_poisoned :: bool
  pc_shutdown_called :: bool
  pc_plugin :: 'p

definition plugin_cell_new :: "'p \<Rightarrow> 'p plugin_cell" where
  "plugin_cell_new p = \<lparr>pc_poisoned = False, pc_shutdown_called = False, pc_plugin = p\<rparr>"

text \<open>\<open>Drop\<close> of the state a loaded plugin's owners share.\<close>

definition drop_plugin :: "('p \<Rightarrow> 'p) option \<Rightarrow> 'p plugin_cell \<Rightarrow> 'p plugin_cell" where
  "drop_plugin shutdown cell =
     (if pc_poisoned cell then cell
      else if pc_shutdown_called cell then cell
      else (case shutdown of
              None \<Rightarrow> cell
            | Some f \<Rightarrow> cell\<lparr>pc_plugin := f (pc_plugin cell)\<rparr>)\<lparr>pc_shutdown_called := True\<rparr>)"

text \<open>\<open>isize::MAX\<close>: a larger allocation panics with a capacity overflow.\<close>

definition isize_max :: nat where
  "isize_max = 2 ^ 63 - 1"

text \<open>What a callback leaves in a buffer of the host: it cannot change its length.\<close>

definition overlay :: "bytes \<Rightarrow> bytes \<Rightarrow> bytes" where
  "overlay buffer written = take (length buffer) written @ drop (length written) buffer"

lemma length_overlay [simp]: "length (overlay buffer written) = length buffer"
  by (simp add: overlay_def)

lemma overlay_Nil [simp]: "overlay [] written = []"
  by (simp add: overlay_def)

lemma overlay_same_length: "length written = length buffer \<Longrightarrow> overlay buffer written = written"
  by (simp add: overlay_def)

text \<open>\<open>i32\<close> in decimal.\<close>

definition show_i32 :: "i32 \<Rightarrow> string" where
  "show_i32 x = (if sint x < 0 then ''-'' @ show_nat (nat (- sint x)) else show_nat (nat (sint x)))"

end
