(* ===== verification/Operator_Loader.thy ===== *)
theory Operator_Loader
  imports Plugin_Abi Operators
begin

text \<open>
  The crates \<open>vrb-operator-plugin-api\<close> and \<open>vrb-operator-loader\<close>: the C ABI of host-byte
  operator plugins, the validation of a loaded plugin's descriptor and operators, execution
  through the plugin's callbacks, and the shutdown when its last owner is dropped.

  The plugin is code outside the host: its callbacks are functions on a plugin state \<open>'p\<close>.
  A pointer argument is an option of what it points to; a callback's writes to the output
  buffer come back as bytes laid over that buffer.
\<close>

section \<open>The ABI\<close>

definition operator_plugin_abi_version :: u32 where "operator_plugin_abi_version = 1"
definition operator_name_capacity :: nat where "operator_name_capacity = 128"
definition operator_plugin_name_capacity :: nat where "operator_plugin_name_capacity = 128"

definition cap_zero_copy :: u64 where "cap_zero_copy = 1"
definition cap_fp16 :: u64 where "cap_fp16 = 2"
definition cap_fp32 :: u64 where "cap_fp32 = 4"
definition cap_int8 :: u64 where "cap_int8 = 8"
definition cap_host_bytes :: u64 where "cap_host_bytes = 16"
definition cap_external_resource :: u64 where "cap_external_resource = 32"

record operator_info =
  in_struct_size :: u32
  in_operator_id :: u32
  in_operator_kind :: u32
  in_backend_kind :: u32
  in_capability_bits :: u64
  in_name :: bytes
  in_reserved :: "u64 list"

definition expected_operator_info_size :: u32 where
  "expected_operator_info_size = c_size_of [c_u32, c_u32, c_u32, c_u32, c_u64,
     c_array operator_name_capacity c_char, c_array 4 c_u64]"

definition operator_info_default :: operator_info where
  "operator_info_default = \<lparr>in_struct_size = expected_operator_info_size, in_operator_id = 0,
     in_operator_kind = raw_kind_custom, in_backend_kind = raw_backend_plugin,
     in_capability_bits = 0, in_name = replicate operator_name_capacity 0, in_reserved = replicate 4 0\<rparr>"

record execution_request =
  xr_struct_size :: u32
  xr_operator_id :: u32
  xr_flags :: u64
  xr_input :: "bytes option"
  xr_input_len :: u64
  xr_output :: "bytes option"
  xr_output_capacity :: u64
  xr_output_len :: "u64 option"
  xr_opaque :: "u64 list"

definition expected_execution_request_size :: u32 where
  "expected_execution_request_size = c_size_of [c_u32, c_u32, c_u64, c_pointer, c_u64, c_pointer,
     c_u64, c_pointer, c_array 4 c_u64]"

definition execution_request_default :: execution_request where
  "execution_request_default = \<lparr>xr_struct_size = expected_execution_request_size, xr_operator_id = 0,
     xr_flags = 0, xr_input = None, xr_input_len = 0, xr_output = None, xr_output_capacity = 0,
     xr_output_len = None, xr_opaque = replicate 4 0\<rparr>"

text \<open>Callbacks: index and default information; operator, input, its length and the value behind
  the length pointer; request. Each returns a status, what it wrote and the new state.\<close>

type_synonym 'p query_operator_fn = "u32 \<Rightarrow> operator_info \<Rightarrow> 'p \<Rightarrow> i32 \<times> operator_info \<times> 'p"
type_synonym 'p output_size_fn = "u32 \<Rightarrow> bytes option \<Rightarrow> u64 \<Rightarrow> u64 option \<Rightarrow> 'p \<Rightarrow> i32 \<times> u64 \<times> 'p"
type_synonym 'p execute_operator_fn = "execution_request \<Rightarrow> 'p \<Rightarrow> i32 \<times> bytes \<times> u64 \<times> 'p"

record 'p operator_plugin =
  pd_abi_version :: u32
  pd_struct_size :: u32
  pd_name :: bytes
  pd_operator_count :: u32
  pd_capability_bits :: u64
  pd_query_operator :: "'p query_operator_fn option"
  pd_output_size :: "'p output_size_fn option"
  pd_execute :: "'p execute_operator_fn option"
  pd_shutdown :: "('p \<Rightarrow> 'p) option"

definition expected_operator_plugin_size :: u32 where
  "expected_operator_plugin_size = c_size_of [c_u32, c_u32,
     c_array operator_plugin_name_capacity c_char, c_u32, c_u32, c_u64, c_pointer, c_pointer,
     c_pointer, c_pointer, c_pointer, c_array 4 c_pointer]"

text \<open>What the platform loader and the entry point give for a path.\<close>

datatype 'p plugin_image =
    NotLoadable string
  | NoEntrySymbol string
  | NullDescriptorPointer
  | Descriptor "'p operator_plugin"

section \<open>The loader's data\<close>

record load_policy =
  lo_max_operators :: u32
  lo_max_output_bytes :: u64

definition load_policy_default :: load_policy where
  "load_policy_default = \<lparr>lo_max_operators = 4096, lo_max_output_bytes = 1024 * 1024 * 1024\<rparr>"

datatype load_error =
    LoLoad string string
  | LoMissingEntry string
  | LoNullDescriptor
  | LoAbiVersion u32 u32
  | LoDescriptorTooSmall u32 u32
  | LoEmptyPluginName
  | LoNoOperators
  | LoTooManyOperators u32 u32
  | LoMissingQueryOperator
  | LoMissingOutputSize
  | LoMissingExecute
  | LoQueryStatus u32 i32
  | LoOperatorDescriptorTooSmall u32 u32 u32
  | LoEmptyOperatorName u32
  | LoDuplicateOperatorId u32
  | LoPoisoned

datatype plugin_execution_error =
    PxPoisoned
  | PxInputTooLarge nat
  | PxPluginStatus i32
  | PxOutputTooLarge u64 u64
  | PxOutputLengthUnsupported u64
  | PxOutputLengthExceeded u64 u64

fun plugin_execution_error_to_string :: "plugin_execution_error \<Rightarrow> string" where
  "plugin_execution_error_to_string PxPoisoned = ''operator plugin state lock is poisoned''"
| "plugin_execution_error_to_string (PxInputTooLarge n) =
     ''input length '' @ show_nat n @ '' cannot be represented by the plugin ABI''"
| "plugin_execution_error_to_string (PxPluginStatus st) = ''plugin returned status '' @ show_i32 st"
| "plugin_execution_error_to_string (PxOutputTooLarge requested maximum) =
     ''plugin requested '' @ show_nat (unat requested) @ '' output bytes, exceeding host limit '' @
     show_nat (unat maximum)"
| "plugin_execution_error_to_string (PxOutputLengthUnsupported n) =
     ''output length '' @ show_nat (unat n) @ '' cannot be represented on this host''"
| "plugin_execution_error_to_string (PxOutputLengthExceeded actual capacity) =
     ''plugin reported '' @ show_nat (unat actual) @ '' output bytes after receiving capacity '' @
     show_nat (unat capacity)"

text \<open>The immutable part of \<open>LoadedPluginState\<close>; the cell holds the rest.\<close>

record 'p plugin_state =
  ls_plugin_name :: string
  ls_max_output_bytes :: u64
  ls_output_size :: "'p output_size_fn"
  ls_execute :: "'p execute_operator_fn"
  ls_shutdown :: "('p \<Rightarrow> 'p) option"

record 'p dynamic_operator =
  do_plugin :: "'p plugin_state"
  do_operator_id :: u32
  do_name :: string
  do_kind :: operator_kind
  do_backend :: backend_kind
  do_raw_capability_bits :: u64

record 'p loaded_library =
  ll_plugin_name :: string
  ll_operators :: "'p dynamic_operator list"

section \<open>Loading\<close>

type_synonym discovered = "u32 \<times> string \<times> operator_kind \<times> backend_kind \<times> u64"

text \<open>The checks on one queried operator; \<open>ids\<close> lists the identifiers seen so far.\<close>

definition check_operator :: "u32 \<Rightarrow> u32 list \<Rightarrow> i32 \<Rightarrow> operator_info \<Rightarrow> load_error + string" where
  "check_operator index ids query_status info =
     (if query_status \<noteq> status_ok then Inl (LoQueryStatus index query_status)
      else if in_struct_size info < expected_operator_info_size
      then Inl (LoOperatorDescriptorTooSmall index (in_struct_size info) expected_operator_info_size)
      else let name = abi_chars_to_string (in_name info)
      in if name = [] then Inl (LoEmptyOperatorName index)
         else if in_operator_id info \<in> set ids then Inl (LoDuplicateOperatorId (in_operator_id info))
         else Inr name)"

fun discover_operators ::
  "'p query_operator_fn \<Rightarrow> u64 \<Rightarrow> nat list \<Rightarrow> u32 list \<Rightarrow> discovered list \<Rightarrow> 'p
    \<Rightarrow> load_error + discovered list \<times> 'p" where
  "discover_operators query_operator plugin_bits [] ids found p = Inr (found, p)"
| "discover_operators query_operator plugin_bits (index # rest) ids found p =
     (case query_operator (of_nat index) operator_info_default p of
        (query_status, info, p') \<Rightarrow>
          and_then (check_operator (of_nat index) ids query_status info) (\<lambda>name.
            discover_operators query_operator plugin_bits rest (in_operator_id info # ids)
              (found @ [(in_operator_id info, name, map_operator_kind (in_operator_kind info),
                 map_backend_kind (in_backend_kind info), in_capability_bits info OR plugin_bits)]) p'))"

definition dynamic_operator_of :: "'p plugin_state \<Rightarrow> discovered \<Rightarrow> 'p dynamic_operator" where
  "dynamic_operator_of state d =
     (case d of (operator_id, name, kind, backend, raw_capability_bits) \<Rightarrow>
        \<lparr>do_plugin = state, do_operator_id = operator_id, do_name = name, do_kind = kind,
         do_backend = backend, do_raw_capability_bits = raw_capability_bits\<rparr>)"

definition load_descriptor ::
  "'p operator_plugin \<Rightarrow> load_policy \<Rightarrow> 'p \<Rightarrow> load_error + 'p loaded_library \<times> 'p plugin_cell" where
  "load_descriptor d policy p =
     (if pd_abi_version d \<noteq> operator_plugin_abi_version
      then Inl (LoAbiVersion (pd_abi_version d) operator_plugin_abi_version)
      else if pd_struct_size d < expected_operator_plugin_size
      then Inl (LoDescriptorTooSmall (pd_struct_size d) expected_operator_plugin_size)
      else let plugin_name = abi_chars_to_string (pd_name d)
      in if plugin_name = [] then Inl LoEmptyPluginName
      else if pd_operator_count d = 0 then Inl LoNoOperators
      else if pd_operator_count d > lo_max_operators policy
      then Inl (LoTooManyOperators (pd_operator_count d) (lo_max_operators policy))
      else and_then (ok_or (pd_query_operator d) LoMissingQueryOperator) (\<lambda>query_operator.
           and_then (ok_or (pd_output_size d) LoMissingOutputSize) (\<lambda>output_size.
           and_then (ok_or (pd_execute d) LoMissingExecute) (\<lambda>execute.
           and_then (discover_operators query_operator (pd_capability_bits d)
               [0..<unat (pd_operator_count d)] [] [] p) (\<lambda>(found, p').
             let state = \<lparr>ls_plugin_name = plugin_name, ls_max_output_bytes = lo_max_output_bytes policy,
                   ls_output_size = output_size, ls_execute = execute, ls_shutdown = pd_shutdown d\<rparr>
             in Inr (\<lparr>ll_plugin_name = plugin_name, ll_operators = map (dynamic_operator_of state) found\<rparr>,
                  plugin_cell_new p'))))))"

definition load_with_policy ::
  "string \<Rightarrow> 'p plugin_image \<Rightarrow> load_policy \<Rightarrow> 'p \<Rightarrow> load_error + 'p loaded_library \<times> 'p plugin_cell" where
  "load_with_policy path dl policy p =
     (case dl of
        NotLoadable e \<Rightarrow> Inl (LoLoad path e)
      | NoEntrySymbol e \<Rightarrow> Inl (LoMissingEntry e)
      | NullDescriptorPointer \<Rightarrow> Inl LoNullDescriptor
      | Descriptor d \<Rightarrow> load_descriptor d policy p)"

definition load_library ::
  "string \<Rightarrow> 'p plugin_image \<Rightarrow> 'p \<Rightarrow> load_error + 'p loaded_library \<times> 'p plugin_cell" where
  "load_library path dl p = load_with_policy path dl load_policy_default p"

section \<open>Execution\<close>

text \<open>From the allocation of the output buffer on; the lock is held throughout.\<close>

definition run_execute ::
  "'p dynamic_operator \<Rightarrow> bytes \<Rightarrow> u64 \<Rightarrow> u64 \<Rightarrow> 'p plugin_cell
    \<Rightarrow> (plugin_execution_error + bytes) unwinding \<times> 'p plugin_cell" where
  "run_execute operator input input_len output_len cell =
     (case usize_try_from output_len of
        None \<Rightarrow> (Returned (Inl (PxOutputLengthUnsupported output_len)), cell)
      | Some output_capacity \<Rightarrow>
          if output_capacity > isize_max then (Unwound, cell\<lparr>pc_poisoned := True\<rparr>)
          else let output = replicate output_capacity 0;
            request = execution_request_default\<lparr>xr_operator_id := do_operator_id operator,
              xr_input := Some input, xr_input_len := input_len,
              xr_output := (if output = [] then None else Some output),
              xr_output_capacity := output_len, xr_output_len := Some output_len\<rparr>
          in (case ls_execute (do_plugin operator) request (pc_plugin cell) of
                (execute_status, written, actual_output_len, p') \<Rightarrow>
                  (Returned
                    (if execute_status \<noteq> status_ok then Inl (PxPluginStatus execute_status)
                     else if actual_output_len > output_len
                     then Inl (PxOutputLengthExceeded actual_output_len output_len)
                     else (case usize_try_from actual_output_len of
                             None \<Rightarrow> Inl (PxOutputLengthUnsupported actual_output_len)
                           | Some actual \<Rightarrow> Inr (take actual (overlay output written)))),
                   cell\<lparr>pc_plugin := p'\<rparr>)))"

definition execute_plugin ::
  "'p dynamic_operator \<Rightarrow> bytes \<Rightarrow> 'p plugin_cell
    \<Rightarrow> (plugin_execution_error + bytes) unwinding \<times> 'p plugin_cell" where
  "execute_plugin operator input cell =
     (if pc_poisoned cell then (Returned (Inl PxPoisoned), cell)
      else (case u64_try_from (length input) of
        None \<Rightarrow> (Returned (Inl (PxInputTooLarge (length input))), cell)
      | Some input_len \<Rightarrow>
          (case ls_output_size (do_plugin operator) (do_operator_id operator) (Some input) input_len (Some 0)
              (pc_plugin cell) of
             (size_status, output_len, p') \<Rightarrow>
               (let cell' = cell\<lparr>pc_plugin := p'\<rparr>
                in if size_status \<noteq> status_ok then (Returned (Inl (PxPluginStatus size_status)), cell')
                   else if output_len > ls_max_output_bytes (do_plugin operator)
                   then (Returned (Inl (PxOutputTooLarge output_len (ls_max_output_bytes (do_plugin operator)))), cell')
                   else run_execute operator input input_len output_len cell'))))"

definition dynamic_capabilities :: "'p dynamic_operator \<Rightarrow> operator_capabilities" where
  "dynamic_capabilities operator =
     \<lparr>oc_kind = do_kind operator, oc_backend = do_backend operator, oc_supports_zero_copy = False\<rparr>"

definition dynamic_execute ::
  "'p dynamic_operator \<Rightarrow> operator_invocation \<Rightarrow> 'p plugin_cell
    \<Rightarrow> (operator_error + operator_output) unwinding \<times> 'p plugin_cell" where
  "dynamic_execute operator invocation cell =
     (case execute_plugin operator (oi_input invocation) cell of
        (Unwound, cell') \<Rightarrow> (Unwound, cell')
      | (Returned (Inl error), cell') \<Rightarrow>
          (Returned (Inl (OpExecution (plugin_execution_error_to_string error))), cell')
      | (Returned (Inr bytes), cell') \<Rightarrow> (Returned (Inr \<lparr>oo_bytes = bytes\<rparr>), cell'))"

text \<open>The operator a registry holds for a loaded one.\<close>

definition injected_operator :: "'p dynamic_operator \<Rightarrow> 'p plugin_cell operator" where
  "injected_operator operator =
     \<lparr>op_name = do_name operator, op_capabilities = dynamic_capabilities operator,
      op_execute = dynamic_execute operator\<rparr>"

definition register_into :: "'p loaded_library \<Rightarrow> 'p plugin_cell operator_registry \<Rightarrow> 'p plugin_cell operator_registry" where
  "register_into library reg =
     fold (\<lambda>operator. operator_register (injected_operator operator)) (ll_operators library) reg"

lemma register_into_new:
  "register_into library (operator_registry_new policy) =
     operators_registered policy (map injected_operator (ll_operators library))"
  by (simp add: register_into_def operators_registered_def fold_map comp_def)

section \<open>What loading establishes\<close>

lemma check_operator_Inr:
  "check_operator index ids st info = Inr name \<longleftrightarrow>
     st = status_ok \<and> expected_operator_info_size \<le> in_struct_size info \<and>
     name = abi_chars_to_string (in_name info) \<and> name \<noteq> [] \<and> in_operator_id info \<notin> set ids"
  by (auto simp: check_operator_def Let_def)

lemma discover_operators_ok:
  assumes "discover_operators q bits is ids found p = Inr (found', p')"
  shows "\<exists>new. found' = found @ new \<and> length new = length is \<and> distinct (map fst new) \<and>
    set (map fst new) \<inter> set ids = {} \<and> (\<forall>d \<in> set new. fst (snd d) \<noteq> [])"
  using assms
proof (induction "is" arbitrary: ids found p)
  case (Cons i "is")
  obtain st info p1 where q: "q (of_nat i) operator_info_default p = (st, info, p1)"
    by (cases "q (of_nat i) operator_info_default p")
  let ?name = "abi_chars_to_string (in_name info)"
  let ?d = "(in_operator_id info, ?name, map_operator_kind (in_operator_kind info),
    map_backend_kind (in_backend_kind info), in_capability_bits info OR bits)"
  from Cons.prems q obtain name where
    c: "check_operator (of_nat i) ids st info = Inr name" and
    d: "discover_operators q bits is (in_operator_id info # ids) (found @ [(in_operator_id info, name,
      map_operator_kind (in_operator_kind info), map_backend_kind (in_backend_kind info),
      in_capability_bits info OR bits)]) p1 = Inr (found', p')"
    by (auto simp: and_then_Inr_iff)
  from Cons.IH [OF d] c show ?case
    by (auto simp: check_operator_Inr)
qed simp

lemma load_descriptor_ok:
  assumes "load_descriptor d policy p = Inr (library, cell)"
  obtains found p' output_size execute where
    "pd_abi_version d = operator_plugin_abi_version"
    "expected_operator_plugin_size \<le> pd_struct_size d"
    "abi_chars_to_string (pd_name d) \<noteq> []"
    "pd_operator_count d \<noteq> 0" "pd_operator_count d \<le> lo_max_operators policy"
    "pd_output_size d = Some output_size" "pd_execute d = Some execute"
    "length found = unat (pd_operator_count d)" "distinct (map fst found)"
    "\<forall>x \<in> set found. fst (snd x) \<noteq> []"
    "library = \<lparr>ll_plugin_name = abi_chars_to_string (pd_name d),
       ll_operators = map (dynamic_operator_of \<lparr>ls_plugin_name = abi_chars_to_string (pd_name d),
         ls_max_output_bytes = lo_max_output_bytes policy, ls_output_size = output_size,
         ls_execute = execute, ls_shutdown = pd_shutdown d\<rparr>) found\<rparr>"
    "cell = plugin_cell_new p'"
proof -
  from assms obtain q os ex found p' where
    f: "discover_operators q (pd_capability_bits d) [0..<unat (pd_operator_count d)] [] [] p = Inr (found, p')"
    and rest: "pd_abi_version d = operator_plugin_abi_version"
      "\<not> pd_struct_size d < expected_operator_plugin_size" "abi_chars_to_string (pd_name d) \<noteq> []"
      "pd_operator_count d \<noteq> 0" "\<not> lo_max_operators policy < pd_operator_count d"
      "pd_output_size d = Some os" "pd_execute d = Some ex"
      "library = \<lparr>ll_plugin_name = abi_chars_to_string (pd_name d),
         ll_operators = map (dynamic_operator_of \<lparr>ls_plugin_name = abi_chars_to_string (pd_name d),
           ls_max_output_bytes = lo_max_output_bytes policy, ls_output_size = os,
           ls_execute = ex, ls_shutdown = pd_shutdown d\<rparr>) found\<rparr>"
      "cell = plugin_cell_new p'"
    by (auto simp: load_descriptor_def Let_def and_then_Inr_iff ok_or_Inr_iff split: if_splits)
  from discover_operators_ok [OF f] rest show ?thesis
    by (intro that [of os ex found p']) (auto simp: not_less)
qed

section \<open>What execution respects\<close>

lemma run_execute_not_poisoned: "fst (run_execute op input len n cell) \<noteq> Returned (Inl PxPoisoned)"
  by (auto simp: run_execute_def Let_def split: option.split prod.split)

lemma run_execute_facts:
  assumes "run_execute op input len n cell = (r, cell')"
  shows "pc_poisoned cell' = (pc_poisoned cell \<or> r = Unwound)"
    "pc_shutdown_called cell' = pc_shutdown_called cell"
    "r = Unwound \<Longrightarrow> isize_max < unat n" "r = Returned (Inr bs) \<Longrightarrow> length bs \<le> unat n"
  using assms
  by (auto simp: run_execute_def Let_def split: if_splits prod.splits option.splits)

text \<open>Execution before the output buffer is allocated either answers or goes on.\<close>

lemma execute_plugin_cases:
  assumes "execute_plugin op input cell = (r, cell')"
  obtains (poisoned) "pc_poisoned cell" "r = Returned (Inl PxPoisoned)" "cell' = cell"
    | (too_large) "\<not> pc_poisoned cell" "r = Returned (Inl (PxInputTooLarge (length input)))" "cell' = cell"
    | (refused) e len st n c where "\<not> pc_poisoned cell" "r = Returned (Inl e)" "e \<noteq> PxPoisoned"
        "cell' = cell\<lparr>pc_plugin := c\<rparr>"
        "ls_output_size (do_plugin op) (do_operator_id op) (Some input) len (Some 0) (pc_plugin cell) = (st, n, c)"
    | (runs) len st n c where "\<not> pc_poisoned cell" "u64_try_from (length input) = Some len"
        "ls_output_size (do_plugin op) (do_operator_id op) (Some input) len (Some 0) (pc_plugin cell) = (st, n, c)"
        "st = status_ok" "n \<le> ls_max_output_bytes (do_plugin op)"
        "run_execute op input len n (cell\<lparr>pc_plugin := c\<rparr>) = (r, cell')"
proof (cases "pc_poisoned cell")
  case True
  with assms show ?thesis by (intro poisoned) (simp_all add: execute_plugin_def)
next
  case False
  show ?thesis
  proof (cases "u64_try_from (length input)")
    case None
    with assms False show ?thesis by (intro too_large) (simp_all add: execute_plugin_def)
  next
    case (Some len)
    obtain st n c where q:
      "ls_output_size (do_plugin op) (do_operator_id op) (Some input) len (Some 0) (pc_plugin cell) = (st, n, c)"
      by (metis prod_cases3)
    show ?thesis
    proof (cases "st = status_ok \<and> n \<le> ls_max_output_bytes (do_plugin op)")
      case True
      with assms False Some q show ?thesis
        by (intro runs [OF False Some q]) (simp_all add: execute_plugin_def Let_def not_less [symmetric])
    next
      case bad: False
      let ?e = "if st \<noteq> status_ok then PxPluginStatus st
        else PxOutputTooLarge n (ls_max_output_bytes (do_plugin op))"
      have answer: "r = Returned (Inl ?e)" "cell' = cell\<lparr>pc_plugin := c\<rparr>"
        using assms False Some q bad by (auto simp: execute_plugin_def Let_def not_le split: if_splits)
      show ?thesis by (rule refused [OF False answer(1) _ answer(2) q]) simp
    qed
  qed
qed

lemma execute_plugin_facts:
  assumes "execute_plugin op input cell = (r, cell')"
  shows "pc_poisoned cell' = (pc_poisoned cell \<or> r = Unwound) \<and>
    pc_shutdown_called cell' = pc_shutdown_called cell \<and>
    (r = Unwound \<longrightarrow> isize_max < unat (ls_max_output_bytes (do_plugin op))) \<and>
    (\<forall>bs. r = Returned (Inr bs) \<longrightarrow> length bs \<le> unat (ls_max_output_bytes (do_plugin op)))"
  using assms
proof (cases rule: execute_plugin_cases)
  case (runs len st n c)
  have "unat n \<le> unat (ls_max_output_bytes (do_plugin op))" using runs(5) by (simp add: word_le_nat_alt)
  with run_execute_facts [OF runs(6)] show ?thesis by force
qed simp_all

section \<open>Owners of a loaded plugin\<close>

text \<open>
  The operators of a library share the plugin's state through an \<open>Arc\<close>: giving up the last
  owner drops the state, which shuts the plugin down.
\<close>

fun release_owner :: "'p plugin_state \<Rightarrow> nat \<times> 'p plugin_cell \<Rightarrow> nat \<times> 'p plugin_cell" where
  "release_owner state (owners, cell) =
     (owners - 1, if owners = 1 then drop_plugin (ls_shutdown state) cell else cell)"

text \<open>The lives of a plugin loaded with \<open>n\<close> operators and state \<open>p\<close>.\<close>

inductive owned_run :: "'p plugin_state \<Rightarrow> nat \<Rightarrow> 'p \<Rightarrow> nat \<times> 'p plugin_cell \<Rightarrow> bool"
  for state :: "'p plugin_state" and n :: nat and p :: 'p where
  owned_loaded: "0 < n \<Longrightarrow> owned_run state n p (n, plugin_cell_new p)"
| owned_cloned: "owned_run state n p (owners, cell) \<Longrightarrow> 0 < owners \<Longrightarrow> owned_run state n p (Suc owners, cell)"
| owned_executed: "owned_run state n p (owners, cell) \<Longrightarrow> 0 < owners \<Longrightarrow> do_plugin operator = state \<Longrightarrow>
    execute_plugin operator input cell = (r, cell') \<Longrightarrow> owned_run state n p (owners, cell')"
| owned_released: "owned_run state n p (owners, cell) \<Longrightarrow> 0 < owners \<Longrightarrow>
    owned_run state n p (release_owner state (owners, cell))"

text \<open>A plugin that records the calls it receives, whatever it answers.\<close>

datatype plugin_call = CalledOutputSize u32 | CalledExecute u32 | CalledShutdown

definition recording_plugin ::
  "(plugin_call list \<Rightarrow> bytes option \<Rightarrow> i32 \<times> u64) \<Rightarrow> (plugin_call list \<Rightarrow> execution_request \<Rightarrow> i32 \<times> bytes \<times> u64)
    \<Rightarrow> u64 \<Rightarrow> plugin_call list plugin_state" where
  "recording_plugin size_answer execute_answer limit =
     \<lparr>ls_plugin_name = ''recording'', ls_max_output_bytes = limit,
      ls_output_size = (\<lambda>i input len out calls.
        (fst (size_answer calls input), snd (size_answer calls input), calls @ [CalledOutputSize i])),
      ls_execute = (\<lambda>request calls.
        (fst (execute_answer calls request), fst (snd (execute_answer calls request)),
         snd (snd (execute_answer calls request)), calls @ [CalledExecute (xr_operator_id request)])),
      ls_shutdown = Some (\<lambda>calls. calls @ [CalledShutdown])\<rparr>"

lemma recording_execute:
  assumes "do_plugin operator = recording_plugin sa ea limit"
    and "execute_plugin operator input cell = (r, cell')"
  shows "\<exists>new. CalledShutdown \<notin> set new \<and> pc_plugin cell' = pc_plugin cell @ new"
  using assms(2)
proof (cases rule: execute_plugin_cases)
  case (refused e len st n c)
  then have "c = pc_plugin cell @ [CalledOutputSize (do_operator_id operator)]"
    using assms(1) by (simp add: recording_plugin_def)
  with refused show ?thesis by simp
next
  case (runs len st n c)
  then have "c = pc_plugin cell @ [CalledOutputSize (do_operator_id operator)]"
    using assms(1) by (simp add: recording_plugin_def)
  with runs(6) show ?thesis
    using assms(1)
    by (auto simp: run_execute_def Let_def recording_plugin_def split: option.splits if_splits)
qed simp_all

text \<open>
  C34. A plugin's shutdown callback runs at most once: never while an operator of the library
  is alive, and as the very last call when the last owner is released - unless a panic under
  the lock poisoned it, in which case it is never run. After it, nothing is called.
\<close>

theorem shutdown_once:
  assumes "owned_run (recording_plugin sa ea limit) n [] (owners, cell)"
  shows "if owners = 0 \<and> \<not> pc_poisoned cell
    then \<exists>calls. pc_plugin cell = calls @ [CalledShutdown] \<and> CalledShutdown \<notin> set calls
    else CalledShutdown \<notin> set (pc_plugin cell)"
proof -
  let ?inv = "\<lambda>(owners, cell). pc_shutdown_called cell = (owners = (0 :: nat) \<and> \<not> pc_poisoned cell) \<and>
    (if owners = 0 \<and> \<not> pc_poisoned cell
     then \<exists>calls. pc_plugin cell = calls @ [CalledShutdown] \<and> CalledShutdown \<notin> set calls
     else CalledShutdown \<notin> set (pc_plugin cell))"
  have "?inv (owners, cell)"
    using assms
  proof (induction rule: owned_run.induct)
    case (owned_executed owners cell operator input r cell')
    from recording_execute [OF owned_executed(3,4)] execute_plugin_facts [OF owned_executed(4)]
      owned_executed show ?case by auto
  next
    case (owned_released owners cell)
    then show ?case by (auto simp: drop_plugin_def recording_plugin_def)
  qed (auto simp: plugin_cell_new_def)
  then show ?thesis by simp
qed

definition demo_recording :: "plugin_call list plugin_state" where
  "demo_recording = recording_plugin (\<lambda>_ _. (0, 1)) (\<lambda>_ _. (0, [9], 1)) 16"

definition demo_recorded_operator :: "plugin_call list dynamic_operator" where
  "demo_recorded_operator = \<lparr>do_plugin = demo_recording, do_operator_id = 7, do_name = ''op'',
     do_kind = KGemm, do_backend = Cpu, do_raw_capability_bits = 0\<rparr>"

lemmas demo_execute_eval = execute_plugin_def run_execute_def demo_recorded_operator_def demo_recording_def
  recording_plugin_def plugin_cell_new_def status_ok_def overlay_def isize_max_def u64_try_from_def usize_max_def

lemma demo_execute:
  "execute_plugin demo_recorded_operator [5] (plugin_cell_new []) =
     (Returned (Inr [9]), (plugin_cell_new [])\<lparr>pc_plugin := [CalledOutputSize 7, CalledExecute 7]\<rparr>)"
  by (simp add: demo_execute_eval execution_request_default_def)

theorem shutdown_once_witness:
  "\<exists>calls. [CalledOutputSize 7, CalledExecute 7, CalledShutdown] = calls @ [CalledShutdown] \<and>
     CalledShutdown \<notin> set calls"
proof -
  let ?cell = "(plugin_cell_new [])\<lparr>pc_plugin := [CalledOutputSize 7, CalledExecute 7]\<rparr>"
  have "owned_run demo_recording 1 [] (1, ?cell)"
    by (rule owned_executed [OF owned_loaded _ _ demo_execute]) (simp_all add: demo_recorded_operator_def)
  then have "owned_run demo_recording 1 [] (release_owner demo_recording (1, ?cell))"
    by (rule owned_released) simp
  then have "owned_run demo_recording 1 []
      (0, ?cell\<lparr>pc_plugin := [CalledOutputSize 7, CalledExecute 7, CalledShutdown], pc_shutdown_called := True\<rparr>)"
    by (simp add: drop_plugin_def plugin_cell_new_def demo_recording_def recording_plugin_def)
  from shutdown_once [OF this [unfolded demo_recording_def]] show ?thesis
    by (simp add: plugin_cell_new_def)
qed

text \<open>
  C36. Executing a loaded operator never hands out more bytes than the load policy allows, and
  never touches the shutdown flag. It panics only when the policy allows outputs above
  \<open>isize::MAX\<close>, and exactly a panic poisons the plugin; a poisoned plugin is not called
  again and answers \<open>Poisoned\<close>.
\<close>

theorem execute_plugin_bounded:
  assumes "execute_plugin operator input cell = (r, cell')"
  shows "(case r of
      Returned (Inr bytes) \<Rightarrow> length bytes \<le> unat (ls_max_output_bytes (do_plugin operator))
    | Returned (Inl e) \<Rightarrow> (pc_poisoned cell) = (e = PxPoisoned)
    | Unwound \<Rightarrow> isize_max < unat (ls_max_output_bytes (do_plugin operator)))
    \<and> pc_poisoned cell' = (pc_poisoned cell \<or> r = Unwound)
    \<and> pc_shutdown_called cell' = pc_shutdown_called cell
    \<and> (if pc_poisoned cell then r = Returned (Inl PxPoisoned) \<and> cell' = cell else True)"
  using assms
proof (cases rule: execute_plugin_cases)
  case (runs len st n c)
  then have "r \<noteq> Returned (Inl PxPoisoned)"
    using run_execute_not_poisoned [of operator input len n "cell\<lparr>pc_plugin := c\<rparr>"] by simp
  with runs(1) execute_plugin_facts [OF assms] show ?thesis
    by (auto split: unwinding.split sum.split)
qed simp_all

theorem execute_plugin_bounded_witness:
  "length [9 :: u8] \<le> unat (ls_max_output_bytes (do_plugin demo_recorded_operator))"
  using execute_plugin_bounded [OF demo_execute] by simp

section \<open>The contract of a plugin\<close>

text \<open>
  What the ABI asks of a plugin: \<open>output_size\<close> announces exactly what \<open>execute\<close> will
  produce, or both refuse with the same status. \<open>kernel\<close> is the function the plugin
  computes, \<open>ready\<close> the states it may be in.
\<close>

locale operator_kernel =
  fixes output_size :: "'p output_size_fn"
    and execute :: "'p execute_operator_fn"
    and kernel :: "u32 \<Rightarrow> bytes \<Rightarrow> i32 + bytes"
    and ready :: "'p \<Rightarrow> bool"
  assumes law_size: "ready p \<Longrightarrow> unat len = length input \<Longrightarrow>
      output_size i (Some input) len (Some v) p = (st, n, p') \<Longrightarrow>
      ready p' \<and> (case kernel i input of
        Inl e \<Rightarrow> st = e \<and> e \<noteq> status_ok
      | Inr result \<Rightarrow> st = status_ok \<and> unat n = length result)"
    and law_execute: "ready p \<Longrightarrow> kernel (xr_operator_id request) input = Inr result \<Longrightarrow>
      xr_struct_size request = expected_execution_request_size \<Longrightarrow>
      xr_input request = Some input \<Longrightarrow> unat (xr_input_len request) = length input \<Longrightarrow>
      xr_output request = (if result = [] then None else Some (replicate (length result) 0)) \<Longrightarrow>
      unat (xr_output_capacity request) = length result \<Longrightarrow> xr_output_len request = Some v \<Longrightarrow>
      execute request p = (st, written, n, p') \<Longrightarrow>
      ready p' \<and> st = status_ok \<and> written = result \<and> unat n = length result"
begin

text \<open>Through the loader, a conforming plugin computes its kernel.\<close>

lemma execute_plugin_kernel:
  assumes plugin: "ls_output_size (do_plugin operator) = output_size"
      "ls_execute (do_plugin operator) = execute"
    and cell: "\<not> pc_poisoned cell" "ready (pc_plugin cell)"
    and input: "u64_try_from (length input) = Some len"
  obtains p' where "ready p'"
    "kernel (do_operator_id operator) input = Inl e \<Longrightarrow>
      execute_plugin operator input cell = (Returned (Inl (PxPluginStatus e)), cell\<lparr>pc_plugin := p'\<rparr>)"
    "kernel (do_operator_id operator) input = Inr result \<Longrightarrow>
      length result \<le> unat (ls_max_output_bytes (do_plugin operator)) \<Longrightarrow> length result \<le> isize_max \<Longrightarrow>
      execute_plugin operator input cell = (Returned (Inr result), cell\<lparr>pc_plugin := p'\<rparr>)"
proof -
  have len: "unat len = length input" using input by (simp add: u64_try_from_iff)
  obtain st n p1 where q:
    "output_size (do_operator_id operator) (Some input) len (Some 0) (pc_plugin cell) = (st, n, p1)"
    by (metis prod_cases3)
  note size = law_size [OF cell(2) len q]
  let ?request = "execution_request_default\<lparr>xr_operator_id := do_operator_id operator,
    xr_input := Some input, xr_input_len := len,
    xr_output := (if replicate (unat n) (0 :: u8) = [] then None else Some (replicate (unat n) 0)),
    xr_output_capacity := n, xr_output_len := Some n\<rparr>"
  obtain st2 written m p2 where x: "execute ?request p1 = (st2, written, m, p2)"
    by (metis prod_cases4)
  show thesis
  proof (cases "kernel (do_operator_id operator) input")
    case (Inl e')
    with size have "ready p1" "st = e'" "e' \<noteq> status_ok" by simp_all
    with Inl show thesis
      by (intro that [of p1]) (simp_all add: execute_plugin_def cell input plugin q Let_def)
  next
    case (Inr result')
    with size have r: "ready p1" "st = status_ok" "unat n = length result'" by simp_all
    have y: "ready p2 \<and> st2 = status_ok \<and> written = result' \<and> unat m = length result'"
      by (rule law_execute [OF r(1) _ _ _ _ _ _ _ x])
        (use Inr len r(3) in \<open>simp_all add: execution_request_default_def\<close>)
    then have "m = n" using r(3) by (simp add: word_unat_eq_iff)
    show thesis
    proof (rule that [of p2])
      assume k: "kernel (do_operator_id operator) input = Inr result"
        "length result \<le> unat (ls_max_output_bytes (do_plugin operator))" "length result \<le> isize_max"
      then have "result = result'" using Inr by simp
      have "\<not> n > ls_max_output_bytes (do_plugin operator)"
        using k r(3) \<open>result = result'\<close> by (simp add: word_less_nat_alt)
      then have "execute_plugin operator input cell =
          run_execute operator input len n (cell\<lparr>pc_plugin := p1\<rparr>)"
        using r(2) by (simp add: execute_plugin_def cell input plugin q Let_def)
      also have "\<dots> = (Returned (Inr result), cell\<lparr>pc_plugin := p2\<rparr>)"
      proof (cases "result = []")
        case True
        then show ?thesis
          using x y r k \<open>m = n\<close> \<open>result = result'\<close>
          by (simp add: run_execute_def Let_def plugin)
      next
        case False
        then show ?thesis
          using x y r k \<open>m = n\<close> \<open>result = result'\<close>
          by (simp add: run_execute_def Let_def plugin overlay_same_length)
      qed
      finally show "execute_plugin operator input cell = (Returned (Inr result), cell\<lparr>pc_plugin := p2\<rparr>)" .
    qed (use Inr y in simp_all)
  qed
qed

end

end
