(* ===== verification/Gemm_Plugin.thy ===== *)
theory Gemm_Plugin
  imports Gemm_Reference Operator_Loader
begin

text \<open>
  The plugin \<open>vrb-gemm-reference-plugin\<close>: the reference kernel behind the host-byte ABI. It
  meets the contract \<open>operator_kernel\<close>, and a request sent through registry, loader and
  plugin comes back as the matrix product. The plugin has no state.
\<close>

section \<open>The callbacks\<close>

definition reference_gemm_operator_id :: u32 where "reference_gemm_operator_id = 1"

definition gemm_query :: "unit query_operator_fn" where
  "gemm_query index info user_data =
     (if index \<noteq> 0 then (status_invalid_argument, info, user_data)
      else (status_ok,
        operator_info_default\<lparr>in_operator_id := reference_gemm_operator_id, in_operator_kind := raw_kind_gemm,
          in_backend_kind := raw_backend_cpu, in_capability_bits := cap_fp32 OR cap_host_bytes,
          in_name := c_name operator_name_capacity (byte_string reference_gemm_name)\<rparr>, user_data))"

definition abi_input :: "bytes option \<Rightarrow> u64 \<Rightarrow> i32 + bytes" where
  "abi_input input_ptr input_len =
     and_then (ok_or (usize_try_from input_len) status_invalid_argument) (\<lambda>n.
       if n = 0 then Inr []
       else (case input_ptr of
               None \<Rightarrow> Inl status_invalid_argument
             | Some input \<Rightarrow> Inr (take n input)))"

fun map_gemm_error :: "reference_gemm_error \<Rightarrow> i32" where
  "map_gemm_error (RgProtocol _) = status_invalid_argument"
| "map_gemm_error (RgResourceLimit _ _ _) = status_unsupported"
| "map_gemm_error RgAddressSpaceOverflow = status_unsupported"

definition gemm_output_size :: "unit output_size_fn" where
  "gemm_output_size operator_id input_ptr input_len out_output_len user_data =
     (case out_output_len of
        None \<Rightarrow> (status_invalid_argument, 0, user_data)
      | Some old \<Rightarrow>
          if operator_id \<noteq> reference_gemm_operator_id then (status_invalid_argument, old, user_data)
          else (case abi_input input_ptr input_len of
                  Inl status \<Rightarrow> (status, old, user_data)
                | Inr input \<Rightarrow>
                    (case required_output_len input gemm_limits_default of
                       Inr n \<Rightarrow> (status_ok, n, user_data)
                     | Inl error \<Rightarrow> (map_gemm_error error, old, user_data))))"

text \<open>
  A panic of the kernel would abort the process; \<open>reference_agree\<close> below shows that under
  the default limits there is none.
\<close>

definition gemm_execute :: "unit execute_operator_fn" where
  "gemm_execute request user_data =
     (case xr_output_len request of
        None \<Rightarrow> (status_invalid_argument, [], 0, user_data)
      | Some old \<Rightarrow>
          if xr_struct_size request < expected_execution_request_size
              \<or> xr_operator_id request \<noteq> reference_gemm_operator_id
          then (status_invalid_argument, [], old, user_data)
          else (case abi_input (xr_input request) (xr_input_len request) of
            Inl status \<Rightarrow> (status, [], old, user_data)
          | Inr input \<Rightarrow>
              (case execute_gemm_bytes input gemm_limits_default of
                 Inl Panicked \<Rightarrow> (status_internal_error, [], old, user_data)
               | Inl (Failed error) \<Rightarrow> (map_gemm_error error, [], old, user_data)
               | Inr output \<Rightarrow>
                   (case u64_try_from (length output) of
                      None \<Rightarrow> (status_internal_error, [], old, user_data)
                    | Some required \<Rightarrow>
                        if required > xr_output_capacity request
                        then (status_buffer_too_small, [], required, user_data)
                        else if output \<noteq> [] \<and> xr_output request = None
                        then (status_invalid_argument, [], required, user_data)
                        else (status_ok, output, required, user_data)))))"

definition gemm_plugin :: "unit operator_plugin" where
  "gemm_plugin =
     \<lparr>pd_abi_version = operator_plugin_abi_version, pd_struct_size = expected_operator_plugin_size,
      pd_name = c_name operator_plugin_name_capacity (byte_string ''vrb-reference-gemm''),
      pd_operator_count = 1, pd_capability_bits = cap_fp32 OR cap_host_bytes,
      pd_query_operator = Some gemm_query, pd_output_size = Some gemm_output_size,
      pd_execute = Some gemm_execute, pd_shutdown = None\<rparr>"

section \<open>The contract\<close>

definition default_output_max :: nat where
  "default_output_max = 32 + 4 * (16 * 1024 * 1024)"

text \<open>Size query and execution refuse the same inputs alike and agree on the length.\<close>

lemma reference_agree:
  obtains (refused) e where "required_output_len input gemm_limits_default = Inl e"
      "execute_gemm_bytes input gemm_limits_default = Inl (Failed e)"
    | (computed) out where "execute_gemm_bytes input gemm_limits_default = Inr out"
      "required_output_len input gemm_limits_default = Inr (of_nat (length out))"
      "length out \<le> default_output_max"
proof (cases "inspect_request input")
  case (Inl e)
  then show ?thesis
    by (intro refused [of "RgProtocol e"]) (simp_all add: required_output_len_def execute_gemm_bytes_def)
next
  case insp: (Inr meta)
  obtain d where dec: "decode_request input = Inr d" "dg_meta d = meta"
    using decode_request_of_inspect [OF insp] by simp
  define r where "r = decoded_request d"
  have wf: "request_wf r" "meta = request_meta r"
    using decode_request_canonical [OF dec(1)] dec(2) by (simp_all add: r_def)
  have small: "unat (gl_max_matrix_elements gemm_limits_default) \<le> 2 ^ 60"
    by (simp add: gemm_limits_default_def)
  show ?thesis
  proof (cases "validate_limits meta gemm_limits_default")
    case (Inl e)
    from execute_refused [OF insp Inl] show ?thesis by (intro refused) simp_all
  next
    case (Inr u)
    then have lim: "within_limits r gemm_limits_default"
      using validate_limits_iff [OF wf(1)] wf(2) by simp
    note x = execute_decoded [OF dec(1) r_def lim small]
    have "length (response_bytes (gr_m r) (gr_n r) (gemm_values r)) \<le> default_output_max"
      using lim by (simp add: within_limits_def gemm_limits_default_def default_output_max_def)
    with required_decoded [OF dec(1) r_def lim small] show ?thesis
      by (intro computed [OF x(1)]) (simp_all del: length_gemm_values)
  qed
qed

definition gemm_kernel :: "u32 \<Rightarrow> bytes \<Rightarrow> i32 + bytes" where
  "gemm_kernel operator_id input =
     (if operator_id \<noteq> reference_gemm_operator_id then Inl status_invalid_argument
      else (case execute_gemm_bytes input gemm_limits_default of
              Inl Panicked \<Rightarrow> Inl status_internal_error
            | Inl (Failed error) \<Rightarrow> Inl (map_gemm_error error)
            | Inr output \<Rightarrow> Inr output))"

lemma map_gemm_error_not_ok: "map_gemm_error e \<noteq> status_ok"
  by (cases e) (simp_all add: status_defs)

lemma abi_input_whole: "unat len = length input \<Longrightarrow> abi_input (Some input) len = Inr input"
  by (simp add: abi_input_def)

lemma gemm_kernel_length: "gemm_kernel i input = Inr out \<Longrightarrow> length out \<le> default_output_max"
  by (cases rule: reference_agree [of input]) (auto simp: gemm_kernel_def split: if_splits)

interpretation reference: operator_kernel gemm_output_size gemm_execute gemm_kernel "\<lambda>_. True"
proof (unfold_locales, goal_cases)
  case (1 p len input i v st n p')
  have big: "default_output_max < 2 ^ 64" by (simp add: default_output_max_def)
  show ?case
  proof (cases rule: reference_agree [of input])
    case (refused e)
    with 1 map_gemm_error_not_ok [of e] show ?thesis
      by (auto simp: gemm_output_size_def gemm_kernel_def abi_input_whole status_defs split: if_splits)
  next
    case (computed out)
    then have "unat (of_nat (length out) :: u64) = length out" using big by (intro unat_of_nat_u64) simp
    with computed 1 show ?thesis
      by (auto simp: gemm_output_size_def gemm_kernel_def abi_input_whole status_defs split: if_splits)
  qed
next
  case (2 p request input result v st written n p')
  have id: "xr_operator_id request = reference_gemm_operator_id"
    and x: "execute_gemm_bytes input gemm_limits_default = Inr result"
    using 2(2) by (auto simp: gemm_kernel_def split: if_splits sum.splits fault.splits)
  have len: "u64_try_from (length result) = Some (xr_output_capacity request)"
    using 2(7) by (simp add: u64_try_from_iff)
  show ?case
    using 2 id x len by (auto simp: gemm_execute_def abi_input_whole split: if_splits)
qed

section \<open>Loading and running\<close>

lemma abi_name_gemm:
  "abi_chars_to_string (c_name operator_name_capacity (byte_string reference_gemm_name)) = reference_gemm_name"
  "abi_chars_to_string (c_name operator_plugin_name_capacity (byte_string ''vrb-reference-gemm'')) =
    ''vrb-reference-gemm''"
  by code_simp+

definition gemm_plugin_state :: "unit plugin_state" where
  "gemm_plugin_state =
     \<lparr>ls_plugin_name = ''vrb-reference-gemm'', ls_max_output_bytes = 1024 * 1024 * 1024,
      ls_output_size = gemm_output_size, ls_execute = gemm_execute, ls_shutdown = None\<rparr>"

definition gemm_dynamic_operator :: "unit dynamic_operator" where
  "gemm_dynamic_operator =
     \<lparr>do_plugin = gemm_plugin_state, do_operator_id = 1, do_name = reference_gemm_name,
      do_kind = KGemm, do_backend = Cpu, do_raw_capability_bits = 20\<rparr>"

lemma gemm_plugin_loads:
  "load_library path (Descriptor gemm_plugin) () =
     Inr (\<lparr>ll_plugin_name = ''vrb-reference-gemm'', ll_operators = [gemm_dynamic_operator]\<rparr>, plugin_cell_new ())"
proof -
  have upt: "[0..<unat (1 :: u32)] = [0]" by simp
  have name: "reference_gemm_name \<noteq> []" by (simp add: reference_gemm_name_def)
  show ?thesis
    by (simp add: load_library_def load_with_policy_def load_descriptor_def gemm_plugin_def
      abi_name_gemm load_policy_default_def upt gemm_query_def check_operator_def name
      operator_info_default_def gemm_plugin_state_def gemm_dynamic_operator_def dynamic_operator_of_def
      reference_gemm_operator_id_def cap_fp32_def cap_host_bytes_def map_operator_kind_def map_backend_kind_def
      raw_kind_defs raw_backend_defs Let_def)
qed

lemma gemm_dynamic_execute:
  assumes "length input < 2 ^ 64"
  shows "execute_plugin gemm_dynamic_operator input (plugin_cell_new ()) =
    (Returned (map_err PxPluginStatus (gemm_kernel 1 input)), plugin_cell_new ())"
proof -
  have cell: "\<not> pc_poisoned (plugin_cell_new ())" "c\<lparr>pc_plugin := ()\<rparr> = c" for c :: "unit plugin_cell"
    by (simp_all add: plugin_cell_new_def)
  have len: "u64_try_from (length input) = Some (of_nat (length input))"
    using assms by (simp add: u64_try_from_iff unat_of_nat_u64)
  have fits: "length out \<le> 1024 * 1024 * 1024 \<and> length out \<le> isize_max" if "gemm_kernel 1 input = Inr out" for out
    using gemm_kernel_length [OF that] by (simp add: default_output_max_def isize_max_def)
  have op: "ls_output_size (do_plugin gemm_dynamic_operator) = gemm_output_size"
    "ls_execute (do_plugin gemm_dynamic_operator) = gemm_execute"
    "ls_max_output_bytes (do_plugin gemm_dynamic_operator) = 1024 * 1024 * 1024"
    "do_operator_id gemm_dynamic_operator = 1"
    by (simp_all add: gemm_dynamic_operator_def gemm_plugin_state_def)
  show ?thesis
  proof (cases "gemm_kernel 1 input")
    case (Inl e)
    with reference.execute_plugin_kernel [OF op(1,2) cell(1) _ len, of e "[]"] show ?thesis
      by (auto simp: op cell(2))
  next
    case (Inr out)
    with reference.execute_plugin_kernel [OF op(1,2) cell(1) _ len, of 0 out] fits show ?thesis
      by (auto simp: op cell(2))
  qed
qed

section \<open>Properties\<close>

text \<open>
  C24. End to end: the reference plugin loads, its operator is registered, and a GEMM request
  with non-zero dimensions within the limits, executed through the registry, the loader and the plugin's callbacks,
  answers with bytes that decode to the matrix product; a request over the limits reports the
  plugin's status \<open>UNSUPPORTED\<close>. The plugin is left unpoisoned and alive.
\<close>

theorem gemm_end_to_end:
  assumes "encode_request r = Inr input"
    and "load_library path (Descriptor gemm_plugin) () = Inr (library, cell)"
    and "request = \<lparr>or_kind = KGemm, or_preferred_backend = preferred, or_requires_zero_copy = False\<rparr>"
    and "gr_m r \<noteq> 0" "gr_n r \<noteq> 0" "gr_k r \<noteq> 0"
  shows "if within_limits r gemm_limits_default
    then \<exists>out. operator_execute (register_into library (operator_registry_new first_compatible)) request
          \<lparr>oi_input = input\<rparr> cell = (Returned (Inr \<lparr>oo_bytes = out\<rparr>), cell)
        \<and> decode_response out = Inr \<lparr>dr_m = gr_m r, dr_n = gr_n r,
            dr_values = [gemm_entry r (x div unat (gr_n r)) (x mod unat (gr_n r)).
              x <- [0..<unat (gr_m r) * unat (gr_n r)]]\<rparr>
    else operator_execute (register_into library (operator_registry_new first_compatible)) request
          \<lparr>oi_input = input\<rparr> cell = (Returned (Inl (OpExecution ''plugin returned status 2'')), cell)"
proof -
  let ?reg = "register_into library (operator_registry_new first_compatible)"
  have input: "length input < 2 ^ 64"
    using assms(1) by (auto simp: encode_request_iff request_wf_def)
  have lib: "library = \<lparr>ll_plugin_name = ''vrb-reference-gemm'', ll_operators = [gemm_dynamic_operator]\<rparr>"
    "cell = plugin_cell_new ()"
    using assms(2) by (simp_all add: gemm_plugin_loads)
  have run: "operator_execute ?reg request \<lparr>oi_input = input\<rparr> cell =
      dynamic_execute gemm_dynamic_operator \<lparr>oi_input = input\<rparr> cell"
    by (simp add: lib assms(3) register_into_new operator_execute_registered first_compatible_def
      first_preferred_def operator_compatible_def injected_operator_def dynamic_capabilities_def
      gemm_dynamic_operator_def split: option.split)
  have small: "unat (gl_max_matrix_elements gemm_limits_default) \<le> 2 ^ 60"
    by (simp add: gemm_limits_default_def)
  show ?thesis
  proof (cases "within_limits r gemm_limits_default")
    case True
    from execute_encoded_ok [OF assms(1) True small] True show ?thesis
      unfolding run
      by (auto simp: dynamic_execute_def lib(2) gemm_dynamic_execute [OF input] gemm_kernel_def
        reference_gemm_operator_id_def gemm_values_def tabulate_def)
  next
    case False
    have "plugin_execution_error_to_string (PxPluginStatus status_unsupported) = ''plugin returned status 2''"
      by code_simp
    with execute_encoded_refused [OF assms(1) False] False show ?thesis
      unfolding run
      by (auto simp: dynamic_execute_def lib(2) gemm_dynamic_execute [OF input] gemm_kernel_def
        reference_gemm_operator_id_def simp del: plugin_execution_error_to_string.simps)
  qed
qed

theorem gemm_end_to_end_witness:
  "\<exists>out reg cell. operator_execute reg (operator_request_new KGemm) \<lparr>oi_input = request_bytes demo_gemm\<rparr> cell =
      (Returned (Inr \<lparr>oo_bytes = out\<rparr>), cell :: unit plugin_cell)"
proof -
  have "within_limits demo_gemm gemm_limits_default"
    by (simp add: within_limits_def demo_gemm_def gemm_limits_default_def)
  with gemm_end_to_end [OF encode_request_wf [OF demo_gemm_wf] gemm_plugin_loads operator_request_new_def
      demo_gemm_dims]
  show ?thesis by auto
qed

end
