(* ===== verification/Attention_Reference.thy ===== *)
theory Attention_Reference
  imports Attention_Protocol Arrays
begin

text \<open>
  The crate \<open>vrb-attention-reference\<close>: the CPU oracle for scaled dot-product attention in
  single precision, with its checks and limits and its loops over slices. \<open>f32::exp\<close> has no
  specified precision in Rust, so it is a parameter of the kernel.
\<close>

section \<open>Data\<close>

record attention_limits =
  al_max_tensor_elements :: u64
  al_max_score_elements :: u64

definition attention_limits_default :: attention_limits where
  "attention_limits_default =
     \<lparr>al_max_tensor_elements = 64 * 1024 * 1024, al_max_score_elements = 32 * 1024 * 1024\<rparr>"

datatype reference_attention_error =
    RaProtocol attention_protocol_error
  | RaUnsupportedDataType attention_data_type
  | RaInputLength string nat nat
  | RaResourceLimit string u64 u64
  | RaAddressSpaceOverflow
  | RaNumericalFailure

section \<open>Checks\<close>

definition elements_from_f32_bytes :: "u64 \<Rightarrow> reference_attention_error + nat" where
  "elements_from_f32_bytes n = ok_or (usize_try_from (n div 4)) RaAddressSpaceOverflow"

definition check_input_len :: "string \<Rightarrow> nat \<Rightarrow> nat \<Rightarrow> reference_attention_error + unit" where
  "check_input_len name actual expected =
     (if actual \<noteq> expected then Inl (RaInputLength name expected actual) else Inr ())"

definition ra_checked_product :: "u64 list \<Rightarrow> reference_attention_error + u64" where
  "ra_checked_product factors =
     try_fold (\<lambda>acc value. ok_or (checked_mul acc value) RaAddressSpaceOverflow) 1 factors"

text \<open>Everything before the loops; the result is the number of output elements.\<close>

definition attention_prepare ::
  "attention_control \<Rightarrow> f32 list \<Rightarrow> f32 list \<Rightarrow> f32 list \<Rightarrow> attention_limits \<Rightarrow> reference_attention_error + nat" where
  "attention_prepare c q k v limits =
     and_then (map_err RaProtocol (attention_validate c)) (\<lambda>_.
     if ac_data_type c \<noteq> AttF32 then Inl (RaUnsupportedDataType (ac_data_type c))
     else and_then (map_err RaProtocol (expected_attention_lengths c)) (\<lambda>lengths.
     and_then (elements_from_f32_bytes (lengths ! 0)) (\<lambda>expected_q.
     and_then (elements_from_f32_bytes (lengths ! 1)) (\<lambda>expected_k.
     and_then (elements_from_f32_bytes (lengths ! 2)) (\<lambda>expected_v.
     and_then (elements_from_f32_bytes (lengths ! 3)) (\<lambda>expected_o.
     and_then (check_input_len ''q'' (length q) expected_q) (\<lambda>_.
     and_then (check_input_len ''k'' (length k) expected_k) (\<lambda>_.
     and_then (check_input_len ''v'' (length v) expected_v) (\<lambda>_.
     and_then (ok_or (u64_try_from expected_o) RaAddressSpaceOverflow) (\<lambda>output_elements.
     and_then (ensure (\<not> output_elements > al_max_tensor_elements limits)
       (RaResourceLimit ''output tensor elements'' output_elements (al_max_tensor_elements limits))) (\<lambda>_.
     and_then (ra_checked_product [ucast (ac_batch c), ucast (ac_query_heads c), ucast (ac_query_len c),
       ucast (ac_kv_len c)]) (\<lambda>score_elements.
     and_then (ensure (\<not> score_elements > al_max_score_elements limits)
       (RaResourceLimit ''attention score elements'' score_elements (al_max_score_elements limits))) (\<lambda>_.
     Inr expected_o)))))))))))))"

section \<open>The loops\<close>

definition max_key :: "attention_control \<Rightarrow> nat \<Rightarrow> nat" where
  "max_key c query_position =
     (let causal_base = unat (ac_kv_len c) - unat (ac_query_len c)
      in if is_causal c then causal_base + query_position else unat (ac_kv_len c) - 1)"

definition dot_step ::
  "f32 list \<Rightarrow> f32 list \<Rightarrow> nat \<Rightarrow> nat \<Rightarrow> f32 \<Rightarrow> nat \<Rightarrow> reference_attention_error fault + f32" where
  "dot_step q k q_base k_base dot dim =
     and_then (index_at q (q_base + dim)) (\<lambda>x.
     and_then (index_at k (k_base + dim)) (\<lambda>y.
     Inr (f32_add dot (f32_mul x y))))"

fun score_step ::
  "attention_control \<Rightarrow> f32 list \<Rightarrow> f32 list \<Rightarrow> nat \<Rightarrow> nat \<Rightarrow> f32 list \<times> f32 \<Rightarrow> nat
    \<Rightarrow> reference_attention_error fault + f32 list \<times> f32" where
  "score_step c q k q_base kv_row (scores, max_score) key_position =
     (let k_base = (kv_row * unat (ac_kv_len c) + key_position) * unat (ac_head_dim c)
      in and_then (try_fold (dot_step q k q_base k_base) 0 [0..<unat (ac_head_dim c)]) (\<lambda>dot.
         let score = f32_mul dot (ac_scale c)
         in and_then (update_at scores key_position score) (\<lambda>scores.
            Inr (scores, f32_max max_score score))))"

fun exp_step ::
  "(f32 \<Rightarrow> f32) \<Rightarrow> f32 \<Rightarrow> f32 list \<times> f32 \<Rightarrow> nat \<Rightarrow> reference_attention_error fault + f32 list \<times> f32" where
  "exp_step f32_exp max_score (scores, denominator) i =
     and_then (index_at scores i) (\<lambda>s.
     let score = f32_exp (f32_sub s max_score)
     in and_then (update_at scores i score) (\<lambda>scores.
        Inr (scores, f32_add denominator score)))"

definition value_dim ::
  "f32 list \<Rightarrow> f32 \<Rightarrow> nat \<Rightarrow> nat \<Rightarrow> f32 list \<Rightarrow> nat \<Rightarrow> reference_attention_error fault + f32 list" where
  "value_dim v weight o_base v_base output dim =
     and_then (index_at v (v_base + dim)) (\<lambda>y.
     and_then (index_at output (o_base + dim)) (\<lambda>x.
     update_at output (o_base + dim) (f32_add x (f32_mul weight y))))"

definition value_step ::
  "attention_control \<Rightarrow> f32 list \<Rightarrow> f32 list \<Rightarrow> f32 \<Rightarrow> nat \<Rightarrow> nat \<Rightarrow> f32 list \<Rightarrow> nat
    \<Rightarrow> reference_attention_error fault + f32 list" where
  "value_step c v scores denominator o_base kv_row output key_position =
     and_then (index_at scores key_position) (\<lambda>score.
     let weight = f32_div score denominator;
         v_base = (kv_row * unat (ac_kv_len c) + key_position) * unat (ac_head_dim c)
     in try_fold (value_dim v weight o_base v_base) output [0..<unat (ac_head_dim c)])"

fun position_step ::
  "(f32 \<Rightarrow> f32) \<Rightarrow> attention_control \<Rightarrow> f32 list \<Rightarrow> f32 list \<Rightarrow> f32 list \<Rightarrow> nat \<Rightarrow> nat
    \<Rightarrow> f32 list \<times> f32 list \<Rightarrow> nat \<Rightarrow> reference_attention_error fault + f32 list \<times> f32 list" where
  "position_step f32_exp c q k v batch_index query_head (output, scores) query_position =
     (let heads_per_kv = unat (ac_query_heads c) div unat (ac_kv_heads c);
          kv_head = query_head div heads_per_kv;
          kv_row = batch_index * unat (ac_kv_heads c) + kv_head;
          last = max_key c query_position;
          q_base = ((batch_index * unat (ac_query_heads c) + query_head) * unat (ac_query_len c)
            + query_position) * unat (ac_head_dim c)
      in and_then (try_fold (score_step c q k q_base kv_row) (scores, f32_neg_infinity)
           [0..<min (length scores) (last + 1)]) (\<lambda>(scores, max_score).
         if length scores \<le> last then Inl Panicked
         else and_then (try_fold (exp_step f32_exp max_score) (scores, 0) [0..<last + 1]) (\<lambda>(scores, denominator).
         if \<not> f32_is_finite denominator \<or> f32_le denominator 0 then Inl (Failed RaNumericalFailure)
         else and_then (try_fold (value_step c v scores denominator q_base kv_row) output
           [0..<min (length scores) (last + 1)]) (\<lambda>output. Inr (output, scores)))))"

definition head_step ::
  "(f32 \<Rightarrow> f32) \<Rightarrow> attention_control \<Rightarrow> f32 list \<Rightarrow> f32 list \<Rightarrow> f32 list \<Rightarrow> nat \<Rightarrow> f32 list \<times> f32 list \<Rightarrow> nat
    \<Rightarrow> reference_attention_error fault + f32 list \<times> f32 list" where
  "head_step f32_exp c q k v batch_index state query_head =
     try_fold (position_step f32_exp c q k v batch_index query_head) state [0..<unat (ac_query_len c)]"

definition batch_step ::
  "(f32 \<Rightarrow> f32) \<Rightarrow> attention_control \<Rightarrow> f32 list \<Rightarrow> f32 list \<Rightarrow> f32 list \<Rightarrow> f32 list \<times> f32 list \<Rightarrow> nat
    \<Rightarrow> reference_attention_error fault + f32 list \<times> f32 list" where
  "batch_step f32_exp c q k v state batch_index =
     try_fold (head_step f32_exp c q k v batch_index) state [0..<unat (ac_query_heads c)]"

text \<open>
  The output and score buffers have no more elements than the query and key slices, so their
  allocation cannot exceed \<open>isize::MAX\<close> bytes.
\<close>

definition execute_attention_f32 ::
  "(f32 \<Rightarrow> f32) \<Rightarrow> attention_control \<Rightarrow> f32 list \<Rightarrow> f32 list \<Rightarrow> f32 list \<Rightarrow> attention_limits
    \<Rightarrow> reference_attention_error fault + f32 list" where
  "execute_attention_f32 f32_exp c q k v limits =
     and_then (failing (attention_prepare c q k v limits)) (\<lambda>expected_o.
     and_then (try_fold (batch_step f32_exp c q k v)
         (replicate expected_o 0, replicate (unat (ac_kv_len c)) 0) [0..<unat (ac_batch c)]) (\<lambda>(output, scores).
     Inr output))"

section \<open>Attention as a formula\<close>

text \<open>
  The output row of query position \<open>i\<close>, counted over all batches, heads and positions: its
  key row and last key, its scaled scores, their maximum, the weights and their sum.
\<close>

definition row_query :: "attention_control \<Rightarrow> nat \<Rightarrow> nat" where
  "row_query c i = i mod unat (ac_query_len c)"

definition row_kv :: "attention_control \<Rightarrow> nat \<Rightarrow> nat" where
  "row_kv c i =
     (let h = i div unat (ac_query_len c); heads = unat (ac_query_heads c)
      in h div heads * unat (ac_kv_heads c) + h mod heads div (heads div unat (ac_kv_heads c)))"

definition keys_of :: "attention_control \<Rightarrow> nat \<Rightarrow> nat list" where
  "keys_of c i = [0..<max_key c (row_query c i) + 1]"

definition key_index :: "attention_control \<Rightarrow> nat \<Rightarrow> nat \<Rightarrow> nat \<Rightarrow> nat" where
  "key_index c i j d = (row_kv c i * unat (ac_kv_len c) + j) * unat (ac_head_dim c) + d"

definition att_score :: "attention_control \<Rightarrow> f32 list \<Rightarrow> f32 list \<Rightarrow> nat \<Rightarrow> nat \<Rightarrow> f32" where
  "att_score c q k i j =
     f32_mul (foldl (\<lambda>acc d. f32_add acc (f32_mul (q ! (i * unat (ac_head_dim c) + d)) (k ! key_index c i j d)))
       0 [0..<unat (ac_head_dim c)]) (ac_scale c)"

definition att_max :: "attention_control \<Rightarrow> f32 list \<Rightarrow> f32 list \<Rightarrow> nat \<Rightarrow> f32" where
  "att_max c q k i = foldl (\<lambda>m j. f32_max m (att_score c q k i j)) f32_neg_infinity (keys_of c i)"

definition att_weight :: "(f32 \<Rightarrow> f32) \<Rightarrow> attention_control \<Rightarrow> f32 list \<Rightarrow> f32 list \<Rightarrow> nat \<Rightarrow> nat \<Rightarrow> f32" where
  "att_weight f32_exp c q k i j = f32_exp (f32_sub (att_score c q k i j) (att_max c q k i))"

definition att_denominator :: "(f32 \<Rightarrow> f32) \<Rightarrow> attention_control \<Rightarrow> f32 list \<Rightarrow> f32 list \<Rightarrow> nat \<Rightarrow> f32" where
  "att_denominator f32_exp c q k i = foldl (\<lambda>acc j. f32_add acc (att_weight f32_exp c q k i j)) 0 (keys_of c i)"

definition att_normal :: "(f32 \<Rightarrow> f32) \<Rightarrow> attention_control \<Rightarrow> f32 list \<Rightarrow> f32 list \<Rightarrow> nat \<Rightarrow> bool" where
  "att_normal f32_exp c q k i =
     (f32_is_finite (att_denominator f32_exp c q k i) \<and> \<not> f32_le (att_denominator f32_exp c q k i) 0)"

definition att_entry ::
  "(f32 \<Rightarrow> f32) \<Rightarrow> attention_control \<Rightarrow> f32 list \<Rightarrow> f32 list \<Rightarrow> f32 list \<Rightarrow> nat \<Rightarrow> nat \<Rightarrow> f32" where
  "att_entry f32_exp c q k v i d =
     foldl (\<lambda>acc j. f32_add acc (f32_mul
         (f32_div (att_weight f32_exp c q k i j) (att_denominator f32_exp c q k i)) (v ! key_index c i j d)))
       0 (keys_of c i)"

definition att_rows :: "attention_control \<Rightarrow> nat" where
  "att_rows c = unat (ac_batch c) * unat (ac_query_heads c) * unat (ac_query_len c)"

section \<open>The loops compute the formula\<close>

text \<open>The slices cover every index the loops form for row \<open>i\<close>.\<close>

definition row_in_bounds :: "attention_control \<Rightarrow> f32 list \<Rightarrow> f32 list \<Rightarrow> nat \<Rightarrow> bool" where
  "row_in_bounds c q k i =
     (i * unat (ac_head_dim c) + unat (ac_head_dim c) \<le> length q \<and>
      (row_kv c i + 1) * unat (ac_kv_len c) * unat (ac_head_dim c) \<le> length k)"

lemma key_index_bound:
  assumes "row_in_bounds c q k i" "j < unat (ac_kv_len c)" "d < unat (ac_head_dim c)"
  shows "key_index c i j d < length k"
proof -
  let ?h = "unat (ac_head_dim c)" and ?l = "unat (ac_kv_len c)" and ?r = "row_kv c i"
  have "key_index c i j d < (?r * ?l + Suc j) * ?h" using assms(3) by (simp add: key_index_def algebra_simps)
  also have "\<dots> \<le> ((?r + 1) * ?l) * ?h" using assms(2) by (intro mult_le_mono1) simp
  also have "\<dots> \<le> length k" using assms(1) by (simp add: row_in_bounds_def)
  finally show ?thesis .
qed

lemma dot_loop:
  assumes "row_in_bounds c q k i" "j < unat (ac_kv_len c)"
  shows "try_fold (dot_step q k (i * unat (ac_head_dim c))
      ((row_kv c i * unat (ac_kv_len c) + j) * unat (ac_head_dim c))) 0 [0..<unat (ac_head_dim c)]
    = Inr (foldl (\<lambda>acc d. f32_add acc (f32_mul (q ! (i * unat (ac_head_dim c) + d)) (k ! key_index c i j d)))
       0 [0..<unat (ac_head_dim c)])"
  (is "try_fold ?f 0 [0..<?h] = Inr (foldl ?g 0 [0..<?h])")
proof -
  have "?f (foldl ?g 0 [0..<d]) d = Inr (foldl ?g 0 [0..<Suc d])" if "d < ?h" for d
    using key_index_bound [OF assms that] assms(1) that
    by (simp add: dot_step_def row_in_bounds_def key_index_def)
  from try_fold_upt [where f = ?f and g = "\<lambda>d. foldl ?g 0 [0..<d]" and n = ?h, OF this] show ?thesis by simp
qed

lemma score_loop:
  assumes rb: "row_in_bounds c q k i" and len: "length scores = unat (ac_kv_len c)" and n: "n \<le> unat (ac_kv_len c)"
  shows "\<exists>s. try_fold (score_step c q k (i * unat (ac_head_dim c)) (row_kv c i)) (scores, f32_neg_infinity) [0..<n]
      = Inr (s, foldl (\<lambda>m j. f32_max m (att_score c q k i j)) f32_neg_infinity [0..<n])
    \<and> length s = unat (ac_kv_len c) \<and> (\<forall>j < n. s ! j = att_score c q k i j)"
proof -
  let ?f = "score_step c q k (i * unat (ac_head_dim c)) (row_kv c i)"
  let ?m = "\<lambda>j. foldl (\<lambda>m j. f32_max m (att_score c q k i j)) f32_neg_infinity [0..<j]"
  let ?R = "\<lambda>j (s, m). m = ?m j \<and> length s = unat (ac_kv_len c) \<and> (\<forall>j' < j. s ! j' = att_score c q k i j')"
  have "\<exists>st'. ?f st j = Inr st' \<and> ?R (Suc j) st'" if "j < n" "?R j st" for j st
    using that n dot_loop [OF rb, of j]
    by (cases st) (auto simp: Let_def att_score_def less_Suc_eq)
  from try_fold_upt_rel [where R = ?R and f = ?f and n = n and s = "(scores, f32_neg_infinity)", OF this] len
  show ?thesis by auto
qed

lemma exp_loop:
  assumes len: "length s = unat (ac_kv_len c)" and n: "n \<le> unat (ac_kv_len c)"
    and s: "\<forall>j < n. s ! j = att_score c q k i j" and mx: "mx = att_max c q k i"
  shows "\<exists>w. try_fold (exp_step f32_exp mx) (s, 0) [0..<n]
      = Inr (w, foldl (\<lambda>acc j. f32_add acc (att_weight f32_exp c q k i j)) 0 [0..<n])
    \<and> length w = unat (ac_kv_len c) \<and> (\<forall>j < n. w ! j = att_weight f32_exp c q k i j)"
proof -
  let ?f = "exp_step f32_exp mx"
  let ?d = "\<lambda>j. foldl (\<lambda>acc j. f32_add acc (att_weight f32_exp c q k i j)) 0 [0..<j]"
  let ?R = "\<lambda>j (w, d). d = ?d j \<and> length w = unat (ac_kv_len c)
      \<and> (\<forall>j' < j. w ! j' = att_weight f32_exp c q k i j') \<and> (\<forall>j' < n. j \<le> j' \<longrightarrow> w ! j' = att_score c q k i j')"
  have "\<exists>st'. ?f st j = Inr st' \<and> ?R (Suc j) st'" if "j < n" "?R j st" for j st
    using that n by (cases st) (auto simp: Let_def att_weight_def mx less_Suc_eq)
  from try_fold_upt_rel [where R = ?R and f = ?f and n = n and s = "(s, 0)", OF this] len s
  show ?thesis by auto
qed

text \<open>The values of the keys below \<open>n\<close>, weighted, on top of \<open>start\<close>.\<close>

definition weighted_onto ::
  "(f32 \<Rightarrow> f32) \<Rightarrow> attention_control \<Rightarrow> f32 list \<Rightarrow> f32 list \<Rightarrow> f32 list \<Rightarrow> nat \<Rightarrow> nat \<Rightarrow> nat \<Rightarrow> f32 \<Rightarrow> f32" where
  "weighted_onto f32_exp c q k v i n d start =
     foldl (\<lambda>acc j. f32_add acc (f32_mul
         (f32_div (att_weight f32_exp c q k i j) (att_denominator f32_exp c q k i)) (v ! key_index c i j d)))
       start [0..<n]"

lemma weighted_onto_simps [simp]:
  "weighted_onto f32_exp c q k v i 0 d x = x"
  "weighted_onto f32_exp c q k v i (Suc n) d x =
     f32_add (weighted_onto f32_exp c q k v i n d x) (f32_mul
       (f32_div (att_weight f32_exp c q k i n) (att_denominator f32_exp c q k i)) (v ! key_index c i n d))"
  by (simp_all add: weighted_onto_def)

lemma value_dim_loop:
  assumes "o_base + dims \<le> len" "\<And>d. d < dims \<Longrightarrow> v_base + d < length v"
  shows "try_fold (value_dim v w o_base v_base) (tabulate len f) [0..<dims] =
    Inr (tabulate len (\<lambda>x. if o_base \<le> x \<and> x < o_base + dims
      then f32_add (f x) (f32_mul w (v ! (v_base + (x - o_base)))) else f x))"
proof -
  define g where "g d = tabulate len (\<lambda>x. if o_base \<le> x \<and> x < o_base + d
      then f32_add (f x) (f32_mul w (v ! (v_base + (x - o_base)))) else f x)" for d
  have step: "value_dim v w o_base v_base (g d) d = Inr (g (Suc d))" if "d < dims" for d
    using that assms(1) assms(2) [OF that]
    by (auto simp: value_dim_def g_def update_tabulate intro!: tabulate_cong)
  have "g 0 = tabulate len f" by (auto simp: g_def intro!: tabulate_cong)
  with try_fold_upt [where f = "value_dim v w o_base v_base" and g = g and c = dims, OF step] show ?thesis
    by (simp add: g_def)
qed

lemma value_loop:
  assumes rb: "row_in_bounds c q k i" and v: "length v = length k" and n: "n \<le> unat (ac_kv_len c)"
    and s: "length s = unat (ac_kv_len c)" "\<forall>j < n. s ! j = att_weight f32_exp c q k i j"
    and o: "i * unat (ac_head_dim c) + unat (ac_head_dim c) \<le> len"
  shows "try_fold (value_step c v s (att_denominator f32_exp c q k i) (i * unat (ac_head_dim c)) (row_kv c i))
      (tabulate len f) [0..<n] =
    Inr (tabulate len (\<lambda>x. if i * unat (ac_head_dim c) \<le> x \<and> x < i * unat (ac_head_dim c) + unat (ac_head_dim c)
      then weighted_onto f32_exp c q k v i n (x - i * unat (ac_head_dim c)) (f x) else f x))"
  (is "try_fold ?f _ _ = _")
proof -
  let ?b = "i * unat (ac_head_dim c)" and ?h = "unat (ac_head_dim c)"
  define g where "g j = tabulate len (\<lambda>x. if ?b \<le> x \<and> x < ?b + ?h
      then weighted_onto f32_exp c q k v i j (x - ?b) (f x) else f x)" for j
  have step: "?f (g j) j = Inr (g (Suc j))" if j: "j < n" for j
  proof -
    have "(row_kv c i * unat (ac_kv_len c) + j) * ?h + d < length v" if "d < ?h" for d
      using key_index_bound [OF rb _ that, of j] j n v by (simp add: key_index_def)
    note vd = value_dim_loop [OF o this]
    from j n s show ?thesis
      by (auto simp: value_step_def g_def vd key_index_def intro!: tabulate_cong)
  qed
  have "g 0 = tabulate len f" by (auto simp: g_def intro!: tabulate_cong)
  with try_fold_upt [where f = ?f and g = g and c = n, OF step] show ?thesis by (simp add: g_def)
qed

text \<open>The output when the first \<open>rows\<close> rows are written.\<close>

definition att_partial ::
  "(f32 \<Rightarrow> f32) \<Rightarrow> attention_control \<Rightarrow> f32 list \<Rightarrow> f32 list \<Rightarrow> f32 list \<Rightarrow> nat \<Rightarrow> f32 list" where
  "att_partial f32_exp c q k v rows = tabulate (att_rows c * unat (ac_head_dim c))
     (\<lambda>x. if x < rows * unat (ac_head_dim c)
       then att_entry f32_exp c q k v (x div unat (ac_head_dim c)) (x mod unat (ac_head_dim c)) else 0)"

lemma att_partial_Suc:
  "att_partial f32_exp c q k v (Suc i) =
     tabulate (att_rows c * unat (ac_head_dim c))
      (\<lambda>x. if i * unat (ac_head_dim c) \<le> x \<and> x < i * unat (ac_head_dim c) + unat (ac_head_dim c)
        then att_entry f32_exp c q k v i (x - i * unat (ac_head_dim c))
        else if x < i * unat (ac_head_dim c)
        then att_entry f32_exp c q k v (x div unat (ac_head_dim c)) (x mod unat (ac_head_dim c)) else 0)"
  by (auto simp: att_partial_def div_mod_of_block not_le intro!: tabulate_cong)

lemma att_partial_0: "att_partial f32_exp c q k v 0 = replicate (att_rows c * unat (ac_head_dim c)) 0"
  by (rule nth_equalityI) (simp_all add: att_partial_def)

text \<open>The checks make the dimensions non-zero, the heads divide evenly and the slices fit.\<close>

definition att_shape :: "attention_control \<Rightarrow> f32 list \<Rightarrow> f32 list \<Rightarrow> f32 list \<Rightarrow> bool" where
  "att_shape c q k v =
     (0 < unat (ac_query_heads c) \<and> 0 < unat (ac_kv_heads c) \<and> 0 < unat (ac_query_len c) \<and>
      0 < unat (ac_kv_len c) \<and> 0 < unat (ac_head_dim c) \<and> unat (ac_kv_heads c) dvd unat (ac_query_heads c) \<and>
      (is_causal c \<longrightarrow> unat (ac_query_len c) \<le> unat (ac_kv_len c)) \<and>
      length q = att_rows c * unat (ac_head_dim c) \<and>
      length k = unat (ac_batch c) * unat (ac_kv_heads c) * unat (ac_kv_len c) * unat (ac_head_dim c) \<and>
      length v = length k)"

lemma max_key_bound:
  "att_shape c q k v \<Longrightarrow> p < unat (ac_query_len c) \<Longrightarrow> max_key c p < unat (ac_kv_len c)"
  by (auto simp: max_key_def att_shape_def Let_def)

lemma block_less: "b < n \<Longrightarrow> j < m \<Longrightarrow> b * m + j < n * m" for b n j m :: nat
  using all_less_blocks [of n m "\<lambda>x. x < n * m"] by blast

lemma row_coordinates:
  assumes sh: "att_shape c q k v" and b: "b < unat (ac_batch c)" and h: "h < unat (ac_query_heads c)"
    and p: "p < unat (ac_query_len c)" and i: "i = (b * unat (ac_query_heads c) + h) * unat (ac_query_len c) + p"
  shows "row_query c i = p"
    and "row_kv c i = b * unat (ac_kv_heads c) + h div (unat (ac_query_heads c) div unat (ac_kv_heads c))"
    and "i < att_rows c" and "row_in_bounds c q k i"
proof -
  let ?qh = "unat (ac_query_heads c)" and ?kh = "unat (ac_kv_heads c)" and ?g = "h div (unat (ac_query_heads c) div unat (ac_kv_heads c))"
  show "row_query c i = p" using p by (simp add: row_query_def i)
  have d: "i div unat (ac_query_len c) = b * ?qh + h" using p by (simp add: i)
  show kv: "row_kv c i = b * ?kh + ?g" using h by (simp add: row_kv_def d Let_def)
  show less: "i < att_rows c"
    unfolding i att_rows_def by (intro block_less b h p)
  have "?qh = ?kh * (?qh div ?kh)" using sh by (simp add: att_shape_def)
  with h have "?g < ?kh" by (metis less_mult_imp_div_less)
  with b have row: "row_kv c i < unat (ac_batch c) * ?kh" unfolding kv by (rule block_less)
  have "Suc i * unat (ac_head_dim c) \<le> att_rows c * unat (ac_head_dim c)"
    using less by (intro mult_le_mono1) simp
  moreover have "(row_kv c i + 1) * unat (ac_kv_len c) * unat (ac_head_dim c)
      \<le> unat (ac_batch c) * ?kh * unat (ac_kv_len c) * unat (ac_head_dim c)"
    using row by (intro mult_le_mono1) simp
  ultimately show "row_in_bounds c q k i" using sh by (simp add: row_in_bounds_def att_shape_def)
qed

text \<open>What holds of the output and the score buffer before row \<open>i\<close>.\<close>

fun att_state ::
  "(f32 \<Rightarrow> f32) \<Rightarrow> attention_control \<Rightarrow> f32 list \<Rightarrow> f32 list \<Rightarrow> f32 list \<Rightarrow> nat \<Rightarrow> f32 list \<times> f32 list \<Rightarrow> bool" where
  "att_state f32_exp c q k v i (output, scores) \<longleftrightarrow>
     output = att_partial f32_exp c q k v i \<and> length scores = unat (ac_kv_len c)"

lemma position_step_row:
  assumes sh: "att_shape c q k v" and b: "b < unat (ac_batch c)" and h: "h < unat (ac_query_heads c)"
    and p: "p < unat (ac_query_len c)" and i: "i = (b * unat (ac_query_heads c) + h) * unat (ac_query_len c) + p"
    and st: "att_state f32_exp c q k v i st"
  shows "if att_normal f32_exp c q k i
    then \<exists>st'. position_step f32_exp c q k v b h st p = Inr st' \<and> att_state f32_exp c q k v (Suc i) st'
    else position_step f32_exp c q k v b h st p = Inl (Failed RaNumericalFailure)"
proof -
  obtain os scores where st_eq: "st = (os, scores)" by (cases st)
  with st have out: "os = att_partial f32_exp c q k v i" and len: "length scores = unat (ac_kv_len c)" by simp_all
  note row = row_coordinates [OF sh b h p i]
  define n where "n = max_key c p + 1"
  have n: "n \<le> unat (ac_kv_len c)" using max_key_bound [OF sh p] by (simp add: n_def)
  then have in_range: "\<not> unat (ac_kv_len c) \<le> max_key c p" by (simp add: n_def)
  have keys: "keys_of c i = [0..<n]" by (simp only: keys_of_def row(1) n_def)
  from score_loop [OF row(4) len n] obtain s where
    s: "try_fold (score_step c q k (i * unat (ac_head_dim c)) (row_kv c i)) (scores, f32_neg_infinity) [0..<n]
      = Inr (s, att_max c q k i)" "length s = unat (ac_kv_len c)" "\<forall>j < n. s ! j = att_score c q k i j"
    unfolding att_max_def keys by blast
  from exp_loop [OF s(2) n s(3) refl, of f32_exp] obtain w where
    w: "try_fold (exp_step f32_exp (att_max c q k i)) (s, 0) [0..<n] = Inr (w, att_denominator f32_exp c q k i)"
      "length w = unat (ac_kv_len c)" "\<forall>j < n. w ! j = att_weight f32_exp c q k i j"
    unfolding att_denominator_def keys by blast
  have vl: "length v = length k" using sh by (simp add: att_shape_def)
  have "Suc i * unat (ac_head_dim c) \<le> att_rows c * unat (ac_head_dim c)"
    using row(3) by (intro mult_le_mono1) simp
  then have o: "i * unat (ac_head_dim c) + unat (ac_head_dim c) \<le> att_rows c * unat (ac_head_dim c)" by simp
  have v: "try_fold (value_step c v w (att_denominator f32_exp c q k i) (i * unat (ac_head_dim c)) (row_kv c i))
      (att_partial f32_exp c q k v i) [0..<n] = Inr (att_partial f32_exp c q k v (Suc i))"
    unfolding att_partial_def [of _ _ _ _ _ i] value_loop [OF row(4) vl n w(2,3) o] att_partial_Suc
    by (auto simp: weighted_onto_def att_entry_def keys simp del: upt_Suc intro!: tabulate_cong)
  have min: "min (unat (ac_kv_len c)) n = n" using n by simp
  have step: "position_step f32_exp c q k v b h st p =
      (if att_normal f32_exp c q k i then Inr (att_partial f32_exp c q k v (Suc i), w)
       else Inl (Failed RaNumericalFailure))"
    unfolding st_eq position_step.simps Let_def row(2) [symmetric] i [symmetric] n_def [symmetric] out
    by (simp add: s w v len min in_range att_normal_def)
  from step w(2) show ?thesis by simp
qed

lemma head_step_rows:
  assumes sh: "att_shape c q k v" and b: "b < unat (ac_batch c)" and h: "h < unat (ac_query_heads c)"
    and i: "i = (b * unat (ac_query_heads c) + h) * unat (ac_query_len c)"
    and st: "att_state f32_exp c q k v i st"
  shows "if \<forall>j < unat (ac_query_len c). att_normal f32_exp c q k (i + j)
    then \<exists>st'. head_step f32_exp c q k v b st h = Inr st' \<and> att_state f32_exp c q k v (i + unat (ac_query_len c)) st'
    else head_step f32_exp c q k v b st h = Inl (Failed RaNumericalFailure)"
proof -
  have step: "if att_normal f32_exp c q k (i + p)
    then \<exists>st'. position_step f32_exp c q k v b h st p = Inr st' \<and> att_state f32_exp c q k v (i + Suc p) st'
    else position_step f32_exp c q k v b h st p = Inl (Failed RaNumericalFailure)"
    if "p < unat (ac_query_len c)" "att_state f32_exp c q k v (i + p) st" for p st
    unfolding add_Suc_right by (rule position_step_row [OF sh b h that(1) _ that(2)]) (simp only: i)
  have "att_state f32_exp c q k v (i + 0) st" using st by (simp only: add_0_right)
  then show ?thesis
    unfolding head_step_def
    by (intro try_fold_upt_or_fail [where R = "\<lambda>p. att_state f32_exp c q k v (i + p)", OF step, OF _ _ _ order_refl])
qed

lemma batch_step_rows:
  assumes sh: "att_shape c q k v" and b: "b < unat (ac_batch c)"
    and i: "i = b * (unat (ac_query_heads c) * unat (ac_query_len c))"
    and st: "att_state f32_exp c q k v i st"
  shows "if \<forall>j < unat (ac_query_heads c) * unat (ac_query_len c). att_normal f32_exp c q k (i + j)
    then \<exists>st'. batch_step f32_exp c q k v st b = Inr st'
      \<and> att_state f32_exp c q k v (i + unat (ac_query_heads c) * unat (ac_query_len c)) st'
    else batch_step f32_exp c q k v st b = Inl (Failed RaNumericalFailure)"
  unfolding batch_step_def
proof (rule try_fold_blocks)
  fix h s
  let ?i = "i + h * unat (ac_query_len c)"
  assume h: "h < unat (ac_query_heads c)" and s: "att_state f32_exp c q k v ?i s"
  have "?i = (b * unat (ac_query_heads c) + h) * unat (ac_query_len c)" by (simp add: i algebra_simps)
  from head_step_rows [OF sh b h this s]
  show "if \<forall>j < unat (ac_query_len c). att_normal f32_exp c q k (?i + j)
    then \<exists>s'. head_step f32_exp c q k v b s h = Inr s' \<and> att_state f32_exp c q k v (?i + unat (ac_query_len c)) s'
    else head_step f32_exp c q k v b s h = Inl (Failed RaNumericalFailure)" .
qed (rule st)

lemma all_batches:
  assumes sh: "att_shape c q k v" and st: "att_state f32_exp c q k v 0 st"
  shows "if \<forall>i < att_rows c. att_normal f32_exp c q k i
    then \<exists>st'. try_fold (batch_step f32_exp c q k v) st [0..<unat (ac_batch c)] = Inr st'
      \<and> att_state f32_exp c q k v (att_rows c) st'
    else try_fold (batch_step f32_exp c q k v) st [0..<unat (ac_batch c)] = Inl (Failed RaNumericalFailure)"
proof -
  let ?m = "unat (ac_query_heads c) * unat (ac_query_len c)"
  have step: "if \<forall>j < ?m. att_normal f32_exp c q k (0 + b * ?m + j)
    then \<exists>s'. batch_step f32_exp c q k v s b = Inr s' \<and> att_state f32_exp c q k v (0 + b * ?m + ?m) s'
    else batch_step f32_exp c q k v s b = Inl (Failed RaNumericalFailure)"
    if "b < unat (ac_batch c)" "att_state f32_exp c q k v (0 + b * ?m) s" for b s
    unfolding add_0 by (rule batch_step_rows [OF sh that(1) refl]) (use that(2) in \<open>simp only: add_0\<close>)
  have "if \<forall>i < unat (ac_batch c) * ?m. att_normal f32_exp c q k (0 + i)
    then \<exists>st'. try_fold (batch_step f32_exp c q k v) st [0..<unat (ac_batch c)] = Inr st'
      \<and> att_state f32_exp c q k v (0 + unat (ac_batch c) * ?m) st'
    else try_fold (batch_step f32_exp c q k v) st [0..<unat (ac_batch c)] = Inl (Failed RaNumericalFailure)"
    by (rule try_fold_blocks, rule step, assumption+, rule st)
  then show ?thesis by (simp only: att_rows_def mult.assoc add_0)
qed

section \<open>The kernel\<close>

text \<open>
  When the checks pass, the lengths are the products of the dimensions, so the slices have
  the shape the loops rely on.
\<close>

lemma attention_prepare_shape:
  assumes prep: "attention_prepare c q k v limits = Inr n"
  shows "n = att_rows c * unat (ac_head_dim c)" and "att_shape c q k v"
proof -
  from prep have valid: "attention_validate c = Inr ()" and f32: "ac_data_type c = AttF32"
    by (auto simp: attention_prepare_def result_iffs split: if_splits)
  from valid obtain ls where ls: "expected_attention_lengths c = Inr ls" by (auto simp: attention_validate_iff)
  define rows where "rows = att_rows c * unat (ac_head_dim c)"
  define keys where "keys = unat (ac_batch c) * unat (ac_kv_heads c) * unat (ac_kv_len c) * unat (ac_head_dim c)"
  have sizes: "map unat ls = [rows * 4, keys * 4, keys * 4, rows * 4]"
    using expected_attention_lengths_Inr [OF ls] by (simp add: f32 rows_def keys_def att_rows_def Let_def)
  then obtain a b d e where "ls = [a, b, d, e]" and u: "unat a = rows * 4" "unat b = keys * 4" "unat d = keys * 4" "unat e = rows * 4"
    by (auto simp: map_eq_Cons_conv)
  with prep ls have n: "n = rows" and lens: "length q = rows" "length k = keys" "length v = keys"
    by (auto simp: attention_prepare_def result_iffs elements_from_f32_bytes_def check_input_len_def unat_div
      split: if_splits)
  from n show "n = att_rows c * unat (ac_head_dim c)" by (simp add: rows_def)
  from valid have "unat (ac_query_heads c) mod unat (ac_kv_heads c) = 0"
    by (simp add: attention_validate_iff flip: unat_mod)
  moreover have "0 < unat (ac_query_heads c)" "0 < unat (ac_kv_heads c)" "0 < unat (ac_query_len c)"
    "0 < unat (ac_kv_len c)" "0 < unat (ac_head_dim c)"
    using valid by (simp_all add: attention_validate_iff unat_gt_0)
  moreover have "is_causal c \<longrightarrow> unat (ac_query_len c) \<le> unat (ac_kv_len c)"
    using valid by (simp add: attention_validate_iff word_le_nat_alt)
  ultimately show "att_shape c q k v"
    using lens by (simp add: att_shape_def rows_def keys_def mod_eq_0_iff_dvd)
qed

lemma execute_attention_prepared:
  assumes prep: "attention_prepare c q k v limits = Inr n"
  shows "execute_attention_f32 f32_exp c q k v limits =
    (if \<forall>i < att_rows c. att_normal f32_exp c q k i
     then Inr (tabulate n (\<lambda>x. att_entry f32_exp c q k v (x div unat (ac_head_dim c)) (x mod unat (ac_head_dim c))))
     else Inl (Failed RaNumericalFailure))"
proof -
  note sh = attention_prepare_shape [OF prep]
  let ?st = "(replicate n 0, replicate (unat (ac_kv_len c)) 0) :: f32 list \<times> f32 list"
  have all: "att_partial f32_exp c q k v (att_rows c) =
      tabulate n (\<lambda>x. att_entry f32_exp c q k v (x div unat (ac_head_dim c)) (x mod unat (ac_head_dim c)))"
    unfolding sh(1) att_partial_def by (rule tabulate_cong) simp
  have "att_state f32_exp c q k v 0 ?st" by (simp add: att_partial_0 sh(1))
  from all_batches [OF sh(2) this] show ?thesis
    by (auto simp: execute_attention_f32_def prep all split: if_splits)
qed

section \<open>Properties\<close>

text \<open>
  C26. Reference attention is the softmax formula. When the checks pass, the six nested loops over
  the three slices, which reuse one score buffer and accumulate into one output buffer, never
  index out of range and end with: for every output row, the values of its visible keys
  weighted by \<open>exp (score - max) / sum\<close>, added from the first key to the last in single
  precision; or the numerical failure when some row's sum of weights is not finite and positive.
  A failed check is the result itself. This holds for every \<open>exp\<close>.
\<close>

theorem attention_is_softmax_formula:
  "execute_attention_f32 f32_exp c q k v limits =
    (case attention_prepare c q k v limits of
       Inl e \<Rightarrow> Inl (Failed e)
     | Inr n \<Rightarrow>
         if \<forall>i < att_rows c. att_normal f32_exp c q k i
         then Inr [att_entry f32_exp c q k v (x div unat (ac_head_dim c)) (x mod unat (ac_head_dim c)). x <- [0..<n]]
         else Inl (Failed RaNumericalFailure))"
proof (cases "attention_prepare c q k v limits")
  case (Inl e)
  then show ?thesis by (simp add: execute_attention_f32_def)
next
  case (Inr n)
  then show ?thesis by (simp only: execute_attention_prepared [OF Inr] sum.case tabulate_def)
qed

definition demo_attention_f32 :: attention_control where
  "demo_attention_f32 =
     \<lparr>ac_flags = 1, ac_data_type = AttF32, ac_batch = 1, ac_query_heads = 1, ac_kv_heads = 1,
      ac_query_len = 1, ac_kv_len = 2, ac_head_dim = 1, ac_scale = 0x3F800000, ac_device_index = 0\<rparr>"

text \<open>With a constant \<open>exp\<close>, causal attention of one query over two keys is the mean of the values.\<close>

lemma demo_attention_prepared:
  "attention_prepare demo_attention_f32 [0x3F800000] [0x40000000, 0x40400000] [0x40000000, 0x40800000]
     attention_limits_default = Inr 1"
proof -
  have lens: "expected_attention_lengths demo_attention_f32 = Inr [4, 8, 8, 4]"
    by (simp add: expected_attention_lengths_def demo_attention_f32_def checked_product_def checked_mul_def)
  have "f32_is_finite 0x3F800000" "\<not> f32_le 0x3F800000 0" by code_simp+
  with lens have valid: "attention_validate demo_attention_f32 = Inr ()"
    by (simp add: attention_validate_def attention_known_flags_def is_causal_def flag_causal_def demo_attention_f32_def)
  show ?thesis
    by (simp add: attention_prepare_def valid lens elements_from_f32_bytes_def check_input_len_def
      ra_checked_product_def checked_mul_def attention_limits_default_def u64_try_from_def usize_max_def)
      (simp add: demo_attention_f32_def)
qed

theorem attention_is_softmax_formula_witness:
  "execute_attention_f32 (\<lambda>_. 0x3F800000) demo_attention_f32 [0x3F800000] [0x40000000, 0x40400000]
     [0x40000000, 0x40800000] attention_limits_default = Inr [0x40400000]"
proof -
  let ?e = "\<lambda>_. 0x3F800000 :: f32" and ?q = "[0x3F800000]" and ?k = "[0x40000000, 0x40400000]"
    and ?v = "[0x40000000, 0x40800000]"
  have rows: "att_rows demo_attention_f32 = 1" "unat (ac_head_dim demo_attention_f32) = 1"
    by (simp_all add: att_rows_def demo_attention_f32_def)
  have two: "[0..<Suc (Suc 0)] = [0, Suc 0]" by simp
  have keys: "keys_of demo_attention_f32 0 = [0, Suc 0]"
    by (simp add: keys_of_def max_key_def row_query_def demo_attention_f32_def is_causal_def flag_causal_def two)
  have add: "f32_add 0 0x3F800000 = 0x3F800000" "f32_add 0x3F800000 0x3F800000 = 0x40000000"
    "f32_add 0x3F800000 0x40000000 = 0x40400000"
    by (simp_all add: f32_add_def pattern_add_def pattern_defs round_nearest_fval [where t = "0x3F800000"]
      round_nearest_fval [where t = "0x40000000"] round_nearest_fval [where t = "0x40400000"])
  have mul: "f32_mul 0x3F000000 0x40000000 = 0x3F800000" "f32_mul 0x3F000000 0x40800000 = 0x40000000"
    by (simp_all add: f32_mul_def pattern_mul_def pattern_defs round_nearest_fval [where t = "0x3F800000"]
      round_nearest_fval [where t = "0x40000000"])
  have half: "f32_div 0x3F800000 0x40000000 = 0x3F000000"
    by (simp add: f32_div_def pattern_div_def pattern_defs round_nearest_fval [where t = "0x3F000000"])
  have den: "att_denominator ?e demo_attention_f32 ?q ?k 0 = 0x40000000"
    by (simp add: att_denominator_def keys att_weight_def add)
  have idx: "key_index demo_attention_f32 0 j 0 = j" for j
    by (simp add: key_index_def row_kv_def demo_attention_f32_def Let_def)
  have entry: "att_entry ?e demo_attention_f32 ?q ?k ?v 0 0 = 0x40400000"
    by (simp add: att_entry_def keys den att_weight_def idx half mul add)
  have normal: "att_normal ?e demo_attention_f32 ?q ?k 0"
    by (simp add: att_normal_def den f32_is_finite_def f32_le_def is_finite_pattern_def pattern_le_def
      pattern_defs)
  show ?thesis by (simp add: attention_is_softmax_formula demo_attention_prepared rows normal entry)
qed

end
