(* ===== verification/Test_Operator_Plugin.thy ===== *)
theory Test_Operator_Plugin
  imports Operator_Loader
begin

text \<open>
  The fixture \<open>vrb-test-operator-plugin\<close>, a conforming plugin that echoes its input, and
  what the loader promises about any plugin it accepts.
\<close>

section \<open>The fixture\<close>

text \<open>The environment its shutdown callback acts on: the marker variable and the files written.\<close>

record fixture_env =
  fe_marker :: "string option"
  fe_written :: "(string \<times> string) list"

definition fixture_operator_id :: u32 where "fixture_operator_id = 7"

definition fixture_query :: "fixture_env query_operator_fn" where
  "fixture_query index info env =
     (if index \<noteq> 0 then (status_invalid_argument, info, env)
      else (status_ok,
        operator_info_default\<lparr>in_operator_id := fixture_operator_id, in_operator_kind := raw_kind_gemm,
          in_backend_kind := raw_backend_cpu, in_capability_bits := cap_fp32 OR cap_host_bytes,
          in_name := c_name operator_name_capacity (byte_string ''fixture-gemm'')\<rparr>, env))"

definition fixture_output_size :: "fixture_env output_size_fn" where
  "fixture_output_size operator_id input input_len out_output_len env =
     (case out_output_len of
        None \<Rightarrow> (status_invalid_argument, 0, env)
      | Some old \<Rightarrow>
          if operator_id \<noteq> fixture_operator_id then (status_invalid_argument, old, env)
          else (status_ok, input_len, env))"

definition fixture_execute :: "fixture_env execute_operator_fn" where
  "fixture_execute request env =
     (case xr_output_len request of
        None \<Rightarrow> (status_invalid_argument, [], 0, env)
      | Some old \<Rightarrow>
          if xr_struct_size request < expected_execution_request_size
              \<or> xr_operator_id request \<noteq> fixture_operator_id
          then (status_invalid_argument, [], old, env)
          else if xr_input_len request > xr_output_capacity request
          then (status_buffer_too_small, [], old, env)
          else if xr_input_len request > 0 \<and> (xr_input request = None \<or> xr_output request = None)
          then (status_invalid_argument, [], old, env)
          else (case usize_try_from (xr_input_len request) of
                  None \<Rightarrow> (status_invalid_argument, [], old, env)
                | Some n \<Rightarrow>
                    (status_ok, if n > 0 then take n (the (xr_input request)) else [],
                     xr_input_len request, env)))"

definition fixture_shutdown :: "fixture_env \<Rightarrow> fixture_env" where
  "fixture_shutdown env =
     (case fe_marker env of
        None \<Rightarrow> env
      | Some path \<Rightarrow> env\<lparr>fe_written := fe_written env @ [(path, ''shutdown-called'' @ [CHR 0x0A])]\<rparr>)"

definition fixture_plugin :: "fixture_env operator_plugin" where
  "fixture_plugin =
     \<lparr>pd_abi_version = operator_plugin_abi_version, pd_struct_size = expected_operator_plugin_size,
      pd_name = c_name operator_plugin_name_capacity (byte_string ''operator-certification-fixture''),
      pd_operator_count = 1, pd_capability_bits = cap_host_bytes,
      pd_query_operator = Some fixture_query, pd_output_size = Some fixture_output_size,
      pd_execute = Some fixture_execute, pd_shutdown = Some fixture_shutdown\<rparr>"

definition fixture_kernel :: "u32 \<Rightarrow> bytes \<Rightarrow> i32 + bytes" where
  "fixture_kernel operator_id input =
     (if operator_id = fixture_operator_id then Inr input else Inl status_invalid_argument)"

interpretation fixture: operator_kernel fixture_output_size fixture_execute fixture_kernel "(=) env"
  for env :: fixture_env
proof (unfold_locales, goal_cases)
  case (1 p len input i v st n p')
  then show ?case
    by (auto simp: fixture_output_size_def fixture_kernel_def status_defs split: if_splits)
next
  case (2 p request input result v st written n p')
  have result: "result = input" "xr_operator_id request = fixture_operator_id"
    using 2(2) by (auto simp: fixture_kernel_def split: if_splits)
  then have "xr_input_len request = xr_output_capacity request"
    using 2(5,7) by (simp add: word_unat_eq_iff)
  with 2 result show ?case
    by (auto simp: fixture_execute_def word_gt_0 unat_eq_0 split: if_splits option.splits)
qed

section \<open>Loading\<close>

lemma abi_name_fixture:
  "abi_chars_to_string (c_name operator_name_capacity (byte_string ''fixture-gemm'')) = ''fixture-gemm''"
  "abi_chars_to_string (c_name operator_plugin_name_capacity (byte_string ''operator-certification-fixture'')) =
    ''operator-certification-fixture''"
  by code_simp+

definition fixture_state :: "fixture_env plugin_state" where
  "fixture_state =
     \<lparr>ls_plugin_name = ''operator-certification-fixture'', ls_max_output_bytes = 1024 * 1024 * 1024,
      ls_output_size = fixture_output_size, ls_execute = fixture_execute, ls_shutdown = Some fixture_shutdown\<rparr>"

definition fixture_library :: "fixture_env loaded_library" where
  "fixture_library =
     \<lparr>ll_plugin_name = ''operator-certification-fixture'',
      ll_operators = [\<lparr>do_plugin = fixture_state, do_operator_id = 7, do_name = ''fixture-gemm'',
        do_kind = KGemm, do_backend = Cpu, do_raw_capability_bits = 20\<rparr>]\<rparr>"

lemma fixture_loads:
  "load_library path (Descriptor fixture_plugin) env = Inr (fixture_library, plugin_cell_new env)"
proof -
  have upt: "[0..<unat (1 :: u32)] = [0]" by simp
  show ?thesis
    by (simp add: load_library_def load_with_policy_def load_descriptor_def fixture_plugin_def
      abi_name_fixture load_policy_default_def upt fixture_query_def check_operator_def
      operator_info_default_def fixture_library_def fixture_state_def dynamic_operator_of_def
      fixture_operator_id_def cap_fp32_def cap_host_bytes_def map_operator_kind_def map_backend_kind_def
      raw_kind_defs raw_backend_defs Let_def)
qed

text \<open>Through the registry, the loaded fixture echoes every input it can hold.\<close>

lemma fixture_echoes:
  assumes "length input \<le> 1024 * 1024 * 1024"
    and reg: "reg = register_into fixture_library (operator_registry_new first_compatible)"
  shows "operator_execute reg (operator_request_new KGemm) \<lparr>oi_input = input\<rparr> (plugin_cell_new env) =
    (Returned (Inr \<lparr>oo_bytes = input\<rparr>), plugin_cell_new env)"
proof -
  let ?op = "hd (ll_operators fixture_library)"
  have len: "u64_try_from (length input) = Some (of_nat (length input))"
    using assms(1) by (simp add: u64_try_from_def usize_max_def)
  have "fixture_kernel (do_operator_id ?op) input = Inr input"
    by (simp add: fixture_kernel_def fixture_library_def fixture_operator_id_def)
  moreover have "ls_output_size (do_plugin ?op) = fixture_output_size"
    "ls_execute (do_plugin ?op) = fixture_execute"
    "ls_max_output_bytes (do_plugin ?op) = 1024 * 1024 * 1024"
    by (simp_all add: fixture_library_def fixture_state_def)
  ultimately have "execute_plugin ?op input (plugin_cell_new env) = (Returned (Inr input), plugin_cell_new env)"
    using assms(1) fixture.execute_plugin_kernel [of ?op "plugin_cell_new env" env input _ undefined input, OF _ _ _ _ len]
    by (fastforce simp: plugin_cell_new_def isize_max_def)
  then show ?thesis
    by (simp add: reg register_into_new operator_execute_registered first_compatible_def
      first_preferred_def operator_compatible_def operator_request_new_def injected_operator_def
      dynamic_capabilities_def dynamic_execute_def fixture_library_def)
qed

section \<open>Properties\<close>

text \<open>
  C37. A plugin the loader accepts has the host's ABI version, a descriptor of at least the
  expected size, a non-empty name and between one and the permitted number of operators. The
  library has exactly that many, with distinct identifiers and non-empty names; all share one
  live plugin state under the policy's output limit and the descriptor's shutdown, and none
  advertises zero-copy.
\<close>

theorem load_accepts_valid:
  assumes "load_with_policy path dl policy p = Inr (library, cell)"
  shows "\<exists>d state. dl = Descriptor d
    \<and> pd_abi_version d = 1 \<and> expected_operator_plugin_size \<le> pd_struct_size d
    \<and> ll_plugin_name library = abi_chars_to_string (pd_name d) \<and> ll_plugin_name library \<noteq> []
    \<and> 0 < length (ll_operators library) \<and> length (ll_operators library) = unat (pd_operator_count d)
    \<and> length (ll_operators library) \<le> unat (lo_max_operators policy)
    \<and> distinct (map do_operator_id (ll_operators library))
    \<and> ls_max_output_bytes state = lo_max_output_bytes policy \<and> ls_shutdown state = pd_shutdown d
    \<and> (\<forall>operator \<in> set (ll_operators library). do_plugin operator = state \<and> do_name operator \<noteq> []
        \<and> \<not> oc_supports_zero_copy (op_capabilities (injected_operator operator)))
    \<and> \<not> pc_poisoned cell \<and> \<not> pc_shutdown_called cell"
proof -
  obtain d where dl: "dl = Descriptor d" and d: "load_descriptor d policy p = Inr (library, cell)"
    using assms by (auto simp: load_with_policy_def split: plugin_image.splits)
  show ?thesis
  proof (rule load_descriptor_ok [OF d], goal_cases)
    case (1 found p' output_size execute)
    have ids: "map do_operator_id (map (dynamic_operator_of st) found) = map fst found" for st :: "'a plugin_state"
      by (auto simp: dynamic_operator_of_def)
    show ?case
      using dl 1(1-10)
      by (intro exI [of _ d] exI [of _ "\<lparr>ls_plugin_name = abi_chars_to_string (pd_name d),
          ls_max_output_bytes = lo_max_output_bytes policy, ls_output_size = output_size,
          ls_execute = execute, ls_shutdown = pd_shutdown d\<rparr>"])
        (auto simp: 1(11,12) ids plugin_cell_new_def operator_plugin_abi_version_def
          injected_operator_def dynamic_capabilities_def dynamic_operator_of_def unat_gt_0
          word_le_nat_alt split: prod.splits simp del: map_map)
  qed
qed

theorem load_accepts_valid_witness:
  "length (ll_operators fixture_library) \<le> 4096 \<and> distinct (map do_operator_id (ll_operators fixture_library))"
proof -
  have "load_with_policy ''fixture.so'' (Descriptor fixture_plugin) load_policy_default
      \<lparr>fe_marker = None, fe_written = []\<rparr> =
      Inr (fixture_library, plugin_cell_new \<lparr>fe_marker = None, fe_written = []\<rparr>)"
    using fixture_loads by (simp add: load_library_def)
  from load_accepts_valid [OF this] show ?thesis
    by (simp add: load_policy_default_def)
qed

end
