(* ===== verification/Shared_Operators.thy ===== *)
theory Shared_Operators
  imports Registry Bytes
begin

text \<open>
  The crate \<open>vrb-shared-operators\<close>: borrowed memory regions and synchronization points,
  their validation, the default policy \<open>FirstCompatibleShared\<close> and the registry of
  operators on shared resources.
\<close>

section \<open>Data\<close>

datatype memory_handle_kind = Win32Kmt | Win32Nt | MemOpaqueFd | DmaBuf | MemCustom u32

datatype resource_access = ReadOnly | WriteOnly | ReadWrite

record shared_region =
  sr_handle_kind :: memory_handle_kind
  sr_handle :: u64
  sr_allocation_size :: u64
  sr_offset :: u64
  sr_length :: u64
  sr_access :: resource_access

datatype sync_handle_kind = Win32Opaque | SyncOpaqueFd | Timeline | SyncCustom u32

record shared_sync_point =
  sy_handle_kind :: sync_handle_kind
  sy_handle :: u64
  sy_value :: u64

datatype shared_operator_error =
    ShUnavailable string
  | ShExecution string
  | ShInvalidResource string
  | ShInvalidSynchronization string
  | ShNoCompatibleOperator operator_kind

record shared_request =
  sq_kind :: operator_kind
  sq_preferred_backend :: "backend_kind option"
  sq_required_memory_kind :: "memory_handle_kind option"
  sq_requires_synchronization :: bool
  sq_requires_proven_zero_copy :: bool

record shared_capabilities =
  sc_kind :: operator_kind
  sc_backend :: backend_kind
  sc_memory_kinds :: "memory_handle_kind list"
  sc_sync_kinds :: "sync_handle_kind list"
  sc_supports_external_synchronization :: bool
  sc_proven_zero_copy :: bool

record shared_invocation =
  si_metadata :: bytes
  si_resources :: "shared_region list"
  si_waits :: "shared_sync_point list"
  si_signals :: "shared_sync_point list"

record shared_output =
  so_receipt :: bytes

text \<open>What the methods of a \<open>dyn SharedOperator\<close> do; \<open>'w\<close> is the state they run in.\<close>

record 'w shared_operator =
  sp_name :: string
  sp_capabilities :: shared_capabilities
  sp_execute_shared :: "shared_invocation \<Rightarrow> 'w \<Rightarrow> (shared_operator_error + shared_output) unwinding \<times> 'w"

type_synonym 'w shared_policy =
  "shared_request \<Rightarrow> shared_invocation \<Rightarrow> 'w shared_operator list \<Rightarrow> 'w shared_operator option"

record 'w shared_registry =
  sg_operators :: "'w shared_operator kind_index"
  sg_policy :: "'w shared_policy"

section \<open>Validation\<close>

definition range_message :: "u64 \<Rightarrow> u64 \<Rightarrow> u64 \<Rightarrow> string" where
  "range_message offset end_offset allocation_size =
     ''shared-resource range ['' @ show_nat (unat offset) @ '', '' @ show_nat (unat end_offset) @
     '') exceeds allocation size '' @ show_nat (unat allocation_size)"

definition region_validate :: "shared_region \<Rightarrow> shared_operator_error + unit" where
  "region_validate r =
     (if sr_handle r = 0
      then Inl (ShInvalidResource ''external-memory handle must be non-zero'')
      else if sr_allocation_size r = 0 \<or> sr_length r = 0
      then Inl (ShInvalidResource ''shared-resource allocation and region length must be non-zero'')
      else and_then
        (ok_or (checked_add (sr_offset r) (sr_length r)) (ShInvalidResource ''shared-resource range overflow''))
        (\<lambda>end_offset.
          if end_offset > sr_allocation_size r
          then Inl (ShInvalidResource (range_message (sr_offset r) end_offset (sr_allocation_size r)))
          else Inr ()))"

definition sync_validate :: "shared_sync_point \<Rightarrow> shared_operator_error + unit" where
  "sync_validate p =
     (if sy_handle p = 0
      then Inl (ShInvalidSynchronization ''external synchronization handle must be non-zero'')
      else Inr ())"

definition invocation_validate :: "shared_invocation \<Rightarrow> shared_operator_error + unit" where
  "invocation_validate invocation =
     and_then (try_all region_validate (si_resources invocation)) (\<lambda>_.
     and_then (try_all sync_validate (si_waits invocation)) (\<lambda>_.
     try_all sync_validate (si_signals invocation)))"

section \<open>Selection and registry\<close>

definition shared_request_new :: "operator_kind \<Rightarrow> shared_request" where
  "shared_request_new kind =
     \<lparr>sq_kind = kind, sq_preferred_backend = None, sq_required_memory_kind = None,
      sq_requires_synchronization = False, sq_requires_proven_zero_copy = False\<rparr>"

definition shared_compatible :: "shared_request \<Rightarrow> shared_invocation \<Rightarrow> 'w shared_operator \<Rightarrow> bool" where
  "shared_compatible request invocation operator =
     (let capabilities = sp_capabilities operator;
          invocation_uses_sync = (si_waits invocation \<noteq> [] \<or> si_signals invocation \<noteq> [])
      in sc_kind capabilities = sq_kind request
         \<and> (case sq_required_memory_kind request of
              None \<Rightarrow> True
            | Some kind \<Rightarrow> kind \<in> set (sc_memory_kinds capabilities))
         \<and> list_all (\<lambda>resource. sr_handle_kind resource \<in> set (sc_memory_kinds capabilities))
             (si_resources invocation)
         \<and> (\<not> sq_requires_synchronization request \<or> sc_supports_external_synchronization capabilities)
         \<and> (\<not> invocation_uses_sync \<or> sc_supports_external_synchronization capabilities)
         \<and> list_all (\<lambda>point. sy_handle_kind point \<in> set (sc_sync_kinds capabilities))
             (si_waits invocation @ si_signals invocation)
         \<and> (\<not> sq_requires_proven_zero_copy request \<or> sc_proven_zero_copy capabilities))"

definition first_compatible_shared :: "'w shared_policy" where
  "first_compatible_shared request invocation operators =
     first_preferred (shared_compatible request invocation)
       (\<lambda>operator. sc_backend (sp_capabilities operator)) (sq_preferred_backend request) operators"

definition shared_registry_new :: "'w shared_policy \<Rightarrow> 'w shared_registry" where
  "shared_registry_new policy = \<lparr>sg_operators = [], sg_policy = policy\<rparr>"

definition shared_register :: "'w shared_operator \<Rightarrow> 'w shared_registry \<Rightarrow> 'w shared_registry" where
  "shared_register operator reg =
     reg\<lparr>sg_operators := push_operator (sc_kind (sp_capabilities operator)) operator (sg_operators reg)\<rparr>"

definition shared_execute ::
  "'w shared_registry \<Rightarrow> shared_request \<Rightarrow> shared_invocation \<Rightarrow> 'w
    \<Rightarrow> (shared_operator_error + shared_output) unwinding \<times> 'w" where
  "shared_execute reg request invocation w =
     (case invocation_validate invocation of
        Inl e \<Rightarrow> (Returned (Inl e), w)
      | Inr _ \<Rightarrow>
          (case sg_policy reg request invocation (candidates_of (sg_operators reg) (sq_kind request)) of
             None \<Rightarrow> (Returned (Inl (ShNoCompatibleOperator (sq_kind request))), w)
           | Some operator \<Rightarrow> sp_execute_shared operator invocation w))"

definition shared_registry_len :: "'w shared_registry \<Rightarrow> nat" where
  "shared_registry_len reg = count_operators (sg_operators reg)"

definition shared_registry_is_empty :: "'w shared_registry \<Rightarrow> bool" where
  "shared_registry_is_empty reg = (sg_operators reg = [])"

section \<open>Laws\<close>

interpretation first_shared: operator_selection first_compatible_shared shared_compatible
  by unfold_locales (auto simp: first_compatible_shared_def dest: first_preferred_mem
    simp: first_preferred_None)

text \<open>What a validated region promises: a non-empty range inside its allocation.\<close>

definition region_ok :: "shared_region \<Rightarrow> bool" where
  "region_ok r = (sr_handle r \<noteq> 0 \<and> 0 < unat (sr_length r) \<and>
     unat (sr_offset r) + unat (sr_length r) \<le> unat (sr_allocation_size r))"

lemma region_validate_iff: "region_validate r = Inr () \<longleftrightarrow> region_ok r"
proof -
  have pos: "0 < unat (sr_length r) \<longleftrightarrow> sr_length r \<noteq> 0" by (simp add: unat_gt_0)
  have add: "checked_add (sr_offset r) (sr_length r) = Some z \<Longrightarrow>
      \<not> sr_allocation_size r < z \<longleftrightarrow>
      unat (sr_offset r) + unat (sr_length r) \<le> unat (sr_allocation_size r)" for z
    by (simp add: checked_add_iff word_less_nat_alt not_less)
  have lt: "unat (sr_allocation_size r) < 2 ^ LENGTH(64)" by (rule unsigned_less)
  have over: "checked_add (sr_offset r) (sr_length r) = None \<Longrightarrow>
      \<not> unat (sr_offset r) + unat (sr_length r) \<le> unat (sr_allocation_size r)"
    using lt by (simp add: checked_add_None_iff)
  show ?thesis
    using add over pos
    by (cases "checked_add (sr_offset r) (sr_length r)") (auto simp: region_validate_def region_ok_def)
qed

lemma invocation_validate_iff:
  "invocation_validate invocation = Inr () \<longleftrightarrow>
     (\<forall>r \<in> set (si_resources invocation). region_ok r) \<and>
     (\<forall>p \<in> set (si_waits invocation) \<union> set (si_signals invocation). sy_handle p \<noteq> 0)"
  by (auto simp: invocation_validate_def and_then_Inr_iff try_all_ok_iff region_validate_iff
      sync_validate_def)

definition shared_registered :: "'w shared_policy \<Rightarrow> 'w shared_operator list \<Rightarrow> 'w shared_registry" where
  "shared_registered policy operators = fold shared_register operators (shared_registry_new policy)"

lemma fold_shared_register:
  "fold shared_register os reg =
     reg\<lparr>sg_operators := push_all (\<lambda>x. sc_kind (sp_capabilities x)) os (sg_operators reg)\<rparr>"
  by (induction os arbitrary: reg) (simp_all add: shared_register_def)

lemma shared_registered_eq:
  "shared_registered policy os =
     \<lparr>sg_operators = push_all (\<lambda>x. sc_kind (sp_capabilities x)) os [], sg_policy = policy\<rparr>"
  by (simp add: shared_registered_def shared_registry_new_def fold_shared_register)

lemma first_compatible_shared_index:
  "first_compatible_shared request invocation
       (candidates_of (sg_operators (shared_registered policy os)) (sq_kind request)) =
     first_compatible_shared request invocation os"
proof -
  have "first_compatible_shared request invocation (filter (\<lambda>x. sc_kind (sp_capabilities x) = sq_kind request) os)
      = first_compatible_shared request invocation os"
    unfolding first_compatible_shared_def first_preferred_filter
    by (rule first_preferred_cong) (auto simp: shared_compatible_def Let_def)
  then show ?thesis by (simp add: shared_registered_eq candidates_push_all)
qed

text \<open>An operator reached through the registry can take every handle of the invocation.\<close>

lemma reached_operator_capable:
  assumes "first_compatible_shared request invocation os = Some operator"
  shows "operator \<in> set os" "shared_compatible request invocation operator"
proof -
  have "first_compatible_shared request invocation
      (candidates_of (push_all (\<lambda>x. sc_kind (sp_capabilities x)) os []) (sq_kind request)) = Some operator"
    using assms first_compatible_shared_index [of request invocation first_compatible_shared os]
    by (simp add: shared_registered_eq)
  from first_shared.registered [OF this]
  show "operator \<in> set os" "shared_compatible request invocation operator" by simp_all
qed

section \<open>Properties\<close>

text \<open>
  C39. Executing a shared request validates the invocation first and runs nothing when it is
  refused. Otherwise the registry, which files operators by kind, behaves as one scan of all
  registered operators in registration order: the first one of the preferred backend among
  those that can take the invocation, else the first of them; \<open>NoCompatibleOperator\<close> when
  there is none. Its length counts the registrations.
\<close>

theorem shared_dispatch_scan:
  "shared_execute (shared_registered first_compatible_shared os) request invocation w =
     (case invocation_validate invocation of
        Inl e \<Rightarrow> (Returned (Inl e), w)
      | Inr _ \<Rightarrow>
          (let suitable = filter (shared_compatible request invocation) os;
               chosen = filter (\<lambda>x. sq_preferred_backend request = Some (sc_backend (sp_capabilities x))) suitable
           in if chosen \<noteq> [] then sp_execute_shared (hd chosen) invocation w
              else if suitable \<noteq> [] then sp_execute_shared (hd suitable) invocation w
              else (Returned (Inl (ShNoCompatibleOperator (sq_kind request))), w)))
   \<and> shared_registry_len (shared_registered first_compatible_shared os) = length os
   \<and> shared_registry_is_empty (shared_registered first_compatible_shared os) = (os = [])"
proof -
  have "sg_policy (shared_registered first_compatible_shared os) = first_compatible_shared"
    by (simp add: shared_registered_eq)
  then have "shared_execute (shared_registered first_compatible_shared os) request invocation w =
      (case invocation_validate invocation of
         Inl e \<Rightarrow> (Returned (Inl e), w)
       | Inr _ \<Rightarrow>
           (case first_compatible_shared request invocation os of
              None \<Rightarrow> (Returned (Inl (ShNoCompatibleOperator (sq_kind request))), w)
            | Some operator \<Rightarrow> sp_execute_shared operator invocation w))"
    by (simp add: shared_execute_def first_compatible_shared_index cong: sum.case_cong option.case_cong)
  then show ?thesis
    by (simp add: first_compatible_shared_def first_preferred_hd Let_def shared_registered_eq
      shared_registry_len_def shared_registry_is_empty_def count_push_all_new push_all_empty_iff
      cong: sum.case_cong)
qed

definition demo_region :: shared_region where
  "demo_region = \<lparr>sr_handle_kind = MemOpaqueFd, sr_handle = 7, sr_allocation_size = 4096,
     sr_offset = 1024, sr_length = 3072, sr_access = ReadWrite\<rparr>"

definition demo_invocation :: shared_invocation where
  "demo_invocation = \<lparr>si_metadata = [], si_resources = [demo_region],
     si_waits = [\<lparr>sy_handle_kind = Timeline, sy_handle = 3, sy_value = 0\<rparr>], si_signals = []\<rparr>"

text \<open>
  C40. An invocation is accepted exactly when every region is a non-empty range inside its
  allocation, without wrap-around, behind a non-zero handle, and every synchronization point
  has a non-zero handle; and an operator the policy reaches supports the kind of every one of
  those handles.
\<close>

theorem shared_invocation_bounds:
  "(invocation_validate invocation = Inr () \<longleftrightarrow>
     (\<forall>r \<in> set (si_resources invocation). sr_handle r \<noteq> 0 \<and> 0 < unat (sr_length r) \<and>
        unat (sr_offset r) + unat (sr_length r) \<le> unat (sr_allocation_size r)) \<and>
     (\<forall>p \<in> set (si_waits invocation) \<union> set (si_signals invocation). sy_handle p \<noteq> 0)) \<and>
   (first_compatible_shared request invocation os = Some operator \<longrightarrow>
     (\<forall>r \<in> set (si_resources invocation).
        sr_handle_kind r \<in> set (sc_memory_kinds (sp_capabilities operator))) \<and>
     (\<forall>p \<in> set (si_waits invocation) \<union> set (si_signals invocation).
        sy_handle_kind p \<in> set (sc_sync_kinds (sp_capabilities operator))))"
  using reached_operator_capable(2) [of request invocation os operator]
  by (auto simp: invocation_validate_iff region_ok_def shared_compatible_def Let_def list_all_iff)

definition demo_shared_operator :: "string \<Rightarrow> memory_handle_kind list \<Rightarrow> unit shared_operator" where
  "demo_shared_operator name kinds =
     \<lparr>sp_name = name,
      sp_capabilities = \<lparr>sc_kind = KGemm, sc_backend = Hip, sc_memory_kinds = kinds,
        sc_sync_kinds = [Timeline], sc_supports_external_synchronization = True, sc_proven_zero_copy = True\<rparr>,
      sp_execute_shared = (\<lambda>invocation w. (Returned (Inr \<lparr>so_receipt = []\<rparr>), w))\<rparr>"

theorem shared_invocation_bounds_witness:
  "invocation_validate demo_invocation = Inr () \<and>
   sr_handle_kind demo_region \<in> set (sc_memory_kinds (sp_capabilities (demo_shared_operator ''b'' [DmaBuf, MemOpaqueFd])))"
proof -
  have "first_compatible_shared (shared_request_new KGemm) demo_invocation
      [demo_shared_operator ''a'' [], demo_shared_operator ''b'' [DmaBuf, MemOpaqueFd]] =
      Some (demo_shared_operator ''b'' [DmaBuf, MemOpaqueFd])"
    by (simp add: first_compatible_shared_def first_preferred_def shared_compatible_def
      shared_request_new_def demo_invocation_def demo_region_def demo_shared_operator_def)
  then show ?thesis
    using shared_invocation_bounds [of demo_invocation "shared_request_new KGemm"
        "[demo_shared_operator ''a'' [], demo_shared_operator ''b'' [DmaBuf, MemOpaqueFd]]"
        "demo_shared_operator ''b'' [DmaBuf, MemOpaqueFd]"]
    by (simp add: demo_invocation_def demo_region_def)
qed

end
