(* ===== verification/Shared_Operator_Loader.thy ===== *)
theory Shared_Operator_Loader
  imports Plugin_Abi Shared_Operators
begin

text \<open>
  The crates \<open>vrb-shared-operator-plugin-api\<close> and \<open>vrb-shared-operator-loader\<close>: the C ABI of
  operators on borrowed external resources, the validation of a plugin's descriptor, operators
  and capabilities, and execution under the host's limits. Pointers are options, as in
  \<open>Operator_Loader\<close>.
\<close>

section \<open>The ABI\<close>

definition shared_plugin_abi_version :: u32 where "shared_plugin_abi_version = 1"
definition shared_operator_name_capacity :: nat where "shared_operator_name_capacity = 128"
definition shared_plugin_name_capacity :: nat where "shared_plugin_name_capacity = 128"

definition shcap_external_resource :: u64 where "shcap_external_resource = 1"
definition shcap_external_synchronization :: u64 where "shcap_external_synchronization = 2"
definition shcap_proven_zero_copy :: u64 where "shcap_proven_zero_copy = 4"
definition shcap_fp16 :: u64 where "shcap_fp16 = 8"
definition shcap_fp32 :: u64 where "shcap_fp32 = 16"
definition shcap_int8 :: u64 where "shcap_int8 = 32"

definition raw_mem_win32_kmt :: u32 where "raw_mem_win32_kmt = 1"
definition raw_mem_win32_nt :: u32 where "raw_mem_win32_nt = 2"
definition raw_mem_opaque_fd :: u32 where "raw_mem_opaque_fd = 3"
definition raw_mem_dma_buf :: u32 where "raw_mem_dma_buf = 4"

lemmas raw_mem_defs = raw_mem_win32_kmt_def raw_mem_win32_nt_def raw_mem_opaque_fd_def raw_mem_dma_buf_def

definition raw_access_read_only :: u32 where "raw_access_read_only = 1"
definition raw_access_write_only :: u32 where "raw_access_write_only = 2"
definition raw_access_read_write :: u32 where "raw_access_read_write = 3"

definition raw_sync_win32_opaque :: u32 where "raw_sync_win32_opaque = 1"
definition raw_sync_opaque_fd :: u32 where "raw_sync_opaque_fd = 2"
definition raw_sync_timeline :: u32 where "raw_sync_timeline = 3"

lemmas raw_sync_defs = raw_sync_win32_opaque_def raw_sync_opaque_fd_def raw_sync_timeline_def

record abi_region =
  ar_struct_size :: u32
  ar_handle_kind :: u32
  ar_access :: u32
  ar_handle :: u64
  ar_allocation_size :: u64
  ar_offset :: u64
  ar_length :: u64

definition expected_region_size :: u32 where
  "expected_region_size = c_size_of [c_u32, c_u32, c_u32, c_u32, c_u64, c_u64, c_u64, c_u64, c_array 4 c_u64]"

definition abi_region_default :: abi_region where
  "abi_region_default = \<lparr>ar_struct_size = expected_region_size, ar_handle_kind = 0, ar_access = 0,
     ar_handle = 0, ar_allocation_size = 0, ar_offset = 0, ar_length = 0\<rparr>"

record abi_sync_point =
  as_struct_size :: u32
  as_handle_kind :: u32
  as_handle :: u64
  as_value :: u64
  as_flags :: u64

definition expected_sync_point_size :: u32 where
  "expected_sync_point_size = c_size_of [c_u32, c_u32, c_u64, c_u64, c_u64, c_array 4 c_u64]"

definition abi_sync_point_default :: abi_sync_point where
  "abi_sync_point_default = \<lparr>as_struct_size = expected_sync_point_size, as_handle_kind = 0,
     as_handle = 0, as_value = 0, as_flags = 0\<rparr>"

record shared_operator_info =
  sn_struct_size :: u32
  sn_operator_id :: u32
  sn_operator_kind :: u32
  sn_backend_kind :: u32
  sn_capability_bits :: u64
  sn_memory_kind_bits :: u64
  sn_sync_kind_bits :: u64
  sn_name :: bytes

definition expected_shared_info_size :: u32 where
  "expected_shared_info_size = c_size_of [c_u32, c_u32, c_u32, c_u32, c_u64, c_u64, c_u64,
     c_array shared_operator_name_capacity c_char, c_array 4 c_u64]"

definition shared_operator_info_default :: shared_operator_info where
  "shared_operator_info_default = \<lparr>sn_struct_size = expected_shared_info_size, sn_operator_id = 0,
     sn_operator_kind = raw_kind_custom, sn_backend_kind = raw_backend_plugin, sn_capability_bits = 0,
     sn_memory_kind_bits = 0, sn_sync_kind_bits = 0, sn_name = replicate shared_operator_name_capacity 0\<rparr>"

record shared_execution_request =
  sx_struct_size :: u32
  sx_operator_id :: u32
  sx_flags :: u64
  sx_metadata :: "bytes option"
  sx_metadata_len :: u64
  sx_resources :: "abi_region list option"
  sx_resource_count :: u32
  sx_waits :: "abi_sync_point list option"
  sx_wait_count :: u32
  sx_signals :: "abi_sync_point list option"
  sx_signal_count :: u32
  sx_receipt :: "bytes option"
  sx_receipt_capacity :: u64
  sx_receipt_len :: "u64 option"

definition expected_shared_request_size :: u32 where
  "expected_shared_request_size = c_size_of [c_u32, c_u32, c_u64, c_pointer, c_u64, c_pointer, c_u32, c_u32,
     c_pointer, c_u32, c_u32, c_pointer, c_u32, c_u32, c_pointer, c_u64, c_pointer, c_array 4 c_u64]"

definition shared_execution_request_default :: shared_execution_request where
  "shared_execution_request_default = \<lparr>sx_struct_size = expected_shared_request_size, sx_operator_id = 0,
     sx_flags = 0, sx_metadata = None, sx_metadata_len = 0, sx_resources = None, sx_resource_count = 0,
     sx_waits = None, sx_wait_count = 0, sx_signals = None, sx_signal_count = 0, sx_receipt = None,
     sx_receipt_capacity = 0, sx_receipt_len = None\<rparr>"

type_synonym 'p query_shared_fn = "u32 \<Rightarrow> shared_operator_info \<Rightarrow> 'p \<Rightarrow> i32 \<times> shared_operator_info \<times> 'p"
type_synonym 'p execute_shared_fn = "shared_execution_request \<Rightarrow> 'p \<Rightarrow> i32 \<times> bytes \<times> u64 \<times> 'p"

record 'p shared_plugin =
  sd_abi_version :: u32
  sd_struct_size :: u32
  sd_name :: bytes
  sd_operator_count :: u32
  sd_capability_bits :: u64
  sd_query_operator :: "'p query_shared_fn option"
  sd_execute :: "'p execute_shared_fn option"
  sd_shutdown :: "('p \<Rightarrow> 'p) option"

definition expected_shared_plugin_size :: u32 where
  "expected_shared_plugin_size = c_size_of [c_u32, c_u32, c_array shared_plugin_name_capacity c_char,
     c_u32, c_u32, c_u64, c_pointer, c_pointer, c_pointer, c_pointer, c_array 5 c_pointer]"

text \<open>What the platform loader and the entry point give for a path.\<close>

datatype 'p shared_plugin_image =
    ShNotLoadable string
  | ShNoEntrySymbol string
  | ShNullDescriptorPointer
  | ShDescriptor "'p shared_plugin"

section \<open>The loader's data\<close>

record shared_load_policy =
  sl_max_operators :: u32
  sl_max_metadata_bytes :: u64
  sl_max_resources :: u32
  sl_max_sync_points :: u32
  sl_max_receipt_bytes :: u64

definition shared_load_policy_default :: shared_load_policy where
  "shared_load_policy_default = \<lparr>sl_max_operators = 4096, sl_max_metadata_bytes = 1024 * 1024,
     sl_max_resources = 1024, sl_max_sync_points = 4096, sl_max_receipt_bytes = 64 * 1024\<rparr>"

datatype shared_load_error =
    SlLoad string string
  | SlMissingEntry string
  | SlNullDescriptor
  | SlAbiVersion u32 u32
  | SlDescriptorTooSmall u32 u32
  | SlEmptyPluginName
  | SlNoOperators
  | SlTooManyOperators u32 u32
  | SlMissingQueryOperator
  | SlMissingExecute
  | SlQueryStatus u32 i32
  | SlOperatorDescriptorTooSmall u32 u32 u32
  | SlEmptyOperatorName u32
  | SlDuplicateOperatorId u32
  | SlInvalidCapabilities u32 string

datatype shared_execution_error =
    SxPoisoned
  | SxMetadataTooLarge u64 u64
  | SxTooManyResources u32 u32
  | SxTooManySyncPoints u32 u32
  | SxLengthUnsupported
  | SxPluginStatus i32
  | SxReceiptTooLarge u64 u64
  | SxReceiptCapacityUnsupported u64
  | SxInvalidInvocation shared_operator_error

fun operator_kind_debug :: "operator_kind \<Rightarrow> string" where
  "operator_kind_debug KGemm = ''Gemm''"
| "operator_kind_debug KAttention = ''Attention''"
| "operator_kind_debug KQuantize = ''Quantize''"
| "operator_kind_debug KDequantize = ''Dequantize''"
| "operator_kind_debug KTransform = ''Transform''"
| "operator_kind_debug KCustom = ''Custom''"

fun shared_operator_error_to_string :: "shared_operator_error \<Rightarrow> string" where
  "shared_operator_error_to_string (ShUnavailable s) = ''shared operator is unavailable: '' @ s"
| "shared_operator_error_to_string (ShExecution s) = ''shared operator execution failed: '' @ s"
| "shared_operator_error_to_string (ShInvalidResource s) = ''invalid shared resource: '' @ s"
| "shared_operator_error_to_string (ShInvalidSynchronization s) =
     ''invalid external synchronization point: '' @ s"
| "shared_operator_error_to_string (ShNoCompatibleOperator kind) =
     ''no compatible shared operator registered for '' @ operator_kind_debug kind"

fun shared_execution_error_to_string :: "shared_execution_error \<Rightarrow> string" where
  "shared_execution_error_to_string SxPoisoned = ''shared-operator plugin state lock is poisoned''"
| "shared_execution_error_to_string (SxMetadataTooLarge actual maximum) =
     ''shared invocation metadata is '' @ show_nat (unat actual) @ '' bytes, exceeding host limit '' @
     show_nat (unat maximum)"
| "shared_execution_error_to_string (SxTooManyResources actual maximum) =
     ''shared invocation has '' @ show_nat (unat actual) @ '' resources, exceeding host limit '' @
     show_nat (unat maximum)"
| "shared_execution_error_to_string (SxTooManySyncPoints actual maximum) =
     ''shared invocation has '' @ show_nat (unat actual) @
     '' synchronization points, exceeding host limit '' @ show_nat (unat maximum)"
| "shared_execution_error_to_string SxLengthUnsupported =
     ''shared invocation length cannot be represented by the ABI''"
| "shared_execution_error_to_string (SxPluginStatus st) =
     ''shared operator plugin returned status '' @ show_i32 st"
| "shared_execution_error_to_string (SxReceiptTooLarge actual capacity) =
     ''shared operator receipt length '' @ show_nat (unat actual) @ '' exceeds host capacity '' @
     show_nat (unat capacity)"
| "shared_execution_error_to_string (SxReceiptCapacityUnsupported n) =
     ''shared operator receipt capacity '' @ show_nat (unat n) @ '' cannot be represented on this host''"
| "shared_execution_error_to_string (SxInvalidInvocation e) = shared_operator_error_to_string e"

record 'p shared_plugin_state =
  st_plugin_name :: string
  st_policy :: shared_load_policy
  st_execute :: "'p execute_shared_fn"
  st_shutdown :: "('p \<Rightarrow> 'p) option"

record 'p dynamic_shared_operator =
  ds_plugin :: "'p shared_plugin_state"
  ds_operator_id :: u32
  ds_name :: string
  ds_capabilities :: shared_capabilities
  ds_raw_capability_bits :: u64

record 'p loaded_shared_library =
  lh_plugin_name :: string
  lh_operators :: "'p dynamic_shared_operator list"

section \<open>Tags and bits\<close>

text \<open>The crate's own copies of the tag maps; the tags are those of \<open>Plugin_Abi\<close>.\<close>

definition shared_map_operator_kind :: "u32 \<Rightarrow> operator_kind" where
  "shared_map_operator_kind kind = map_operator_kind kind"

definition shared_map_backend_kind :: "u32 \<Rightarrow> backend_kind" where
  "shared_map_backend_kind kind = map_backend_kind kind"

definition bit_for :: "u32 \<Rightarrow> u64" where
  "bit_for value = (if value < 64 then push_bit (unat value) 1 else 0)"

definition map_memory_kinds :: "u64 \<Rightarrow> memory_handle_kind list" where
  "map_memory_kinds bits =
     map snd (filter (\<lambda>(raw, kind). bits AND bit_for raw \<noteq> 0)
       [(raw_mem_win32_kmt, Win32Kmt), (raw_mem_win32_nt, Win32Nt),
        (raw_mem_opaque_fd, MemOpaqueFd), (raw_mem_dma_buf, DmaBuf)])"

definition map_sync_kinds :: "u64 \<Rightarrow> sync_handle_kind list" where
  "map_sync_kinds bits =
     map snd (filter (\<lambda>(raw, kind). bits AND bit_for raw \<noteq> 0)
       [(raw_sync_win32_opaque, Win32Opaque), (raw_sync_opaque_fd, SyncOpaqueFd),
        (raw_sync_timeline, Timeline)])"

fun memory_kind_to_raw :: "memory_handle_kind \<Rightarrow> u32" where
  "memory_kind_to_raw Win32Kmt = raw_mem_win32_kmt"
| "memory_kind_to_raw Win32Nt = raw_mem_win32_nt"
| "memory_kind_to_raw MemOpaqueFd = raw_mem_opaque_fd"
| "memory_kind_to_raw DmaBuf = raw_mem_dma_buf"
| "memory_kind_to_raw (MemCustom value) = value"

fun sync_kind_to_raw :: "sync_handle_kind \<Rightarrow> u32" where
  "sync_kind_to_raw Win32Opaque = raw_sync_win32_opaque"
| "sync_kind_to_raw SyncOpaqueFd = raw_sync_opaque_fd"
| "sync_kind_to_raw Timeline = raw_sync_timeline"
| "sync_kind_to_raw (SyncCustom value) = value"

definition map_resource_to_abi :: "shared_region \<Rightarrow> abi_region" where
  "map_resource_to_abi r = abi_region_default\<lparr>ar_handle_kind := memory_kind_to_raw (sr_handle_kind r),
     ar_access := (case sr_access r of
         ReadOnly \<Rightarrow> raw_access_read_only
       | WriteOnly \<Rightarrow> raw_access_write_only
       | ReadWrite \<Rightarrow> raw_access_read_write),
     ar_handle := sr_handle r, ar_allocation_size := sr_allocation_size r,
     ar_offset := sr_offset r, ar_length := sr_length r\<rparr>"

definition map_sync_to_abi :: "shared_sync_point \<Rightarrow> abi_sync_point" where
  "map_sync_to_abi p = abi_sync_point_default\<lparr>as_handle_kind := sync_kind_to_raw (sy_handle_kind p),
     as_handle := sy_handle p, as_value := sy_value p\<rparr>"

definition slice_ptr :: "'a list \<Rightarrow> 'a list option" where
  "slice_ptr xs = (if xs = [] then None else Some xs)"

section \<open>Loading\<close>

definition validate_plugin_descriptor :: "'p shared_plugin \<Rightarrow> shared_load_policy \<Rightarrow> shared_load_error + unit" where
  "validate_plugin_descriptor d policy =
     (if sd_abi_version d \<noteq> shared_plugin_abi_version
      then Inl (SlAbiVersion (sd_abi_version d) shared_plugin_abi_version)
      else if sd_struct_size d < expected_shared_plugin_size
      then Inl (SlDescriptorTooSmall (sd_struct_size d) expected_shared_plugin_size)
      else if abi_chars_to_string (sd_name d) = [] then Inl SlEmptyPluginName
      else if sd_operator_count d = 0 then Inl SlNoOperators
      else if sd_operator_count d > sl_max_operators policy
      then Inl (SlTooManyOperators (sd_operator_count d) (sl_max_operators policy))
      else Inr ())"

definition validate_capabilities :: "u32 \<Rightarrow> u64 \<Rightarrow> shared_operator_info \<Rightarrow> shared_load_error + unit" where
  "validate_capabilities operator_id bits info =
     (if bits AND shcap_proven_zero_copy \<noteq> 0 \<and> bits AND shcap_external_resource = 0
      then Inl (SlInvalidCapabilities operator_id ''proven zero-copy requires external-resource capability'')
      else if bits AND shcap_external_resource \<noteq> 0 \<and> sn_memory_kind_bits info = 0
      then Inl (SlInvalidCapabilities operator_id
        ''external-resource capability requires at least one memory-handle kind'')
      else if bits AND shcap_external_synchronization \<noteq> 0 \<and> sn_sync_kind_bits info = 0
      then Inl (SlInvalidCapabilities operator_id
        ''external-synchronization capability requires at least one sync-handle kind'')
      else Inr ())"

type_synonym shared_discovered = "u32 \<times> string \<times> u64 \<times> shared_capabilities"

definition capabilities_of :: "u64 \<Rightarrow> shared_operator_info \<Rightarrow> shared_capabilities" where
  "capabilities_of raw_bits info =
     \<lparr>sc_kind = shared_map_operator_kind (sn_operator_kind info),
      sc_backend = shared_map_backend_kind (sn_backend_kind info),
      sc_memory_kinds = map_memory_kinds (sn_memory_kind_bits info),
      sc_sync_kinds = map_sync_kinds (sn_sync_kind_bits info),
      sc_supports_external_synchronization = (raw_bits AND shcap_external_synchronization \<noteq> 0),
      sc_proven_zero_copy = (raw_bits AND shcap_proven_zero_copy \<noteq> 0)\<rparr>"

text \<open>The checks on one queried operator; \<open>ids\<close> lists the identifiers seen so far.\<close>

definition check_shared_operator ::
  "u32 \<Rightarrow> u32 list \<Rightarrow> u64 \<Rightarrow> i32 \<Rightarrow> shared_operator_info \<Rightarrow> shared_load_error + shared_discovered" where
  "check_shared_operator index ids plugin_bits query_status info =
     (if query_status \<noteq> status_ok then Inl (SlQueryStatus index query_status)
      else if sn_struct_size info < expected_shared_info_size
      then Inl (SlOperatorDescriptorTooSmall index (sn_struct_size info) expected_shared_info_size)
      else let name = abi_chars_to_string (sn_name info)
      in if name = [] then Inl (SlEmptyOperatorName index)
      else if sn_operator_id info \<in> set ids then Inl (SlDuplicateOperatorId (sn_operator_id info))
      else let raw_bits = sn_capability_bits info OR plugin_bits
      in and_then (validate_capabilities (sn_operator_id info) raw_bits info) (\<lambda>_.
           Inr (sn_operator_id info, name, raw_bits, capabilities_of raw_bits info)))"

fun discover_shared_operators ::
  "'p query_shared_fn \<Rightarrow> u64 \<Rightarrow> nat list \<Rightarrow> u32 list \<Rightarrow> shared_discovered list \<Rightarrow> 'p
    \<Rightarrow> shared_load_error + shared_discovered list \<times> 'p" where
  "discover_shared_operators query_operator plugin_bits [] ids found p = Inr (found, p)"
| "discover_shared_operators query_operator plugin_bits (index # rest) ids found p =
     (case query_operator (of_nat index) shared_operator_info_default p of
        (query_status, info, p') \<Rightarrow>
          and_then (check_shared_operator (of_nat index) ids plugin_bits query_status info) (\<lambda>d.
            discover_shared_operators query_operator plugin_bits rest (fst d # ids) (found @ [d]) p'))"

definition dynamic_shared_operator_of :: "'p shared_plugin_state \<Rightarrow> shared_discovered \<Rightarrow> 'p dynamic_shared_operator" where
  "dynamic_shared_operator_of state d =
     (case d of (operator_id, name, raw_capability_bits, capabilities) \<Rightarrow>
        \<lparr>ds_plugin = state, ds_operator_id = operator_id, ds_name = name, ds_capabilities = capabilities,
         ds_raw_capability_bits = raw_capability_bits\<rparr>)"

definition load_shared_descriptor ::
  "'p shared_plugin \<Rightarrow> shared_load_policy \<Rightarrow> 'p
    \<Rightarrow> shared_load_error + 'p loaded_shared_library \<times> 'p plugin_cell" where
  "load_shared_descriptor d policy p =
     and_then (validate_plugin_descriptor d policy) (\<lambda>_.
     let plugin_name = abi_chars_to_string (sd_name d) in
     and_then (ok_or (sd_query_operator d) SlMissingQueryOperator) (\<lambda>query_operator.
     and_then (ok_or (sd_execute d) SlMissingExecute) (\<lambda>execute.
     and_then (discover_shared_operators query_operator (sd_capability_bits d)
         [0..<unat (sd_operator_count d)] [] [] p) (\<lambda>(found, p').
       let state = \<lparr>st_plugin_name = plugin_name, st_policy = policy, st_execute = execute,
             st_shutdown = sd_shutdown d\<rparr>
       in Inr (\<lparr>lh_plugin_name = plugin_name, lh_operators = map (dynamic_shared_operator_of state) found\<rparr>,
            plugin_cell_new p')))))"

definition load_shared_with_policy ::
  "string \<Rightarrow> 'p shared_plugin_image \<Rightarrow> shared_load_policy \<Rightarrow> 'p
    \<Rightarrow> shared_load_error + 'p loaded_shared_library \<times> 'p plugin_cell" where
  "load_shared_with_policy path dl policy p =
     (case dl of
        ShNotLoadable e \<Rightarrow> Inl (SlLoad path e)
      | ShNoEntrySymbol e \<Rightarrow> Inl (SlMissingEntry e)
      | ShNullDescriptorPointer \<Rightarrow> Inl SlNullDescriptor
      | ShDescriptor d \<Rightarrow> load_shared_descriptor d policy p)"

definition load_shared_library ::
  "string \<Rightarrow> 'p shared_plugin_image \<Rightarrow> 'p \<Rightarrow> shared_load_error + 'p loaded_shared_library \<times> 'p plugin_cell" where
  "load_shared_library path dl p = load_shared_with_policy path dl shared_load_policy_default p"

section \<open>Execution\<close>

text \<open>The checks before the buffers are built, ending with the counts the request carries.\<close>

definition check_limits :: "shared_load_policy \<Rightarrow> shared_invocation \<Rightarrow> shared_execution_error + u64 \<times> u32" where
  "check_limits policy invocation =
     and_then (map_err SxInvalidInvocation (invocation_validate invocation)) (\<lambda>_.
     and_then (ok_or (u64_try_from (length (si_metadata invocation))) SxLengthUnsupported) (\<lambda>metadata_len.
     and_then (ensure (\<not> metadata_len > sl_max_metadata_bytes policy)
       (SxMetadataTooLarge metadata_len (sl_max_metadata_bytes policy))) (\<lambda>_.
     and_then (ok_or (u32_try_from (length (si_resources invocation))) SxLengthUnsupported) (\<lambda>resource_count.
     and_then (ensure (\<not> resource_count > sl_max_resources policy)
       (SxTooManyResources resource_count (sl_max_resources policy))) (\<lambda>_.
     and_then (ok_or (u32_try_from (length (si_waits invocation) + length (si_signals invocation)))
       SxLengthUnsupported) (\<lambda>sync_count.
     and_then (ensure (\<not> sync_count > sl_max_sync_points policy)
       (SxTooManySyncPoints sync_count (sl_max_sync_points policy))) (\<lambda>_.
     Inr (metadata_len, resource_count))))))))"

definition shared_request_for ::
  "'p dynamic_shared_operator \<Rightarrow> shared_invocation \<Rightarrow> u64 \<Rightarrow> u32 \<Rightarrow> bytes
    \<Rightarrow> shared_execution_error + shared_execution_request" where
  "shared_request_for operator invocation metadata_len resource_count receipt =
     (let abi_resources = map map_resource_to_abi (si_resources invocation);
          abi_waits = map map_sync_to_abi (si_waits invocation);
          abi_signals = map map_sync_to_abi (si_signals invocation)
      in and_then (ok_or (u32_try_from (length abi_waits)) SxLengthUnsupported) (\<lambda>wait_count.
         and_then (ok_or (u32_try_from (length abi_signals)) SxLengthUnsupported) (\<lambda>signal_count.
         Inr (shared_execution_request_default\<lparr>sx_operator_id := ds_operator_id operator,
           sx_metadata := slice_ptr (si_metadata invocation), sx_metadata_len := metadata_len,
           sx_resources := slice_ptr abi_resources, sx_resource_count := resource_count,
           sx_waits := slice_ptr abi_waits, sx_wait_count := wait_count,
           sx_signals := slice_ptr abi_signals, sx_signal_count := signal_count,
           sx_receipt := slice_ptr receipt,
           sx_receipt_capacity := sl_max_receipt_bytes (st_policy (ds_plugin operator)),
           sx_receipt_len := Some 0\<rparr>))))"

text \<open>What the host makes of the callback's answer.\<close>

definition shared_answer :: "u64 \<Rightarrow> bytes \<Rightarrow> i32 \<Rightarrow> bytes \<Rightarrow> u64 \<Rightarrow> shared_execution_error + bytes" where
  "shared_answer max_receipt receipt execute_status written receipt_len =
     (if execute_status \<noteq> status_ok
      then if execute_status = status_buffer_too_small \<and> receipt_len > max_receipt
           then Inl (SxReceiptTooLarge receipt_len max_receipt)
           else Inl (SxPluginStatus execute_status)
      else if receipt_len > max_receipt then Inl (SxReceiptTooLarge receipt_len max_receipt)
      else and_then (ok_or (usize_try_from receipt_len) SxLengthUnsupported) (\<lambda>actual.
        Inr (take actual (overlay receipt written))))"

definition execute_shared_plugin ::
  "'p dynamic_shared_operator \<Rightarrow> shared_invocation \<Rightarrow> 'p plugin_cell
    \<Rightarrow> (shared_execution_error + bytes) unwinding \<times> 'p plugin_cell" where
  "execute_shared_plugin operator invocation cell =
     (let policy = st_policy (ds_plugin operator)
      in case check_limits policy invocation of
        Inl e \<Rightarrow> (Returned (Inl e), cell)
      | Inr (metadata_len, resource_count) \<Rightarrow>
          (case usize_try_from (sl_max_receipt_bytes policy) of
             None \<Rightarrow> (Returned (Inl (SxReceiptCapacityUnsupported (sl_max_receipt_bytes policy))), cell)
           | Some receipt_capacity \<Rightarrow>
               if receipt_capacity > isize_max then (Unwound, cell)
               else let receipt = replicate receipt_capacity 0
               in (case shared_request_for operator invocation metadata_len resource_count receipt of
                     Inl e \<Rightarrow> (Returned (Inl e), cell)
                   | Inr request \<Rightarrow>
                       if pc_poisoned cell then (Returned (Inl SxPoisoned), cell)
                       else (case st_execute (ds_plugin operator) request (pc_plugin cell) of
                               (execute_status, written, receipt_len, p') \<Rightarrow>
                                 (Returned (shared_answer (sl_max_receipt_bytes policy) receipt
                                    execute_status written receipt_len),
                                  cell\<lparr>pc_plugin := p'\<rparr>)))))"

definition dynamic_execute_shared ::
  "'p dynamic_shared_operator \<Rightarrow> shared_invocation \<Rightarrow> 'p plugin_cell
    \<Rightarrow> (shared_operator_error + shared_output) unwinding \<times> 'p plugin_cell" where
  "dynamic_execute_shared operator invocation cell =
     (case execute_shared_plugin operator invocation cell of
        (Unwound, cell') \<Rightarrow> (Unwound, cell')
      | (Returned (Inl error), cell') \<Rightarrow>
          (Returned (Inl (ShExecution (shared_execution_error_to_string error))), cell')
      | (Returned (Inr receipt), cell') \<Rightarrow> (Returned (Inr \<lparr>so_receipt = receipt\<rparr>), cell'))"

definition injected_shared_operator :: "'p dynamic_shared_operator \<Rightarrow> 'p plugin_cell shared_operator" where
  "injected_shared_operator operator =
     \<lparr>sp_name = ds_name operator, sp_capabilities = ds_capabilities operator,
      sp_execute_shared = dynamic_execute_shared operator\<rparr>"

definition shared_register_into ::
  "'p loaded_shared_library \<Rightarrow> 'p plugin_cell shared_registry \<Rightarrow> 'p plugin_cell shared_registry" where
  "shared_register_into library reg =
     fold (\<lambda>operator. shared_register (injected_shared_operator operator)) (lh_operators library) reg"

text \<open>Giving up one of the owners that share a loaded plugin's state.\<close>

fun shared_release_owner :: "'p shared_plugin_state \<Rightarrow> nat \<times> 'p plugin_cell \<Rightarrow> nat \<times> 'p plugin_cell" where
  "shared_release_owner state (owners, cell) =
     (owners - 1, if owners = 1 then drop_plugin (st_shutdown state) cell else cell)"

section \<open>What loading establishes\<close>

lemma validate_capabilities_Inr:
  "validate_capabilities i bits info = Inr () \<longleftrightarrow>
     (bits AND shcap_proven_zero_copy \<noteq> 0 \<longrightarrow> bits AND shcap_external_resource \<noteq> 0) \<and>
     (bits AND shcap_external_resource \<noteq> 0 \<longrightarrow> sn_memory_kind_bits info \<noteq> 0) \<and>
     (bits AND shcap_external_synchronization \<noteq> 0 \<longrightarrow> sn_sync_kind_bits info \<noteq> 0)"
  by (auto simp: validate_capabilities_def)

definition discovered_ok :: "shared_discovered \<Rightarrow> bool" where
  "discovered_ok d =
     (case d of (operator_id, name, bits, c) \<Rightarrow>
        name \<noteq> [] \<and> (\<exists>info. c = capabilities_of bits info \<and> validate_capabilities operator_id bits info = Inr ()))"

lemma check_shared_operator_Inr:
  assumes "check_shared_operator index ids plugin_bits st info = Inr d"
  shows "discovered_ok d \<and> fst d \<notin> set ids"
  using assms
  by (auto simp: check_shared_operator_def discovered_ok_def Let_def and_then_Inr_iff split: if_splits)

lemma discover_shared_ok:
  assumes "discover_shared_operators q bits is ids found p = Inr (found', p')"
  shows "\<exists>new. found' = found @ new \<and> length new = length is \<and> distinct (map fst new) \<and>
    set (map fst new) \<inter> set ids = {} \<and> (\<forall>d \<in> set new. discovered_ok d)"
  using assms
proof (induction "is" arbitrary: ids found p)
  case (Cons i "is")
  obtain st info p1 where q: "q (of_nat i) shared_operator_info_default p = (st, info, p1)"
    by (cases "q (of_nat i) shared_operator_info_default p")
  from Cons.prems q obtain d where
    c: "check_shared_operator (of_nat i) ids bits st info = Inr d" and
    d: "discover_shared_operators q bits is (fst d # ids) (found @ [d]) p1 = Inr (found', p')"
    by (auto simp: and_then_Inr_iff)
  from Cons.IH [OF d] check_shared_operator_Inr [OF c] show ?case by auto
qed simp

lemma load_shared_descriptor_ok:
  assumes "load_shared_descriptor d policy p = Inr (library, cell)"
  obtains found p' execute where
    "validate_plugin_descriptor d policy = Inr ()"
    "length found = unat (sd_operator_count d)" "distinct (map fst found)" "\<forall>x \<in> set found. discovered_ok x"
    "library = \<lparr>lh_plugin_name = abi_chars_to_string (sd_name d),
       lh_operators = map (dynamic_shared_operator_of \<lparr>st_plugin_name = abi_chars_to_string (sd_name d),
         st_policy = policy, st_execute = execute, st_shutdown = sd_shutdown d\<rparr>) found\<rparr>"
    "cell = plugin_cell_new p'"
proof -
  from assms obtain q ex found p' where
    f: "discover_shared_operators q (sd_capability_bits d) [0..<unat (sd_operator_count d)] [] [] p = Inr (found, p')"
    and rest: "validate_plugin_descriptor d policy = Inr ()"
      "library = \<lparr>lh_plugin_name = abi_chars_to_string (sd_name d),
         lh_operators = map (dynamic_shared_operator_of \<lparr>st_plugin_name = abi_chars_to_string (sd_name d),
           st_policy = policy, st_execute = ex, st_shutdown = sd_shutdown d\<rparr>) found\<rparr>"
      "cell = plugin_cell_new p'"
    by (auto simp: load_shared_descriptor_def Let_def and_then_Inr_iff ok_or_Inr_iff)
  from discover_shared_ok [OF f] rest show ?thesis
    by (intro that [of found ex p']) auto
qed

lemma bit_for_bit: "bits AND bit_for raw \<noteq> 0 \<longleftrightarrow> raw < 64 \<and> bit bits (unat raw)"
  by (simp add: bit_for_def push_bit_of_1 and_exp_eq_0_iff_not_bit)

section \<open>What execution respects\<close>

definition within_shared_limits :: "shared_load_policy \<Rightarrow> shared_invocation \<Rightarrow> bool" where
  "within_shared_limits policy invocation =
     (invocation_validate invocation = Inr () \<and>
      length (si_metadata invocation) \<le> unat (sl_max_metadata_bytes policy) \<and>
      length (si_resources invocation) \<le> unat (sl_max_resources policy) \<and>
      length (si_waits invocation) + length (si_signals invocation) \<le> unat (sl_max_sync_points policy))"

lemma check_limits_Inr:
  assumes "check_limits policy invocation = Inr (ml, rc)"
  shows "within_shared_limits policy invocation \<and> length (si_metadata invocation) = unat ml \<and>
    length (si_resources invocation) = unat rc \<and>
    length (si_waits invocation) + length (si_signals invocation) < 2 ^ 32"
proof -
  from assms obtain sc where
    "invocation_validate invocation = Inr ()"
    "length (si_metadata invocation) = unat ml" "ml \<le> sl_max_metadata_bytes policy"
    "length (si_resources invocation) = unat rc" "rc \<le> sl_max_resources policy"
    "length (si_waits invocation) + length (si_signals invocation) = unat sc" "sc \<le> sl_max_sync_points policy"
    by (auto simp: check_limits_def result_iffs u64_try_from_iff u32_try_from_iff not_less)
  then show ?thesis
    using unat_u32_lt2p_num [of sc] by (simp add: within_shared_limits_def word_le_nat_alt)
qed

lemma check_limits_Inl:
  assumes "check_limits policy invocation = Inl e"
  shows "\<not> within_shared_limits policy invocation"
proof
  assume w: "within_shared_limits policy invocation"
  let ?ml = "of_nat (length (si_metadata invocation)) :: u64"
  let ?rc = "of_nat (length (si_resources invocation)) :: u32"
  let ?sc = "of_nat (length (si_waits invocation) + length (si_signals invocation)) :: u32"
  have "length (si_metadata invocation) < 2 ^ 64" "length (si_resources invocation) < 2 ^ 32"
    "length (si_waits invocation) + length (si_signals invocation) < 2 ^ 32"
    using w unat_lt2p_num [of "sl_max_metadata_bytes policy"] unat_u32_lt2p_num [of "sl_max_resources policy"]
      unat_u32_lt2p_num [of "sl_max_sync_points policy"] by (simp_all add: within_shared_limits_def)
  then have n: "unat ?ml = length (si_metadata invocation)" "unat ?rc = length (si_resources invocation)"
    "unat ?sc = length (si_waits invocation) + length (si_signals invocation)"
    by (simp_all add: unat_of_nat del: of_nat_add)
  then have "u64_try_from (length (si_metadata invocation)) = Some ?ml"
    "u32_try_from (length (si_resources invocation)) = Some ?rc"
    "u32_try_from (length (si_waits invocation) + length (si_signals invocation)) = Some ?sc"
    by (simp_all only: u64_try_from_iff u32_try_from_iff)
  moreover have "?ml \<le> sl_max_metadata_bytes policy" "?rc \<le> sl_max_resources policy"
    "?sc \<le> sl_max_sync_points policy"
    using w n by (simp_all add: within_shared_limits_def word_le_nat_alt del: of_nat_add)
  ultimately have "check_limits policy invocation = Inr (?ml, ?rc)"
    using w by (simp add: check_limits_def within_shared_limits_def ensure_def not_less del: of_nat_add)
  with assms show False by simp
qed

text \<open>What the request tells the plugin about the invocation.\<close>

definition request_carries :: "'p dynamic_shared_operator \<Rightarrow> shared_invocation \<Rightarrow> shared_execution_request \<Rightarrow> bool" where
  "request_carries operator invocation request =
     (sx_operator_id request = ds_operator_id operator
      \<and> sx_metadata request = slice_ptr (si_metadata invocation)
      \<and> unat (sx_metadata_len request) = length (si_metadata invocation)
      \<and> sx_resources request = slice_ptr (map map_resource_to_abi (si_resources invocation))
      \<and> unat (sx_resource_count request) = length (si_resources invocation)
      \<and> sx_waits request = slice_ptr (map map_sync_to_abi (si_waits invocation))
      \<and> unat (sx_wait_count request) = length (si_waits invocation)
      \<and> sx_signals request = slice_ptr (map map_sync_to_abi (si_signals invocation))
      \<and> unat (sx_signal_count request) = length (si_signals invocation))"

lemma shared_request_faithful:
  assumes "check_limits policy invocation = Inr (ml, rc)"
  obtains request where "shared_request_for operator invocation ml rc receipt = Inr request"
    "request_carries operator invocation request"
proof -
  note lim = check_limits_Inr [OF assms]
  then have "length (si_waits invocation) < 2 ^ 32" "length (si_signals invocation) < 2 ^ 32" by simp_all
  then obtain wc sc where w: "u32_try_from (length (si_waits invocation)) = Some wc"
    "u32_try_from (length (si_signals invocation)) = Some sc"
    by (simp add: u32_try_from_def)
  then have "unat wc = length (si_waits invocation)" "unat sc = length (si_signals invocation)"
    by (simp_all add: u32_try_from_iff)
  with w lim show thesis
    by (intro that) (simp add: shared_request_for_def, simp add: request_carries_def)
qed

text \<open>An execution that reaches the plugin, and one that does not.\<close>

lemma execute_shared_reaches:
  assumes "check_limits (st_policy (ds_plugin operator)) invocation = Inr (ml, rc)"
    and "receipt = replicate (unat (sl_max_receipt_bytes (st_policy (ds_plugin operator)))) 0"
    and "shared_request_for operator invocation ml rc receipt = Inr request"
  shows "execute_shared_plugin operator invocation cell =
    (if isize_max < unat (sl_max_receipt_bytes (st_policy (ds_plugin operator))) then (Unwound, cell)
     else if pc_poisoned cell then (Returned (Inl SxPoisoned), cell)
     else (case st_execute (ds_plugin operator) request (pc_plugin cell) of
             (st, written, n, p') \<Rightarrow>
               (Returned (shared_answer (sl_max_receipt_bytes (st_policy (ds_plugin operator))) receipt st written n),
                cell\<lparr>pc_plugin := p'\<rparr>)))"
  using assms by (simp add: execute_shared_plugin_def Let_def)

lemma shared_answer_Inr:
  "shared_answer m receipt st written n = Inr out \<longleftrightarrow>
     st = status_ok \<and> n \<le> m \<and> out = take (unat n) (overlay receipt written)"
  by (auto simp: shared_answer_def status_defs not_less split: if_splits)

end
