(* ===== verification/Test_Shared_Plugin.thy ===== *)
theory Test_Shared_Plugin
  imports Shared_Operator_Loader
begin

text \<open>
  The fixture \<open>vrb-test-shared-operator-plugin\<close>, which checks the request it is handed and
  answers with a receipt, and what the loader promises about any plugin on shared resources.
\<close>

section \<open>The fixture\<close>

definition shared_fixture_id :: u32 where "shared_fixture_id = 1"
definition shared_fixture_metadata :: bytes where "shared_fixture_metadata = byte_string ''vrb-shared''"
definition shared_fixture_receipt :: bytes where "shared_fixture_receipt = byte_string ''shared-contract-ok''"

definition shared_fixture_query :: "unit query_shared_fn" where
  "shared_fixture_query index info user_data =
     (if index \<noteq> 0 then (status_invalid_argument, info, user_data)
      else (status_ok,
        shared_operator_info_default\<lparr>sn_operator_id := shared_fixture_id, sn_operator_kind := raw_kind_custom,
          sn_backend_kind := raw_backend_plugin,
          sn_capability_bits := shcap_external_resource OR shcap_external_synchronization,
          sn_memory_kind_bits := bit_for raw_mem_win32_kmt, sn_sync_kind_bits := bit_for raw_sync_win32_opaque,
          sn_name := c_name shared_operator_name_capacity (byte_string ''shared-contract-validator'')\<rparr>, user_data))"

definition fixture_region_ok :: "abi_region \<Rightarrow> bool" where
  "fixture_region_ok r =
     (\<not> (ar_struct_size r < expected_region_size \<or> ar_handle_kind r \<noteq> raw_mem_win32_kmt
         \<or> ar_access r \<noteq> raw_access_read_write \<or> ar_handle r = 0 \<or> ar_length r = 0)
      \<and> (case checked_add (ar_offset r) (ar_length r) of
           None \<Rightarrow> False
         | Some end_offset \<Rightarrow> \<not> end_offset > ar_allocation_size r))"

definition fixture_point_ok :: "abi_sync_point \<Rightarrow> bool" where
  "fixture_point_ok p =
     (\<not> (as_struct_size p < expected_sync_point_size \<or> as_handle_kind p \<noteq> raw_sync_win32_opaque \<or> as_handle p = 0))"

definition shared_fixture_execute :: "unit execute_shared_fn" where
  "shared_fixture_execute request user_data =
     (case sx_receipt_len request of
        None \<Rightarrow> (status_invalid_argument, [], 0, user_data)
      | Some old \<Rightarrow>
          (let refuse = (status_invalid_argument, [], old, user_data)
           in if sx_struct_size request < expected_shared_request_size \<or> sx_operator_id request \<noteq> shared_fixture_id
           then refuse
           else (case (usize_try_from (sx_metadata_len request), sx_metadata request) of
             (Some metadata_len, Some metadata) \<Rightarrow>
               if metadata_len \<noteq> length shared_fixture_metadata \<or> take metadata_len metadata \<noteq> shared_fixture_metadata
               then refuse
               else if sx_resource_count request \<noteq> 1 \<or> sx_wait_count request \<noteq> 1 \<or> sx_signal_count request \<noteq> 1
               then refuse
               else (case (sx_resources request, sx_waits request, sx_signals request) of
                 (Some (resource # _), Some (wait # _), Some (signal # _)) \<Rightarrow>
                   if \<not> fixture_region_ok resource \<or> \<not> fixture_point_ok wait \<or> \<not> fixture_point_ok signal
                   then refuse
                   else let required = of_nat (length shared_fixture_receipt)
                   in if sx_receipt_capacity request < required
                      then (status_buffer_too_small, [], required, user_data)
                      else if sx_receipt request = None
                      then (status_invalid_argument, [], required, user_data)
                      else (status_ok, shared_fixture_receipt, required, user_data)
               | _ \<Rightarrow> refuse)
           | _ \<Rightarrow> refuse)))"

definition shared_fixture_plugin :: "unit shared_plugin" where
  "shared_fixture_plugin =
     \<lparr>sd_abi_version = shared_plugin_abi_version, sd_struct_size = expected_shared_plugin_size,
      sd_name = c_name shared_plugin_name_capacity (byte_string ''vrb-test-shared-operator''),
      sd_operator_count = 1, sd_capability_bits = 0, sd_query_operator = Some shared_fixture_query,
      sd_execute = Some shared_fixture_execute, sd_shutdown = None\<rparr>"

section \<open>Loading and running it\<close>

definition shared_fixture_state :: "unit shared_plugin_state" where
  "shared_fixture_state =
     \<lparr>st_plugin_name = ''vrb-test-shared-operator'', st_policy = shared_load_policy_default,
      st_execute = shared_fixture_execute, st_shutdown = None\<rparr>"

definition shared_fixture_operator :: "unit dynamic_shared_operator" where
  "shared_fixture_operator =
     \<lparr>ds_plugin = shared_fixture_state, ds_operator_id = 1, ds_name = ''shared-contract-validator'',
      ds_capabilities = \<lparr>sc_kind = KCustom, sc_backend = Plugin, sc_memory_kinds = [Win32Kmt],
        sc_sync_kinds = [Win32Opaque], sc_supports_external_synchronization = True, sc_proven_zero_copy = False\<rparr>,
      ds_raw_capability_bits = 3\<rparr>"

definition shared_fixture_library :: "unit loaded_shared_library" where
  "shared_fixture_library =
     \<lparr>lh_plugin_name = ''vrb-test-shared-operator'', lh_operators = [shared_fixture_operator]\<rparr>"

lemma abi_name_shared_fixture:
  "abi_chars_to_string (c_name shared_operator_name_capacity (byte_string ''shared-contract-validator'')) =
    ''shared-contract-validator''"
  "abi_chars_to_string (c_name shared_plugin_name_capacity (byte_string ''vrb-test-shared-operator'')) =
    ''vrb-test-shared-operator''"
  by code_simp+

lemma fixture_kinds:
  "map_memory_kinds (bit_for raw_mem_win32_kmt) = [Win32Kmt]" "map_sync_kinds (bit_for raw_sync_win32_opaque) = [Win32Opaque]"
  by code_simp+

lemma shared_fixture_loads:
  "load_shared_library path (ShDescriptor shared_fixture_plugin) () = Inr (shared_fixture_library, plugin_cell_new ())"
proof -
  have upt: "[0..<unat (1 :: u32)] = [0]" by simp
  have bits: "shcap_external_resource OR shcap_external_synchronization = 3" "bit_for raw_mem_win32_kmt = 2"
    "bit_for raw_sync_win32_opaque = 2" by code_simp+
  note kinds = fixture_kinds [unfolded bits]
  show ?thesis
    by (simp add: load_shared_library_def load_shared_with_policy_def load_shared_descriptor_def
      validate_plugin_descriptor_def shared_fixture_plugin_def abi_name_shared_fixture
      shared_load_policy_default_def upt shared_fixture_query_def check_shared_operator_def
      shared_operator_info_default_def shared_fixture_library_def shared_fixture_operator_def
      shared_fixture_state_def dynamic_shared_operator_of_def shared_fixture_id_def bits kinds
      validate_capabilities_def capabilities_of_def shared_map_operator_kind_def shared_map_backend_kind_def
      shcap_external_resource_def shcap_external_synchronization_def shcap_proven_zero_copy_def
      map_operator_kind_def map_backend_kind_def raw_kind_defs raw_backend_defs Let_def)
qed

definition fixture_invocation :: shared_invocation where
  "fixture_invocation =
     \<lparr>si_metadata = shared_fixture_metadata,
      si_resources = [\<lparr>sr_handle_kind = Win32Kmt, sr_handle = 4096, sr_allocation_size = 4096, sr_offset = 0,
        sr_length = 4096, sr_access = ReadWrite\<rparr>],
      si_waits = [\<lparr>sy_handle_kind = Win32Opaque, sy_handle = 1, sy_value = 0\<rparr>],
      si_signals = [\<lparr>sy_handle_kind = Win32Opaque, sy_handle = 2, sy_value = 0\<rparr>]\<rparr>"

section \<open>Properties\<close>

lemma discovered_ok_operator:
  assumes "discovered_ok x"
  shows "ds_name (dynamic_shared_operator_of st x) \<noteq> [] \<and>
    (let c = ds_capabilities (dynamic_shared_operator_of st x);
         bits = ds_raw_capability_bits (dynamic_shared_operator_of st x)
     in sc_supports_external_synchronization c = (bits AND shcap_external_synchronization \<noteq> 0) \<and>
        sc_proven_zero_copy c = (bits AND shcap_proven_zero_copy \<noteq> 0) \<and>
        (if sc_proven_zero_copy c then bits AND shcap_external_resource \<noteq> 0 else True) \<and>
        (\<exists>memory_bits. sc_memory_kinds c = map_memory_kinds memory_bits \<and>
           (if bits AND shcap_external_resource \<noteq> 0 then memory_bits \<noteq> 0 else True)))"
proof -
  obtain i name bits c where x: "x = (i, name, bits, c)" by (metis prod_cases4)
  with assms obtain info where "name \<noteq> []" "c = capabilities_of bits info"
    "validate_capabilities i bits info = Inr ()" by (auto simp: discovered_ok_def)
  then show ?thesis
    unfolding x dynamic_shared_operator_of_def
    by (auto simp: Let_def capabilities_of_def validate_capabilities_Inr)
qed

text \<open>
  A plugin on shared resources the loader accepts has the host's ABI version, a large
  enough descriptor, a name and between one and the permitted number of operators; the library
  has exactly that many, with distinct identifiers and names. An operator is advertised as
  proven zero-copy or as synchronizing exactly when its bits or the plugin's say so; zero-copy
  only together with external resources, and those only with at least one memory-kind bit.
\<close>

theorem shared_load_accepts_valid:
  assumes "load_shared_with_policy path dl policy p = Inr (library, cell)"
  shows "\<exists>d state. dl = ShDescriptor d
    \<and> sd_abi_version d = 1 \<and> expected_shared_plugin_size \<le> sd_struct_size d
    \<and> lh_plugin_name library = abi_chars_to_string (sd_name d) \<and> lh_plugin_name library \<noteq> []
    \<and> 0 < length (lh_operators library) \<and> length (lh_operators library) = unat (sd_operator_count d)
    \<and> length (lh_operators library) \<le> unat (sl_max_operators policy)
    \<and> distinct (map ds_operator_id (lh_operators library))
    \<and> st_policy state = policy \<and> st_shutdown state = sd_shutdown d
    \<and> (\<forall>operator \<in> set (lh_operators library). ds_plugin operator = state \<and> ds_name operator \<noteq> []
        \<and> (let c = ds_capabilities operator; bits = ds_raw_capability_bits operator
           in sc_supports_external_synchronization c = (bits AND shcap_external_synchronization \<noteq> 0)
              \<and> sc_proven_zero_copy c = (bits AND shcap_proven_zero_copy \<noteq> 0)
              \<and> (if sc_proven_zero_copy c then bits AND shcap_external_resource \<noteq> 0 else True)
              \<and> (\<exists>memory_bits. sc_memory_kinds c = map_memory_kinds memory_bits
                 \<and> (if bits AND shcap_external_resource \<noteq> 0 then memory_bits \<noteq> 0 else True))))
    \<and> \<not> pc_poisoned cell \<and> \<not> pc_shutdown_called cell"
proof -
  obtain d where dl: "dl = ShDescriptor d" and d: "load_shared_descriptor d policy p = Inr (library, cell)"
    using assms by (auto simp: load_shared_with_policy_def split: shared_plugin_image.splits)
  show ?thesis
  proof (rule load_shared_descriptor_ok [OF d], goal_cases)
    case (1 found p' execute)
    let ?st = "\<lparr>st_plugin_name = abi_chars_to_string (sd_name d), st_policy = policy,
      st_execute = execute, st_shutdown = sd_shutdown d\<rparr>"
    have ids: "map ds_operator_id (map (dynamic_shared_operator_of ?st) found) = map fst found"
      by (auto simp: dynamic_shared_operator_of_def)
    have plugin: "ds_plugin (dynamic_shared_operator_of ?st x) = ?st" for x
      by (simp add: dynamic_shared_operator_of_def split: prod.split)
    have desc: "sd_abi_version d = 1" "expected_shared_plugin_size \<le> sd_struct_size d"
      "abi_chars_to_string (sd_name d) \<noteq> []" "sd_operator_count d \<noteq> 0" "sd_operator_count d \<le> sl_max_operators policy"
      using 1(1) by (auto simp: validate_plugin_descriptor_def shared_plugin_abi_version_def not_less split: if_splits)
    have ops: "\<forall>operator \<in> set (lh_operators library). ds_plugin operator = ?st \<and> ds_name operator \<noteq> []
        \<and> (let c = ds_capabilities operator; bits = ds_raw_capability_bits operator
           in sc_supports_external_synchronization c = (bits AND shcap_external_synchronization \<noteq> 0)
              \<and> sc_proven_zero_copy c = (bits AND shcap_proven_zero_copy \<noteq> 0)
              \<and> (if sc_proven_zero_copy c then bits AND shcap_external_resource \<noteq> 0 else True)
              \<and> (\<exists>memory_bits. sc_memory_kinds c = map_memory_kinds memory_bits
                 \<and> (if bits AND shcap_external_resource \<noteq> 0 then memory_bits \<noteq> 0 else True)))"
      using discovered_ok_operator [of _ ?st] 1(4) by (auto simp: 1(5) plugin)
    show ?case
      using dl desc 1(2,3) ops
      by (intro exI [of _ d] exI [of _ ?st])
        (simp add: 1(5,6) ids plugin_cell_new_def unat_gt_0 word_le_nat_alt del: map_map)
  qed
qed

theorem shared_load_accepts_valid_witness:
  "length (lh_operators shared_fixture_library) \<le> 4096 \<and>
   distinct (map ds_operator_id (lh_operators shared_fixture_library))"
proof -
  have "load_shared_with_policy ''fixture.so'' (ShDescriptor shared_fixture_plugin) shared_load_policy_default () =
      Inr (shared_fixture_library, plugin_cell_new ())"
    using shared_fixture_loads by (simp add: load_shared_library_def)
  from shared_load_accepts_valid [OF this] show ?thesis by (simp add: shared_load_policy_default_def)
qed

text \<open>
  C38. A loaded operator calls its plugin exactly when the invocation is valid and within every
  limit of the policy, the receipt buffer can exist and the plugin is not poisoned. The request
  then carries every resource, wait and signal with its exact count, and what comes back is the
  callback's receipt cut to its reported length, never above the limit; otherwise nothing is
  called and nothing changes, and it panics only for a receipt limit above \<open>isize::MAX\<close>.
\<close>

theorem shared_execution_contract:
  assumes "execute_shared_plugin operator invocation cell = (r, cell')"
    and "policy = st_policy (ds_plugin operator)"
  shows "if within_shared_limits policy invocation \<and> unat (sl_max_receipt_bytes policy) \<le> isize_max
      \<and> \<not> pc_poisoned cell
    then \<exists>request st written n p'.
      st_execute (ds_plugin operator) request (pc_plugin cell) = (st, written, n, p')
      \<and> cell' = cell\<lparr>pc_plugin := p'\<rparr>
      \<and> request_carries operator invocation request
      \<and> (if st = status_ok \<and> n \<le> sl_max_receipt_bytes policy
         then r = Returned (Inr (take (unat n) (overlay (replicate (unat (sl_max_receipt_bytes policy)) 0) written)))
         else \<exists>e. r = Returned (Inl e))
    else cell' = cell \<and> (if within_shared_limits policy invocation \<and> isize_max < unat (sl_max_receipt_bytes policy)
      then r = Unwound else \<exists>e. r = Returned (Inl e))"
proof (cases "check_limits policy invocation")
  case (Inl e)
  with assms check_limits_Inl [OF Inl] show ?thesis by (auto simp: execute_shared_plugin_def)
next
  case (Inr counts)
  obtain ml rc where c: "check_limits policy invocation = Inr (ml, rc)" using Inr by (cases counts) simp
  note lim = check_limits_Inr [OF c]
  let ?receipt = "replicate (unat (sl_max_receipt_bytes policy)) (0 :: u8)"
  obtain request where req: "shared_request_for operator invocation ml rc ?receipt = Inr request"
    and carries: "request_carries operator invocation request"
    by (rule shared_request_faithful [OF c])
  obtain st written n p' where x: "st_execute (ds_plugin operator) request (pc_plugin cell) = (st, written, n, p')"
    by (metis prod_cases4)
  have run: "(r, cell') = (if isize_max < unat (sl_max_receipt_bytes policy) then (Unwound, cell)
     else if pc_poisoned cell then (Returned (Inl SxPoisoned), cell)
     else (Returned (shared_answer (sl_max_receipt_bytes policy) ?receipt st written n), cell\<lparr>pc_plugin := p'\<rparr>))"
    using execute_shared_reaches [OF c [unfolded assms(2)] _ req, of cell] assms x by simp
  show ?thesis
  proof (cases "unat (sl_max_receipt_bytes policy) \<le> isize_max \<and> \<not> pc_poisoned cell")
    case False
    then have nc: "\<not> (within_shared_limits policy invocation \<and> unat (sl_max_receipt_bytes policy) \<le> isize_max
        \<and> \<not> pc_poisoned cell)" by blast
    from run False lim show ?thesis
      unfolding if_not_P [OF nc] by (simp add: not_le split: if_splits)
  next
    case True
    with run have go: "r = Returned (shared_answer (sl_max_receipt_bytes policy) ?receipt st written n)"
      "cell' = cell\<lparr>pc_plugin := p'\<rparr>" by simp_all
    have answer: "if st = status_ok \<and> n \<le> sl_max_receipt_bytes policy
        then r = Returned (Inr (take (unat n) (overlay ?receipt written))) else \<exists>e. r = Returned (Inl e)"
    proof (cases "shared_answer (sl_max_receipt_bytes policy) ?receipt st written n")
      case (Inl e)
      with shared_answer_Inr [of "sl_max_receipt_bytes policy" ?receipt st written n
          "take (unat n) (overlay ?receipt written)"]
      have bad: "\<not> (st = status_ok \<and> n \<le> sl_max_receipt_bytes policy)" by simp
      from Inl show ?thesis unfolding if_not_P [OF bad] go(1) by simp
    next
      case (Inr out)
      then have out: "st = status_ok \<and> n \<le> sl_max_receipt_bytes policy"
        "out = take (unat n) (overlay ?receipt written)"
        by (simp_all only: shared_answer_Inr)
      from Inr show ?thesis unfolding if_P [OF out(1)] go(1) out(2) by simp
    qed
    have cond: "within_shared_limits policy invocation \<and> unat (sl_max_receipt_bytes policy) \<le> isize_max
        \<and> \<not> pc_poisoned cell"
      using True lim by simp
    show ?thesis
      unfolding if_P [OF cond]
      by (intro exI [of _ request] exI [of _ st] exI [of _ written] exI [of _ n] exI [of _ p'] conjI
        x go(2) answer carries)
  qed
qed

theorem shared_execution_contract_witness:
  "\<exists>request st written n p'. shared_fixture_execute request () = (st, written, n, p') \<and>
     sx_operator_id request = 1 \<and> unat (sx_resource_count request) = 1 \<and> unat (sx_wait_count request) = 1"
proof -
  obtain r cell' where run:
    "execute_shared_plugin shared_fixture_operator fixture_invocation (plugin_cell_new ()) = (r, cell')"
    by fastforce
  have "invocation_validate fixture_invocation = Inr ()"
    by (simp add: invocation_validate_iff fixture_invocation_def region_ok_def)
  then have "within_shared_limits shared_load_policy_default fixture_invocation"
    by (simp add: within_shared_limits_def fixture_invocation_def shared_load_policy_default_def
      shared_fixture_metadata_def)
  moreover have "unat (sl_max_receipt_bytes shared_load_policy_default) \<le> isize_max"
    by (simp add: shared_load_policy_default_def isize_max_def)
  ultimately show ?thesis
    using shared_execution_contract [OF run refl]
    by (auto simp: shared_fixture_operator_def shared_fixture_state_def plugin_cell_new_def
      request_carries_def fixture_invocation_def)
qed

end
