(* ===== verification/Environment.thy ===== *)
theory Environment
  imports Prelude
begin

text \<open>
  Environment variables: a parameter that answers with the text of a variable that is set.
  Limits are read with \<open>str::parse::<u64>\<close>, and a text it refuses counts as unset.
\<close>

type_synonym environment = "string \<Rightarrow> string option"

definition digit_value :: "char \<Rightarrow> nat option" where
  "digit_value c = (if 48 \<le> (of_char c :: nat) \<and> (of_char c :: nat) \<le> 57 then Some (of_char c - 48) else None)"

fun parse_digits :: "nat \<Rightarrow> string \<Rightarrow> nat option" where
  "parse_digits acc [] = Some acc"
| "parse_digits acc (c # cs) =
     (case digit_value c of
        None \<Rightarrow> None
      | Some d \<Rightarrow> if acc * 10 + d < 2 ^ 64 then parse_digits (acc * 10 + d) cs else None)"

text \<open>One leading plus sign is accepted; an empty text and a lone sign are not.\<close>

definition parse_u64 :: "string \<Rightarrow> u64 option" where
  "parse_u64 s =
     (let digits = (case s of c # cs \<Rightarrow> if c = CHR ''+'' then cs else s | [] \<Rightarrow> [])
      in if digits = [] then None else map_option of_nat (parse_digits 0 digits))"

definition environment_limit :: "environment \<Rightarrow> string \<Rightarrow> u64 \<Rightarrow> u64" where
  "environment_limit env variable standard =
     (case Option.bind (env variable) parse_u64 of None \<Rightarrow> standard | Some limit \<Rightarrow> limit)"

lemma parse_digits_append:
  "parse_digits acc (xs @ ys) = Option.bind (parse_digits acc xs) (\<lambda>v. parse_digits v ys)"
  by (induction xs arbitrary: acc) (auto split: option.split)

lemma digit_value_digit_char: "d < 10 \<Longrightarrow> digit_value (digit_char d) = Some d"
  by (simp add: digit_value_def digit_char_def of_char_of)

lemma parse_digits_show_nat:
  "n < 2 ^ 64 \<Longrightarrow> parse_digits 0 (show_nat n) = Some n"
proof (induction n rule: show_nat.induct)
  case (1 n)
  show ?case
  proof (cases "n < 10")
    case True
    then show ?thesis by (simp add: show_nat.simps [of n] digit_value_digit_char)
  next
    case False
    then have "parse_digits 0 (show_nat (n div 10)) = Some (n div 10)"
      using 1 by simp
    with False 1(2) show ?thesis
      by (simp add: show_nat.simps [of n] parse_digits_append digit_value_digit_char)
  qed
qed

lemma show_nat_first: "\<exists>d cs. d < 10 \<and> show_nat n = digit_char d # cs"
proof (induction n rule: show_nat.induct)
  case (1 n)
  then show ?case
    by (cases "n < 10") (force simp: show_nat.simps [of n])+
qed

text \<open>What a number displays as parses back to it.\<close>

lemma parse_u64_show_nat:
  assumes "n < 2 ^ 64"
  shows "parse_u64 (show_nat n) = Some (of_nat n)"
proof -
  obtain d cs where d: "d < 10" "show_nat n = digit_char d # cs" using show_nat_first by blast
  have "digit_value (CHR ''+'') = None" by (simp add: digit_value_def)
  with digit_value_digit_char [OF d(1)] have "digit_char d \<noteq> CHR ''+''" by auto
  with d parse_digits_show_nat [OF assms] show ?thesis by (simp add: parse_u64_def)
qed

section \<open>Formatting\<close>

fun join :: "string \<Rightarrow> string list \<Rightarrow> string" where
  "join separator [] = []"
| "join separator [s] = s"
| "join separator (s # t # ts) = s @ separator @ join separator (t # ts)"

definition show_int :: "int \<Rightarrow> string" where
  "show_int i = (if i < 0 then ''-'' @ show_nat (nat (- i)) else show_nat (nat i))"

text \<open>\<open>{:02x}\<close> and \<open>{:04x}\<close>: at least that many digits.\<close>

fun show_hex :: "nat \<Rightarrow> string" where
  "show_hex n = (if n < 16 then [''0123456789abcdef'' ! n] else show_hex (n div 16) @ [''0123456789abcdef'' ! (n mod 16)])"

declare show_hex.simps [simp del]

definition show_hex_padded :: "nat \<Rightarrow> nat \<Rightarrow> string" where
  "show_hex_padded width n = replicate (width - length (show_hex n)) (CHR ''0'') @ show_hex n"

definition quoted :: "string \<Rightarrow> string" where
  "quoted s = [CHR 0x27] @ s @ [CHR 0x27]"

definition show_bool :: "bool \<Rightarrow> string" where
  "show_bool b = (if b then ''true'' else ''false'')"

text \<open>\<open>str::contains\<close>.\<close>

definition contains_string :: "string \<Rightarrow> string \<Rightarrow> bool" where
  "contains_string s p = list_ex (\<lambda>i. starts_with (drop i s) p) [0..<Suc (length s)]"

end
