(* ===== verification/Effects.thy ===== *)
theory Effects
  imports Prelude
begin

text \<open>
  Calls into libraries the repository only links against (HIP, rocBLAS, Vulkan, the platform
  loader). A driver answers a call depending on all the calls made before it, so one function
  stands for every behaviour such a library may show. An effect is a function on the history
  of calls and answers. An audit follows the resources that are live along a history and
  refuses a call that uses or releases one that is not; \<open>triple\<close> is the Hoare logic over it.
\<close>

section \<open>Effects\<close>

type_synonym ('c, 'a) history = "('c \<times> 'a) list"
type_synonym ('c, 'a) driver = "('c, 'a) history \<Rightarrow> 'c \<Rightarrow> 'a"
type_synonym ('c, 'a, 'x) effect = "('c, 'a) history \<Rightarrow> 'x \<times> ('c, 'a) history"

definition invoke :: "('c, 'a) driver \<Rightarrow> 'c \<Rightarrow> ('c, 'a, 'a) effect" where
  "invoke drv c h = (drv h c, h @ [(c, drv h c)])"

definition give :: "'x \<Rightarrow> ('c, 'a, 'x) effect" where
  "give x h = (x, h)"

definition then_do :: "('c, 'a, 'x) effect \<Rightarrow> ('x \<Rightarrow> ('c, 'a, 'y) effect) \<Rightarrow> ('c, 'a, 'y) effect" where
  "then_do m f h = (case m h of (x, h') \<Rightarrow> f x h')"

text \<open>The \<open>?\<close> operator.\<close>

definition try_do ::
  "('c, 'a, 'e + 'x) effect \<Rightarrow> ('x \<Rightarrow> ('c, 'a, 'e + 'y) effect) \<Rightarrow> ('c, 'a, 'e + 'y) effect" where
  "try_do m f = then_do m (\<lambda>r. case r of Inl e \<Rightarrow> give (Inl e) | Inr x \<Rightarrow> f x)"

text \<open>A local whose \<open>Drop\<close> runs at the end of its scope, and one that is moved out on success.\<close>

definition scoped :: "('c, 'a, 'x) effect \<Rightarrow> ('c, 'a, unit) effect \<Rightarrow> ('c, 'a, 'x) effect" where
  "scoped body release = then_do body (\<lambda>r. then_do release (\<lambda>_. give r))"

definition drop_on_error ::
  "('c, 'a, 'e + 'x) effect \<Rightarrow> ('c, 'a, unit) effect \<Rightarrow> ('c, 'a, 'e + 'x) effect" where
  "drop_on_error body release =
     then_do body (\<lambda>r. case r of Inl e \<Rightarrow> then_do release (\<lambda>_. give (Inl e)) | Inr x \<Rightarrow> give (Inr x))"

fun for_each :: "('x \<Rightarrow> ('c, 'a, unit) effect) \<Rightarrow> 'x list \<Rightarrow> ('c, 'a, unit) effect" where
  "for_each f [] = give ()"
| "for_each f (x # xs) = then_do (f x) (\<lambda>_. for_each f xs)"

lemmas effect_defs = invoke_def give_def then_do_def try_do_def scoped_def drop_on_error_def

text \<open>What an effect that succeeds went through.\<close>

lemma then_do_eq: "then_do m f h = (y, h'') \<longleftrightarrow> (\<exists>x h'. m h = (x, h') \<and> f x h' = (y, h''))"
  by (auto simp: then_do_def split: prod.splits)

lemma give_eq: "give x h = (y, h') \<longleftrightarrow> y = x \<and> h' = h"
  by (auto simp: give_def)

lemma invoke_eq: "invoke drv c h = (a, h') \<longleftrightarrow> a = drv h c \<and> h' = h @ [(c, a)]"
  by (auto simp: invoke_def)

lemma try_do_Inr: "try_do m f h = (Inr y, h'') \<longleftrightarrow> (\<exists>x h'. m h = (Inr x, h') \<and> f x h' = (Inr y, h''))"
  by (cases "m h"; cases "fst (m h)") (auto simp: try_do_def then_do_def give_def)

lemma scoped_eq: "scoped m release h = (x, h'') \<longleftrightarrow> (\<exists>h' u. m h = (x, h') \<and> release h' = (u, h''))"
  by (fastforce simp: scoped_def then_do_eq give_eq)

lemma drop_on_error_Inr: "drop_on_error m release h = (Inr x, h') \<longleftrightarrow> m h = (Inr x, h')"
  by (cases "m h"; cases "fst (m h)") (auto simp: drop_on_error_def then_do_def give_def split: prod.splits)

lemmas effect_eqs = then_do_eq give_eq invoke_eq try_do_Inr scoped_eq drop_on_error_Inr

text \<open>Histories only grow.\<close>

definition extends :: "('c, 'a, 'x) effect \<Rightarrow> bool" where
  "extends m = (\<forall>h. \<exists>new. snd (m h) = h @ new)"

named_theorems extending

lemma extends_invoke [extending]: "extends (invoke drv c)"
  by (simp add: extends_def invoke_def)

lemma extends_give [extending]: "extends (give x)"
  by (simp add: extends_def give_def)

lemma extends_then_do [extending]:
  assumes "extends m" "\<And>x. extends (f x)"
  shows "extends (then_do m f)"
  unfolding extends_def
proof
  fix h
  obtain x h' where m: "m h = (x, h')" by (cases "m h")
  with assms(1) obtain a where "h' = h @ a" by (metis extends_def snd_conv)
  moreover from assms(2) obtain b where "snd (f x h') = h' @ b" by (metis extends_def)
  ultimately show "\<exists>new. snd (then_do m f h) = h @ new" by (simp add: then_do_def m)
qed

lemma extends_try_do [extending]: "extends m \<Longrightarrow> (\<And>x. extends (f x)) \<Longrightarrow> extends (try_do m f)"
  unfolding try_do_def by (rule extends_then_do) (auto split: sum.split intro: extending)

lemma extends_scoped [extending]: "extends m \<Longrightarrow> extends release \<Longrightarrow> extends (scoped m release)"
  unfolding scoped_def by (intro extending)

lemma extends_drop_on_error [extending]: "extends m \<Longrightarrow> extends release \<Longrightarrow> extends (drop_on_error m release)"
  unfolding drop_on_error_def by (rule extends_then_do) (auto split: sum.split intro: extending)

lemma extends_for_each [extending]: "(\<And>x. extends (f x)) \<Longrightarrow> extends (for_each f xs)"
  by (induction xs) (auto intro: extending)

lemma extends_if [extending]: "extends m \<Longrightarrow> extends n \<Longrightarrow> extends (if b then m else n)"
  by simp

text \<open>The errors an effect can fail with.\<close>

definition errors :: "'e set \<Rightarrow> ('c, 'a, 'e + 'x) effect \<Rightarrow> bool" where
  "errors S m = (\<forall>h e h'. m h = (Inl e, h') \<longrightarrow> e \<in> S)"

named_theorems erring

lemma errors_give [erring]: "(\<And>e. r = Inl e \<Longrightarrow> e \<in> S) \<Longrightarrow> errors S (give r)"
  by (simp add: errors_def give_def)

lemma errors_then_do [erring]: "(\<And>x. errors S (f x)) \<Longrightarrow> errors S (then_do m f)"
  by (auto simp: errors_def then_do_def split: prod.splits)

lemma errors_try_do [erring]: "errors S m \<Longrightarrow> (\<And>x. errors S (f x)) \<Longrightarrow> errors S (try_do m f)"
  unfolding errors_def try_do_def then_do_def give_def by (auto split: prod.splits sum.splits)

lemma errors_scoped [erring]: "errors S m \<Longrightarrow> errors S (scoped m release)"
  unfolding errors_def scoped_eq by blast

lemma errors_drop_on_error [erring]: "errors S m \<Longrightarrow> errors S (drop_on_error m release)"
  unfolding errors_def drop_on_error_def then_do_def give_def by (auto split: prod.splits sum.splits)

lemma errors_if [erring]: "errors S m \<Longrightarrow> errors S n \<Longrightarrow> errors S (if b then m else n)"
  by simp

section \<open>Audits\<close>

text \<open>
  \<open>step\<close> gives the live resources after a call, the newest first, or \<open>None\<close> when the call
  was not permitted.
\<close>

type_synonym ('c, 'a, 'r) audit_step = "'r list \<Rightarrow> 'c \<times> 'a \<Rightarrow> 'r list option"

definition audit :: "('c, 'a, 'r) audit_step \<Rightarrow> ('c, 'a) history \<Rightarrow> 'r list option" where
  "audit step h = foldl (\<lambda>live x. Option.bind live (\<lambda>l. step l x)) (Some []) h"

lemma audit_Nil [simp]: "audit step [] = Some []"
  by (simp add: audit_def)

lemma audit_snoc [simp]: "audit step (h @ [x]) = Option.bind (audit step h) (\<lambda>l. step l x)"
  by (simp add: audit_def)

text \<open>Once a call was not permitted, the audit stays refused.\<close>

lemma audit_prefix: "audit step (h @ h') \<noteq> None \<Longrightarrow> audit step h \<noteq> None"
proof (induction h' rule: rev_induct)
  case (snoc x xs)
  then show ?case by (cases "audit step (h @ xs)") (simp_all flip: append_assoc)
qed simp

definition triple ::
  "('c, 'a, 'r) audit_step \<Rightarrow> ('r list \<Rightarrow> bool) \<Rightarrow> ('c, 'a, 'x) effect \<Rightarrow> ('x \<Rightarrow> 'r list \<Rightarrow> bool) \<Rightarrow> bool" where
  "triple step P m Q \<longleftrightarrow>
     (\<forall>h l. audit step h = Some l \<longrightarrow> P l \<longrightarrow>
        (\<exists>l'. audit step (snd (m h)) = Some l' \<and> Q (fst (m h)) l'))"

lemma tripleI:
  assumes "\<And>h l. audit step h = Some l \<Longrightarrow> P l \<Longrightarrow>
    \<exists>l'. audit step (snd (m h)) = Some l' \<and> Q (fst (m h)) l'"
  shows "triple step P m Q"
  using assms by (auto simp: triple_def)

lemma tripleD:
  assumes "triple step P m Q" "audit step h = Some l" "P l" "m h = (x, h')"
  obtains l' where "audit step h' = Some l'" "Q x l'"
  using assms by (fastforce simp: triple_def)

lemma triple_weaken:
  "triple step P m Q \<Longrightarrow> (\<And>l. P' l \<Longrightarrow> P l) \<Longrightarrow> (\<And>x l. Q x l \<Longrightarrow> Q' x l) \<Longrightarrow> triple step P' m Q'"
  unfolding triple_def by meson

lemma triple_pre: "(\<And>l. P l \<Longrightarrow> triple step ((=) l) m Q) \<Longrightarrow> triple step P m Q"
  by (auto simp: triple_def)

lemma triple_give: "triple step (Q x) (give x) Q"
  by (simp add: triple_def give_def)

lemma triple_giveI: "(\<And>l. P l \<Longrightarrow> Q x l) \<Longrightarrow> triple step P (give x) Q"
  by (simp add: triple_def give_def)

lemma triple_if:
  "(b \<Longrightarrow> triple step P m Q) \<Longrightarrow> (\<not> b \<Longrightarrow> triple step P n Q) \<Longrightarrow> triple step P (if b then m else n) Q"
  by simp

lemma triple_False: "(\<And>l. \<not> P l) \<Longrightarrow> triple step P m Q"
  by (simp add: triple_def)

lemma triple_invoke:
  assumes "\<And>l a. P l \<Longrightarrow> \<exists>l'. step l (c, a) = Some l' \<and> Q a l'"
  shows "triple step P (invoke drv c) Q"
  using assms by (fastforce simp: triple_def invoke_def)

text \<open>The same where something is known of how the driver answers.\<close>

lemma triple_invoke_at:
  assumes "\<And>h l. audit step h = Some l \<Longrightarrow> P l \<Longrightarrow> \<exists>l'. step l (c, drv h c) = Some l' \<and> Q (drv h c) l'"
  shows "triple step P (invoke drv c) Q"
  using assms by (fastforce simp: triple_def invoke_def)

lemma triple_fact: "(F \<Longrightarrow> triple step P m Q) \<Longrightarrow> triple step (\<lambda>l. P l \<and> F) m Q"
  by (auto simp: triple_def)

lemma triple_then_do:
  assumes "triple step P m R" "\<And>x. triple step (R x) (f x) Q"
  shows "triple step P (then_do m f) Q"
proof (rule tripleI)
  fix h l assume h: "audit step h = Some l" "P l"
  obtain x h' where m: "m h = (x, h')" by (cases "m h")
  from tripleD [OF assms(1) h m] obtain l' where "audit step h' = Some l'" "R x l'" .
  then obtain l'' where "audit step (snd (f x h')) = Some l''" "Q (fst (f x h')) l''"
    using assms(2) [of x] by (auto simp: triple_def)
  then show "\<exists>l'. audit step (snd (then_do m f h)) = Some l' \<and> Q (fst (then_do m f h)) l'"
    by (simp add: then_do_def m)
qed

lemma triple_try_do:
  assumes "triple step P m R" "\<And>x. triple step (R (Inr x)) (f x) Q"
    and "\<And>e l. R (Inl e) l \<Longrightarrow> Q (Inl e) l"
  shows "triple step P (try_do m f) Q"
  unfolding try_do_def
  by (rule triple_then_do [OF assms(1)]) (auto split: sum.split intro: assms triple_giveI)

lemma triple_scoped:
  assumes "triple step P m R" "\<And>x. triple step (R x) release (\<lambda>_. Q x)"
  shows "triple step P (scoped m release) Q"
  unfolding scoped_def
  by (intro triple_then_do [OF assms(1)] triple_then_do [OF assms(2)] triple_give)

lemma triple_drop_on_error:
  assumes "triple step P m R" "\<And>e. triple step (R (Inl e)) release (\<lambda>_. Q (Inl e))"
    and "\<And>x l. R (Inr x) l \<Longrightarrow> Q (Inr x) l"
  shows "triple step P (drop_on_error m release) Q"
  unfolding drop_on_error_def
  by (rule triple_then_do [OF assms(1)])
    (auto split: sum.split intro!: triple_then_do [OF assms(2)] triple_giveI triple_give assms(3))

end
