(* ===== verification/Gpu_Driver.thy ===== *)
theory Gpu_Driver
  imports Effects Rust_Float Bytes "HOL-Library.Multiset"
begin

text \<open>
  The calls the repository makes into the platform loader, HIP, rocBLAS and Vulkan, their answers,
  and the audit of the resources those libraries hand out. Null pointers are zero. A call
  that fails hands out nothing.
\<close>

section \<open>Calls and answers\<close>

type_synonym ptr = u64
type_synonym path = "string list"

text \<open>\<open>HipExternalMemoryHandleDesc\<close> and \<open>HipExternalMemoryBufferDesc\<close>; reserved words are zero.\<close>

record import_descriptor =
  id_type :: i32
  id_handle :: u64
  id_size :: u64
  id_flags :: u32

record buffer_descriptor =
  bd_offset :: u64
  bd_size :: u64
  bd_flags :: u32

record sgemm_args =
  ga_handle :: ptr
  ga_op_a :: i32
  ga_op_b :: i32
  ga_m :: i32
  ga_n :: i32
  ga_k :: i32
  ga_alpha :: f32
  ga_a :: ptr
  ga_lda :: i32
  ga_b :: ptr
  ga_ldb :: i32
  ga_beta :: f32
  ga_c :: ptr
  ga_ldc :: i32

text \<open>The flags and families of the Vulkan calls, by name.\<close>

datatype buffer_usage = StorageBuffer | TransferSrc | TransferDst
datatype memory_property = DeviceLocal | HostVisible | HostCoherent
datatype access_flag =
  HostReadAccess | HostWriteAccess | TransferRead | TransferWrite | MemoryRead | MemoryWrite
datatype pipeline_stage = TopOfPipe | BottomOfPipe | TransferStage | HostStage | AllCommands
datatype queue_family = Family u32 | ExternalFamily
datatype physical_device_type = DiscreteGpu | IntegratedGpu | VirtualGpu | CpuDevice | OtherDevice

record buffer_info =
  bi_size :: u64
  bi_usage :: "buffer_usage list"
  bi_exportable :: bool

record allocate_info =
  ai_size :: u64
  ai_type_index :: nat
  ai_dedicated :: "ptr option"
  ai_exportable :: bool

record buffer_barrier =
  br_src_stage :: pipeline_stage
  br_dst_stage :: pipeline_stage
  br_src_access :: "access_flag list"
  br_dst_access :: "access_flag list"
  br_src_family :: queue_family
  br_dst_family :: queue_family
  br_buffer :: ptr
  br_size :: u64

record device_properties =
  dp_vendor_id :: u32
  dp_device_id :: u32
  dp_api_version :: u32
  dp_type :: physical_device_type

text \<open>
  Host reads and writes through a mapped pointer are listed with the calls: like them they
  depend on what is mapped. A Vulkan handle is named with the handles it belongs to.
\<close>

datatype gpu_call =
    OpenLibrary path
  | FindSymbol ptr string
  | CloseLibrary ptr
  | HipInit u32
  | HipSetDevice i32
  | HipGetDeviceCount
  | HipGetDeviceName nat
  | HipGetVersion
  | HipErrorString i32
  | HipImport import_descriptor
  | HipMap ptr buffer_descriptor
  | HipDestroyExternal ptr
  | HipMalloc nat
  | HipFree ptr
  | HipMemset ptr i32 nat
  | HipMemcpyToHost ptr nat
  | HipSynchronize
  | BlasCreate
  | BlasDestroy ptr
  | BlasSgemm sgemm_args
  | VkLoadLoader
  | VkCreateInstance string
  | VkDestroyInstance ptr
  | VkEnumerateDevices ptr
  | VkDeviceProperties ptr ptr
  | VkQueueFamilies ptr ptr
  | VkDeviceExtensions ptr ptr
  | VkExternalBufferFeatures ptr ptr
  | VkCreateDevice ptr ptr u32
  | VkDestroyDevice ptr
  | VkGetQueue ptr u32
  | VkDeviceWaitIdle ptr
  | VkCreateCommandPool ptr u32
  | VkDestroyCommandPool ptr ptr
  | VkCreateBuffer ptr buffer_info
  | VkBufferRequirements ptr ptr
  | VkMemoryProperties ptr ptr
  | VkDestroyBuffer ptr ptr
  | VkAllocateMemory ptr allocate_info
  | VkBindBuffer ptr ptr ptr
  | VkFreeMemory ptr ptr
  | VkMapMemory ptr ptr u64
  | VkUnmapMemory ptr ptr
  | HostWrite ptr bytes
  | HostRead ptr nat
  | VkGetWin32Handle ptr ptr
  | VkAllocateCommandBuffer ptr ptr
  | VkBeginCommandBuffer ptr
  | VkBarrier ptr buffer_barrier
  | VkCopyBuffer ptr ptr ptr u64
  | VkEndCommandBuffer ptr
  | VkQueueSubmit ptr ptr
  | VkQueueWaitIdle ptr
  | VkFreeCommandBuffer ptr ptr ptr

text \<open>What a call may answer with; each call reads the fields that belong to it.\<close>

record answer =
  an_code :: i32
  an_handle :: ptr
  an_text :: string
  an_bytes :: bytes
  an_count :: i32
  an_handles :: "ptr list"
  an_names :: "string list"
  an_families :: "(u32 \<times> bool) list"
  an_properties :: device_properties
  an_exportable :: bool
  an_size :: u64
  an_type_bits :: u32
  an_memory_types :: "memory_property list list"

definition answer_default :: answer where
  "answer_default = \<lparr>an_code = 0, an_handle = 0, an_text = [], an_bytes = [], an_count = 0, an_handles = [],
     an_names = [], an_families = [], an_properties = \<lparr>dp_vendor_id = 0, dp_device_id = 0, dp_api_version = 0,
     dp_type = OtherDevice\<rparr>, an_exportable = False, an_size = 0, an_type_bits = 0, an_memory_types = []\<rparr>"

type_synonym gpu_history = "(gpu_call, answer) history"
type_synonym gpu_driver = "(gpu_call, answer) driver"
type_synonym 'x gpu_effect = "(gpu_call, answer, 'x) effect"

definition hip_success :: i32 where "hip_success = 0"
definition blas_success :: i32 where "blas_success = 0"

section \<open>Live resources\<close>

text \<open>A resource carries the one it was made from, which has to outlive it.\<close>

datatype resource =
    Library ptr
  | BlasHandle ptr
  | ExternalMemory ptr
  | MappedBuffer ptr ptr
  | HipMemory ptr
  | VkInstance ptr
  | VkDevice ptr ptr
  | VkPool ptr ptr
  | VkBuffer ptr ptr
  | VkMemory ptr ptr
  | VkMapping ptr ptr
  | VkCommands ptr ptr

fun frees :: "ptr \<Rightarrow> resource \<Rightarrow> bool" where
  "frees p (MappedBuffer p' e) = (p' = p)"
| "frees p (HipMemory p') = (p' = p)"
| "frees p _ = False"

fun maps_external :: "ptr \<Rightarrow> resource \<Rightarrow> bool" where
  "maps_external e (MappedBuffer p e') = (e' = e)"
| "maps_external e _ = False"

fun of_instance :: "ptr \<Rightarrow> resource \<Rightarrow> bool" where
  "of_instance i (VkDevice d i') = (i' = i)"
| "of_instance i _ = False"

fun of_device :: "ptr \<Rightarrow> resource \<Rightarrow> bool" where
  "of_device d (VkPool p d') = (d' = d)"
| "of_device d (VkBuffer b d') = (d' = d)"
| "of_device d (VkMemory m d') = (d' = d)"
| "of_device d _ = False"

fun of_pool :: "ptr \<Rightarrow> resource \<Rightarrow> bool" where
  "of_pool p (VkCommands c p') = (p' = p)"
| "of_pool p _ = False"

fun of_memory :: "ptr \<Rightarrow> resource \<Rightarrow> bool" where
  "of_memory m (VkMapping p m') = (m' = m)"
| "of_memory m _ = False"

text \<open>The newest resource with a property is released; without one the call is refused.\<close>

fun release_first :: "('r \<Rightarrow> bool) \<Rightarrow> 'r list \<Rightarrow> 'r list option" where
  "release_first P [] = None"
| "release_first P (r # rs) = (if P r then Some rs else map_option ((#) r) (release_first P rs))"

definition requires :: "bool \<Rightarrow> 'r list \<Rightarrow> 'r list option" where
  "requires b rs = (if b then Some rs else None)"

fun is_device :: "ptr \<Rightarrow> resource \<Rightarrow> bool" where
  "is_device d (VkDevice d' i) = (d' = d)"
| "is_device d _ = False"

fun is_buffer :: "ptr \<Rightarrow> resource \<Rightarrow> bool" where
  "is_buffer b (VkBuffer b' d) = (b' = b)"
| "is_buffer b _ = False"

fun is_commands :: "ptr \<Rightarrow> resource \<Rightarrow> bool" where
  "is_commands c (VkCommands c' p) = (c' = c)"
| "is_commands c _ = False"

fun is_mapping :: "ptr \<Rightarrow> resource \<Rightarrow> bool" where
  "is_mapping p (VkMapping p' m) = (p' = p)"
| "is_mapping p _ = False"

definition live :: "(resource \<Rightarrow> bool) \<Rightarrow> resource list \<Rightarrow> bool" where
  "live P rs = (\<exists>r \<in> set rs. P r)"

definition release :: "resource \<Rightarrow> resource list \<Rightarrow> resource list option" where
  "release r = release_first ((=) r)"

definition obtain_if :: "bool \<Rightarrow> resource \<Rightarrow> resource list \<Rightarrow> resource list option" where
  "obtain_if b r rs = Some (if b then r # rs else rs)"

abbreviation answered :: "answer \<Rightarrow> bool" where
  "answered a \<equiv> an_code a = 0 \<and> an_handle a \<noteq> 0"

text \<open>
  External memory may only be destroyed when no mapping of it is left among the newer
  resources, a matrix product may only touch mapped buffers, and a Vulkan object may only be
  destroyed when nothing made from it is left. Vulkan reports success by the code alone.
\<close>

fun gpu_step :: "(gpu_call, answer, resource) audit_step" where
  "gpu_step rs (OpenLibrary path, a) = obtain_if (an_handle a \<noteq> 0) (Library (an_handle a)) rs"
| "gpu_step rs (FindSymbol l name, a) = requires (Library l \<in> set rs) rs"
| "gpu_step rs (CloseLibrary l, a) = release (Library l) rs"
| "gpu_step rs (HipImport d, a) = obtain_if (answered a) (ExternalMemory (an_handle a)) rs"
| "gpu_step rs (HipMap e d, a) =
     (if ExternalMemory e \<notin> set rs then None
      else obtain_if (answered a) (MappedBuffer (an_handle a) e) rs)"
| "gpu_step rs (HipDestroyExternal e, a) =
     (if \<exists>r \<in> set (takeWhile ((\<noteq>) (ExternalMemory e)) rs). maps_external e r then None
      else release (ExternalMemory e) rs)"
| "gpu_step rs (HipMalloc n, a) = obtain_if (answered a) (HipMemory (an_handle a)) rs"
| "gpu_step rs (HipFree p, a) = release_first (frees p) rs"
| "gpu_step rs (HipMemset p v n, a) = requires (live (frees p) rs) rs"
| "gpu_step rs (HipMemcpyToHost p n, a) = requires (live (frees p) rs) rs"
| "gpu_step rs (BlasCreate, a) = obtain_if (answered a) (BlasHandle (an_handle a)) rs"
| "gpu_step rs (BlasDestroy x, a) = release (BlasHandle x) rs"
| "gpu_step rs (BlasSgemm g, a) =
     requires (BlasHandle (ga_handle g) \<in> set rs \<and>
       (live (frees (ga_a g)) rs \<and> live (frees (ga_b g)) rs \<and> live (frees (ga_c g)) rs)) rs"
| "gpu_step rs (VkCreateInstance app, a) = obtain_if (an_code a = 0) (VkInstance (an_handle a)) rs"
| "gpu_step rs (VkDestroyInstance i, a) =
     (if live (of_instance i) rs then None else release (VkInstance i) rs)"
| "gpu_step rs (VkEnumerateDevices i, a) = requires (VkInstance i \<in> set rs) rs"
| "gpu_step rs (VkDeviceProperties i d, a) = requires (VkInstance i \<in> set rs) rs"
| "gpu_step rs (VkQueueFamilies i d, a) = requires (VkInstance i \<in> set rs) rs"
| "gpu_step rs (VkDeviceExtensions i d, a) = requires (VkInstance i \<in> set rs) rs"
| "gpu_step rs (VkExternalBufferFeatures i d, a) = requires (VkInstance i \<in> set rs) rs"
| "gpu_step rs (VkMemoryProperties i d, a) = requires (VkInstance i \<in> set rs) rs"
| "gpu_step rs (VkCreateDevice i d q, a) =
     (if VkInstance i \<notin> set rs then None else obtain_if (an_code a = 0) (VkDevice (an_handle a) i) rs)"
| "gpu_step rs (VkDestroyDevice d, a) =
     (if live (of_device d) rs then None
      else release_first (is_device d) rs)"
| "gpu_step rs (VkGetQueue d q, a) = requires (live (is_device d) rs) rs"
| "gpu_step rs (VkDeviceWaitIdle d, a) = requires (live (is_device d) rs) rs"
| "gpu_step rs (VkCreateCommandPool d q, a) =
     (if \<not> live (is_device d) rs then None else obtain_if (an_code a = 0) (VkPool (an_handle a) d) rs)"
| "gpu_step rs (VkDestroyCommandPool d p, a) =
     (if live (of_pool p) rs then None else release (VkPool p d) rs)"
| "gpu_step rs (VkCreateBuffer d b, a) =
     (if \<not> live (is_device d) rs then None else obtain_if (an_code a = 0) (VkBuffer (an_handle a) d) rs)"
| "gpu_step rs (VkBufferRequirements d b, a) = requires (VkBuffer b d \<in> set rs) rs"
| "gpu_step rs (VkDestroyBuffer d b, a) = release (VkBuffer b d) rs"
| "gpu_step rs (VkAllocateMemory d i, a) =
     (if \<not> live (is_device d) rs then None else obtain_if (an_code a = 0) (VkMemory (an_handle a) d) rs)"
| "gpu_step rs (VkBindBuffer d b m, a) = requires (VkBuffer b d \<in> set rs \<and> VkMemory m d \<in> set rs) rs"
| "gpu_step rs (VkFreeMemory d m, a) =
     (if live (of_memory m) rs then None else release (VkMemory m d) rs)"
| "gpu_step rs (VkMapMemory d m n, a) =
     (if VkMemory m d \<notin> set rs \<or> (live (of_memory m) rs) then None
      else obtain_if (an_code a = 0) (VkMapping (an_handle a) m) rs)"
| "gpu_step rs (VkUnmapMemory d m, a) = release_first (of_memory m) rs"
| "gpu_step rs (HostWrite p bs, a) = requires (live (is_mapping p) rs) rs"
| "gpu_step rs (HostRead p n, a) = requires (live (is_mapping p) rs) rs"
| "gpu_step rs (VkGetWin32Handle d m, a) = requires (VkMemory m d \<in> set rs) rs"
| "gpu_step rs (VkAllocateCommandBuffer d p, a) =
     (if VkPool p d \<notin> set rs then None else obtain_if (an_code a = 0) (VkCommands (an_handle a) p) rs)"
| "gpu_step rs (VkBeginCommandBuffer c, a) = requires (live (is_commands c) rs) rs"
| "gpu_step rs (VkBarrier c b, a) =
     requires ((live (is_commands c) rs) \<and> (live (is_buffer (br_buffer b)) rs)) rs"
| "gpu_step rs (VkCopyBuffer c x y n, a) =
     requires ((live (is_commands c) rs) \<and> (live (is_buffer x) rs) \<and> (live (is_buffer y) rs)) rs"
| "gpu_step rs (VkEndCommandBuffer c, a) = requires (live (is_commands c) rs) rs"
| "gpu_step rs (VkQueueSubmit q c, a) = requires (live (is_commands c) rs) rs"
| "gpu_step rs (VkFreeCommandBuffer d p c, a) = release (VkCommands c p) rs"
| "gpu_step rs (_, a) = Some rs"

abbreviation gpu_triple ::
  "(resource list \<Rightarrow> bool) \<Rightarrow> 'x gpu_effect \<Rightarrow> ('x \<Rightarrow> resource list \<Rightarrow> bool) \<Rightarrow> bool" where
  "gpu_triple \<equiv> triple gpu_step"

abbreviation gpu_audit :: "gpu_history \<Rightarrow> resource list option" where
  "gpu_audit \<equiv> audit gpu_step"

lemma release_first_head [simp]: "P r \<Longrightarrow> release_first P (r # rs) = Some rs"
  by simp

lemma live_simps [simp]: "\<not> live P []" "live P (r # rs) \<longleftrightarrow> P r \<or> live P rs"
  "live P (rs @ rs') \<longleftrightarrow> live P rs \<or> live P rs'"
  by (auto simp: live_def)

lemma liveI: "r \<in> set rs \<Longrightarrow> P r \<Longrightarrow> live P rs"
  by (auto simp: live_def)

lemma release_head [simp]: "release r (r # rs) = Some rs"
  by (simp add: release_def)

lemma obtain_if_simps [simp]: "obtain_if True r rs = Some (r # rs)" "obtain_if False r rs = Some rs"
  by (simp_all add: obtain_if_def)

lemma requires_True [simp]: "requires True rs = Some rs"
  by (simp add: requires_def)

lemma release_mset:
  assumes "mset rs = add_mset x M"
  shows "\<exists>rs'. release x rs = Some rs' \<and> mset rs' = M"
proof -
  have "x \<in> set rs \<Longrightarrow> \<exists>rs'. release x rs = Some rs' \<and> mset rs = add_mset x (mset rs')"
    unfolding release_def by (induction rs) auto
  moreover have "x \<in> set rs" using arg_cong [OF assms, of set_mset] by simp
  ultimately show ?thesis using assms by auto
qed

section \<open>Opening libraries\<close>

definition close_library :: "gpu_driver \<Rightarrow> ptr \<Rightarrow> unit gpu_effect" where
  "close_library drv l = then_do (invoke drv (CloseLibrary l)) (\<lambda>_. give ())"

lemma close_library_newest: "gpu_triple (\<lambda>l. l = Library lib # rs) (close_library drv lib) (\<lambda>_ l. l = rs)"
  unfolding close_library_def
  by (rule triple_then_do [where R = "\<lambda>_ l. l = rs"]) (auto intro!: triple_invoke triple_giveI)

end
