(* ===== verification/Hip_Shared_Gemm.thy ===== *)
theory Hip_Shared_Gemm
  imports Environment Gpu_Driver BTree_Map Shared_Gemm_Protocol Shared_Operator_Loader
begin

text \<open>
  The crate \<open>vrb-hip-shared-gemm-plugin\<close>: rocBLAS single-precision GEMM on imported Vulkan
  allocations, behind the ABI for shared operators. The driver stands for HIP, rocBLAS and
  the platform loader, the environment variables are a parameter. Null requests and output
  pointers are outside the model: the host never passes them.
\<close>

section \<open>Data\<close>

definition hip_operator_id :: u32 where "hip_operator_id = 1"
definition hip_plugin_name :: bytes where "hip_plugin_name = byte_string ''vrb-hip-shared-gemm''"
definition hip_operator_name :: bytes where "hip_operator_name = byte_string ''hip-rocblas-shared-fp32-gemm''"
definition success_receipt :: bytes where "success_receipt = byte_string ''hip-rocblas-shared-gemm-ok''"
definition rocblas_operation_none :: i32 where "rocblas_operation_none = 111"
definition hip_handle_type_opaque_win32_kmt :: i32 where "hip_handle_type_opaque_win32_kmt = 3"

record hip_api =
  ha_library :: ptr

record rocblas_api =
  ra_library :: ptr

record imported_region =
  ir_pointer :: ptr
  ir_external :: ptr

text \<open>The handles are keyed by the signed device index.\<close>

record runtime_state =
  rt_hip :: hip_api
  rt_rocblas :: rocblas_api
  rt_handles :: "(int, ptr) btree_map"

text \<open>The mutex-protected static and the calls made so far.\<close>

record hip_plugin =
  hp_poisoned :: bool
  hp_runtime :: "runtime_state option"
  hp_calls :: gpu_history

definition hip_plugin_new :: "gpu_history \<Rightarrow> hip_plugin" where
  "hip_plugin_new h = \<lparr>hp_poisoned = False, hp_runtime = None, hp_calls = h\<rparr>"

definition hip_bit :: "u32 \<Rightarrow> u64" where
  "hip_bit value = (if value < 64 then push_bit (unat value) 1 else 0)"

section \<open>Loading the libraries\<close>

definition dll :: "string \<Rightarrow> nat \<Rightarrow> string" where
  "dll name major = name @ ''_'' @ show_nat major @ ''.dll''"

definition hip_library_candidates :: "environment \<Rightarrow> path list" where
  "hip_library_candidates env =
     concat (map (\<lambda>variable. case env variable of
          None \<Rightarrow> []
        | Some root \<Rightarrow> [root, ''bin'', ''amdhip64.dll'']
            # map (\<lambda>major. [root, ''bin'', dll ''amdhip64'' major]) (rev [5..<10]))
        [''HIP_PATH'', ''ROCM_PATH''])
     @ [[''amdhip64.dll'']] @ map (\<lambda>major. [dll ''amdhip64'' major]) (rev [5..<10])"

definition rocblas_library_candidates :: "environment \<Rightarrow> path list" where
  "rocblas_library_candidates env =
     concat (map (\<lambda>variable. case env variable of
          None \<Rightarrow> []
        | Some root \<Rightarrow> [[root, ''bin'', ''rocblas.dll'']])
        [''ROCM_PATH'', ''HIP_PATH''])
     @ [[''rocblas.dll'']]"

fun load_first :: "gpu_driver \<Rightarrow> path list \<Rightarrow> (unit + ptr) gpu_effect" where
  "load_first drv [] = give (Inl ())"
| "load_first drv (candidate # candidates) =
     then_do (invoke drv (OpenLibrary candidate)) (\<lambda>a.
       if an_handle a \<noteq> 0 then give (Inr (an_handle a)) else load_first drv candidates)"

definition load_required :: "gpu_driver \<Rightarrow> ptr \<Rightarrow> string \<Rightarrow> (i32 + unit) gpu_effect" where
  "load_required drv library name =
     then_do (invoke drv (FindSymbol library name)) (\<lambda>a.
       give (if an_handle a \<noteq> 0 then Inr () else Inl status_unavailable))"

fun load_all_required :: "gpu_driver \<Rightarrow> ptr \<Rightarrow> string list \<Rightarrow> (i32 + unit) gpu_effect" where
  "load_all_required drv library [] = give (Inr ())"
| "load_all_required drv library (name # names) =
     try_do (load_required drv library name) (\<lambda>_. load_all_required drv library names)"

definition hip_load_library :: "gpu_driver \<Rightarrow> path list \<Rightarrow> (i32 + ptr) gpu_effect" where
  "hip_load_library drv candidates =
     then_do (load_first drv candidates) (\<lambda>r. give (map_err (\<lambda>_. status_unavailable) r))"

text \<open>\<open>HipApi::load\<close> and \<open>RocblasApi::load\<close>; on an error the library is dropped.\<close>

definition hip_api_init :: "gpu_driver \<Rightarrow> ptr \<Rightarrow> (i32 + hip_api) gpu_effect" where
  "hip_api_init drv library =
     try_do (load_all_required drv library
         [''hipInit'', ''hipSetDevice'', ''hipImportExternalMemory'', ''hipExternalMemoryGetMappedBuffer'',
          ''hipDestroyExternalMemory'', ''hipFree'', ''hipDeviceSynchronize'']) (\<lambda>_.
     then_do (invoke drv (HipInit 0)) (\<lambda>a.
     if an_code a \<noteq> hip_success then give (Inl status_unavailable)
     else give (Inr \<lparr>ha_library = library\<rparr>)))"

definition hip_api_load :: "gpu_driver \<Rightarrow> environment \<Rightarrow> (i32 + hip_api) gpu_effect" where
  "hip_api_load drv env =
     try_do (hip_load_library drv (hip_library_candidates env)) (\<lambda>library.
     drop_on_error (hip_api_init drv library) (close_library drv library))"

definition rocblas_api_init :: "gpu_driver \<Rightarrow> ptr \<Rightarrow> (i32 + rocblas_api) gpu_effect" where
  "rocblas_api_init drv library =
     try_do (load_all_required drv library
         [''rocblas_create_handle'', ''rocblas_destroy_handle'', ''rocblas_sgemm'']) (\<lambda>_.
     give (Inr \<lparr>ra_library = library\<rparr>))"

definition rocblas_api_load :: "gpu_driver \<Rightarrow> environment \<Rightarrow> (i32 + rocblas_api) gpu_effect" where
  "rocblas_api_load drv env =
     try_do (hip_load_library drv (rocblas_library_candidates env)) (\<lambda>library.
     drop_on_error (rocblas_api_init drv library) (close_library drv library))"

definition runtime_load :: "gpu_driver \<Rightarrow> environment \<Rightarrow> (i32 + runtime_state) gpu_effect" where
  "runtime_load drv env =
     try_do (hip_api_load drv env) (\<lambda>hip.
     drop_on_error
       (try_do (rocblas_api_load drv env) (\<lambda>rocblas.
        give (Inr \<lparr>rt_hip = hip, rt_rocblas = rocblas, rt_handles = []\<rparr>)))
       (close_library drv (ha_library hip)))"

section \<open>Regions and handles\<close>

definition drop_external :: "gpu_driver \<Rightarrow> ptr \<Rightarrow> unit gpu_effect" where
  "drop_external drv e =
     (if e \<noteq> 0 then then_do (invoke drv (HipDestroyExternal e)) (\<lambda>_. give ()) else give ())"

definition drop_mapped :: "gpu_driver \<Rightarrow> ptr \<Rightarrow> unit gpu_effect" where
  "drop_mapped drv p = (if p \<noteq> 0 then then_do (invoke drv (HipFree p)) (\<lambda>_. give ()) else give ())"

text \<open>Fields are dropped in order: the mapping before the external memory.\<close>

definition drop_region :: "gpu_driver \<Rightarrow> imported_region \<Rightarrow> unit gpu_effect" where
  "drop_region drv r = then_do (drop_mapped drv (ir_pointer r)) (\<lambda>_. drop_external drv (ir_external r))"

definition import_region :: "gpu_driver \<Rightarrow> abi_region \<Rightarrow> (i32 + imported_region) gpu_effect" where
  "import_region drv region =
     (let descriptor = \<lparr>id_type = hip_handle_type_opaque_win32_kmt, id_handle = ar_handle region,
            id_size = ar_allocation_size region, id_flags = 0\<rparr>
      in then_do (invoke drv (HipImport descriptor)) (\<lambda>a.
         if an_code a \<noteq> hip_success \<or> an_handle a = 0 then give (Inl status_unavailable)
         else let external = an_handle a;
              mapping = \<lparr>bd_offset = ar_offset region, bd_size = ar_length region, bd_flags = 0\<rparr>
         in drop_on_error
           (then_do (invoke drv (HipMap external mapping)) (\<lambda>a.
            if an_code a \<noteq> hip_success \<or> an_handle a = 0 then give (Inl status_unavailable)
            else give (Inr \<lparr>ir_pointer = an_handle a, ir_external = external\<rparr>)))
           (drop_external drv external)))"

definition handle_for_device ::
  "gpu_driver \<Rightarrow> i32 \<Rightarrow> runtime_state \<Rightarrow> ((i32 + ptr) \<times> runtime_state) gpu_effect" where
  "handle_for_device drv device_index rt =
     then_do (invoke drv (HipSetDevice device_index)) (\<lambda>a.
     if an_code a \<noteq> hip_success then give (Inl status_unavailable, rt)
     else case bt_get (rt_handles rt) (sint device_index) of
       Some handle \<Rightarrow> give (Inr handle, rt)
     | None \<Rightarrow>
         then_do (invoke drv BlasCreate) (\<lambda>a.
         if an_code a \<noteq> blas_success \<or> an_handle a = 0 then give (Inl status_unavailable, rt)
         else give (Inr (an_handle a),
           rt\<lparr>rt_handles := bt_insert (sint device_index) (an_handle a) (rt_handles rt)\<rparr>)))"

text \<open>\<open>Drop\<close> of the runtime: its own body, then its two libraries.\<close>

definition drop_handle :: "gpu_driver \<Rightarrow> int \<times> ptr \<Rightarrow> unit gpu_effect" where
  "drop_handle drv = (\<lambda>(device_index, raw_handle).
     then_do (invoke drv (HipSetDevice (word_of_int device_index))) (\<lambda>_.
     if raw_handle \<noteq> 0 then then_do (invoke drv (BlasDestroy raw_handle)) (\<lambda>_. give ()) else give ()))"

definition drop_runtime :: "gpu_driver \<Rightarrow> runtime_state \<Rightarrow> unit gpu_effect" where
  "drop_runtime drv rt =
     then_do (for_each (drop_handle drv) (rt_handles rt)) (\<lambda>_.
     then_do (close_library drv (ha_library (rt_hip rt))) (\<lambda>_.
     close_library drv (ra_library (rt_rocblas rt))))"

definition with_runtime ::
  "gpu_driver \<Rightarrow> environment \<Rightarrow> (runtime_state \<Rightarrow> ((i32 + 'x) \<times> runtime_state) gpu_effect)
    \<Rightarrow> hip_plugin \<Rightarrow> (i32 + 'x) \<times> hip_plugin" where
  "with_runtime drv env operation p =
     (if hp_poisoned p then (Inl status_internal_error, p)
      else
        (case (case hp_runtime p of None \<Rightarrow> runtime_load drv env | Some rt \<Rightarrow> give (Inr rt)) (hp_calls p) of
           (Inl e, h) \<Rightarrow> (Inl e, p\<lparr>hp_calls := h\<rparr>)
         | (Inr rt, h) \<Rightarrow>
             (case operation rt h of
                ((r, rt'), h') \<Rightarrow> (r, p\<lparr>hp_runtime := Some rt', hp_calls := h'\<rparr>))))"

definition hip_shutdown :: "gpu_driver \<Rightarrow> hip_plugin \<Rightarrow> hip_plugin" where
  "hip_shutdown drv p =
     (if hp_poisoned p then p
      else case hp_runtime p of
        None \<Rightarrow> p
      | Some rt \<Rightarrow> p\<lparr>hp_runtime := None, hp_calls := snd (drop_runtime drv rt (hp_calls p))\<rparr>)"

section \<open>The callbacks\<close>

definition hip_query_operator :: "'p query_shared_fn" where
  "hip_query_operator index info user_data =
     (if index \<noteq> 0 then (status_invalid_argument, info, user_data)
      else (status_ok,
        shared_operator_info_default\<lparr>sn_operator_id := hip_operator_id, sn_operator_kind := raw_kind_gemm,
          sn_backend_kind := raw_backend_hip,
          sn_capability_bits := shcap_external_resource OR shcap_fp32 OR shcap_proven_zero_copy,
          sn_memory_kind_bits := hip_bit raw_mem_win32_kmt, sn_sync_kind_bits := 0,
          sn_name := c_name shared_operator_name_capacity hip_operator_name\<rparr>, user_data))"

definition abi_slice :: "bytes option \<Rightarrow> u64 \<Rightarrow> i32 + bytes" where
  "abi_slice pointer len =
     and_then (ok_or (usize_try_from len) status_invalid_argument) (\<lambda>len.
     if len = 0 then Inr []
     else (case pointer of None \<Rightarrow> Inl status_invalid_argument | Some bs \<Rightarrow> Inr (take len bs)))"

definition hip_validate_region :: "abi_region \<Rightarrow> u32 \<Rightarrow> u64 \<Rightarrow> bool" where
  "hip_validate_region region access expected_bytes =
     (if ar_struct_size region < expected_region_size \<or> ar_handle_kind region \<noteq> raw_mem_win32_kmt
         \<or> ar_access region \<noteq> access \<or> ar_handle region = 0 \<or> ar_length region \<noteq> expected_bytes
         \<or> ar_allocation_size region = 0
      then False
      else (case checked_add (ar_offset region) (ar_length region) of
              None \<Rightarrow> False
            | Some end_offset \<Rightarrow> end_offset \<le> ar_allocation_size region))"

definition i32_try_from :: "u64 \<Rightarrow> i32 option" where
  "i32_try_from w = (if unat w < 2 ^ 31 then Some (ucast w) else None)"

text \<open>The status, the bytes written to the receipt and the length stored for it.\<close>

definition hip_write_receipt :: "shared_execution_request \<Rightarrow> bytes \<Rightarrow> i32 \<times> bytes \<times> u64" where
  "hip_write_receipt request receipt =
     (let required = of_nat (length receipt)
      in if sx_receipt_capacity request < required then (status_buffer_too_small, [], required)
         else if required > 0 \<and> sx_receipt request = None then (status_invalid_argument, [], required)
         else (status_ok, receipt, required))"

text \<open>The closure \<open>execute_windows\<close> runs on the runtime, in two parts.\<close>

definition sgemm_args_of ::
  "shared_gemm_control \<Rightarrow> i32 \<times> i32 \<times> i32 \<Rightarrow> ptr \<Rightarrow> ptr \<Rightarrow> ptr \<Rightarrow> ptr \<Rightarrow> sgemm_args" where
  "sgemm_args_of control = (\<lambda>(m, n, k) raw_handle a b c.
     \<lparr>ga_handle = raw_handle, ga_op_a = rocblas_operation_none, ga_op_b = rocblas_operation_none,
      ga_m = n, ga_n = m, ga_k = k, ga_alpha = sg_alpha control, ga_a = b, ga_lda = n, ga_b = a, ga_ldb = k,
      ga_beta = sg_beta control, ga_c = c, ga_ldc = n\<rparr>)"

definition run_sgemm ::
  "gpu_driver \<Rightarrow> shared_gemm_control \<Rightarrow> i32 \<times> i32 \<times> i32 \<Rightarrow> ptr
    \<Rightarrow> imported_region \<Rightarrow> imported_region \<Rightarrow> imported_region \<Rightarrow> (i32 + unit) gpu_effect" where
  "run_sgemm drv control dims raw_handle a b c =
     then_do (invoke drv (BlasSgemm
       (sgemm_args_of control dims raw_handle (ir_pointer a) (ir_pointer b) (ir_pointer c)))) (\<lambda>r.
     if an_code r \<noteq> blas_success then give (Inl status_internal_error)
     else then_do (invoke drv HipSynchronize) (\<lambda>r.
     if an_code r \<noteq> hip_success then give (Inl status_internal_error) else give (Inr ())))"

definition gemm_on_regions ::
  "gpu_driver \<Rightarrow> shared_gemm_control \<Rightarrow> i32 \<times> i32 \<times> i32 \<Rightarrow> ptr
    \<Rightarrow> abi_region \<Rightarrow> abi_region \<Rightarrow> abi_region \<Rightarrow> (i32 + unit) gpu_effect" where
  "gemm_on_regions drv control dims raw_handle ra rb rc =
     try_do (import_region drv ra) (\<lambda>a. scoped
       (try_do (import_region drv rb) (\<lambda>b. scoped
         (try_do (import_region drv rc) (\<lambda>c. scoped
           (run_sgemm drv control dims raw_handle a b c)
           (drop_region drv c)))
         (drop_region drv b)))
       (drop_region drv a))"

definition execution :: "gpu_driver \<Rightarrow> shared_gemm_control \<Rightarrow> i32 \<times> i32 \<times> i32
    \<Rightarrow> abi_region \<Rightarrow> abi_region \<Rightarrow> abi_region \<Rightarrow> runtime_state \<Rightarrow> ((i32 + unit) \<times> runtime_state) gpu_effect" where
  "execution drv control dims ra rb rc rt =
     then_do (handle_for_device drv (sg_hip_device_index control) rt) (\<lambda>(r, rt').
     case r of
       Inl e \<Rightarrow> give (Inl e, rt')
     | Inr raw_handle \<Rightarrow>
         then_do (gemm_on_regions drv control dims raw_handle ra rb rc) (\<lambda>r. give (r, rt')))"

text \<open>
  The checks of \<open>execute_windows\<close> before the runtime is touched: the control, the three
  regions and the dimensions as \<open>i32\<close>. The host hands over as many regions as it counts.
\<close>

definition prepare_execution ::
  "shared_execution_request
    \<Rightarrow> i32 + shared_gemm_control \<times> (i32 \<times> i32 \<times> i32) \<times> abi_region \<times> abi_region \<times> abi_region" where
  "prepare_execution request =
     and_then (abi_slice (sx_metadata request) (sx_metadata_len request)) (\<lambda>metadata.
     and_then (map_err (\<lambda>_. status_invalid_argument) (decode_shared_control metadata)) (\<lambda>control.
     and_then (ensure (unat (sx_resource_count request) = shared_gemm_resource_count
         \<and> sx_resources request \<noteq> None \<and> sx_wait_count request = 0 \<and> sx_signal_count request = 0)
       status_invalid_argument) (\<lambda>_.
     and_then (map_err (\<lambda>_. status_invalid_argument) (expected_shared_lengths control)) (\<lambda>lengths.
     (case sx_resources request of
        Some (ra # rb # rc # _) \<Rightarrow>
          and_then (ensure (hip_validate_region ra raw_access_read_only (sl_a_bytes lengths)
              \<and> hip_validate_region rb raw_access_read_only (sl_b_bytes lengths)
              \<and> hip_validate_region rc raw_access_read_write (sl_c_bytes lengths)) status_invalid_argument) (\<lambda>_.
          and_then (ok_or (i32_try_from (sg_m control)) status_unsupported) (\<lambda>m.
          and_then (ok_or (i32_try_from (sg_n control)) status_unsupported) (\<lambda>n.
          and_then (ok_or (i32_try_from (sg_k control)) status_unsupported) (\<lambda>k.
          Inr (control, (m, n, k), ra, rb, rc)))))
      | _ \<Rightarrow> Inl status_invalid_argument)))))"

definition execute_windows ::
  "gpu_driver \<Rightarrow> environment \<Rightarrow> shared_execution_request \<Rightarrow> u64 \<Rightarrow> hip_plugin \<Rightarrow> i32 \<times> bytes \<times> u64 \<times> hip_plugin" where
  "execute_windows drv env request old_len p =
     (case prepare_execution request of
        Inl error \<Rightarrow> (error, [], old_len, p)
      | Inr (control, dims, ra, rb, rc) \<Rightarrow>
          (case with_runtime drv env (execution drv control dims ra rb rc) p of
             (Inl error, p') \<Rightarrow> (error, [], old_len, p')
           | (Inr _, p') \<Rightarrow>
               (case hip_write_receipt request success_receipt of (st, written, len) \<Rightarrow> (st, written, len, p'))))"

definition hip_execute :: "bool \<Rightarrow> gpu_driver \<Rightarrow> environment \<Rightarrow> hip_plugin execute_shared_fn" where
  "hip_execute windows drv env request p =
     (case sx_receipt_len request of
        None \<Rightarrow> (status_invalid_argument, [], 0, p)
      | Some old_len \<Rightarrow>
          if sx_struct_size request < expected_shared_request_size \<or> sx_operator_id request \<noteq> hip_operator_id
          then (status_invalid_argument, [], old_len, p)
          else if windows then execute_windows drv env request old_len p
          else (status_unsupported, [], old_len, p))"

text \<open>The static descriptor; off Windows \<open>shutdown\<close> does nothing.\<close>

definition hip_gemm_plugin :: "bool \<Rightarrow> gpu_driver \<Rightarrow> environment \<Rightarrow> hip_plugin shared_plugin" where
  "hip_gemm_plugin windows drv env =
     \<lparr>sd_abi_version = shared_plugin_abi_version, sd_struct_size = expected_shared_plugin_size,
      sd_name = c_name shared_plugin_name_capacity hip_plugin_name, sd_operator_count = 1,
      sd_capability_bits = shcap_external_resource OR shcap_fp32 OR shcap_proven_zero_copy,
      sd_query_operator = Some hip_query_operator, sd_execute = Some (hip_execute windows drv env),
      sd_shutdown = Some (if windows then hip_shutdown drv else (\<lambda>p. p))\<rparr>"

section \<open>What every part leaves live\<close>

lemma load_first_live:
  "gpu_triple (\<lambda>l. l = rs) (load_first drv cs)
     (\<lambda>r l. case r of Inl _ \<Rightarrow> l = rs | Inr lib \<Rightarrow> l = Library lib # rs)"
proof (induction cs)
  case (Cons c cs)
  have "gpu_triple (\<lambda>l. l = rs) (invoke drv (OpenLibrary c))
      (\<lambda>a l. l = (if an_handle a \<noteq> 0 then Library (an_handle a) # rs else rs))"
    by (rule triple_invoke) auto
  then show ?case
    unfolding load_first.simps
    by (rule triple_then_do) (auto intro: triple_giveI triple_weaken [OF Cons.IH])
qed (auto intro: triple_giveI)

lemma hip_load_library_live:
  "gpu_triple (\<lambda>l. l = rs) (hip_load_library drv cs)
     (\<lambda>r l. case r of Inl _ \<Rightarrow> l = rs | Inr lib \<Rightarrow> l = Library lib # rs)"
  unfolding hip_load_library_def
proof (rule triple_then_do [OF load_first_live])
  fix r :: "unit + ptr"
  show "gpu_triple (\<lambda>l. case r of Inl _ \<Rightarrow> l = rs | Inr lib \<Rightarrow> l = Library lib # rs)
    (give (map_err (\<lambda>_. status_unavailable) r))
    (\<lambda>r l. case r of Inl _ \<Rightarrow> l = rs | Inr lib \<Rightarrow> l = Library lib # rs)"
    by (cases r) (auto intro: triple_giveI)
qed

lemma load_all_required_live:
  assumes "Library lib \<in> set rs"
  shows "gpu_triple (\<lambda>l. l = rs) (load_all_required drv lib names) (\<lambda>_ l. l = rs)"
proof (induction names)
  case (Cons name names)
  have "gpu_triple (\<lambda>l. l = rs) (load_required drv lib name) (\<lambda>_ l. l = rs)"
    unfolding load_required_def
    by (rule triple_then_do [where R = "\<lambda>_ l. l = rs"])
      (use assms in \<open>auto intro!: triple_invoke triple_giveI simp: requires_def\<close>)
  from triple_try_do [OF this Cons.IH] show ?case by simp
qed (auto intro: triple_giveI)

lemma hip_api_init_live:
  "gpu_triple (\<lambda>l. l = Library lib # rs) (hip_api_init drv lib)
     (\<lambda>r l. l = Library lib # rs \<and> (\<forall>hip. r = Inr hip \<longrightarrow> ha_library hip = lib))"
  unfolding hip_api_init_def
proof (rule triple_try_do [OF load_all_required_live])
  fix x
  have "gpu_triple (\<lambda>l. l = Library lib # rs) (invoke drv (HipInit 0)) (\<lambda>_ l. l = Library lib # rs)"
    by (rule triple_invoke) simp
  then show "gpu_triple (\<lambda>l. l = Library lib # rs)
     (then_do (invoke drv (HipInit 0)) (\<lambda>a.
       if an_code a \<noteq> hip_success then give (Inl status_unavailable) else give (Inr \<lparr>ha_library = lib\<rparr>)))
     (\<lambda>r l. l = Library lib # rs \<and> (\<forall>hip. r = Inr hip \<longrightarrow> ha_library hip = lib))"
    by (rule triple_then_do) (auto intro: triple_giveI)
qed simp_all

lemma hip_api_load_live:
  "gpu_triple (\<lambda>l. l = rs) (hip_api_load drv env)
     (\<lambda>r l. case r of Inl _ \<Rightarrow> l = rs | Inr hip \<Rightarrow> l = Library (ha_library hip) # rs)"
  unfolding hip_api_load_def
  by (rule triple_try_do [OF hip_load_library_live])
    (auto intro!: triple_drop_on_error [OF hip_api_init_live] intro: triple_weaken [OF close_library_newest])

lemma rocblas_api_init_live:
  "gpu_triple (\<lambda>l. l = Library lib # rs) (rocblas_api_init drv lib)
     (\<lambda>r l. l = Library lib # rs \<and> (\<forall>api. r = Inr api \<longrightarrow> ra_library api = lib))"
  unfolding rocblas_api_init_def
  by (rule triple_try_do [OF load_all_required_live]) (auto intro: triple_giveI)

lemma rocblas_api_load_live:
  "gpu_triple (\<lambda>l. l = rs) (rocblas_api_load drv env)
     (\<lambda>r l. case r of Inl _ \<Rightarrow> l = rs | Inr api \<Rightarrow> l = Library (ra_library api) # rs)"
  unfolding rocblas_api_load_def
  by (rule triple_try_do [OF hip_load_library_live])
    (auto intro!: triple_drop_on_error [OF rocblas_api_init_live] intro: triple_weaken [OF close_library_newest])

text \<open>What a runtime holds: its libraries and the handles it created, all of them non-null.\<close>

definition held :: "runtime_state \<Rightarrow> resource multiset" where
  "held rt = {#Library (ha_library (rt_hip rt)), Library (ra_library (rt_rocblas rt))#}
     + image_mset (\<lambda>(i, x). BlasHandle x) (mset (rt_handles rt))"

definition runtime_ok :: "runtime_state \<Rightarrow> bool" where
  "runtime_ok rt = (\<forall>(i, x) \<in> set (rt_handles rt). x \<noteq> 0)"

definition runtime_live :: "runtime_state \<Rightarrow> resource list \<Rightarrow> bool" where
  "runtime_live rt l = (mset l = held rt \<and> runtime_ok rt)"

lemma runtime_load_live:
  "gpu_triple (\<lambda>l. l = []) (runtime_load drv env)
     (\<lambda>r l. case r of Inl _ \<Rightarrow> l = [] | Inr rt \<Rightarrow> runtime_live rt l)"
  unfolding runtime_load_def
proof (rule triple_try_do [OF hip_api_load_live])
  fix hip
  show "gpu_triple (\<lambda>l. case Inr hip of Inl _ \<Rightarrow> l = [] | Inr hip \<Rightarrow> l = [Library (ha_library hip)])
     (drop_on_error
       (try_do (rocblas_api_load drv env) (\<lambda>rocblas.
        give (Inr \<lparr>rt_hip = hip, rt_rocblas = rocblas, rt_handles = []\<rparr>)))
       (close_library drv (ha_library hip)))
     (\<lambda>r l. case r of Inl _ \<Rightarrow> l = [] | Inr rt \<Rightarrow> runtime_live rt l)"
  proof (rule triple_drop_on_error)
    show "gpu_triple (\<lambda>l. case Inr hip of Inl _ \<Rightarrow> l = [] | Inr hip \<Rightarrow> l = [Library (ha_library hip)])
       (try_do (rocblas_api_load drv env) (\<lambda>rocblas.
        give (Inr \<lparr>rt_hip = hip, rt_rocblas = rocblas, rt_handles = []\<rparr>)))
       (\<lambda>r l. case r of Inl _ \<Rightarrow> l = [Library (ha_library hip)] | Inr rt \<Rightarrow> runtime_live rt l)"
      unfolding sum.case
      by (rule triple_try_do [OF rocblas_api_load_live])
        (auto intro!: triple_giveI simp: runtime_live_def held_def runtime_ok_def)
  qed (auto intro: triple_weaken [OF close_library_newest])
qed simp

lemma invoke_stays:
  assumes "\<And>a. gpu_step rs (c, a) = Some rs"
  shows "gpu_triple (\<lambda>l. l = rs) (invoke drv c) (\<lambda>_ l. l = rs)"
  using assms by (auto intro: triple_invoke)

lemma import_region_live:
  "gpu_triple (\<lambda>l. l = rs) (import_region drv region)
     (\<lambda>r l. case r of
        Inl _ \<Rightarrow> l = rs
      | Inr i \<Rightarrow> l = MappedBuffer (ir_pointer i) (ir_external i) # ExternalMemory (ir_external i) # rs
          \<and> ir_pointer i \<noteq> 0 \<and> ir_external i \<noteq> 0)"
  (is "gpu_triple _ _ ?Q")
proof -
  define d where "d = \<lparr>id_type = hip_handle_type_opaque_win32_kmt, id_handle = ar_handle region,
            id_size = ar_allocation_size region, id_flags = 0\<rparr>"
  define mapping where "mapping = \<lparr>bd_offset = ar_offset region, bd_size = ar_length region, bd_flags = 0\<rparr>"
  have import: "gpu_triple (\<lambda>l. l = rs) (invoke drv (HipImport d))
      (\<lambda>a l. l = (if an_code a = hip_success \<and> an_handle a \<noteq> 0 then ExternalMemory (an_handle a) # rs else rs))"
    by (rule triple_invoke) (auto simp: obtain_if_def hip_success_def)
  have map: "gpu_triple (\<lambda>l. l = ExternalMemory e # rs) (invoke drv (HipMap e mapping))
      (\<lambda>a l. l = (if an_code a = hip_success \<and> an_handle a \<noteq> 0
         then MappedBuffer (an_handle a) e # ExternalMemory e # rs else ExternalMemory e # rs))" for e
    by (rule triple_invoke) (auto simp: obtain_if_def hip_success_def)
  have destroy: "gpu_triple (\<lambda>l. l = ExternalMemory e # rs) (drop_external drv e) (\<lambda>_ l. l = rs)" if "e \<noteq> 0" for e
    unfolding drop_external_def if_P [OF that]
    by (rule triple_then_do [where R = "\<lambda>_ l. l = rs"]) (auto intro!: triple_invoke triple_giveI)
  have mapped: "gpu_triple (\<lambda>l. l = ExternalMemory e # rs)
      (then_do (invoke drv (HipMap e mapping)) (\<lambda>a.
         if an_code a \<noteq> hip_success \<or> an_handle a = 0 then give (Inl status_unavailable)
         else give (Inr \<lparr>ir_pointer = an_handle a, ir_external = e\<rparr>)))
      (\<lambda>r l. case r of Inl _ \<Rightarrow> l = ExternalMemory e # rs | Inr _ \<Rightarrow> ?Q r l)" if "e \<noteq> 0" for e
    by (rule triple_then_do [OF map]) (use that in \<open>auto intro!: triple_giveI\<close>)
  have rest: "gpu_triple (\<lambda>l. l = ExternalMemory e # rs)
      (drop_on_error
        (then_do (invoke drv (HipMap e mapping)) (\<lambda>a.
         if an_code a \<noteq> hip_success \<or> an_handle a = 0 then give (Inl status_unavailable)
         else give (Inr \<lparr>ir_pointer = an_handle a, ir_external = e\<rparr>)))
        (drop_external drv e)) ?Q" if "e \<noteq> 0" for e
    by (rule triple_drop_on_error [OF mapped [OF that]]) (auto intro: triple_weaken [OF destroy [OF that]])
  show ?thesis
    unfolding import_region_def Let_def d_def [symmetric] mapping_def [symmetric]
    by (rule triple_then_do [OF import], rule triple_if, force intro!: triple_giveI,
        rule triple_weaken [OF rest]) auto
qed

lemma drop_region_live:
  assumes "ir_pointer i \<noteq> 0" "ir_external i \<noteq> 0"
  shows "gpu_triple (\<lambda>l. l = MappedBuffer (ir_pointer i) (ir_external i) # ExternalMemory (ir_external i) # rs)
    (drop_region drv i) (\<lambda>_ l. l = rs)"
  unfolding drop_region_def drop_mapped_def drop_external_def if_P [OF assms(1)] if_P [OF assms(2)]
  by (rule triple_then_do [where R = "\<lambda>_ l. l = ExternalMemory (ir_external i) # rs"],
      rule triple_then_do [where R = "\<lambda>_ l. l = ExternalMemory (ir_external i) # rs"], rule triple_invoke)
    (auto intro!: triple_giveI triple_then_do [where R = "\<lambda>_ l. l = rs"] triple_invoke)

lemma run_sgemm_live:
  assumes "BlasHandle x \<in> set rs" "\<forall>p \<in> {ir_pointer a, ir_pointer b, ir_pointer c}. live (frees p) rs"
  shows "gpu_triple (\<lambda>l. l = rs) (run_sgemm drv control dims x a b c) (\<lambda>_ l. l = rs)"
  unfolding run_sgemm_def
  by (rule triple_then_do [where R = "\<lambda>_ l. l = rs"])
    (use assms in \<open>auto intro!: invoke_stays triple_giveI triple_then_do [where R = "\<lambda>_ l. l = rs"]
      simp: requires_def sgemm_args_of_def split: prod.split\<close>)

lemma bt_mset_insert_new:
  "bt_get m k = None \<Longrightarrow> mset (bt_insert k v m) = add_mset (k, v) (mset m)"
  by (induction m) (auto split: if_splits)

text \<open>A region imported for a scope: the body runs on top of it, and nothing of it is left.\<close>

abbreviation region_resources :: "imported_region \<Rightarrow> resource list" where
  "region_resources i \<equiv> [MappedBuffer (ir_pointer i) (ir_external i), ExternalMemory (ir_external i)]"

lemma with_region_live:
  assumes "\<And>i. gpu_triple (\<lambda>l. l = region_resources i @ rs) (body i) (\<lambda>_ l. l = region_resources i @ rs)"
  shows "gpu_triple (\<lambda>l. l = rs) (try_do (import_region drv region) (\<lambda>i. scoped (body i) (drop_region drv i)))
    (\<lambda>_ l. l = rs)"
proof (rule triple_try_do [OF import_region_live], goal_cases)
  case (1 i)
  show ?case
    unfolding sum.case
  proof (rule triple_pre, clarify)
    assume "ir_pointer i \<noteq> 0" "ir_external i \<noteq> 0"
    then have "gpu_triple (\<lambda>l. l = region_resources i @ rs) (drop_region drv i) (\<lambda>_ l. l = rs)"
      using drop_region_live [of i rs drv] by simp
    from triple_scoped [OF assms this]
    show "gpu_triple ((=) (MappedBuffer (ir_pointer i) (ir_external i) # ExternalMemory (ir_external i) # rs))
      (scoped (body i) (drop_region drv i)) (\<lambda>_ l. l = rs)"
      by (auto simp: triple_def)
  qed
qed simp

lemma gemm_on_regions_live:
  assumes "BlasHandle x \<in> set rs"
  shows "gpu_triple (\<lambda>l. l = rs) (gemm_on_regions drv control dims x ra rb rc) (\<lambda>_ l. l = rs)"
  unfolding gemm_on_regions_def using assms by (intro with_region_live run_sgemm_live) auto

lemma handle_for_device_live:
  "gpu_triple (runtime_live rt) (handle_for_device drv i rt)
     (\<lambda>(r, rt') l. runtime_live rt' l \<and> (\<forall>x. r = Inr x \<longrightarrow> BlasHandle x \<in> set l))"
proof -
  have set_device: "gpu_triple (runtime_live rt) (invoke drv (HipSetDevice i)) (\<lambda>_. runtime_live rt)"
    by (rule triple_invoke) simp
  have create: "gpu_triple (runtime_live rt) (invoke drv BlasCreate)
      (\<lambda>a l. if an_code a = blas_success \<and> an_handle a \<noteq> 0
        then runtime_ok rt \<and> mset l = add_mset (BlasHandle (an_handle a)) (held rt) else runtime_live rt l)"
    by (rule triple_invoke) (auto simp: runtime_live_def obtain_if_def blas_success_def)
  show ?thesis
  proof (cases "bt_get (rt_handles rt) (sint i)")
    case (Some x)
    then have "BlasHandle x \<in># held rt" by (auto simp: held_def dest!: bt_get_mem)
    then show ?thesis
      unfolding handle_for_device_def
      by (intro triple_then_do [OF set_device] triple_if triple_giveI)
        (auto simp: Some runtime_live_def simp flip: set_mset_mset intro!: triple_giveI)
  next
    case None
    let ?rt = "\<lambda>x. rt\<lparr>rt_handles := bt_insert (sint i) x (rt_handles rt)\<rparr>"
    have set: "set (bt_insert (sint i) x (rt_handles rt)) = insert (sint i, x) (set (rt_handles rt))" for x
      using arg_cong [OF bt_mset_insert_new [OF None, of x], of set_mset] by simp
    have new: "held (?rt x) = add_mset (BlasHandle x) (held rt)" "runtime_ok rt \<Longrightarrow> x \<noteq> 0 \<Longrightarrow> runtime_ok (?rt x)" for x
      by (simp_all add: held_def bt_mset_insert_new [OF None] runtime_ok_def set)
    show ?thesis
      unfolding handle_for_device_def None option.case
      by (rule triple_then_do [OF set_device], rule triple_if, force intro: triple_giveI,
          rule triple_then_do [OF create], rule triple_if)
        (auto intro!: triple_giveI simp: runtime_live_def new simp flip: set_mset_mset split: if_splits)
  qed
qed

lemma execution_live:
  "gpu_triple (runtime_live rt) (execution drv control dims ra rb rc rt) (\<lambda>(r, rt'). runtime_live rt')"
  unfolding execution_def
proof (rule triple_then_do [OF handle_for_device_live], goal_cases)
  case (1 y)
  obtain r rt' where y: "y = (r, rt')" by (cases y)
  show ?case
  proof (cases r)
    case (Inr x)
    have "gpu_triple (\<lambda>l. l = rs) (then_do (gemm_on_regions drv control dims x ra rb rc) (\<lambda>r. give (r, rt')))
        (\<lambda>(r, rt'). runtime_live rt')" if "runtime_live rt' rs" "BlasHandle x \<in> set rs" for rs
      by (rule triple_then_do [OF gemm_on_regions_live [OF that(2)]]) (auto intro: triple_giveI that(1))
    then show ?thesis by (auto simp: y Inr triple_def)
  qed (auto simp: y intro: triple_giveI)
qed

text \<open>Dropping the runtime releases everything it holds.\<close>

lemma drop_handles_live:
  assumes "\<forall>(i, x) \<in> set hs. x \<noteq> 0"
  shows "gpu_triple (\<lambda>l. mset l = M + image_mset (\<lambda>(i, x). BlasHandle x) (mset hs))
    (for_each (drop_handle drv) hs) (\<lambda>_ l. mset l = M)"
  using assms
proof (induction hs)
  case (Cons e hs)
  obtain i x where e: "e = (i, x)" by (cases e)
  let ?M = "M + image_mset (\<lambda>(i, x). BlasHandle x) (mset hs)"
  have stay: "gpu_triple (\<lambda>l. mset l = M') (invoke drv (HipSetDevice d)) (\<lambda>_ l. mset l = M')" for d M'
    by (rule triple_invoke) simp
  have destroy: "gpu_triple (\<lambda>l. mset l = add_mset (BlasHandle x) ?M) (invoke drv (BlasDestroy x)) (\<lambda>_ l. mset l = ?M)"
    by (rule triple_invoke) (auto dest!: release_mset)
  have "gpu_triple (\<lambda>l. mset l = add_mset (BlasHandle x) ?M) (drop_handle drv e) (\<lambda>_ l. mset l = ?M)"
    unfolding drop_handle_def e prod.case
    using Cons.prems e
    by (intro triple_then_do [OF stay] triple_if triple_then_do [OF destroy] triple_giveI) auto
  with Cons show ?case by (auto simp: e intro: triple_then_do)
qed (auto intro: triple_giveI)

lemma close_library_live:
  "gpu_triple (\<lambda>l. mset l = add_mset (Library lib) M) (close_library drv lib) (\<lambda>_ l. mset l = M)"
  unfolding close_library_def
  by (rule triple_then_do [where R = "\<lambda>_ l. mset l = M"])
    (auto intro!: triple_invoke triple_giveI dest!: release_mset)

lemma drop_runtime_live:
  assumes "runtime_ok rt"
  shows "gpu_triple (\<lambda>l. mset l = held rt) (drop_runtime drv rt) (\<lambda>_ l. l = [])"
proof -
  let ?hip = "Library (ha_library (rt_hip rt))" and ?blas = "Library (ra_library (rt_rocblas rt))"
  have "gpu_triple (\<lambda>l. mset l = held rt) (for_each (drop_handle drv) (rt_handles rt)) (\<lambda>_ l. mset l = {#?hip, ?blas#})"
    unfolding held_def by (rule drop_handles_live) (use assms in \<open>simp add: runtime_ok_def\<close>)
  moreover have "gpu_triple (\<lambda>l. mset l = {#?blas#}) (close_library drv (ra_library (rt_rocblas rt))) (\<lambda>_ l. l = [])"
    by (rule triple_weaken [OF close_library_live [where M = "{#}"]]) simp_all
  ultimately show ?thesis
    unfolding drop_runtime_def by (intro triple_then_do [OF _ triple_then_do [OF close_library_live]])
qed

section \<open>Runs of the plugin\<close>

text \<open>Every sequence of calls the host makes into a freshly loaded plugin.\<close>

inductive hip_reachable :: "gpu_driver \<Rightarrow> environment \<Rightarrow> hip_plugin \<Rightarrow> bool" for drv env where
  loaded: "hip_reachable drv env (hip_plugin_new [])"
| executed: "hip_reachable drv env p \<Longrightarrow>
    hip_execute True drv env request p = (st, written, len, p') \<Longrightarrow> hip_reachable drv env p'"
| stopped: "hip_reachable drv env p \<Longrightarrow> hip_reachable drv env (hip_shutdown drv p)"

definition plugin_holds :: "hip_plugin \<Rightarrow> resource multiset" where
  "plugin_holds p = (case hp_runtime p of None \<Rightarrow> {#} | Some rt \<Rightarrow> held rt)"

definition hip_invariant :: "hip_plugin \<Rightarrow> bool" where
  "hip_invariant p \<longleftrightarrow> \<not> hp_poisoned p \<and>
     (\<exists>l. gpu_audit (hp_calls p) = Some l \<and>
        (case hp_runtime p of None \<Rightarrow> l = [] | Some rt \<Rightarrow> runtime_live rt l))"

lemma with_runtime_invariant:
  assumes inv: "hip_invariant p" and r: "with_runtime drv env (execution drv control dims ra rb rc) p = (r, p')"
  shows "hip_invariant p'"
proof -
  from inv obtain l where np: "\<not> hp_poisoned p" and l: "gpu_audit (hp_calls p) = Some l"
    and live: "case hp_runtime p of None \<Rightarrow> l = [] | Some rt \<Rightarrow> runtime_live rt l"
    by (auto simp: hip_invariant_def)
  let ?start = "case hp_runtime p of None \<Rightarrow> runtime_load drv env | Some rt \<Rightarrow> give (Inr rt)"
  obtain s h where s: "?start (hp_calls p) = (s, h)" by fastforce
  have start: "gpu_triple (\<lambda>l. case hp_runtime p of None \<Rightarrow> l = [] | Some rt \<Rightarrow> runtime_live rt l) ?start
      (\<lambda>r l. case r of Inl _ \<Rightarrow> hp_runtime p = None \<and> l = [] | Inr rt \<Rightarrow> runtime_live rt l)"
    by (cases "hp_runtime p") (auto intro: triple_giveI triple_weaken [OF runtime_load_live] split: sum.splits)
  from tripleD [OF start l live s] obtain l1 where l1: "gpu_audit h = Some l1"
    "case s of Inl _ \<Rightarrow> hp_runtime p = None \<and> l1 = [] | Inr rt \<Rightarrow> runtime_live rt l1" .
  show ?thesis
  proof (cases s)
    case (Inl e)
    with r s np have "p' = p\<lparr>hp_calls := h\<rparr>" by (simp add: with_runtime_def)
    with l1 Inl np show ?thesis by (simp add: hip_invariant_def)
  next
    case (Inr rt)
    obtain r' rt' h' where e: "execution drv control dims ra rb rc rt h = ((r', rt'), h')"
      by (metis surj_pair)
    with r s np Inr have p': "p' = p\<lparr>hp_runtime := Some rt', hp_calls := h'\<rparr>" by (simp add: with_runtime_def)
    from l1 Inr have "runtime_live rt l1" by simp
    from tripleD [OF execution_live l1(1) this e] obtain l2 where "gpu_audit h' = Some l2" "runtime_live rt' l2" by auto
    with p' np show ?thesis by (simp add: hip_invariant_def)
  qed
qed

lemma hip_execute_invariant:
  assumes "hip_invariant p" and "hip_execute windows drv env request p = (st, written, len, p')"
  shows "hip_invariant p'"
  using assms
  by (auto simp: hip_execute_def execute_windows_def split: option.splits if_splits sum.splits prod.splits
    dest: with_runtime_invariant)

lemma hip_shutdown_invariant:
  assumes inv: "hip_invariant p"
  shows "hip_invariant (hip_shutdown drv p)" and "hp_runtime (hip_shutdown drv p) = None"
proof -
  from inv obtain l where np: "\<not> hp_poisoned p" and l: "gpu_audit (hp_calls p) = Some l"
    and live: "case hp_runtime p of None \<Rightarrow> l = [] | Some rt \<Rightarrow> runtime_live rt l"
    by (auto simp: hip_invariant_def)
  show "hip_invariant (hip_shutdown drv p)"
  proof (cases "hp_runtime p")
    case None
    with np inv show ?thesis by (simp add: hip_shutdown_def)
  next
    case (Some rt)
    with live have rt: "runtime_ok rt" "mset l = held rt" by (simp_all add: runtime_live_def)
    from drop_runtime_live [OF rt(1), of drv] l rt(2)
    have "gpu_audit (snd (drop_runtime drv rt (hp_calls p))) = Some []" by (auto simp: triple_def)
    with Some np show ?thesis by (simp add: hip_shutdown_def hip_invariant_def)
  qed
  from np show "hp_runtime (hip_shutdown drv p) = None"
    by (auto simp: hip_shutdown_def split: option.split)
qed

lemma hip_reachable_invariant: "hip_reachable drv env p \<Longrightarrow> hip_invariant p"
proof (induction rule: hip_reachable.induct)
  case loaded
  show ?case by (simp add: hip_invariant_def hip_plugin_new_def)
qed (auto intro: hip_execute_invariant hip_shutdown_invariant(1))

section \<open>A successful execution\<close>

definition import_of :: "abi_region \<Rightarrow> import_descriptor" where
  "import_of region = \<lparr>id_type = hip_handle_type_opaque_win32_kmt, id_handle = ar_handle region,
     id_size = ar_allocation_size region, id_flags = 0\<rparr>"

definition mapping_of :: "abi_region \<Rightarrow> buffer_descriptor" where
  "mapping_of region = \<lparr>bd_offset = ar_offset region, bd_size = ar_length region, bd_flags = 0\<rparr>"

lemma import_region_calls:
  assumes "import_region drv region h = (Inr i, h')"
  shows "\<exists>a1 a2. h' = h @ [(HipImport (import_of region), a1), (HipMap (ir_external i) (mapping_of region), a2)]
    \<and> an_code a1 = hip_success \<and> an_handle a1 = ir_external i \<and> an_code a2 = hip_success
    \<and> an_handle a2 = ir_pointer i \<and> ir_external i \<noteq> 0 \<and> ir_pointer i \<noteq> 0"
  using assms
  by (auto simp: import_region_def Let_def effect_eqs import_of_def mapping_of_def split: if_splits)

lemma drop_region_calls:
  assumes "drop_region drv i h = (u, h')" "ir_external i \<noteq> 0" "ir_pointer i \<noteq> 0"
  shows "\<exists>a1 a2. h' = h @ [(HipFree (ir_pointer i), a1), (HipDestroyExternal (ir_external i), a2)]"
  using assms by (auto simp: drop_region_def drop_mapped_def drop_external_def effect_eqs)

lemma run_sgemm_calls:
  assumes "run_sgemm drv control dims x a b c h = (Inr u, h')"
  shows "\<exists>a1 a2. h' = h @ [(BlasSgemm (sgemm_args_of control dims x (ir_pointer a) (ir_pointer b) (ir_pointer c)), a1),
      (HipSynchronize, a2)] \<and> an_code a1 = blas_success \<and> an_code a2 = hip_success"
  using assms by (auto simp: run_sgemm_def effect_eqs split: if_splits)

text \<open>The calls of a successful closure, in order.\<close>

definition gemm_calls ::
  "shared_gemm_control \<Rightarrow> i32 \<times> i32 \<times> i32 \<Rightarrow> ptr \<Rightarrow> (abi_region \<times> imported_region) \<Rightarrow> (abi_region \<times> imported_region)
    \<Rightarrow> (abi_region \<times> imported_region) \<Rightarrow> gpu_call list" where
  "gemm_calls control dims x = (\<lambda>(ra, a) (rb, b) (rc, c).
     [HipImport (import_of ra), HipMap (ir_external a) (mapping_of ra),
      HipImport (import_of rb), HipMap (ir_external b) (mapping_of rb),
      HipImport (import_of rc), HipMap (ir_external c) (mapping_of rc),
      BlasSgemm (sgemm_args_of control dims x (ir_pointer a) (ir_pointer b) (ir_pointer c)), HipSynchronize,
      HipFree (ir_pointer c), HipDestroyExternal (ir_external c),
      HipFree (ir_pointer b), HipDestroyExternal (ir_external b),
      HipFree (ir_pointer a), HipDestroyExternal (ir_external a)])"

definition gemm_answers_ok :: "answer list \<Rightarrow> imported_region \<Rightarrow> imported_region \<Rightarrow> imported_region \<Rightarrow> bool" where
  "gemm_answers_ok as a b c \<longleftrightarrow>
     list_all (\<lambda>x. an_code x = 0) (take 8 as) \<and>
     map an_handle (take 6 as) =
       [ir_external a, ir_pointer a, ir_external b, ir_pointer b, ir_external c, ir_pointer c]"

lemma gemm_on_regions_calls:
  assumes "gemm_on_regions drv control dims x ra rb rc h = (Inr u, h')"
  shows "\<exists>a b c as. h' = h @ zip (gemm_calls control dims x (ra, a) (rb, b) (rc, c)) as
    \<and> length as = 14 \<and> gemm_answers_ok as a b c"
proof -
  from assms obtain a b c h1 h2 h3 h4 h5 h6 u1 u2 u3 where
    i: "import_region drv ra h = (Inr a, h1)" "import_region drv rb h1 = (Inr b, h2)"
      "import_region drv rc h2 = (Inr c, h3)"
    and s: "run_sgemm drv control dims x a b c h3 = (Inr u, h4)"
    and d: "drop_region drv c h4 = (u1, h5)" "drop_region drv b h5 = (u2, h6)" "drop_region drv a h6 = (u3, h')"
    unfolding gemm_on_regions_def try_do_Inr scoped_eq by blast
  from import_region_calls [OF i(1)] import_region_calls [OF i(2)] import_region_calls [OF i(3)] run_sgemm_calls [OF s]
    drop_region_calls [OF d(1)] drop_region_calls [OF d(2)] drop_region_calls [OF d(3)]
  obtain a1 a2 b1 b2 c1 c2 s1 s2 x1 x2 y1 y2 z1 z2 where
    all: "h' = h @ zip (gemm_calls control dims x (ra, a) (rb, b) (rc, c))
        [a1, a2, b1, b2, c1, c2, s1, s2, x1, x2, y1, y2, z1, z2]"
      "gemm_answers_ok [a1, a2, b1, b2, c1, c2, s1, s2, x1, x2, y1, y2, z1, z2] a b c"
    by (auto simp: gemm_calls_def gemm_answers_ok_def hip_success_def blas_success_def)
  then show ?thesis
    by (intro exI [of _ a] exI [of _ b] exI [of _ c]
        exI [of _ "[a1, a2, b1, b2, c1, c2, s1, s2, x1, x2, y1, y2, z1, z2]"]) simp
qed

text \<open>What the checks before the runtime establish.\<close>

definition regions_fit ::
  "shared_gemm_control \<Rightarrow> i32 \<times> i32 \<times> i32 \<Rightarrow> abi_region \<Rightarrow> abi_region \<Rightarrow> abi_region \<Rightarrow> bool" where
  "regions_fit control = (\<lambda>(m, n, k) ra rb rc.
     unat m = unat (sg_m control) \<and> unat n = unat (sg_n control) \<and> unat k = unat (sg_k control) \<and>
     0 < unat m \<and> unat m < 2 ^ 31 \<and> 0 < unat n \<and> unat n < 2 ^ 31 \<and> 0 < unat k \<and> unat k < 2 ^ 31 \<and>
     unat (ar_length ra) = 4 * (unat m * unat k) \<and> unat (ar_length rb) = 4 * (unat k * unat n) \<and>
     unat (ar_length rc) = 4 * (unat m * unat n) \<and>
     (\<forall>r \<in> {ra, rb, rc}. ar_handle r \<noteq> 0 \<and> ar_handle_kind r = raw_mem_win32_kmt \<and>
        unat (ar_offset r) + unat (ar_length r) \<le> unat (ar_allocation_size r)) \<and>
     ar_access ra = raw_access_read_only \<and> ar_access rb = raw_access_read_only \<and>
     ar_access rc = raw_access_read_write)"

lemma hip_validate_region_iff:
  "hip_validate_region r access n \<longleftrightarrow> \<not> ar_struct_size r < expected_region_size \<and>
     ar_handle_kind r = raw_mem_win32_kmt \<and> ar_access r = access \<and> ar_handle r \<noteq> 0 \<and> ar_length r = n \<and>
     ar_allocation_size r \<noteq> 0 \<and> unat (ar_offset r) + unat (ar_length r) \<le> unat (ar_allocation_size r)"
proof -
  have "(case checked_add (ar_offset r) (ar_length r) of None \<Rightarrow> False
      | Some end_offset \<Rightarrow> end_offset \<le> ar_allocation_size r)
    \<longleftrightarrow> unat (ar_offset r) + unat (ar_length r) \<le> unat (ar_allocation_size r)"
    using unat_lt2p_num [of "ar_allocation_size r"]
    by (auto simp: checked_add_def word_le_nat_alt unat_word_ariths)
  then show ?thesis unfolding hip_validate_region_def by auto
qed

lemma i32_try_from_iff: "i32_try_from w = Some i \<longleftrightarrow> unat i = unat w \<and> unat w < 2 ^ 31"
proof (cases "unat w < 2 ^ 31")
  case True
  then have "unat (ucast w :: i32) = unat w" by (simp add: unsigned_ucast_eq take_bit_nat_eq_self)
  with True show ?thesis by (auto simp: i32_try_from_def word_unat_eq_iff)
qed (simp add: i32_try_from_def)

lemma prepare_execution_fits:
  assumes "prepare_execution request = Inr (control, dims, ra, rb, rc)"
  shows "regions_fit control dims ra rb rc"
    and "validate_control control = Inr ()"
proof -
  from assms obtain lengths m n k rest where
    l: "expected_shared_lengths control = Inr lengths"
    and d: "dims = (m, n, k)" "i32_try_from (sg_m control) = Some m" "i32_try_from (sg_n control) = Some n"
      "i32_try_from (sg_k control) = Some k"
    and v: "hip_validate_region ra raw_access_read_only (sl_a_bytes lengths)"
      "hip_validate_region rb raw_access_read_only (sl_b_bytes lengths)"
      "hip_validate_region rc raw_access_read_write (sl_c_bytes lengths)"
    by (auto simp: prepare_execution_def result_iffs split: option.splits list.splits)
  from l show valid: "validate_control control = Inr ()" by (auto simp: expected_shared_lengths_def and_then_Inr_iff)
  from l have "unat (sl_a_bytes lengths) = 4 * (unat (sg_m control) * unat (sg_k control))"
    "unat (sl_b_bytes lengths) = 4 * (unat (sg_k control) * unat (sg_n control))"
    "unat (sl_c_bytes lengths) = 4 * (unat (sg_m control) * unat (sg_n control))"
    by (auto simp: expected_shared_lengths_def matrix_bytes_def result_iffs expected_elements_iff checked_mul_iff
        shared_f32_bytes_def)
  moreover have "0 < unat (sg_m control)" "0 < unat (sg_n control)" "0 < unat (sg_k control)"
    using valid by (simp_all add: validate_control_iff unat_gt_0)
  ultimately show "regions_fit control dims ra rb rc"
    using v d by (auto simp: regions_fit_def hip_validate_region_iff i32_try_from_iff)
qed

section \<open>Column-major calls on row-major data\<close>

text \<open>
  The documented effect of \<open>rocblas_sgemm\<close> without transposition, on buffers of elements in
  column-major order, with any order of summation \<open>F\<close>: which entry is computed from which.
\<close>

definition sgemm_contract ::
  "(f32 \<Rightarrow> f32 \<Rightarrow> f32 \<Rightarrow> (f32 \<times> f32) list \<Rightarrow> f32) \<Rightarrow> sgemm_args \<Rightarrow> f32 list \<Rightarrow> f32 list \<Rightarrow> f32 list \<Rightarrow> f32 list \<Rightarrow> bool" where
  "sgemm_contract F g A B C C' \<longleftrightarrow> (\<forall>i < unat (ga_m g). \<forall>j < unat (ga_n g).
     C' ! (i + j * unat (ga_ldc g)) = F (ga_alpha g) (ga_beta g) (C ! (i + j * unat (ga_ldc g)))
       [(A ! (i + l * unat (ga_lda g)), B ! (l + j * unat (ga_ldb g))). l <- [0..<unat (ga_k g)]])"

text \<open>Every element the call touches lies in buffers of the given sizes.\<close>

definition sgemm_in_bounds :: "sgemm_args \<Rightarrow> nat \<Rightarrow> nat \<Rightarrow> nat \<Rightarrow> bool" where
  "sgemm_in_bounds g la lb lc \<longleftrightarrow> (\<forall>i < unat (ga_m g). \<forall>j < unat (ga_n g). \<forall>l < unat (ga_k g).
     i + l * unat (ga_lda g) < la \<and> l + j * unat (ga_ldb g) < lb \<and> i + j * unat (ga_ldc g) < lc)"

lemma index_in_block: "i < n \<Longrightarrow> j < m \<Longrightarrow> i + j * n < m * n" for i j n m :: nat
proof -
  assume "i < n" "j < m"
  then have "i + j * n < Suc j * n" "Suc j * n \<le> m * n" by (simp, simp only: mult_le_mono1 Suc_leI)
  then show ?thesis by (rule less_le_trans)
qed

lemma sgemm_args_in_bounds:
  assumes "regions_fit control dims ra rb rc"
  shows "sgemm_in_bounds (sgemm_args_of control dims x a b c)
    (unat (ar_length rb) div 4) (unat (ar_length ra) div 4) (unat (ar_length rc) div 4)"
  using assms
  by (cases dims) (auto simp: sgemm_in_bounds_def sgemm_args_of_def regions_fit_def index_in_block)

lemma sgemm_args_row_major:
  assumes "sgemm_contract F (sgemm_args_of control (m, n, k) x a b c) bs as cs cs'"
    and "r < unat m" "s < unat n"
  shows "cs' ! (r * unat n + s) = F (sg_alpha control) (sg_beta control) (cs ! (r * unat n + s))
    [(bs ! (l * unat n + s), as ! (r * unat k + l)). l <- [0..<unat k]]"
  using assms by (simp add: sgemm_contract_def sgemm_args_of_def add.commute)

section \<open>Executions that report success\<close>

lemma load_all_required_extends [extending]: "extends (load_all_required drv lib names)"
  by (induction names) (auto simp: load_required_def intro: extending)

lemma hip_load_library_extends [extending]: "extends (hip_load_library drv cs)"
proof -
  have "extends (load_first drv cs)" by (induction cs) (auto intro!: extending)
  then show ?thesis unfolding hip_load_library_def by (intro extending)
qed

lemma runtime_load_extends [extending]: "extends (runtime_load drv env)"
  unfolding runtime_load_def hip_api_load_def hip_api_init_def rocblas_api_load_def rocblas_api_init_def close_library_def
  by (intro extending)

lemma handle_for_device_extends [extending]: "extends (handle_for_device drv i rt)"
  unfolding handle_for_device_def by (auto intro!: extending split: option.split)

lemma execution_ok:
  assumes "execution drv control dims ra rb rc rt h = ((Inr u, rt'), h')"
  shows "\<exists>x earlier a b c as. h' = h @ earlier @ zip (gemm_calls control dims x (ra, a) (rb, b) (rc, c)) as
    \<and> length as = 14 \<and> gemm_answers_ok as a b c"
proof -
  obtain r rt1 h1 where r: "handle_for_device drv (sg_hip_device_index control) rt h = ((r, rt1), h1)"
    by (metis surj_pair)
  with assms obtain x where x: "handle_for_device drv (sg_hip_device_index control) rt h = ((Inr x, rt1), h1)"
    and g: "gemm_on_regions drv control dims x ra rb rc h1 = (Inr u, h')"
    by (cases r) (auto simp: execution_def then_do_def give_def split: prod.splits)
  from handle_for_device_extends [of drv "sg_hip_device_index control" rt] x obtain earlier where "h1 = h @ earlier"
    unfolding extends_def by (metis snd_conv)
  moreover from gemm_on_regions_calls [OF g] obtain a b c as where
    "h' = h1 @ zip (gemm_calls control dims x (ra, a) (rb, b) (rc, c)) as" "length as = 14" "gemm_answers_ok as a b c"
    by blast
  ultimately show ?thesis
    by (intro exI [of _ x] exI [of _ earlier] exI [of _ a] exI [of _ b] exI [of _ c] exI [of _ as]) simp
qed

lemma with_runtime_ok:
  assumes "with_runtime drv env (execution drv control dims ra rb rc) p = (Inr u, p')"
  shows "\<exists>x earlier a b c as.
    hp_calls p' = hp_calls p @ earlier @ zip (gemm_calls control dims x (ra, a) (rb, b) (rc, c)) as
    \<and> length as = 14 \<and> gemm_answers_ok as a b c"
proof -
  let ?start = "case hp_runtime p of None \<Rightarrow> runtime_load drv env | Some rt \<Rightarrow> give (Inr rt)"
  from assms obtain rt h rt' h' where s: "?start (hp_calls p) = (Inr rt, h)"
    and e: "execution drv control dims ra rb rc rt h = ((Inr u, rt'), h')" and p': "hp_calls p' = h'"
    by (auto simp: with_runtime_def split: if_splits prod.splits sum.splits)
  have "extends ?start" by (cases "hp_runtime p") (auto intro: extending)
  with s obtain e0 where "h = hp_calls p @ e0" unfolding extends_def by (metis snd_conv)
  moreover from execution_ok [OF e] obtain x earlier a b c as where
    "h' = h @ earlier @ zip (gemm_calls control dims x (ra, a) (rb, b) (rc, c)) as"
    "length as = 14" "gemm_answers_ok as a b c" by blast
  ultimately show ?thesis
    by (intro exI [of _ x] exI [of _ "e0 @ earlier"] exI [of _ a] exI [of _ b] exI [of _ c] exI [of _ as])
      (simp add: p')
qed

text \<open>No failure of the runtime is reported as success.\<close>

lemma runtime_load_errors: "errors {status_unavailable} (runtime_load drv env)"
proof -
  have syms: "errors {status_unavailable} (load_all_required drv library names)" for library names
    by (induction names) (auto simp: load_required_def intro!: erring split: if_splits)
  have lib: "errors {status_unavailable} (hip_load_library drv cs)" for cs
    unfolding hip_load_library_def by (intro erring) (auto simp: map_err_Inl_iff)
  show ?thesis
    unfolding runtime_load_def hip_api_load_def hip_api_init_def rocblas_api_load_def rocblas_api_init_def
    by (intro erring syms lib) simp_all
qed

lemma gemm_on_regions_errors:
  "errors {status_unavailable, status_internal_error} (gemm_on_regions drv control dims x ra rb rc)"
  unfolding gemm_on_regions_def import_region_def Let_def run_sgemm_def by (intro erring) simp_all

lemma with_runtime_error:
  assumes "with_runtime drv env (execution drv control dims ra rb rc) p = (Inl e, p')"
  shows "e \<in> {status_unavailable, status_internal_error}"
proof -
  have "e \<in> {status_unavailable, status_internal_error}"
    if ex: "execution drv control dims ra rb rc rt h = ((Inl e, rt'), h')" for rt h rt' h'
  proof -
    obtain r rt1 h1 where r: "handle_for_device drv (sg_hip_device_index control) rt h = ((r, rt1), h1)"
      by (metis surj_pair)
    show ?thesis
    proof (cases r)
      case (Inl e')
      with ex r have "e = e'" by (auto simp: execution_def then_do_def give_def)
      with r Inl show ?thesis
        by (auto simp: handle_for_device_def then_do_def give_def invoke_def split: if_splits option.splits)
    next
      case (Inr x)
      with ex r have "gemm_on_regions drv control dims x ra rb rc h1 = (Inl e, h')"
        by (auto simp: execution_def then_do_def give_def split: prod.splits)
      with gemm_on_regions_errors [of drv control dims x ra rb rc] show ?thesis unfolding errors_def by blast
    qed
  qed
  with assms runtime_load_errors [of drv env] show ?thesis
    by (fastforce simp: with_runtime_def errors_def give_def split: sum.splits prod.splits option.splits if_splits)
qed

lemma prepare_execution_error:
  assumes "prepare_execution request = Inl e"
  shows "e \<in> {status_invalid_argument, status_unsupported}"
proof (cases "\<exists>ra rb rc rest. sx_resources request = Some (ra # rb # rc # rest)")
  case True
  with assms show ?thesis by (auto simp: prepare_execution_def abi_slice_def result_iffs split: if_splits option.splits)
next
  case False
  then have other: "(case sx_resources request of Some (ra # rb # rc # rest) \<Rightarrow> f ra rb rc | _ \<Rightarrow> Inl status_invalid_argument)
      = Inl status_invalid_argument" for f :: "_ \<Rightarrow> _ \<Rightarrow> _ \<Rightarrow> i32 + 'a"
    by (auto split: option.split list.split)
  from assms show ?thesis
    unfolding prepare_execution_def other by (auto simp: abi_slice_def result_iffs split: if_splits option.splits)
qed

lemma hip_execute_ok:
  assumes "hip_execute True drv env request p = (status_ok, written, len, p')"
  shows "\<exists>control dims ra rb rc. prepare_execution request = Inr (control, dims, ra, rb, rc)
    \<and> written = success_receipt \<and> len = of_nat (length success_receipt)
    \<and> with_runtime drv env (execution drv control dims ra rb rc) p = (Inr (), p')"
proof -
  from assms obtain old where x: "execute_windows drv env request old p = (status_ok, written, len, p')"
    by (auto simp: hip_execute_def status_defs split: option.splits if_splits)
  show ?thesis
  proof (cases "prepare_execution request")
    case (Inl e)
    with x prepare_execution_error [OF Inl] show ?thesis by (auto simp: execute_windows_def status_defs)
  next
    case (Inr y)
    then obtain control dims ra rb rc where y: "prepare_execution request = Inr (control, dims, ra, rb, rc)"
      by (cases y) auto
    obtain r p1 where r: "with_runtime drv env (execution drv control dims ra rb rc) p = (r, p1)" by fastforce
    show ?thesis
    proof (cases r)
      case (Inl e)
      with with_runtime_error r x y show ?thesis by (fastforce simp: execute_windows_def status_defs)
    next
      case (Inr u)
      with x y r show ?thesis
        by (auto simp: execute_windows_def hip_write_receipt_def Let_def status_defs split: if_splits)
    qed
  qed
qed

section \<open>Properties\<close>

text \<open>
  C27. In every reachable state of the HIP plugin, whatever HIP, rocBLAS and the platform loader
  answer, each call so far was permitted: no mapping, external memory, handle or library was
  used or released when it was not live, and no external memory was destroyed under a mapping.
  What is live is exactly what the runtime holds, its two libraries and the rocBLAS handles it
  stored; nothing an execution imported, successful or not. After shutdown nothing is live.
\<close>

theorem hip_plugin_leaks_nothing:
  assumes "hip_reachable drv env p"
  shows "(\<exists>live. gpu_audit (hp_calls p) = Some live \<and> mset live = plugin_holds p) \<and> \<not> hp_poisoned p
    \<and> gpu_audit (hp_calls (hip_shutdown drv p)) = Some []"
proof -
  note inv = hip_reachable_invariant [OF assms]
  from hip_shutdown_invariant [OF inv, of drv] have "gpu_audit (hp_calls (hip_shutdown drv p)) = Some []"
    by (auto simp: hip_invariant_def)
  with inv show ?thesis
    by (auto simp: hip_invariant_def plugin_holds_def runtime_live_def split: option.splits)
qed

definition demo_driver :: gpu_driver where
  "demo_driver h c = answer_default\<lparr>an_handle := 4096 + of_nat (length h)\<rparr>"

definition demo_hip_control :: shared_gemm_control where
  "demo_hip_control = \<lparr>sg_m = 1, sg_n = 2, sg_k = 1, sg_alpha = 0x3F800000, sg_beta = 0, sg_hip_device_index = 0\<rparr>"

definition demo_hip_region :: "u32 \<Rightarrow> u64 \<Rightarrow> abi_region" where
  "demo_hip_region access n = abi_region_default\<lparr>ar_handle_kind := raw_mem_win32_kmt, ar_access := access,
     ar_handle := 7, ar_allocation_size := 64, ar_offset := 16, ar_length := n\<rparr>"

definition demo_hip_request :: shared_execution_request where
  "demo_hip_request = shared_execution_request_default\<lparr>sx_operator_id := 1,
     sx_metadata := Some (control_bytes demo_hip_control), sx_metadata_len := 64,
     sx_resources := Some [demo_hip_region raw_access_read_only 4, demo_hip_region raw_access_read_only 8,
       demo_hip_region raw_access_read_write 8],
     sx_resource_count := 3, sx_receipt := Some (replicate 32 0), sx_receipt_capacity := 32,
     sx_receipt_len := Some 0\<rparr>"

lemma demo_hip_lengths:
  "validate_control demo_hip_control = Inr ()"
  "expected_shared_lengths demo_hip_control = Inr \<lparr>sl_a_bytes = 4, sl_b_bytes = 8, sl_c_bytes = 8\<rparr>"
  by (simp_all add: demo_hip_control_def expected_shared_lengths_def validate_control_def matrix_bytes_def
      expected_elements_def checked_mul_def shared_f32_bytes_def)

lemma demo_hip_prepared:
  "prepare_execution demo_hip_request = Inr (demo_hip_control, (1, 2, 1), demo_hip_region raw_access_read_only 4,
     demo_hip_region raw_access_read_only 8, demo_hip_region raw_access_read_write 8)"
proof -
  have slice: "abi_slice (sx_metadata demo_hip_request) (sx_metadata_len demo_hip_request)
      = Inr (control_bytes demo_hip_control)"
    by code_simp
  have regions: "hip_validate_region (demo_hip_region raw_access_read_only 4) raw_access_read_only 4"
    "hip_validate_region (demo_hip_region raw_access_read_only 8) raw_access_read_only 8"
    "hip_validate_region (demo_hip_region raw_access_read_write 8) raw_access_read_write 8"
    by code_simp+
  have dims: "i32_try_from (sg_m demo_hip_control) = Some 1" "i32_try_from (sg_n demo_hip_control) = Some 2"
    "i32_try_from (sg_k demo_hip_control) = Some 1"
    by code_simp+
  show ?thesis
    by (simp add: prepare_execution_def slice decode_control_bytes demo_hip_lengths dims)
      (simp add: demo_hip_request_def shared_execution_request_default_def shared_gemm_resource_count_def regions dims)
qed

lemma demo_hip_status:
  "fst (hip_execute True demo_driver (\<lambda>_. None) demo_hip_request (hip_plugin_new [])) = status_ok"
proof -
  have run: "fst (with_runtime demo_driver (\<lambda>_. None) (execution demo_driver demo_hip_control (1, 2, 1)
      (demo_hip_region raw_access_read_only 4) (demo_hip_region raw_access_read_only 8)
      (demo_hip_region raw_access_read_write 8)) (hip_plugin_new [])) = Inr ()"
    by code_simp
  have receipt: "fst (hip_write_receipt demo_hip_request success_receipt) = status_ok" by code_simp
  have guards: "sx_receipt_len demo_hip_request = Some 0"
    "\<not> (sx_struct_size demo_hip_request < expected_shared_request_size \<or> sx_operator_id demo_hip_request \<noteq> hip_operator_id)"
    by code_simp+
  from run receipt show ?thesis
    by (auto simp: hip_execute_def execute_windows_def guards demo_hip_prepared split: prod.splits sum.splits)
qed

text \<open>The demonstration request after loading: the state it leaves is reachable.\<close>

lemma demo_hip_reachable:
  obtains written len p where
    "hip_execute True demo_driver (\<lambda>_. None) demo_hip_request (hip_plugin_new []) = (status_ok, written, len, p)"
    "hip_reachable demo_driver (\<lambda>_. None) p"
  using demo_hip_status hip_reachable.executed [OF hip_reachable.loaded]
  by (cases "hip_execute True demo_driver (\<lambda>_. None) demo_hip_request (hip_plugin_new [])") auto

theorem hip_plugin_leaks_nothing_witness:
  "\<exists>p live. hip_reachable demo_driver (\<lambda>_. None) p \<and> gpu_audit (hp_calls p) = Some live
    \<and> mset live = plugin_holds p"
proof -
  obtain written len p where "hip_reachable demo_driver (\<lambda>_. None) p" by (rule demo_hip_reachable)
  with hip_plugin_leaks_nothing [OF this] show ?thesis by blast
qed

text \<open>
  C28. When the HIP plugin reports success, the request passed every check, and the calls it made
  last are exactly: import and map the three regions at their offsets and lengths, one
  single-precision product, synchronize, then free and destroy all three in reverse order, the
  first eight answered with success. The product's arguments address only elements inside the
  three regions, and the column-major product rocBLAS documents for them is, on the row-major
  data the protocol defines, \<open>alpha * A * B + beta * C\<close>: entry \<open>(r, s)\<close> is computed from
  row \<open>r\<close> of A and column \<open>s\<close> of B, without a transposition in memory.
\<close>

theorem hip_gemm_is_row_major_product:
  assumes "hip_execute True drv env request p = (status_ok, written, len, p')"
  shows "\<exists>control m n k ra rb rc x earlier a b c as.
    prepare_execution request = Inr (control, (m, n, k), ra, rb, rc)
    \<and> written = success_receipt \<and> unat len = length success_receipt
    \<and> hp_calls p' = hp_calls p @ earlier @ zip (gemm_calls control (m, n, k) x (ra, a) (rb, b) (rc, c)) as
    \<and> length as = 14 \<and> gemm_answers_ok as a b c
    \<and> sgemm_in_bounds (sgemm_args_of control (m, n, k) x (ir_pointer a) (ir_pointer b) (ir_pointer c))
        (unat (ar_length rb) div 4) (unat (ar_length ra) div 4) (unat (ar_length rc) div 4)
    \<and> (\<forall>F bs av cs cs'.
        sgemm_contract F (sgemm_args_of control (m, n, k) x (ir_pointer a) (ir_pointer b) (ir_pointer c)) bs av cs cs' \<longrightarrow>
        (\<forall>r < unat (sg_m control). \<forall>s < unat (sg_n control).
          cs' ! (r * unat (sg_n control) + s) =
            F (sg_alpha control) (sg_beta control) (cs ! (r * unat (sg_n control) + s))
              [(bs ! (l * unat (sg_n control) + s), av ! (r * unat (sg_k control) + l)).
                 l <- [0..<unat (sg_k control)]]))"
proof -
  from hip_execute_ok [OF assms] obtain control m n k ra rb rc where
    prep: "prepare_execution request = Inr (control, (m, n, k), ra, rb, rc)"
    and w: "written = success_receipt" "len = of_nat (length success_receipt)"
    and run: "with_runtime drv env (execution drv control (m, n, k) ra rb rc) p = (Inr (), p')"
    by (metis prod_cases3)
  from with_runtime_ok [OF run] obtain x earlier a b c as where
    calls: "hp_calls p' = hp_calls p @ earlier @ zip (gemm_calls control (m, n, k) x (ra, a) (rb, b) (rc, c)) as"
      "length as = 14" "gemm_answers_ok as a b c" by blast
  note fits = prepare_execution_fits(1) [OF prep]
  have dims: "unat m = unat (sg_m control)" "unat n = unat (sg_n control)" "unat k = unat (sg_k control)"
    using fits by (simp_all add: regions_fit_def)
  have len: "unat len = length success_receipt" by (simp add: w success_receipt_def byte_string_def)
  show ?thesis
    by (intro exI [of _ control] exI [of _ m] exI [of _ n] exI [of _ k] exI [of _ ra] exI [of _ rb] exI [of _ rc]
        exI [of _ x] exI [of _ earlier] exI [of _ a] exI [of _ b] exI [of _ c] exI [of _ as] conjI allI impI
        prep w(1) len calls sgemm_args_in_bounds [OF fits]
        sgemm_args_row_major [of _ control m n k, unfolded dims])
qed

text \<open>The contract can hold: for one row, one depth and two columns, with the exact sum.\<close>

lemma demo_contract:
  "sgemm_contract (\<lambda>alpha beta old products. fst (hd products)) (sgemm_args_of demo_hip_control (1, 2, 1) x a b c)
     [5, 6] [7] [0, 0] [5, 6]"
  by (simp add: sgemm_contract_def sgemm_args_of_def demo_hip_control_def less_2_cases_iff)

theorem hip_gemm_is_row_major_product_witness:
  "\<exists>(p :: hip_plugin) earlier x a b c as. length as = 14
    \<and> hp_calls p = earlier @ zip (gemm_calls demo_hip_control (1, 2, 1) x (demo_hip_region raw_access_read_only 4, a)
        (demo_hip_region raw_access_read_only 8, b) (demo_hip_region raw_access_read_write 8, c)) as
    \<and> sgemm_in_bounds (sgemm_args_of demo_hip_control (1, 2, 1) x (ir_pointer a) (ir_pointer b) (ir_pointer c)) 2 1 2
    \<and> sgemm_contract (\<lambda>alpha beta old products. fst (hd products))
        (sgemm_args_of demo_hip_control (1, 2, 1) x (ir_pointer a) (ir_pointer b) (ir_pointer c)) [5, 6] [7] [0, 0] [5, 6]"
proof -
  obtain written len p where "hip_execute True demo_driver (\<lambda>_. None) demo_hip_request (hip_plugin_new []) =
      (status_ok, written, len, p)" by (rule demo_hip_reachable)
  from hip_gemm_is_row_major_product [OF this] obtain control m n k ra rb rc x earlier a b c as where
    prep: "prepare_execution demo_hip_request = Inr (control, (m, n, k), ra, rb, rc)"
    and calls: "hp_calls p = hp_calls (hip_plugin_new []) @ earlier
      @ zip (gemm_calls control (m, n, k) x (ra, a) (rb, b) (rc, c)) as"
      "length as = 14"
    and bounds: "sgemm_in_bounds (sgemm_args_of control (m, n, k) x (ir_pointer a) (ir_pointer b) (ir_pointer c))
        (unat (ar_length rb) div 4) (unat (ar_length ra) div 4) (unat (ar_length rc) div 4)"
    by blast
  from prep have eqs: "control = demo_hip_control" "m = 1" "n = 2" "k = 1" "ra = demo_hip_region raw_access_read_only 4"
    "rb = demo_hip_region raw_access_read_only 8" "rc = demo_hip_region raw_access_read_write 8"
    unfolding demo_hip_prepared by simp_all
  have "unat (ar_length (demo_hip_region access 4)) div 4 = 1" "unat (ar_length (demo_hip_region access 8)) div 4 = 2"
    for access by (simp_all add: demo_hip_region_def)
  with bounds demo_contract calls show ?thesis
    unfolding eqs
    by (intro exI [of _ p] exI [of _ earlier] exI [of _ x] exI [of _ a] exI [of _ b] exI [of _ c] exI [of _ as])
      (simp add: hip_plugin_new_def)
qed

end
