(* ===== verification/Vulkan_Context.thy ===== *)
theory Vulkan_Context
  imports Gpu_Driver Environment Core "HOL-Library.Product_Lexorder"
begin

text \<open>
  The Vulkan context, its buffers and its one-time submissions, as \<open>vrb-vulkan-shared-buffer\<close>
  has them; the copies of this code in \<open>vrb-backends/src/interop.rs\<close> differ in names and
  messages only, which are parameters here. Flags are lists of names, and a driver answers
  with its texts already decoded.
\<close>

section \<open>Data\<close>

record vulkan_context =
  vc_instance :: ptr
  vc_physical_device :: ptr
  vc_device :: ptr
  vc_queue_family :: u32
  vc_queue :: ptr
  vc_command_pool :: ptr
  vc_device_name :: string

record vulkan_buffer =
  vb_device :: ptr
  vb_buffer :: ptr
  vb_memory :: ptr
  vb_logical_size :: u64
  vb_allocation_size :: u64

definition amd_pci_vendor_id :: u32 where "amd_pci_vendor_id = 0x1002"
definition external_memory_win32_name :: string where
  "external_memory_win32_name = ''VK_KHR_external_memory_win32''"

definition shared_buffer_usage :: "buffer_usage list" where
  "shared_buffer_usage = [StorageBuffer, TransferSrc, TransferDst]"

type_synonym 'x vulkan_effect = "(backend_error + 'x) gpu_effect"

definition vk_message :: "string \<Rightarrow> answer \<Rightarrow> string" where
  "vk_message what a = what @ '': '' @ an_text a"

text \<open>A call that reports its failure as \<open>what: error\<close>.\<close>

definition vk_call :: "gpu_driver \<Rightarrow> gpu_call \<Rightarrow> (string \<Rightarrow> backend_error) \<Rightarrow> string \<Rightarrow> answer vulkan_effect" where
  "vk_call drv c wrap what =
     then_do (invoke drv c) (\<lambda>a. give (if an_code a \<noteq> 0 then Inl (wrap (vk_message what a)) else Inr a))"

definition vk_do :: "gpu_driver \<Rightarrow> gpu_call \<Rightarrow> unit gpu_effect" where
  "vk_do drv c = then_do (invoke drv c) (\<lambda>_. give ())"

section \<open>Choosing a device\<close>

type_synonym device_rank = "nat \<times> nat \<times> u32"
type_synonym device_candidate = "device_rank \<times> ptr \<times> u32 \<times> string"

definition device_rank_of :: "device_properties \<Rightarrow> device_rank" where
  "device_rank_of p =
     (if dp_vendor_id p = amd_pci_vendor_id then 0 else 1,
      if dp_type p = DiscreteGpu then 0 else 1, dp_device_id p)"

text \<open>The first queue family with a queue that computes.\<close>

definition compute_family :: "(u32 \<times> bool) list \<Rightarrow> nat option" where
  "compute_family families =
     List.find (\<lambda>i. fst (families ! i) > 0 \<and> snd (families ! i)) [0..<length families]"

fun device_candidates ::
  "gpu_driver \<Rightarrow> ptr \<Rightarrow> ptr list \<Rightarrow> device_candidate list \<Rightarrow> device_candidate list vulkan_effect" where
  "device_candidates drv inst [] candidates = give (Inr candidates)"
| "device_candidates drv inst (device # devices) candidates =
     then_do (invoke drv (VkDeviceProperties inst device)) (\<lambda>p.
     then_do (invoke drv (VkQueueFamilies inst device)) (\<lambda>f.
     case compute_family (an_families f) of
       None \<Rightarrow> device_candidates drv inst devices candidates
     | Some queue_index \<Rightarrow>
         try_do (vk_call drv (VkDeviceExtensions inst device) Probe ''enumerate Vulkan extensions'') (\<lambda>e.
         if external_memory_win32_name \<notin> set (an_names e)
         then device_candidates drv inst devices candidates
         else device_candidates drv inst devices (candidates @
           [(device_rank_of (an_properties p), device, of_nat queue_index, an_text p)]))))"

definition select_vulkan_device :: "gpu_driver \<Rightarrow> ptr \<Rightarrow> (ptr \<times> u32 \<times> string) vulkan_effect" where
  "select_vulkan_device drv inst =
     try_do (vk_call drv (VkEnumerateDevices inst) Probe ''enumerate Vulkan devices'') (\<lambda>a.
     try_do (device_candidates drv inst (an_handles a) []) (\<lambda>candidates.
     give (case sort_key fst candidates of
         [] \<Rightarrow> Inl (Unavailable
           ''no compute-capable Vulkan device with VK_KHR_external_memory_win32 was found'')
       | (rank, device, queue, name) # _ \<Rightarrow> Inr (device, queue, name))))"

section \<open>The context\<close>

text \<open>Each error path destroys what exists by then: the instance, or the device and the instance.\<close>

definition create_command_pool :: "gpu_driver \<Rightarrow> ptr \<Rightarrow> u32 \<Rightarrow> (ptr \<times> ptr) vulkan_effect" where
  "create_command_pool drv device queue_family =
     then_do (invoke drv (VkGetQueue device queue_family)) (\<lambda>q.
     try_do (vk_call drv (VkCreateCommandPool device queue_family) Probe ''vkCreateCommandPool'') (\<lambda>a.
     give (Inr (an_handle q, an_handle a))))"

definition create_device :: "gpu_driver \<Rightarrow> (string \<Rightarrow> string) \<Rightarrow> ptr \<Rightarrow> vulkan_context vulkan_effect" where
  "create_device drv refusal inst =
     try_do (select_vulkan_device drv inst) (\<lambda>(physical, queue_family, name).
     then_do (invoke drv (VkExternalBufferFeatures inst physical)) (\<lambda>f.
     if \<not> an_exportable f then give (Inl (Unsupported (refusal name)))
     else try_do (vk_call drv (VkCreateDevice inst physical queue_family) Probe
         (''vkCreateDevice for '' @ quoted name)) (\<lambda>a.
     let device = an_handle a in
     drop_on_error
       (try_do (create_command_pool drv device queue_family) (\<lambda>(queue, pool).
        give (Inr \<lparr>vc_instance = inst, vc_physical_device = physical, vc_device = device,
          vc_queue_family = queue_family, vc_queue = queue, vc_command_pool = pool, vc_device_name = name\<rparr>)))
       (vk_do drv (VkDestroyDevice device)))))"

definition create_context ::
  "gpu_driver \<Rightarrow> string \<Rightarrow> (string \<Rightarrow> string) \<Rightarrow> vulkan_context vulkan_effect" where
  "create_context drv app_name refusal =
     try_do (vk_call drv VkLoadLoader Unavailable ''Vulkan loader'') (\<lambda>_.
     try_do (vk_call drv (VkCreateInstance app_name) Probe ''vkCreateInstance'') (\<lambda>a.
     drop_on_error (create_device drv refusal (an_handle a)) (vk_do drv (VkDestroyInstance (an_handle a)))))"

definition drop_context :: "gpu_driver \<Rightarrow> vulkan_context \<Rightarrow> unit gpu_effect" where
  "drop_context drv c =
     then_do (vk_do drv (VkDeviceWaitIdle (vc_device c))) (\<lambda>_.
     then_do (vk_do drv (VkDestroyCommandPool (vc_device c) (vc_command_pool c))) (\<lambda>_.
     then_do (vk_do drv (VkDestroyDevice (vc_device c))) (\<lambda>_.
     vk_do drv (VkDestroyInstance (vc_instance c)))))"

section \<open>Buffers\<close>

text \<open>What the variants of buffer creation differ in: usage, memory and messages.\<close>

record buffer_variant =
  bv_usage :: "buffer_usage list"
  bv_exportable :: bool
  bv_required :: "memory_property list"
  bv_create :: string
  bv_no_type :: string
  bv_allocate :: string
  bv_bind :: string

text \<open>A device has at most 32 memory types, one per bit.\<close>

definition find_memory_type :: "memory_property list list \<Rightarrow> u32 \<Rightarrow> memory_property list \<Rightarrow> nat option" where
  "find_memory_type types memory_type_bits required =
     List.find (\<lambda>i. memory_type_bits AND push_bit i 1 \<noteq> 0 \<and> set required \<subseteq> set (types ! i)) [0..<length types]"

definition bind_new_memory ::
  "gpu_driver \<Rightarrow> vulkan_context \<Rightarrow> buffer_variant \<Rightarrow> ptr \<Rightarrow> u64 \<Rightarrow> nat \<Rightarrow> ptr vulkan_effect" where
  "bind_new_memory drv c v buffer n memory_type_index =
     (let info = \<lparr>ai_size = n, ai_type_index = memory_type_index,
        ai_dedicated = (if bv_exportable v then Some buffer else None), ai_exportable = bv_exportable v\<rparr>
      in try_do (vk_call drv (VkAllocateMemory (vc_device c) info) Internal (bv_allocate v)) (\<lambda>a.
         drop_on_error
           (try_do (vk_call drv (VkBindBuffer (vc_device c) buffer (an_handle a)) Internal (bv_bind v)) (\<lambda>_.
            give (Inr (an_handle a))))
           (vk_do drv (VkFreeMemory (vc_device c) (an_handle a)))))"

definition create_buffer :: "gpu_driver \<Rightarrow> vulkan_context \<Rightarrow> buffer_variant \<Rightarrow> u64 \<Rightarrow> vulkan_buffer vulkan_effect" where
  "create_buffer drv c v n =
     (let info = \<lparr>bi_size = n, bi_usage = bv_usage v, bi_exportable = bv_exportable v\<rparr>
      in try_do (vk_call drv (VkCreateBuffer (vc_device c) info) Internal (bv_create v)) (\<lambda>a.
         let buffer = an_handle a in
         then_do (invoke drv (VkBufferRequirements (vc_device c) buffer)) (\<lambda>req.
         then_do (invoke drv (VkMemoryProperties (vc_instance c) (vc_physical_device c))) (\<lambda>props.
         drop_on_error
           (try_do (give (ok_or (find_memory_type (an_memory_types props) (an_type_bits req) (bv_required v))
               (Unsupported (bv_no_type v)))) (\<lambda>memory_type_index.
            try_do (bind_new_memory drv c v buffer (an_size req) memory_type_index) (\<lambda>memory.
            give (Inr \<lparr>vb_device = vc_device c, vb_buffer = buffer, vb_memory = memory,
              vb_logical_size = n, vb_allocation_size = an_size req\<rparr>))))
           (vk_do drv (VkDestroyBuffer (vc_device c) buffer))))))"

definition drop_buffer :: "gpu_driver \<Rightarrow> vulkan_buffer \<Rightarrow> unit gpu_effect" where
  "drop_buffer drv b =
     then_do (vk_do drv (VkDestroyBuffer (vb_device b) (vb_buffer b))) (\<lambda>_.
     vk_do drv (VkFreeMemory (vb_device b) (vb_memory b)))"

definition staging_variant :: buffer_variant where
  "staging_variant =
     \<lparr>bv_usage = [TransferSrc, TransferDst], bv_exportable = False, bv_required = [HostVisible, HostCoherent],
      bv_create = ''staging vkCreateBuffer'',
      bv_no_type = ''no HOST_VISIBLE|HOST_COHERENT staging memory type is available'',
      bv_allocate = ''staging vkAllocateMemory'', bv_bind = ''staging vkBindBufferMemory''\<rparr>"

definition shared_variant :: "string \<Rightarrow> buffer_variant" where
  "shared_variant no_type =
     \<lparr>bv_usage = shared_buffer_usage, bv_exportable = True, bv_required = [DeviceLocal],
      bv_create = ''vkCreateBuffer'', bv_no_type = no_type,
      bv_allocate = ''vkAllocateMemory(exportable)'', bv_bind = ''vkBindBufferMemory(exportable)''\<rparr>"


text \<open>Neither exported nor visible to the host, for the copy through the host in \<open>interop.rs\<close>.\<close>

definition fallback_variant :: buffer_variant where
  "fallback_variant =
     \<lparr>bv_usage = [TransferSrc, TransferDst], bv_exportable = False, bv_required = [DeviceLocal],
      bv_create = ''fallback vkCreateBuffer'',
      bv_no_type = ''no device-local memory type is available for copy fallback'',
      bv_allocate = ''fallback vkAllocateMemory'', bv_bind = ''fallback vkBindBufferMemory''\<rparr>"

section \<open>Host access to staging buffers\<close>

text \<open>A host slice of \<open>n\<close> bytes, whatever the driver answers with.\<close>

definition exactly :: "nat \<Rightarrow> bytes \<Rightarrow> bytes" where
  "exactly n bs = take n bs @ replicate (n - length bs) 0"

lemma length_exactly [simp]: "length (exactly n bs) = n"
  by (simp add: exactly_def)

definition write_staging ::
  "gpu_driver \<Rightarrow> vulkan_context \<Rightarrow> string \<Rightarrow> vulkan_buffer \<Rightarrow> bytes \<Rightarrow> unit vulkan_effect" where
  "write_staging drv c what staging data =
     (if of_nat (length data) \<noteq> vb_logical_size staging
      then give (Inl (Internal (''staging write length '' @ show_nat (length data)
        @ '' does not match buffer size '' @ show_nat (unat (vb_logical_size staging)))))
      else try_do (vk_call drv (VkMapMemory (vc_device c) (vb_memory staging) (vb_logical_size staging)) Internal what) (\<lambda>a.
        then_do (vk_do drv (HostWrite (an_handle a) data)) (\<lambda>_.
        then_do (vk_do drv (VkUnmapMemory (vc_device c) (vb_memory staging))) (\<lambda>_. give (Inr ())))))"

text \<open>Maps a staging buffer, reads all of it and unmaps it.\<close>

definition map_and_read :: "gpu_driver \<Rightarrow> vulkan_context \<Rightarrow> string \<Rightarrow> vulkan_buffer \<Rightarrow> nat \<Rightarrow> bytes vulkan_effect" where
  "map_and_read drv c what staging n =
     try_do (vk_call drv (VkMapMemory (vc_device c) (vb_memory staging) (vb_logical_size staging)) Internal what) (\<lambda>a.
     then_do (invoke drv (HostRead (an_handle a) n)) (\<lambda>r.
     then_do (vk_do drv (VkUnmapMemory (vc_device c) (vb_memory staging))) (\<lambda>_. give (Inr (exactly n (an_bytes r))))))"

definition read_staging :: "gpu_driver \<Rightarrow> vulkan_context \<Rightarrow> vulkan_buffer \<Rightarrow> bytes vulkan_effect" where
  "read_staging drv c staging =
     try_do (give (ok_or (usize_try_from (vb_logical_size staging))
       (Unsupported ''staging readback length does not fit usize''))) (\<lambda>n.
     map_and_read drv c ''vkMapMemory(readback)'' staging n)"

section \<open>Submissions\<close>

definition submit_commands ::
  "gpu_driver \<Rightarrow> vulkan_context \<Rightarrow> ptr \<Rightarrow> (ptr \<Rightarrow> unit gpu_effect) \<Rightarrow> unit vulkan_effect" where
  "submit_commands drv c cmd record_commands =
     try_do (vk_call drv (VkBeginCommandBuffer cmd) Internal ''vkBeginCommandBuffer'') (\<lambda>_.
     then_do (record_commands cmd) (\<lambda>_.
     try_do (vk_call drv (VkEndCommandBuffer cmd) Internal ''vkEndCommandBuffer'') (\<lambda>_.
     try_do (vk_call drv (VkQueueSubmit (vc_queue c) cmd) Internal ''vkQueueSubmit'') (\<lambda>_.
     try_do (vk_call drv (VkQueueWaitIdle (vc_queue c)) Internal ''vkQueueWaitIdle'') (\<lambda>_.
     give (Inr ()))))))"

definition submit_one_time ::
  "gpu_driver \<Rightarrow> vulkan_context \<Rightarrow> (ptr \<Rightarrow> unit gpu_effect) \<Rightarrow> unit vulkan_effect" where
  "submit_one_time drv c record_commands =
     try_do (vk_call drv (VkAllocateCommandBuffer (vc_device c) (vc_command_pool c)) Internal
       ''vkAllocateCommandBuffers'') (\<lambda>a.
     scoped (submit_commands drv c (an_handle a) record_commands)
       (vk_do drv (VkFreeCommandBuffer (vc_device c) (vc_command_pool c) (an_handle a))))"

definition barrier ::
  "pipeline_stage \<Rightarrow> pipeline_stage \<Rightarrow> access_flag list \<Rightarrow> access_flag list \<Rightarrow> queue_family \<Rightarrow> queue_family
    \<Rightarrow> vulkan_buffer \<Rightarrow> buffer_barrier" where
  "barrier src_stage dst_stage src_access dst_access src_family dst_family b =
     \<lparr>br_src_stage = src_stage, br_dst_stage = dst_stage, br_src_access = src_access, br_dst_access = dst_access,
      br_src_family = src_family, br_dst_family = dst_family, br_buffer = vb_buffer b, br_size = vb_logical_size b\<rparr>"

definition own_family :: "vulkan_context \<Rightarrow> queue_family" where
  "own_family c = Family (vc_queue_family c)"

definition host_write_barrier :: "vulkan_context \<Rightarrow> vulkan_buffer \<Rightarrow> buffer_barrier" where
  "host_write_barrier c =
     barrier HostStage TransferStage [HostWriteAccess] [TransferRead] (own_family c) (own_family c)"

definition host_read_barrier :: "vulkan_context \<Rightarrow> vulkan_buffer \<Rightarrow> buffer_barrier" where
  "host_read_barrier c =
     barrier TransferStage HostStage [TransferWrite] [HostReadAccess] (own_family c) (own_family c)"

definition copy_staging_to_device ::
  "gpu_driver \<Rightarrow> vulkan_context \<Rightarrow> vulkan_buffer \<Rightarrow> vulkan_buffer \<Rightarrow> unit vulkan_effect" where
  "copy_staging_to_device drv c staging shared =
     submit_one_time drv c (\<lambda>cmd.
       then_do (vk_do drv (VkBarrier cmd (host_write_barrier c staging))) (\<lambda>_.
       vk_do drv (VkCopyBuffer cmd (vb_buffer staging) (vb_buffer shared) (vb_logical_size staging))))"

definition copy_device_to_staging ::
  "gpu_driver \<Rightarrow> vulkan_context \<Rightarrow> vulkan_buffer \<Rightarrow> vulkan_buffer \<Rightarrow> unit vulkan_effect" where
  "copy_device_to_staging drv c shared staging =
     submit_one_time drv c (\<lambda>cmd.
       then_do (vk_do drv (VkCopyBuffer cmd (vb_buffer shared) (vb_buffer staging) (vb_logical_size shared))) (\<lambda>_.
       vk_do drv (VkBarrier cmd (host_read_barrier c staging))))"

text \<open>
  Handing a buffer to the external queue family. The first barrier is the one of the session
  crate, which waits for its own writes; the bridge has none to wait for.
\<close>

definition release_barrier :: "vulkan_context \<Rightarrow> vulkan_buffer \<Rightarrow> buffer_barrier" where
  "release_barrier c =
     barrier AllCommands BottomOfPipe [MemoryRead, MemoryWrite] [] (own_family c) ExternalFamily"

definition bridge_release_barrier :: "vulkan_context \<Rightarrow> vulkan_buffer \<Rightarrow> buffer_barrier" where
  "bridge_release_barrier c = barrier TopOfPipe BottomOfPipe [] [] (own_family c) ExternalFamily"

definition acquire_barrier :: "vulkan_context \<Rightarrow> vulkan_buffer \<Rightarrow> buffer_barrier" where
  "acquire_barrier c =
     barrier TopOfPipe AllCommands [] [MemoryRead, MemoryWrite] ExternalFamily (own_family c)"

definition bridge_acquire_barrier :: "vulkan_context \<Rightarrow> vulkan_buffer \<Rightarrow> buffer_barrier" where
  "bridge_acquire_barrier c = barrier TopOfPipe TransferStage [] [TransferRead] ExternalFamily (own_family c)"

definition release_to_external :: "gpu_driver \<Rightarrow> vulkan_context \<Rightarrow> vulkan_buffer \<Rightarrow> unit vulkan_effect" where
  "release_to_external drv c shared =
     submit_one_time drv c (\<lambda>cmd. vk_do drv (VkBarrier cmd (release_barrier c shared)))"

definition acquire_from_external :: "gpu_driver \<Rightarrow> vulkan_context \<Rightarrow> vulkan_buffer \<Rightarrow> unit vulkan_effect" where
  "acquire_from_external drv c shared =
     submit_one_time drv c (\<lambda>cmd. vk_do drv (VkBarrier cmd (acquire_barrier c shared)))"

definition export_kmt_handle :: "gpu_driver \<Rightarrow> vulkan_context \<Rightarrow> vulkan_buffer \<Rightarrow> ptr vulkan_effect" where
  "export_kmt_handle drv c shared =
     try_do (vk_call drv (VkGetWin32Handle (vc_device c) (vb_memory shared)) Internal ''vkGetMemoryWin32HandleKHR'') (\<lambda>a.
     give (Inr (an_handle a)))"


section \<open>What every part leaves live\<close>

text \<open>
  Buffers are dropped in the order they were created in, so the live resources are followed
  as a multiset.
\<close>

abbreviation holds :: "resource multiset \<Rightarrow> resource list \<Rightarrow> bool" where
  "holds M \<equiv> \<lambda>l. mset l = M"

definition context_holds :: "vulkan_context \<Rightarrow> resource multiset" where
  "context_holds c = {#VkInstance (vc_instance c), VkDevice (vc_device c) (vc_instance c),
     VkPool (vc_command_pool c) (vc_device c)#}"

definition buffer_holds :: "vulkan_buffer \<Rightarrow> resource multiset" where
  "buffer_holds b = {#VkBuffer (vb_buffer b) (vb_device b), VkMemory (vb_memory b) (vb_device b)#}"

definition buffers_hold :: "vulkan_buffer list \<Rightarrow> resource multiset" where
  "buffers_hold bs = (\<Sum>b \<leftarrow> bs. buffer_holds b)"

lemma buffers_hold_simps [simp]: "buffers_hold [] = {#}"
  "buffers_hold (b # bs) = buffer_holds b + buffers_hold bs"
  "buffers_hold (bs @ bs') = buffers_hold bs + buffers_hold bs'"
  by (simp_all add: buffers_hold_def)

text \<open>Mappings and command buffers never outlive the operation that made them.\<close>

fun transient :: "resource \<Rightarrow> bool" where
  "transient (VkMapping p m) = True"
| "transient (VkCommands x p) = True"
| "transient r = False"

definition quiet :: "vulkan_context \<Rightarrow> resource multiset \<Rightarrow> bool" where
  "quiet c M \<longleftrightarrow> VkInstance (vc_instance c) \<in># M \<and> VkDevice (vc_device c) (vc_instance c) \<in># M
     \<and> VkPool (vc_command_pool c) (vc_device c) \<in># M \<and> (\<forall>r \<in># M. \<not> transient r)"

lemma live_holds: "mset l = M \<Longrightarrow> live P l \<longleftrightarrow> (\<exists>r \<in># M. P r)"
  by (auto simp: live_def)

lemma in_holds: "mset l = M \<Longrightarrow> r \<in> set l \<longleftrightarrow> r \<in># M"
  by auto

lemma of_memory_transient: "of_memory m r \<Longrightarrow> transient r"
  by (cases r) auto

lemma of_pool_transient: "of_pool p r \<Longrightarrow> transient r"
  by (cases r) auto

lemma quiet_add: "quiet c M \<Longrightarrow> \<not> transient r \<Longrightarrow> quiet c (add_mset r M)"
  by (simp add: quiet_def)

lemma quiet_union: "quiet c M \<Longrightarrow> (\<forall>r \<in># N. \<not> transient r) \<Longrightarrow> quiet c (M + N)"
  by (auto simp: quiet_def)

lemma buffers_hold_persistent: "r \<in># buffers_hold bs \<Longrightarrow> \<not> transient r"
  by (induction bs) (auto simp: buffer_holds_def)

lemma buffer_holds_persistent: "r \<in># buffer_holds b \<Longrightarrow> \<not> transient r"
  by (auto simp: buffer_holds_def)

text \<open>The three kinds of calls: one that obtains, one that leaves and one that releases.\<close>

lemma obtains_call:
  assumes "\<And>l a. mset l = M \<Longrightarrow> gpu_step l (c, a) = obtain_if (an_code a = 0) (f a) l"
  shows "gpu_triple (holds M) (vk_call drv c wrap what)
     (\<lambda>r l. case r of Inl _ \<Rightarrow> mset l = M | Inr a \<Rightarrow> mset l = add_mset (f a) M)"
  unfolding vk_call_def
  by (rule triple_then_do [OF triple_invoke [where
        Q = "\<lambda>a l. mset l = (if an_code a = 0 then add_mset (f a) M else M)"]])
    (auto simp: assms obtain_if_def intro!: triple_giveI)

lemma stays_call:
  assumes "\<And>l a. mset l = M \<Longrightarrow> gpu_step l (c, a) = Some l"
  shows "gpu_triple (holds M) (vk_call drv c wrap what) (\<lambda>_. holds M)"
  unfolding vk_call_def
  by (rule triple_then_do [OF triple_invoke [where Q = "\<lambda>_. holds M"]])
    (auto simp: assms intro!: triple_giveI)

lemma stays_invoke:
  assumes "\<And>l a. mset l = M \<Longrightarrow> gpu_step l (c, a) = Some l"
  shows "gpu_triple (holds M) (invoke drv c) (\<lambda>_. holds M)"
  by (rule triple_invoke) (simp add: assms)

lemma stays_do:
  assumes "\<And>l a. mset l = M \<Longrightarrow> gpu_step l (c, a) = Some l"
  shows "gpu_triple (holds M) (vk_do drv c) (\<lambda>_. holds M)"
  unfolding vk_do_def
  by (rule triple_then_do [OF stays_invoke]) (auto simp: assms intro!: triple_giveI)

lemma releases_do:
  assumes "\<And>l a. mset l = add_mset r M \<Longrightarrow> gpu_step l (c, a) = release r l"
  shows "gpu_triple (holds (add_mset r M)) (vk_do drv c) (\<lambda>_. holds M)"
  unfolding vk_do_def
proof (rule triple_then_do [OF triple_invoke])
  fix l a assume "mset l = add_mset r M"
  with release_mset [OF this] show "\<exists>l'. gpu_step l (c, a) = Some l' \<and> mset l' = M"
    by (simp add: assms)
qed (auto intro!: triple_giveI)

text \<open>A release by kind, where exactly one resource is of that kind.\<close>

lemma release_first_only:
  assumes "mset l = add_mset r M" "P r" "\<forall>r' \<in># M. \<not> P r'"
  shows "release_first P l = release r l"
proof -
  have "(\<And>r'. r' \<in> set l \<Longrightarrow> P r' \<longleftrightarrow> r' = r) \<Longrightarrow> release_first P l = release_first ((=) r) l"
    by (induction l) auto
  moreover have "set l = insert r (set_mset M)" using arg_cong [OF assms(1), of set_mset] by simp
  ultimately show ?thesis using assms(2,3) by (auto simp: release_def)
qed


subsection \<open>Buffers\<close>

lemma quiet_device: "quiet c M \<Longrightarrow> mset l = M \<Longrightarrow> live (is_device (vc_device c)) l"
  by (auto simp: live_holds quiet_def intro!: bexI [of _ "VkDevice (vc_device c) (vc_instance c)"])

lemma quiet_mappings: "quiet c M \<Longrightarrow> mset l = M \<Longrightarrow> \<not> live (of_memory m) l"
  by (auto simp: live_holds quiet_def dest: of_memory_transient)

lemma bind_new_memory_live:
  assumes "quiet c M" "VkBuffer buffer (vc_device c) \<in># M"
  shows "gpu_triple (holds M) (bind_new_memory drv c v buffer n i)
     (\<lambda>r l. case r of Inl _ \<Rightarrow> mset l = M | Inr m \<Rightarrow> mset l = add_mset (VkMemory m (vc_device c)) M)"
  unfolding bind_new_memory_def Let_def
proof (rule triple_try_do [OF obtains_call [where f = "\<lambda>a. VkMemory (an_handle a) (vc_device c)"]])
  fix a :: answer
  let ?M = "add_mset (VkMemory (an_handle a) (vc_device c)) M"
  have q: "quiet c ?M" using assms(1) by (simp add: quiet_add)
  have bind: "gpu_triple (holds ?M) (vk_call drv (VkBindBuffer (vc_device c) buffer (an_handle a)) Internal (bv_bind v))
      (\<lambda>_. holds ?M)"
    using assms(2) by (intro stays_call) (simp add: in_holds [where M = ?M])
  have free: "gpu_triple (holds ?M) (vk_do drv (VkFreeMemory (vc_device c) (an_handle a))) (\<lambda>_. holds M)"
    using quiet_mappings [OF q] by (intro releases_do) simp
  show "gpu_triple (\<lambda>l. case Inr a of Inl _ \<Rightarrow> mset l = M | Inr a \<Rightarrow> mset l = add_mset (VkMemory (an_handle a) (vc_device c)) M)
     (drop_on_error
       (try_do (vk_call drv (VkBindBuffer (vc_device c) buffer (an_handle a)) Internal (bv_bind v))
         (\<lambda>_. give (Inr (an_handle a))))
       (vk_do drv (VkFreeMemory (vc_device c) (an_handle a))))
     (\<lambda>r l. case r of Inl _ \<Rightarrow> mset l = M | Inr m \<Rightarrow> mset l = add_mset (VkMemory m (vc_device c)) M)"
    unfolding sum.case
    by (rule triple_drop_on_error [where R = "\<lambda>r l. mset l = ?M \<and> (\<forall>m. r = Inr m \<longrightarrow> m = an_handle a)"])
      (auto intro!: triple_try_do [OF bind] triple_giveI triple_weaken [OF free])
qed (auto simp: quiet_device [OF assms(1)])

lemma create_buffer_live:
  assumes "quiet c M"
  shows "gpu_triple (holds M) (create_buffer drv c v n)
     (\<lambda>r l. case r of
        Inl _ \<Rightarrow> mset l = M
      | Inr b \<Rightarrow> mset l = M + buffer_holds b \<and> vb_device b = vc_device c \<and> vb_logical_size b = n)"
    (is "gpu_triple _ _ ?Q")
  unfolding create_buffer_def Let_def
proof (rule triple_try_do [OF obtains_call [where f = "\<lambda>a. VkBuffer (an_handle a) (vc_device c)"]])
  fix a :: answer
  let ?M = "add_mset (VkBuffer (an_handle a) (vc_device c)) M"
  have q: "quiet c ?M" using assms by (simp add: quiet_add)
  have req: "gpu_triple (holds ?M) (invoke drv (VkBufferRequirements (vc_device c) (an_handle a))) (\<lambda>_. holds ?M)"
    by (rule stays_invoke) (simp add: in_holds [where M = ?M])
  have props: "gpu_triple (holds ?M) (invoke drv (VkMemoryProperties (vc_instance c) (vc_physical_device c))) (\<lambda>_. holds ?M)"
    using q by (intro stays_invoke) (simp add: in_holds [where M = ?M] quiet_def)
  have destroy: "gpu_triple (holds ?M) (vk_do drv (VkDestroyBuffer (vc_device c) (an_handle a))) (\<lambda>_. holds M)"
    by (rule releases_do) simp
  have bind: "gpu_triple (holds ?M)
      (try_do (give (ok_or t (Unsupported (bv_no_type v)))) (\<lambda>i.
         try_do (bind_new_memory drv c v (an_handle a) (an_size r) i) (\<lambda>m.
         give (Inr \<lparr>vb_device = vc_device c, vb_buffer = an_handle a, vb_memory = m,
           vb_logical_size = n, vb_allocation_size = an_size r\<rparr>))))
      (\<lambda>x l. case x of Inl _ \<Rightarrow> mset l = ?M | Inr b \<Rightarrow> ?Q (Inr b) l)" for t and r :: answer
    by (intro triple_try_do [where R = "\<lambda>_. holds ?M"] triple_giveI triple_try_do [OF bind_new_memory_live [OF q]])
      (auto simp: buffer_holds_def)
  show "gpu_triple (\<lambda>l. case Inr a of Inl _ \<Rightarrow> mset l = M | Inr a \<Rightarrow> mset l = add_mset (VkBuffer (an_handle a) (vc_device c)) M)
     (then_do (invoke drv (VkBufferRequirements (vc_device c) (an_handle a))) (\<lambda>req.
      then_do (invoke drv (VkMemoryProperties (vc_instance c) (vc_physical_device c))) (\<lambda>props.
      drop_on_error
        (try_do (give (ok_or (find_memory_type (an_memory_types props) (an_type_bits req) (bv_required v))
            (Unsupported (bv_no_type v)))) (\<lambda>i.
         try_do (bind_new_memory drv c v (an_handle a) (an_size req) i) (\<lambda>memory.
         give (Inr \<lparr>vb_device = vc_device c, vb_buffer = an_handle a, vb_memory = memory,
           vb_logical_size = n, vb_allocation_size = an_size req\<rparr>))))
        (vk_do drv (VkDestroyBuffer (vc_device c) (an_handle a)))))) ?Q"
    unfolding sum.case
    by (rule triple_then_do [OF req], rule triple_then_do [OF props], rule triple_drop_on_error [OF bind])
      (auto intro: triple_weaken [OF destroy])
qed (auto simp: quiet_device [OF assms])

lemma drop_buffer_live:
  assumes "quiet c M" "vb_device b = vc_device c"
  shows "gpu_triple (holds (M + buffer_holds b)) (drop_buffer drv b) (\<lambda>_. holds M)"
proof -
  let ?M = "add_mset (VkMemory (vb_memory b) (vb_device b)) M"
  have q: "quiet c ?M" using assms(1) by (simp add: quiet_add)
  have destroy: "gpu_triple (holds (add_mset (VkBuffer (vb_buffer b) (vb_device b)) ?M))
      (vk_do drv (VkDestroyBuffer (vb_device b) (vb_buffer b))) (\<lambda>_. holds ?M)"
    by (rule releases_do) simp
  have free: "gpu_triple (holds ?M) (vk_do drv (VkFreeMemory (vb_device b) (vb_memory b))) (\<lambda>_. holds M)"
    using quiet_mappings [OF q] by (intro releases_do) simp
  have eq: "M + buffer_holds b = add_mset (VkBuffer (vb_buffer b) (vb_device b)) ?M" by (simp add: buffer_holds_def)
  show ?thesis unfolding drop_buffer_def eq by (rule triple_then_do [OF destroy free])
qed

lemma drop_buffers_live:
  assumes "quiet c M" "\<forall>b \<in> set bs. vb_device b = vc_device c"
  shows "gpu_triple (holds (M + buffers_hold bs)) (for_each (drop_buffer drv) bs) (\<lambda>_. holds M)"
  using assms(2)
proof (induction bs)
  case (Cons b bs)
  have "quiet c (M + buffers_hold bs)" using assms(1) buffers_hold_persistent by (blast intro: quiet_union)
  from triple_then_do [OF drop_buffer_live [OF this] Cons.IH] Cons.prems show ?case by (simp add: ac_simps)
qed (auto intro: triple_giveI)


text \<open>A buffer created for a scope: the body runs with it, and nothing of it is left.\<close>

lemma with_buffer_live:
  assumes "quiet c M"
    and "\<And>s. vb_device s = vc_device c \<Longrightarrow> gpu_triple (holds (M + buffer_holds s)) (body s) (\<lambda>_. holds (M + buffer_holds s))"
  shows "gpu_triple (holds M) (try_do (create_buffer drv c v n) (\<lambda>s. scoped (body s) (drop_buffer drv s)))
    (\<lambda>_. holds M)"
proof (rule triple_try_do [OF create_buffer_live [OF assms(1)]])
  fix s :: vulkan_buffer
  have "gpu_triple (\<lambda>l. mset l = M + buffer_holds s) (scoped (body s) (drop_buffer drv s)) (\<lambda>_. holds M)"
    if "vb_device s = vc_device c"
    by (rule triple_scoped [OF assms(2) [OF that] drop_buffer_live [OF assms(1) that]])
  then show "gpu_triple (\<lambda>l. case Inr s of Inl _ \<Rightarrow> mset l = M
      | Inr b \<Rightarrow> mset l = M + buffer_holds b \<and> vb_device b = vc_device c \<and> vb_logical_size b = n)
    (scoped (body s) (drop_buffer drv s)) (\<lambda>_. holds M)"
    by (auto simp: triple_def)
qed simp

subsection \<open>Staging and submissions\<close>

text \<open>Mapping, using and unmapping the memory of a buffer.\<close>

lemma map_live:
  assumes "quiet c M" "VkMemory (vb_memory b) (vc_device c) \<in># M"
  shows "gpu_triple (holds M) (vk_call drv (VkMapMemory (vc_device c) (vb_memory b) n) wrap what)
     (\<lambda>r l. case r of Inl _ \<Rightarrow> mset l = M
      | Inr a \<Rightarrow> mset l = add_mset (VkMapping (an_handle a) (vb_memory b)) M)"
  using assms by (intro obtains_call) (simp add: quiet_mappings [OF assms(1)] in_holds [where M = M])

lemma unmap_live:
  assumes "quiet c M"
  shows "gpu_triple (holds (add_mset (VkMapping p m) M)) (vk_do drv (VkUnmapMemory d m)) (\<lambda>_. holds M)"
proof (rule releases_do)
  fix l :: "resource list" and a :: answer assume "mset l = add_mset (VkMapping p m) M"
  from release_first_only [OF this, of "of_memory m"] assms
  show "gpu_step l (VkUnmapMemory d m, a) = release (VkMapping p m) l"
    by (auto simp: quiet_def dest: of_memory_transient)
qed

lemma mapping_in: "mset l = add_mset (VkMapping p m) M \<Longrightarrow> live (is_mapping p) l"
  by (simp add: live_holds)

lemma write_staging_live:
  assumes "quiet c M" "VkMemory (vb_memory b) (vc_device c) \<in># M"
  shows "gpu_triple (holds M) (write_staging drv c what b data) (\<lambda>_. holds M)"
  unfolding write_staging_def
proof (intro triple_if triple_giveI triple_try_do [OF map_live [OF assms]])
  fix a :: answer
  let ?M = "add_mset (VkMapping (an_handle a) (vb_memory b)) M"
  have "gpu_triple (holds ?M) (vk_do drv (HostWrite (an_handle a) data)) (\<lambda>_. holds ?M)"
    by (rule stays_do) (simp add: mapping_in)
  then show "gpu_triple (\<lambda>l. case Inr a of Inl _ \<Rightarrow> mset l = M
        | Inr a \<Rightarrow> mset l = add_mset (VkMapping (an_handle a) (vb_memory b)) M)
      (then_do (vk_do drv (HostWrite (an_handle a) data)) (\<lambda>_.
       then_do (vk_do drv (VkUnmapMemory (vc_device c) (vb_memory b))) (\<lambda>_. give (Inr ())))) (\<lambda>_. holds M)"
    unfolding sum.case
    by (intro triple_then_do [where R = "\<lambda>_. holds ?M"] triple_then_do [OF unmap_live [OF assms(1)]] triple_giveI)
qed simp_all

lemma map_and_read_live:
  assumes "quiet c M" "VkMemory (vb_memory b) (vc_device c) \<in># M"
  shows "gpu_triple (holds M) (map_and_read drv c what b n) (\<lambda>_. holds M)"
  unfolding map_and_read_def
proof (rule triple_try_do [OF map_live [OF assms]])
  fix a :: answer
  let ?M = "add_mset (VkMapping (an_handle a) (vb_memory b)) M"
  have "gpu_triple (holds ?M) (invoke drv (HostRead (an_handle a) n)) (\<lambda>_. holds ?M)"
    by (rule stays_invoke) (simp add: mapping_in)
  then show "gpu_triple (\<lambda>l. case Inr a of Inl _ \<Rightarrow> mset l = M
        | Inr a \<Rightarrow> mset l = add_mset (VkMapping (an_handle a) (vb_memory b)) M)
      (then_do (invoke drv (HostRead (an_handle a) n)) (\<lambda>r.
       then_do (vk_do drv (VkUnmapMemory (vc_device c) (vb_memory b))) (\<lambda>_. give (Inr (exactly n (an_bytes r))))))
      (\<lambda>_. holds M)"
    unfolding sum.case
    by (intro triple_then_do [where R = "\<lambda>_. holds ?M"] triple_then_do [OF unmap_live [OF assms(1)]] triple_giveI)
qed simp

lemma read_staging_live:
  assumes "quiet c M" "VkMemory (vb_memory b) (vc_device c) \<in># M"
  shows "gpu_triple (holds M) (read_staging drv c b) (\<lambda>_. holds M)"
  unfolding read_staging_def
  by (rule triple_try_do [where R = "\<lambda>_. holds M"]) (auto intro!: triple_giveI map_and_read_live [OF assms])

lemma submit_one_time_live:
  assumes "quiet c M"
    and "\<And>x. gpu_triple (holds (add_mset (VkCommands x (vc_command_pool c)) M)) (record_commands x)
      (\<lambda>_. holds (add_mset (VkCommands x (vc_command_pool c)) M))"
  shows "gpu_triple (holds M) (submit_one_time drv c record_commands) (\<lambda>_. holds M)"
  unfolding submit_one_time_def
proof (rule triple_try_do [OF obtains_call [where f = "\<lambda>a. VkCommands (an_handle a) (vc_command_pool c)"]])
  fix a :: answer
  let ?M = "add_mset (VkCommands (an_handle a) (vc_command_pool c)) M"
  have live: "mset l = ?M \<Longrightarrow> live (is_commands (an_handle a)) l" for l by (simp add: live_holds)
  have "gpu_triple (holds ?M) (submit_commands drv c (an_handle a) record_commands) (\<lambda>_. holds ?M)"
    unfolding submit_commands_def
    by (intro triple_try_do [where R = "\<lambda>_. holds ?M"] triple_then_do [OF assms(2)] stays_call triple_giveI)
      (simp_all add: live)
  moreover have "gpu_triple (holds ?M) (vk_do drv (VkFreeCommandBuffer (vc_device c) (vc_command_pool c) (an_handle a)))
      (\<lambda>_. holds M)"
    by (rule releases_do) simp
  ultimately show "gpu_triple (\<lambda>l. case Inr a of Inl _ \<Rightarrow> mset l = M
        | Inr a \<Rightarrow> mset l = add_mset (VkCommands (an_handle a) (vc_command_pool c)) M)
      (scoped (submit_commands drv c (an_handle a) record_commands)
        (vk_do drv (VkFreeCommandBuffer (vc_device c) (vc_command_pool c) (an_handle a)))) (\<lambda>_. holds M)"
    unfolding sum.case by (rule triple_scoped)
qed (use assms(1) in \<open>auto simp: quiet_def in_holds [where M = M]\<close>)

text \<open>Recorded commands, on buffers that are live.\<close>

lemma live_commands: "mset l = add_mset (VkCommands x p) M \<Longrightarrow> live (is_commands x) l"
  by (simp add: live_holds)

lemma live_buffer: "VkBuffer y d \<in># M \<Longrightarrow> mset l = add_mset r M \<Longrightarrow> live (is_buffer y) l"
  by (auto simp: live_holds intro!: bexI [of _ "VkBuffer y d"])

lemma record_barrier_live:
  assumes "VkBuffer (br_buffer b) d \<in># M"
  shows "gpu_triple (holds (add_mset (VkCommands x p) M)) (vk_do drv (VkBarrier x b))
     (\<lambda>_. holds (add_mset (VkCommands x p) M))"
  using assms by (intro stays_do) (simp add: live_commands live_buffer)

lemma record_copy_live:
  assumes "VkBuffer y d \<in># M" "VkBuffer z d \<in># M"
  shows "gpu_triple (holds (add_mset (VkCommands x p) M)) (vk_do drv (VkCopyBuffer x y z n))
     (\<lambda>_. holds (add_mset (VkCommands x p) M))"
  using assms by (intro stays_do) (simp add: live_commands live_buffer)

definition buffer_in :: "vulkan_context \<Rightarrow> vulkan_buffer \<Rightarrow> resource multiset \<Rightarrow> bool" where
  "buffer_in c b M \<longleftrightarrow> VkBuffer (vb_buffer b) (vc_device c) \<in># M \<and> VkMemory (vb_memory b) (vc_device c) \<in># M"

lemma br_buffer_barrier [simp]: "br_buffer (barrier s s' a a' f f' b) = vb_buffer b"
  by (simp add: barrier_def)

lemma br_buffers [simp]: "br_buffer (host_write_barrier c b) = vb_buffer b"
  "br_buffer (host_read_barrier c b) = vb_buffer b" "br_buffer (release_barrier c b) = vb_buffer b"
  "br_buffer (acquire_barrier c b) = vb_buffer b" "br_buffer (bridge_release_barrier c b) = vb_buffer b"
  "br_buffer (bridge_acquire_barrier c b) = vb_buffer b"
  by (simp_all add: host_write_barrier_def host_read_barrier_def release_barrier_def acquire_barrier_def
      bridge_release_barrier_def bridge_acquire_barrier_def)

lemma copies_live:
  assumes "quiet c M" "buffer_in c b M" "buffer_in c s M"
  shows "gpu_triple (holds M) (copy_staging_to_device drv c s b) (\<lambda>_. holds M)"
    and "gpu_triple (holds M) (copy_device_to_staging drv c b s) (\<lambda>_. holds M)"
proof -
  have d: "VkBuffer (vb_buffer b) (vc_device c) \<in># M" "VkBuffer (vb_buffer s) (vc_device c) \<in># M"
    using assms by (simp_all add: buffer_in_def)
  show "gpu_triple (holds M) (copy_staging_to_device drv c s b) (\<lambda>_. holds M)"
    unfolding copy_staging_to_device_def
    by (intro submit_one_time_live [OF assms(1)] triple_then_do [OF record_barrier_live record_copy_live])
      (use d in auto)
  show "gpu_triple (holds M) (copy_device_to_staging drv c b s) (\<lambda>_. holds M)"
    unfolding copy_device_to_staging_def
    by (intro submit_one_time_live [OF assms(1)] triple_then_do [OF record_copy_live record_barrier_live])
      (use d in auto)
qed

lemma ownership_live:
  assumes "quiet c M" "buffer_in c b M"
  shows "gpu_triple (holds M) (release_to_external drv c b) (\<lambda>_. holds M)"
    and "gpu_triple (holds M) (acquire_from_external drv c b) (\<lambda>_. holds M)"
  unfolding release_to_external_def acquire_from_external_def
  using assms(2) unfolding buffer_in_def
  by (intro submit_one_time_live [OF assms(1)] record_barrier_live [where d = "vc_device c"]; simp)+

lemma export_kmt_handle_live:
  assumes "buffer_in c b M"
  shows "gpu_triple (holds M) (export_kmt_handle drv c b) (\<lambda>_. holds M)"
  unfolding export_kmt_handle_def
  by (rule triple_try_do [OF stays_call])
    (use assms in \<open>auto simp: buffer_in_def in_holds [where M = M] intro!: triple_giveI\<close>)


subsection \<open>Contexts\<close>

fun vulkan :: "resource \<Rightarrow> bool" where
  "vulkan (VkInstance i) = True"
| "vulkan (VkDevice d i) = True"
| "vulkan (VkPool p d) = True"
| "vulkan (VkBuffer b d) = True"
| "vulkan (VkMemory m d) = True"
| "vulkan (VkMapping p m) = True"
| "vulkan (VkCommands c p) = True"
| "vulkan r = False"

definition vulkan_free :: "resource multiset \<Rightarrow> bool" where
  "vulkan_free M \<longleftrightarrow> (\<forall>r \<in># M. \<not> vulkan r)"

lemma vulkan_kinds: "of_instance i r \<Longrightarrow> vulkan r" "of_device d r \<Longrightarrow> vulkan r" "of_pool p r \<Longrightarrow> vulkan r"
  "is_device d r \<Longrightarrow> vulkan r" "transient r \<Longrightarrow> vulkan r"
  by (cases r; simp)+

text \<open>
  A context beside resources of others: a handle the loader or an instance hands out does not
  name an instance or device that is live, or one that something live was made from. Vulkan
  promises that as long as those objects live.
\<close>

definition apart_instance :: "ptr \<Rightarrow> resource multiset \<Rightarrow> bool" where
  "apart_instance i B \<longleftrightarrow> VkInstance i \<notin># B \<and> (\<forall>r \<in># B. \<not> of_instance i r)"

definition apart_device :: "ptr \<Rightarrow> resource multiset \<Rightarrow> bool" where
  "apart_device d B \<longleftrightarrow> (\<forall>r \<in># B. \<not> is_device d r \<and> \<not> of_device d r)"

definition fresh_handles :: "gpu_driver \<Rightarrow> resource multiset \<Rightarrow> bool" where
  "fresh_handles drv B \<longleftrightarrow> (\<forall>h l. gpu_audit h = Some l \<and> B \<subseteq># mset l \<longrightarrow>
     (\<forall>app. an_code (drv h (VkCreateInstance app)) = 0 \<longrightarrow> apart_instance (an_handle (drv h (VkCreateInstance app))) B) \<and>
     (\<forall>i p q. an_code (drv h (VkCreateDevice i p q)) = 0 \<longrightarrow> apart_device (an_handle (drv h (VkCreateDevice i p q))) B))"

definition settled :: "resource multiset \<Rightarrow> bool" where
  "settled B \<longleftrightarrow> (\<forall>r \<in># B. \<not> transient r)"

definition apart :: "vulkan_context \<Rightarrow> resource multiset \<Rightarrow> bool" where
  "apart c B \<longleftrightarrow> apart_instance (vc_instance c) B \<and> apart_device (vc_device c) B"

lemma vulkan_free_apart: "vulkan_free B \<Longrightarrow> settled B" "vulkan_free B \<Longrightarrow> fresh_handles drv B"
  "vulkan_free B \<Longrightarrow> apart c B"
  by (auto simp: settled_def fresh_handles_def apart_def apart_instance_def apart_device_def vulkan_free_def
      dest: vulkan_kinds)

lemma quiet_context: "settled B \<Longrightarrow> quiet c (B + context_holds c)"
  by (auto simp: quiet_def settled_def context_holds_def)

text \<open>A call that obtains something of which the driver promises more.\<close>

lemma obtains_call_fresh:
  assumes "\<And>l a. mset l = M \<Longrightarrow> gpu_step l (c, a) = obtain_if (an_code a = 0) (f a) l"
    and "\<And>h l. gpu_audit h = Some l \<Longrightarrow> mset l = M \<Longrightarrow> an_code (drv h c) = 0 \<Longrightarrow> F (drv h c)"
  shows "gpu_triple (holds M) (vk_call drv c wrap what)
     (\<lambda>r l. case r of Inl _ \<Rightarrow> mset l = M | Inr a \<Rightarrow> mset l = add_mset (f a) M \<and> F a)"
  unfolding vk_call_def
  by (rule triple_then_do [OF triple_invoke_at [where
        Q = "\<lambda>a l. if an_code a = 0 then mset l = add_mset (f a) M \<and> F a else mset l = M"]])
    (auto simp: assms obtain_if_def intro!: triple_giveI)

lemma select_vulkan_device_live:
  assumes "VkInstance inst \<in># M"
  shows "gpu_triple (holds M) (select_vulkan_device drv inst) (\<lambda>_. holds M)"
proof -
  have candidates: "gpu_triple (holds M) (device_candidates drv inst devices found) (\<lambda>_. holds M)" for devices found
  proof (induction devices arbitrary: found)
    case (Cons d devices)
    have "gpu_triple (holds M) (invoke drv (VkDeviceProperties inst d)) (\<lambda>_. holds M)"
      "gpu_triple (holds M) (invoke drv (VkQueueFamilies inst d)) (\<lambda>_. holds M)"
      "gpu_triple (holds M) (vk_call drv (VkDeviceExtensions inst d) Probe what) (\<lambda>_. holds M)" for what
      using assms by (intro stays_invoke stays_call; simp add: in_holds [where M = M])+
    note calls = this
    show ?case
      unfolding device_candidates.simps
      by (intro triple_then_do [OF calls(1)] triple_then_do [OF calls(2)])
        (auto split: option.split intro!: Cons.IH triple_try_do [OF calls(3)])
  qed (auto intro: triple_giveI)
  have "gpu_triple (holds M) (vk_call drv (VkEnumerateDevices inst) Probe what) (\<lambda>_. holds M)" for what
    using assms by (intro stays_call) (simp add: in_holds [where M = M])
  then show ?thesis
    unfolding select_vulkan_device_def
    by (intro triple_try_do [where R = "\<lambda>_. holds M"] candidates triple_giveI)
qed

lemma create_command_pool_live:
  assumes "VkDevice device inst \<in># M"
  shows "gpu_triple (holds M) (create_command_pool drv device family)
     (\<lambda>r l. case r of Inl _ \<Rightarrow> mset l = M | Inr (queue, pool) \<Rightarrow> mset l = add_mset (VkPool pool device) M)"
proof -
  have live: "mset l = M \<Longrightarrow> live (is_device device) l" for l
    using assms by (auto simp: live_holds intro!: bexI [of _ "VkDevice device inst"])
  have queue: "gpu_triple (holds M) (invoke drv (VkGetQueue device family)) (\<lambda>_. holds M)"
    by (rule stays_invoke) (simp add: live)
  have pool: "gpu_triple (holds M) (vk_call drv (VkCreateCommandPool device family) Probe ''vkCreateCommandPool'')
      (\<lambda>r l. case r of Inl _ \<Rightarrow> mset l = M | Inr a \<Rightarrow> mset l = add_mset (VkPool (an_handle a) device) M)"
    by (rule obtains_call) (simp add: live)
  show ?thesis
    unfolding create_command_pool_def
    by (rule triple_then_do [OF queue], rule triple_try_do [OF pool]) (auto intro!: triple_giveI)
qed

lemma create_device_live:
  assumes "settled B" "fresh_handles drv B"
  shows "gpu_triple (holds (add_mset (VkInstance inst) B)) (create_device drv refusal inst)
     (\<lambda>r l. case r of
        Inl _ \<Rightarrow> mset l = add_mset (VkInstance inst) B
      | Inr c \<Rightarrow> mset l = B + context_holds c \<and> vc_instance c = inst \<and> apart_device (vc_device c) B)"
    (is "gpu_triple (holds ?I) _ ?Q")
  unfolding create_device_def
proof (rule triple_try_do [OF select_vulkan_device_live])
  fix selected :: "ptr \<times> u32 \<times> string"
  obtain physical family name where x: "selected = (physical, family, name)" by (cases selected)
  have features: "gpu_triple (holds ?I) (invoke drv (VkExternalBufferFeatures inst physical)) (\<lambda>_. holds ?I)"
    by (rule stays_invoke) (simp add: in_holds [where M = ?I])
  have device: "gpu_triple (holds ?I) (vk_call drv (VkCreateDevice inst physical family) Probe what)
      (\<lambda>r l. case r of Inl _ \<Rightarrow> mset l = ?I | Inr a \<Rightarrow> mset l = add_mset (VkDevice (an_handle a) inst) ?I
        \<and> apart_device (an_handle a) B)" for what
    using assms(2) by (intro obtains_call_fresh) (auto simp: in_holds [where M = ?I] fresh_handles_def)
  have pool: "gpu_triple (holds (add_mset (VkDevice d inst) ?I))
      (try_do (create_command_pool drv d family) (\<lambda>(queue, pool). give (Inr \<lparr>vc_instance = inst,
         vc_physical_device = physical, vc_device = d, vc_queue_family = family, vc_queue = queue,
         vc_command_pool = pool, vc_device_name = name\<rparr>)))
      (\<lambda>r l. case r of Inl _ \<Rightarrow> mset l = add_mset (VkDevice d inst) ?I | Inr c \<Rightarrow> ?Q (Inr c) l)"
    if "apart_device d B" for d
    by (rule triple_try_do [OF create_command_pool_live [where inst = inst]])
      (use that in \<open>auto simp: context_holds_def intro!: triple_giveI\<close>)
  have destroy: "gpu_triple (holds (add_mset (VkDevice d inst) ?I)) (vk_do drv (VkDestroyDevice d)) (\<lambda>_. holds ?I)"
    if apart: "apart_device d B" for d
  proof (rule releases_do)
    fix l :: "resource list" and a :: answer assume l: "mset l = add_mset (VkDevice d inst) ?I"
    have "\<not> live (of_device d) l" using apart by (auto simp: live_holds [OF l] apart_device_def)
    moreover have "release_first (is_device d) l = release (VkDevice d inst) l"
      by (rule release_first_only [OF l]) (use apart in \<open>auto simp: apart_device_def\<close>)
    ultimately show "gpu_step l (VkDestroyDevice d, a) = release (VkDevice d inst) l" by simp
  qed
  show "gpu_triple (holds ?I) ((\<lambda>(physical, queue_family, name).
     then_do (invoke drv (VkExternalBufferFeatures inst physical)) (\<lambda>f.
     if \<not> an_exportable f then give (Inl (Unsupported (refusal name)))
     else try_do (vk_call drv (VkCreateDevice inst physical queue_family) Probe
         (''vkCreateDevice for '' @ quoted name)) (\<lambda>a.
     let device = an_handle a in
     drop_on_error
       (try_do (create_command_pool drv device queue_family) (\<lambda>(queue, pool).
        give (Inr \<lparr>vc_instance = inst, vc_physical_device = physical, vc_device = device,
          vc_queue_family = queue_family, vc_queue = queue, vc_command_pool = pool, vc_device_name = name\<rparr>)))
       (vk_do drv (VkDestroyDevice device))))) selected) ?Q"
    unfolding x prod.case Let_def
    by (rule triple_then_do [OF features], rule triple_if, rule triple_giveI, simp, rule triple_try_do [OF device])
      (auto intro!: triple_fact triple_drop_on_error [OF pool] intro: triple_weaken [OF destroy])
qed auto

lemma create_context_live:
  assumes "settled B" "fresh_handles drv B"
  shows "gpu_triple (holds B) (create_context drv app refusal)
     (\<lambda>r l. case r of Inl _ \<Rightarrow> mset l = B | Inr c \<Rightarrow> mset l = B + context_holds c \<and> apart c B)"
proof -
  have loader: "gpu_triple (holds B) (vk_call drv VkLoadLoader Unavailable what) (\<lambda>_. holds B)" for what
    by (rule stays_call) simp
  have inst: "gpu_triple (holds B) (vk_call drv (VkCreateInstance app) Probe what)
      (\<lambda>r l. case r of Inl _ \<Rightarrow> mset l = B
        | Inr a \<Rightarrow> mset l = add_mset (VkInstance (an_handle a)) B \<and> apart_instance (an_handle a) B)" for what
    using assms(2) by (intro obtains_call_fresh) (auto simp: fresh_handles_def)
  have destroy: "gpu_triple (holds (add_mset (VkInstance i) B)) (vk_do drv (VkDestroyInstance i)) (\<lambda>_. holds B)"
    if "apart_instance i B" for i
    using that by (intro releases_do) (auto simp: live_holds apart_instance_def)
  have device: "gpu_triple (holds (add_mset (VkInstance i) B)) (create_device drv refusal i)
      (\<lambda>r l. case r of Inl _ \<Rightarrow> mset l = add_mset (VkInstance i) B
        | Inr c \<Rightarrow> mset l = B + context_holds c \<and> apart c B)" if "apart_instance i B" for i
    by (rule triple_weaken [OF create_device_live [OF assms]]) (use that in \<open>auto simp: apart_def split: sum.splits\<close>)
  show ?thesis
    unfolding create_context_def
    by (rule triple_try_do [OF loader], rule triple_try_do [OF inst])
      (auto intro!: triple_fact triple_drop_on_error [OF device] intro: triple_weaken [OF destroy])
qed

lemma drop_context_live:
  assumes "settled B" "apart c B"
  shows "gpu_triple (holds (B + context_holds c)) (drop_context drv c) (\<lambda>_. holds B)"
proof -
  let ?i = "VkInstance (vc_instance c)" and ?d = "VkDevice (vc_device c) (vc_instance c)"
  let ?p = "VkPool (vc_command_pool c) (vc_device c)"
  have eq: "B + context_holds c = add_mset ?p (add_mset ?d (add_mset ?i B))"
    by (simp add: context_holds_def)
  have wait: "gpu_triple (holds (B + context_holds c)) (vk_do drv (VkDeviceWaitIdle (vc_device c)))
      (\<lambda>_. holds (add_mset ?p (add_mset ?d (add_mset ?i B))))"
    unfolding eq [symmetric] by (rule stays_do) (simp add: quiet_device [OF quiet_context [OF assms(1)]])
  have pool: "gpu_triple (holds (add_mset ?p (add_mset ?d (add_mset ?i B))))
      (vk_do drv (VkDestroyCommandPool (vc_device c) (vc_command_pool c))) (\<lambda>_. holds (add_mset ?d (add_mset ?i B)))"
    using assms(1) by (intro releases_do) (auto simp: live_holds settled_def dest: of_pool_transient)
  have device: "gpu_triple (holds (add_mset ?d (add_mset ?i B))) (vk_do drv (VkDestroyDevice (vc_device c)))
      (\<lambda>_. holds (add_mset ?i B))"
  proof (rule releases_do)
    fix l :: "resource list" and a :: answer assume l: "mset l = add_mset ?d (add_mset ?i B)"
    have "\<not> live (of_device (vc_device c)) l"
      using assms(2) by (auto simp: live_holds [OF l] apart_def apart_device_def)
    moreover have "release_first (is_device (vc_device c)) l = release ?d l"
      by (rule release_first_only [OF l]) (use assms(2) in \<open>auto simp: apart_def apart_device_def\<close>)
    ultimately show "gpu_step l (VkDestroyDevice (vc_device c), a) = release ?d l" by simp
  qed
  have inst: "gpu_triple (holds (add_mset ?i B)) (vk_do drv (VkDestroyInstance (vc_instance c))) (\<lambda>_. holds B)"
    using assms(2) by (intro releases_do) (auto simp: live_holds apart_def apart_instance_def)
  show ?thesis
    unfolding drop_context_def by (intro triple_then_do [OF wait] triple_then_do [OF pool] triple_then_do [OF device] inst)
qed

end
