(* ===== verification/Vulkan_Shared_Buffer.thy ===== *)
theory Vulkan_Shared_Buffer
  imports Vulkan_Context Hip_Shared_Gemm
begin

text \<open>
  The crate \<open>vrb-vulkan-shared-buffer\<close>: a session that creates Vulkan buffers, fills them,
  hands them to a callback as exported handles, reclaims them and reads them back. The
  callback is a parameter, an effect of its own. A callback that unwinds is not modelled.
\<close>

section \<open>Data\<close>

record shared_buffer_spec =
  bs_bytes :: u64
  bs_initial_data :: "bytes option"
  bs_readback :: bool

record exported_shared_buffer =
  eb_handle :: u64
  eb_allocation_size :: u64
  eb_logical_size :: u64

record 't session_output =
  so_value :: 't
  so_vulkan_device :: string
  so_readbacks :: "bytes option list"

definition default_max_session_bytes :: u64 where "default_max_session_bytes = 1024 * 1024 * 1024"
definition default_max_buffers :: nat where "default_max_buffers = 64"

section \<open>Validation\<close>

definition validate_initial :: "nat \<Rightarrow> shared_buffer_spec \<Rightarrow> backend_error + unit" where
  "validate_initial index spec =
     (case bs_initial_data spec of
        None \<Rightarrow> Inr ()
      | Some initial \<Rightarrow>
          and_then (ok_or (u64_try_from (length initial)) (Unsupported
            (''shared-buffer '' @ show_nat index @ '' initial data length does not fit u64''))) (\<lambda>actual.
          ensure (actual = bs_bytes spec) (Internal
            (''shared-buffer '' @ show_nat index @ '' initial data is '' @ show_nat (unat actual)
              @ '' bytes, expected '' @ show_nat (unat (bs_bytes spec))))))"

fun total_bytes :: "nat \<Rightarrow> u64 \<Rightarrow> shared_buffer_spec list \<Rightarrow> backend_error + u64" where
  "total_bytes index bytes_total [] = Inr bytes_total"
| "total_bytes index bytes_total (spec # specs) =
     and_then (ensure (bs_bytes spec \<noteq> 0) (Internal
       (''shared-buffer '' @ show_nat index @ '' size must be non-zero''))) (\<lambda>_.
     and_then (validate_initial index spec) (\<lambda>_.
     and_then (ok_or (checked_add bytes_total (bs_bytes spec))
       (Unsupported ''shared-buffer session byte count overflow'')) (\<lambda>bytes_total.
     total_bytes (Suc index) bytes_total specs)))"

definition session_maximum :: "environment \<Rightarrow> u64" where
  "session_maximum env = environment_limit env ''VRB_MAX_SHARED_SESSION_BYTES'' default_max_session_bytes"

definition validate_specs :: "environment \<Rightarrow> shared_buffer_spec list \<Rightarrow> backend_error + unit" where
  "validate_specs env specs =
     and_then (ensure (specs \<noteq> []) (Internal ''shared-buffer session requires at least one buffer'')) (\<lambda>_.
     and_then (ensure (length specs \<le> default_max_buffers) (Unsupported
       (''shared-buffer session requests '' @ show_nat (length specs) @ '' buffers, maximum is ''
         @ show_nat default_max_buffers))) (\<lambda>_.
     and_then (total_bytes 0 0 specs) (\<lambda>bytes_total.
     ensure (bytes_total \<le> session_maximum env) (Unsupported
       (''shared-buffer session requests '' @ show_nat (unat bytes_total)
         @ '' bytes, exceeding VRB_MAX_SHARED_SESSION_BYTES='' @ show_nat (unat (session_maximum env)))))))"

section \<open>The session\<close>

definition session_context :: "gpu_driver \<Rightarrow> vulkan_context vulkan_effect" where
  "session_context drv = create_context drv ''vrb-vulkan-shared-buffer''
     (\<lambda>name. ''Vulkan device '' @ quoted name @ '' cannot export OPAQUE_WIN32_KMT memory'')"

definition create_shared_buffer :: "gpu_driver \<Rightarrow> vulkan_context \<Rightarrow> u64 \<Rightarrow> vulkan_buffer vulkan_effect" where
  "create_shared_buffer drv c =
     create_buffer drv c (shared_variant ''no device-local memory type satisfies exportable buffer'')"

definition create_staging_buffer :: "gpu_driver \<Rightarrow> vulkan_context \<Rightarrow> u64 \<Rightarrow> vulkan_buffer vulkan_effect" where
  "create_staging_buffer drv c = create_buffer drv c staging_variant"

text \<open>One buffer with its initial data; the staging buffer lives for the upload only.\<close>

definition upload_initial :: "gpu_driver \<Rightarrow> vulkan_context \<Rightarrow> vulkan_buffer \<Rightarrow> u64 \<Rightarrow> bytes \<Rightarrow> unit vulkan_effect" where
  "upload_initial drv c shared n initial =
     try_do (create_staging_buffer drv c n) (\<lambda>staging. scoped
       (try_do (write_staging drv c ''vkMapMemory(upload)'' staging initial) (\<lambda>_.
        copy_staging_to_device drv c staging shared))
       (drop_buffer drv staging))"

definition prepare_buffer :: "gpu_driver \<Rightarrow> vulkan_context \<Rightarrow> shared_buffer_spec \<Rightarrow> vulkan_buffer vulkan_effect" where
  "prepare_buffer drv c spec =
     try_do (create_shared_buffer drv c (bs_bytes spec)) (\<lambda>shared. drop_on_error
       (case bs_initial_data spec of
          None \<Rightarrow> give (Inr shared)
        | Some initial \<Rightarrow> try_do (upload_initial drv c shared (bs_bytes spec) initial) (\<lambda>_. give (Inr shared)))
       (drop_buffer drv shared))"

text \<open>On an error the buffers prepared so far are dropped, the first one first.\<close>

fun prepare_buffers ::
  "gpu_driver \<Rightarrow> vulkan_context \<Rightarrow> shared_buffer_spec list \<Rightarrow> vulkan_buffer list \<Rightarrow> vulkan_buffer list vulkan_effect" where
  "prepare_buffers drv c [] buffers = give (Inr buffers)"
| "prepare_buffers drv c (spec # specs) buffers =
     try_do (drop_on_error (prepare_buffer drv c spec) (for_each (drop_buffer drv) buffers)) (\<lambda>shared.
     prepare_buffers drv c specs (buffers @ [shared]))"

definition export_buffer :: "gpu_driver \<Rightarrow> vulkan_context \<Rightarrow> vulkan_buffer \<Rightarrow> exported_shared_buffer vulkan_effect" where
  "export_buffer drv c b =
     try_do (release_to_external drv c b) (\<lambda>_.
     try_do (export_kmt_handle drv c b) (\<lambda>handle.
     give (Inr \<lparr>eb_handle = handle, eb_allocation_size = vb_allocation_size b, eb_logical_size = vb_logical_size b\<rparr>)))"

fun export_all ::
  "gpu_driver \<Rightarrow> vulkan_context \<Rightarrow> vulkan_buffer list \<Rightarrow> exported_shared_buffer list \<Rightarrow>
    exported_shared_buffer list vulkan_effect" where
  "export_all drv c [] exported = give (Inr exported)"
| "export_all drv c (b # bs) exported =
     try_do (export_buffer drv c b) (\<lambda>e. export_all drv c bs (exported @ [e]))"

text \<open>Every buffer is reclaimed; the first error is kept.\<close>

fun reclaim_all ::
  "gpu_driver \<Rightarrow> vulkan_context \<Rightarrow> vulkan_buffer list \<Rightarrow> backend_error option \<Rightarrow> backend_error option gpu_effect" where
  "reclaim_all drv c [] reclaim_error = give reclaim_error"
| "reclaim_all drv c (b # bs) reclaim_error =
     then_do (acquire_from_external drv c b) (\<lambda>r.
     reclaim_all drv c bs
       (case r of Inl e \<Rightarrow> if reclaim_error = None then Some e else reclaim_error | Inr _ \<Rightarrow> reclaim_error))"

text \<open>The error of the operation comes before an error of reclaiming.\<close>

definition operate ::
  "gpu_driver \<Rightarrow> vulkan_context \<Rightarrow> (exported_shared_buffer list \<Rightarrow> 't vulkan_effect) \<Rightarrow> vulkan_buffer list
    \<Rightarrow> exported_shared_buffer list \<Rightarrow> 't vulkan_effect" where
  "operate drv c operation buffers exported =
     then_do (operation exported) (\<lambda>operation_result.
     then_do (reclaim_all drv c buffers None) (\<lambda>reclaim_error.
     give (case operation_result of
         Inl e \<Rightarrow> Inl e
       | Inr x \<Rightarrow> (case reclaim_error of Some e \<Rightarrow> Inl e | None \<Rightarrow> Inr x))))"

definition read_back :: "gpu_driver \<Rightarrow> vulkan_context \<Rightarrow> vulkan_buffer \<Rightarrow> bytes vulkan_effect" where
  "read_back drv c b =
     try_do (create_staging_buffer drv c (vb_logical_size b)) (\<lambda>staging. scoped
       (try_do (copy_device_to_staging drv c b staging) (\<lambda>_. read_staging drv c staging))
       (drop_buffer drv staging))"

fun read_backs ::
  "gpu_driver \<Rightarrow> vulkan_context \<Rightarrow> (shared_buffer_spec \<times> vulkan_buffer) list \<Rightarrow> bytes option list
    \<Rightarrow> bytes option list vulkan_effect" where
  "read_backs drv c [] readbacks = give (Inr readbacks)"
| "read_backs drv c ((spec, b) # rest) readbacks =
     (if bs_readback spec
      then try_do (read_back drv c b) (\<lambda>bytes. read_backs drv c rest (readbacks @ [Some bytes]))
      else read_backs drv c rest (readbacks @ [None]))"

definition run_session ::
  "gpu_driver \<Rightarrow> vulkan_context \<Rightarrow> shared_buffer_spec list \<Rightarrow> (exported_shared_buffer list \<Rightarrow> 't vulkan_effect)
    \<Rightarrow> vulkan_buffer list \<Rightarrow> 't session_output vulkan_effect" where
  "run_session drv c specs operation buffers =
     try_do (export_all drv c buffers []) (\<lambda>exported.
     try_do (operate drv c operation buffers exported) (\<lambda>x.
     try_do (read_backs drv c (zip specs buffers) []) (\<lambda>readbacks.
     give (Inr \<lparr>so_value = x, so_vulkan_device = vc_device_name c, so_readbacks = readbacks\<rparr>))))"

definition with_buffers ::
  "gpu_driver \<Rightarrow> environment \<Rightarrow> shared_buffer_spec list \<Rightarrow> (exported_shared_buffer list \<Rightarrow> 't vulkan_effect)
    \<Rightarrow> 't session_output vulkan_effect" where
  "with_buffers drv env specs operation =
     try_do (give (validate_specs env specs)) (\<lambda>_.
     try_do (session_context drv) (\<lambda>c. scoped
       (try_do (prepare_buffers drv c specs []) (\<lambda>buffers. scoped
         (run_session drv c specs operation buffers)
         (for_each (drop_buffer drv) buffers)))
       (drop_context drv c)))"

definition with_exported_shared_buffers ::
  "bool \<Rightarrow> gpu_driver \<Rightarrow> environment \<Rightarrow> shared_buffer_spec list
    \<Rightarrow> (exported_shared_buffer list \<Rightarrow> 't vulkan_effect) \<Rightarrow> 't session_output vulkan_effect" where
  "with_exported_shared_buffers windows drv env specs operation =
     (if windows then with_buffers drv env specs operation
      else give (Inl (Unsupported
        ''Vulkan shared-buffer export currently implements the Win32 KMT path only'')))"


section \<open>What every part leaves live\<close>

lemma buffer_in_own: "vb_device b = vc_device c \<Longrightarrow> buffer_in c b (M + buffer_holds b)"
  by (simp add: buffer_in_def buffer_holds_def)

lemma buffer_in_mono: "buffer_in c b M \<Longrightarrow> buffer_in c b (M + N)"
  by (simp add: buffer_in_def)

lemma buffer_in_all:
  "b \<in> set bs \<Longrightarrow> \<forall>b \<in> set bs. vb_device b = vc_device c \<Longrightarrow> buffer_in c b (M + buffers_hold bs)"
  by (induction bs) (auto simp: buffer_in_def buffer_holds_def)

lemma quiet_buffer: "quiet c M \<Longrightarrow> quiet c (M + buffer_holds b)"
  using buffer_holds_persistent by (blast intro: quiet_union)

lemma quiet_buffers: "quiet c M \<Longrightarrow> quiet c (M + buffers_hold bs)"
  using buffers_hold_persistent by (blast intro: quiet_union)

text \<open>A staging buffer for a scope: the body runs with it, and nothing of it is left.\<close>

lemma with_staging_live:
  assumes "quiet c M"
    and "\<And>s. vb_device s = vc_device c \<Longrightarrow> gpu_triple (holds (M + buffer_holds s)) (body s) (\<lambda>_. holds (M + buffer_holds s))"
  shows "gpu_triple (holds M) (try_do (create_staging_buffer drv c n) (\<lambda>s. scoped (body s) (drop_buffer drv s)))
    (\<lambda>_. holds M)"
  unfolding create_staging_buffer_def by (rule with_buffer_live [OF assms])

lemma buffer_in_memory: "buffer_in c b M \<Longrightarrow> VkMemory (vb_memory b) (vc_device c) \<in># M"
  by (simp add: buffer_in_def)

lemma upload_initial_live:
  assumes "quiet c M" "buffer_in c shared M"
  shows "gpu_triple (holds M) (upload_initial drv c shared n initial) (\<lambda>_. holds M)"
  unfolding upload_initial_def
proof (rule with_staging_live [OF assms(1)])
  fix s :: vulkan_buffer assume s: "vb_device s = vc_device c"
  note own = buffer_in_own [OF s, of M]
  show "gpu_triple (holds (M + buffer_holds s))
    (try_do (write_staging drv c ''vkMapMemory(upload)'' s initial) (\<lambda>_. copy_staging_to_device drv c s shared))
    (\<lambda>_. holds (M + buffer_holds s))"
    using quiet_buffer [OF assms(1)] own buffer_in_mono [OF assms(2)] buffer_in_memory [OF own]
    by (intro triple_try_do [OF write_staging_live] copies_live(1)) auto
qed

lemma read_back_live:
  assumes "quiet c M" "buffer_in c shared M"
  shows "gpu_triple (holds M) (read_back drv c shared) (\<lambda>_. holds M)"
  unfolding read_back_def
proof (rule with_staging_live [OF assms(1)])
  fix s :: vulkan_buffer assume s: "vb_device s = vc_device c"
  note own = buffer_in_own [OF s, of M]
  show "gpu_triple (holds (M + buffer_holds s))
    (try_do (copy_device_to_staging drv c shared s) (\<lambda>_. read_staging drv c s))
    (\<lambda>_. holds (M + buffer_holds s))"
    using quiet_buffer [OF assms(1)] own buffer_in_mono [OF assms(2)] buffer_in_memory [OF own]
    by (intro triple_try_do [OF copies_live(2)] read_staging_live) auto
qed

definition prepared :: "vulkan_context \<Rightarrow> resource multiset \<Rightarrow> vulkan_buffer list \<Rightarrow> resource list \<Rightarrow> bool" where
  "prepared c M bs l \<longleftrightarrow> mset l = M + buffers_hold bs \<and> (\<forall>b \<in> set bs. vb_device b = vc_device c)"

lemma prepare_buffer_live:
  assumes "quiet c M"
  shows "gpu_triple (holds M) (prepare_buffer drv c spec)
    (\<lambda>r l. case r of Inl _ \<Rightarrow> mset l = M | Inr b \<Rightarrow> mset l = M + buffer_holds b \<and> vb_device b = vc_device c)"
  unfolding prepare_buffer_def create_shared_buffer_def
proof (rule triple_try_do [OF create_buffer_live [OF assms]])
  fix b :: vulkan_buffer
  let ?M = "M + buffer_holds b"
  let ?fill = "case bs_initial_data spec of
       None \<Rightarrow> give (Inr b)
     | Some initial \<Rightarrow> try_do (upload_initial drv c b (bs_bytes spec) initial) (\<lambda>_. give (Inr b))"
  have "gpu_triple (holds ?M) (drop_on_error ?fill (drop_buffer drv b))
     (\<lambda>r l. case r of Inl _ \<Rightarrow> mset l = M | Inr b \<Rightarrow> mset l = M + buffer_holds b \<and> vb_device b = vc_device c)"
    if "vb_device b = vc_device c"
  proof (rule triple_drop_on_error)
    show "gpu_triple (holds ?M) ?fill (\<lambda>r l. mset l = ?M \<and> (\<forall>b'. r = Inr b' \<longrightarrow> b' = b))"
      using upload_initial_live [OF quiet_buffer [OF assms] buffer_in_own [OF that]]
      by (auto split: option.split intro!: triple_giveI triple_try_do)
  qed (auto simp: that intro: triple_weaken [OF drop_buffer_live [OF assms that]])
  then show "gpu_triple (\<lambda>l. case Inr b of Inl _ \<Rightarrow> mset l = M
      | Inr b' \<Rightarrow> mset l = M + buffer_holds b' \<and> vb_device b' = vc_device c \<and> vb_logical_size b' = bs_bytes spec)
     (drop_on_error ?fill (drop_buffer drv b))
     (\<lambda>r l. case r of Inl _ \<Rightarrow> mset l = M | Inr b \<Rightarrow> mset l = M + buffer_holds b \<and> vb_device b = vc_device c)"
    by (auto simp: triple_def)
qed simp

lemma prepare_buffers_live:
  assumes "quiet c M"
  shows "gpu_triple (prepared c M bs) (prepare_buffers drv c specs bs)
    (\<lambda>r l. case r of Inl _ \<Rightarrow> mset l = M | Inr bs' \<Rightarrow> prepared c M bs' l)"
proof (induction specs arbitrary: bs)
  case (Cons spec specs)
  have one: "gpu_triple (prepared c M bs) (drop_on_error (prepare_buffer drv c spec) (for_each (drop_buffer drv) bs))
      (\<lambda>r l. case r of Inl _ \<Rightarrow> mset l = M | Inr b \<Rightarrow> prepared c M (bs @ [b]) l)"
  proof (cases "\<forall>b \<in> set bs. vb_device b = vc_device c")
    case True
    note step = prepare_buffer_live [OF quiet_buffers [OF assms], of bs drv spec]
    show ?thesis
      by (rule triple_weaken [OF triple_drop_on_error [OF step, where
            Q = "\<lambda>r l. case r of Inl _ \<Rightarrow> mset l = M | Inr b \<Rightarrow> prepared c M (bs @ [b]) l"]])
        (use True in \<open>auto simp: prepared_def ac_simps intro: triple_weaken [OF drop_buffers_live [OF assms True]]\<close>)
  qed (auto simp: prepared_def intro: triple_False)
  show ?case
    unfolding prepare_buffers.simps
    by (rule triple_try_do [OF one]) (use Cons.IH in auto)
qed (auto intro: triple_giveI)

lemma export_all_live:
  assumes "quiet c M" "\<forall>b \<in> set bs. buffer_in c b M"
  shows "gpu_triple (holds M) (export_all drv c bs exported) (\<lambda>_. holds M)"
  using assms(2)
proof (induction bs arbitrary: exported)
  case (Cons b bs)
  have "gpu_triple (holds M) (export_buffer drv c b) (\<lambda>_. holds M)"
    unfolding export_buffer_def
    using Cons.prems by (intro triple_try_do [OF ownership_live(1)] triple_try_do [OF export_kmt_handle_live] triple_giveI)
      (auto simp: assms(1))
  with Cons show ?case by (auto intro: triple_try_do)
qed (auto intro: triple_giveI)

lemma reclaim_all_live:
  assumes "quiet c M" "\<forall>b \<in> set bs. buffer_in c b M"
  shows "gpu_triple (holds M) (reclaim_all drv c bs first) (\<lambda>_. holds M)"
  using assms(2)
proof (induction bs arbitrary: first)
  case (Cons b bs)
  then show ?case by (auto intro!: triple_then_do [OF ownership_live(2) [OF assms(1)]])
qed (auto intro: triple_giveI)

lemma read_backs_live:
  assumes "quiet c M" "\<forall>(spec, b) \<in> set ps. buffer_in c b M"
  shows "gpu_triple (holds M) (read_backs drv c ps acc) (\<lambda>_. holds M)"
  using assms(2)
proof (induction ps arbitrary: acc)
  case (Cons p ps)
  then show ?case
    by (cases p) (auto intro!: triple_try_do [OF read_back_live [OF assms(1)]])
qed (auto intro: triple_giveI)


text \<open>A callback that leaves what it found live, on top of the resources of its caller.\<close>

definition balanced :: "resource multiset \<Rightarrow> ('e \<Rightarrow> 't vulkan_effect) \<Rightarrow> bool" where
  "balanced B operation \<longleftrightarrow> (\<forall>exported M. B \<subseteq># M \<longrightarrow> gpu_triple (holds M) (operation exported) (\<lambda>_. holds M))"

lemma operate_live:
  assumes "quiet c M" "\<forall>b \<in> set bs. buffer_in c b M" "balanced B operation" "B \<subseteq># M"
  shows "gpu_triple (holds M) (operate drv c operation bs exported) (\<lambda>_. holds M)"
  unfolding operate_def
  using assms(3,4) unfolding balanced_def
  by (intro triple_then_do [where R = "\<lambda>_. holds M"] reclaim_all_live [OF assms(1,2)] triple_giveI) auto

lemma run_session_live:
  assumes "quiet c M" "\<forall>b \<in> set bs. buffer_in c b M" "balanced B operation" "B \<subseteq># M"
  shows "gpu_triple (holds M) (run_session drv c specs operation bs) (\<lambda>_. holds M)"
proof -
  have "\<forall>(spec, b) \<in> set (zip specs bs). buffer_in c b M" using assms(2) by (auto dest: set_zip_rightD)
  with assms show ?thesis
    unfolding run_session_def
    by (intro triple_try_do [where R = "\<lambda>_. holds M"] export_all_live operate_live [where B = B] read_backs_live triple_giveI)
qed

lemma with_buffers_live:
  assumes "settled B" "fresh_handles drv B" "balanced B operation"
  shows "gpu_triple (holds B) (with_buffers drv env specs operation) (\<lambda>_. holds B)"
  unfolding with_buffers_def session_context_def
proof (rule triple_try_do [where R = "\<lambda>_. holds B"])
  show "gpu_triple (holds B) (give (validate_specs env specs)) (\<lambda>_. holds B)" by (rule triple_giveI)
  show "gpu_triple (holds B) (try_do (create_context drv ''vrb-vulkan-shared-buffer''
       (\<lambda>name. ''Vulkan device '' @ quoted name @ '' cannot export OPAQUE_WIN32_KMT memory'')) (\<lambda>c. scoped
       (try_do (prepare_buffers drv c specs []) (\<lambda>buffers. scoped
         (run_session drv c specs operation buffers)
         (for_each (drop_buffer drv) buffers)))
       (drop_context drv c))) (\<lambda>_. holds B)"
  proof (rule triple_try_do [OF create_context_live [OF assms(1,2)]])
    fix c :: vulkan_context
    let ?M = "B + context_holds c"
    note quiet = quiet_context [OF assms(1), of c]
    have session: "gpu_triple (prepared c ?M bs)
        (scoped (run_session drv c specs operation bs) (for_each (drop_buffer drv) bs)) (\<lambda>_. holds ?M)" for bs
    proof (cases "\<forall>b \<in> set bs. vb_device b = vc_device c")
      case True
      have "gpu_triple (holds (?M + buffers_hold bs)) (run_session drv c specs operation bs)
          (\<lambda>_. holds (?M + buffers_hold bs))"
        using True by (intro run_session_live [OF quiet_buffers [OF quiet] _ assms(3)]) (auto intro: buffer_in_all)
      from triple_scoped [OF this drop_buffers_live [OF quiet True]] show ?thesis
        by (rule triple_weaken) (simp_all add: prepared_def)
    qed (auto simp: prepared_def intro: triple_False)
    have "gpu_triple (holds ?M) (prepare_buffers drv c specs [])
        (\<lambda>r l. case r of Inl _ \<Rightarrow> mset l = ?M | Inr bs \<Rightarrow> prepared c ?M bs l)"
      by (rule triple_weaken [OF prepare_buffers_live [OF quiet, of "[]"]]) (simp_all add: prepared_def)
    then have "gpu_triple (holds ?M) (try_do (prepare_buffers drv c specs []) (\<lambda>buffers. scoped
         (run_session drv c specs operation buffers) (for_each (drop_buffer drv) buffers))) (\<lambda>_. holds ?M)"
      by (rule triple_try_do) (use session in auto)
    from triple_fact [OF triple_scoped [OF this drop_context_live [OF assms(1)]]]
    show "gpu_triple (\<lambda>l. case Inr c of Inl _ \<Rightarrow> mset l = B | Inr c \<Rightarrow> mset l = B + context_holds c \<and> apart c B)
      (scoped (try_do (prepare_buffers drv c specs []) (\<lambda>buffers. scoped
         (run_session drv c specs operation buffers) (for_each (drop_buffer drv) buffers))) (drop_context drv c))
      (\<lambda>_. holds B)"
      by simp
  qed simp
qed simp


section \<open>What validation accepts\<close>

lemma total_bytes_ok:
  "total_bytes index acc specs = Inr t \<Longrightarrow>
     unat t = unat acc + (\<Sum>spec \<leftarrow> specs. unat (bs_bytes spec))
     \<and> (\<forall>spec \<in> set specs. bs_bytes spec \<noteq> 0
          \<and> (\<forall>initial. bs_initial_data spec = Some initial \<longrightarrow> length initial = unat (bs_bytes spec)))"
proof (induction specs arbitrary: index acc)
  case (Cons spec specs)
  then obtain acc' where "checked_add acc (bs_bytes spec) = Some acc'" "bs_bytes spec \<noteq> 0"
    "validate_initial index spec = Inr ()" "total_bytes (Suc index) acc' specs = Inr t"
    by (auto simp: result_iffs)
  moreover from this(3) have "\<forall>initial. bs_initial_data spec = Some initial \<longrightarrow> length initial = unat (bs_bytes spec)"
    by (auto simp: validate_initial_def result_iffs u64_try_from_iff)
  ultimately show ?case using Cons.IH [of "Suc index" acc'] by (auto simp: checked_add_iff)
qed simp

section \<open>Reclaiming\<close>

lemma extends_vk_call [extending]: "extends (vk_call drv c wrap what)"
  unfolding vk_call_def by (intro extending)

lemma extends_vk_do [extending]: "extends (vk_do drv c)"
  unfolding vk_do_def by (intro extending)

lemma extends_submit [extending]: "(\<And>x. extends (record_commands x)) \<Longrightarrow> extends (submit_one_time drv c record_commands)"
  unfolding submit_one_time_def submit_commands_def by (intro extending)

lemma extends_acquire [extending]: "extends (acquire_from_external drv c b)"
  unfolding acquire_from_external_def by (intro extending)

text \<open>The calls that give a buffer back to Vulkan.\<close>

definition acquire_calls :: "vulkan_context \<Rightarrow> vulkan_buffer \<Rightarrow> ptr \<Rightarrow> gpu_call list" where
  "acquire_calls c b cmd =
     [VkAllocateCommandBuffer (vc_device c) (vc_command_pool c), VkBeginCommandBuffer cmd,
      VkBarrier cmd (acquire_barrier c b), VkEndCommandBuffer cmd, VkQueueSubmit (vc_queue c) cmd,
      VkQueueWaitIdle (vc_queue c), VkFreeCommandBuffer (vc_device c) (vc_command_pool c) cmd]"

lemma vk_call_Inr: "vk_call drv c wrap what h = (Inr a, h') \<longleftrightarrow> a = drv h c \<and> an_code a = 0 \<and> h' = h @ [(c, a)]"
  by (auto simp: vk_call_def effect_eqs split: if_splits)

lemma vk_do_eq: "vk_do drv c h = (u, h') \<longleftrightarrow> h' = h @ [(c, drv h c)]"
  by (auto simp: vk_do_def effect_eqs)

lemma acquire_ok_calls:
  assumes "acquire_from_external drv c b h = (Inr u, h @ new)"
  shows "\<exists>cmd. map fst new = acquire_calls c b cmd"
  using assms
  by (auto simp: acquire_from_external_def submit_one_time_def submit_commands_def effect_eqs vk_call_Inr vk_do_eq
      acquire_calls_def)

definition reclaim_error :: "backend_error option \<Rightarrow> (backend_error + unit) list \<Rightarrow> backend_error option" where
  "reclaim_error first rs = (case first of Some e \<Rightarrow> Some e
     | None \<Rightarrow> Option.bind (List.find (\<lambda>r. \<not> is_ok r) rs) (case_sum Some (\<lambda>_. None)))"

definition reclaims ::
  "gpu_driver \<Rightarrow> vulkan_context \<Rightarrow> vulkan_buffer list \<Rightarrow> gpu_history \<Rightarrow> (backend_error + unit) list \<Rightarrow> gpu_history list \<Rightarrow> bool" where
  "reclaims drv c bs h rs news \<longleftrightarrow> length rs = length bs \<and> length news = length bs \<and>
     (\<forall>i < length bs. acquire_from_external drv c (bs ! i) (h @ concat (take i news))
        = (rs ! i, h @ concat (take (Suc i) news)))"

lemma reclaim_all_segments:
  "\<exists>rs news. reclaim_all drv c bs first h = (reclaim_error first rs, h @ concat news) \<and> reclaims drv c bs h rs news"
proof (induction bs arbitrary: first h)
  case (Cons b bs)
  obtain r h1 where r: "acquire_from_external drv c b h = (r, h1)" by fastforce
  with extends_acquire [of drv c b] obtain new where h1: "h1 = h @ new" unfolding extends_def by (metis snd_conv)
  let ?first = "case r of Inl e \<Rightarrow> if first = None then Some e else first | Inr _ \<Rightarrow> first"
  from Cons.IH [of ?first h1] obtain rs news where
    rest: "reclaim_all drv c bs ?first h1 = (reclaim_error ?first rs, h1 @ concat news)" "reclaims drv c bs h1 rs news"
    by blast
  have "reclaim_error ?first rs = reclaim_error first (r # rs)"
    by (cases r; cases first) (simp_all add: reclaim_error_def)
  moreover have "reclaims drv c (b # bs) h (r # rs) (new # news)"
    using rest(2) r h1 by (auto simp: reclaims_def nth_Cons split: nat.split)
  ultimately show ?case
    using rest(1) r h1 by (intro exI [of _ "r # rs"] exI [of _ "new # news"]) (simp add: then_do_def)
qed (simp add: give_def reclaims_def reclaim_error_def split: option.split)

section \<open>A session that succeeds\<close>

text \<open>
  The calls of every part, with the answers that matter, spelled out. A new buffer is made of the
  handles the driver answered with, and of the memory it asked for.
\<close>

definition create_trace ::
  "vulkan_context \<Rightarrow> buffer_usage list \<Rightarrow> bool \<Rightarrow> memory_property list \<Rightarrow> u64 \<Rightarrow> vulkan_buffer \<Rightarrow> gpu_history \<Rightarrow> bool" where
  "create_trace c usage exportable properties n b log \<longleftrightarrow> (\<exists>buffer requirements memory_types memory bound index.
     log = [(VkCreateBuffer (vc_device c) \<lparr>bi_size = n, bi_usage = usage, bi_exportable = exportable\<rparr>, buffer),
       (VkBufferRequirements (vc_device c) (an_handle buffer), requirements),
       (VkMemoryProperties (vc_instance c) (vc_physical_device c), memory_types),
       (VkAllocateMemory (vc_device c) \<lparr>ai_size = an_size requirements, ai_type_index = index,
          ai_dedicated = (if exportable then Some (an_handle buffer) else None), ai_exportable = exportable\<rparr>, memory),
       (VkBindBuffer (vc_device c) (an_handle buffer) (an_handle memory), bound)]
     \<and> an_code buffer = 0 \<and> an_code memory = 0 \<and> an_code bound = 0
     \<and> index < length (an_memory_types memory_types) \<and> an_type_bits requirements AND push_bit index 1 \<noteq> 0
     \<and> set properties \<subseteq> set (an_memory_types memory_types ! index)
     \<and> b = \<lparr>vb_device = vc_device c, vb_buffer = an_handle buffer, vb_memory = an_handle memory,
         vb_logical_size = n, vb_allocation_size = an_size requirements\<rparr>)"

definition submit_trace :: "vulkan_context \<Rightarrow> (ptr \<Rightarrow> gpu_call list) \<Rightarrow> gpu_history \<Rightarrow> bool" where
  "submit_trace c commands log \<longleftrightarrow> (\<exists>allocated begun recorded ended submitted waited freed.
     log = [(VkAllocateCommandBuffer (vc_device c) (vc_command_pool c), allocated),
       (VkBeginCommandBuffer (an_handle allocated), begun)] @ recorded @
       [(VkEndCommandBuffer (an_handle allocated), ended), (VkQueueSubmit (vc_queue c) (an_handle allocated), submitted),
        (VkQueueWaitIdle (vc_queue c), waited),
        (VkFreeCommandBuffer (vc_device c) (vc_command_pool c) (an_handle allocated), freed)]
     \<and> map fst recorded = commands (an_handle allocated)
     \<and> (\<forall>a \<in> {allocated, begun, ended, submitted, waited}. an_code a = 0))"

definition release_calls :: "vulkan_buffer \<Rightarrow> gpu_call list" where
  "release_calls b = [VkDestroyBuffer (vb_device b) (vb_buffer b), VkFreeMemory (vb_device b) (vb_memory b)]"

definition queue_barrier ::
  "pipeline_stage \<times> access_flag list \<times> queue_family \<Rightarrow> pipeline_stage \<times> access_flag list \<times> queue_family
    \<Rightarrow> vulkan_buffer \<Rightarrow> buffer_barrier" where
  "queue_barrier = (\<lambda>(src_stage, src_access, src_family) (dst_stage, dst_access, dst_family) b.
     \<lparr>br_src_stage = src_stage, br_dst_stage = dst_stage, br_src_access = src_access, br_dst_access = dst_access,
      br_src_family = src_family, br_dst_family = dst_family, br_buffer = vb_buffer b, br_size = vb_logical_size b\<rparr>)"

text \<open>The initial data goes through a staging buffer the host wrote it to.\<close>

definition upload_trace :: "vulkan_context \<Rightarrow> vulkan_buffer \<Rightarrow> u64 \<Rightarrow> bytes \<Rightarrow> gpu_history \<Rightarrow> bool" where
  "upload_trace c b n initial log \<longleftrightarrow> (\<exists>staging made mapped written unmapped copied dropped.
     log = made @ [(VkMapMemory (vc_device c) (vb_memory staging) n, mapped), (HostWrite (an_handle mapped) initial, written),
       (VkUnmapMemory (vc_device c) (vb_memory staging), unmapped)] @ copied @ dropped
     \<and> an_code mapped = 0 \<and> map fst dropped = release_calls staging
     \<and> create_trace c [TransferSrc, TransferDst] False [HostVisible, HostCoherent] n staging made
     \<and> submit_trace c (\<lambda>cmd.
         [VkBarrier cmd (queue_barrier (HostStage, [HostWriteAccess], Family (vc_queue_family c))
            (TransferStage, [TransferRead], Family (vc_queue_family c)) staging),
          VkCopyBuffer cmd (vb_buffer staging) (vb_buffer b) n]) copied)"

definition prepare_trace :: "vulkan_context \<Rightarrow> shared_buffer_spec \<Rightarrow> vulkan_buffer \<Rightarrow> gpu_history \<Rightarrow> bool" where
  "prepare_trace c spec b log \<longleftrightarrow> (\<exists>made filled. log = made @ filled
     \<and> create_trace c [StorageBuffer, TransferSrc, TransferDst] True [DeviceLocal] (bs_bytes spec) b made
     \<and> (case bs_initial_data spec of
           None \<Rightarrow> filled = []
         | Some initial \<Rightarrow> upload_trace c b (bs_bytes spec) initial filled))"

text \<open>Ownership is released to the external queue family, then the handle of the memory exported.\<close>

definition export_trace :: "vulkan_context \<Rightarrow> vulkan_buffer \<Rightarrow> exported_shared_buffer \<Rightarrow> gpu_history \<Rightarrow> bool" where
  "export_trace c b e log \<longleftrightarrow> (\<exists>released exported.
     log = released @ [(VkGetWin32Handle (vc_device c) (vb_memory b), exported)] \<and> an_code exported = 0
     \<and> submit_trace c (\<lambda>cmd. [VkBarrier cmd (queue_barrier
         (AllCommands, [MemoryRead, MemoryWrite], Family (vc_queue_family c)) (BottomOfPipe, [], ExternalFamily) b)]) released
     \<and> e = \<lparr>eb_handle = an_handle exported, eb_allocation_size = vb_allocation_size b, eb_logical_size = vb_logical_size b\<rparr>)"

definition reclaim_trace :: "vulkan_context \<Rightarrow> vulkan_buffer \<Rightarrow> gpu_history \<Rightarrow> bool" where
  "reclaim_trace c b = submit_trace c (\<lambda>cmd. [VkBarrier cmd (queue_barrier
     (TopOfPipe, [], ExternalFamily) (AllCommands, [MemoryRead, MemoryWrite], Family (vc_queue_family c)) b)])"

text \<open>The device's bytes are copied to a staging buffer and made visible before the host reads them.\<close>

definition read_trace ::
  "vulkan_context \<Rightarrow> shared_buffer_spec \<Rightarrow> vulkan_buffer \<Rightarrow> bytes option \<Rightarrow> gpu_history \<Rightarrow> bool" where
  "read_trace c spec b result log \<longleftrightarrow>
     (if \<not> bs_readback spec then log = [] \<and> result = None
      else \<exists>staging made copied mapped read unmapped dropped.
        log = made @ copied @ [(VkMapMemory (vc_device c) (vb_memory staging) (bs_bytes spec), mapped),
          (HostRead (an_handle mapped) (unat (bs_bytes spec)), read), (VkUnmapMemory (vc_device c) (vb_memory staging), unmapped)]
          @ dropped
        \<and> an_code mapped = 0 \<and> map fst dropped = release_calls staging
        \<and> create_trace c [TransferSrc, TransferDst] False [HostVisible, HostCoherent] (bs_bytes spec) staging made
        \<and> submit_trace c (\<lambda>cmd.
            [VkCopyBuffer cmd (vb_buffer b) (vb_buffer staging) (bs_bytes spec),
             VkBarrier cmd (queue_barrier (TransferStage, [TransferWrite], Family (vc_queue_family c))
               (HostStage, [HostReadAccess], Family (vc_queue_family c)) staging)]) copied
        \<and> result = Some (exactly (unat (bs_bytes spec)) (an_bytes read)))"

text \<open>
  The device is one the instance enumerated; it answered that it can share memory, and the queue
  family, the rank and the name are from its own answers.
\<close>

definition candidate_in :: "ptr \<Rightarrow> gpu_history \<Rightarrow> device_candidate \<Rightarrow> bool" where
  "candidate_in inst log = (\<lambda>(rank, device, family, name). \<exists>properties families extensions index.
     {(VkDeviceProperties inst device, properties), (VkQueueFamilies inst device, families),
       (VkDeviceExtensions inst device, extensions)} \<subseteq> set log
     \<and> rank = device_rank_of (an_properties properties) \<and> name = an_text properties
     \<and> compute_family (an_families families) = Some index \<and> family = of_nat index
     \<and> an_code extensions = 0 \<and> external_memory_win32_name \<in> set (an_names extensions))"

definition open_trace :: "vulkan_context \<Rightarrow> gpu_history \<Rightarrow> bool" where
  "open_trace c log \<longleftrightarrow> (\<exists>app loaded inst enumerated queries rank exportable device queue pool.
     log = [(VkLoadLoader, loaded), (VkCreateInstance app, inst), (VkEnumerateDevices (vc_instance c), enumerated)]
       @ queries @
       [(VkExternalBufferFeatures (vc_instance c) (vc_physical_device c), exportable),
        (VkCreateDevice (vc_instance c) (vc_physical_device c) (vc_queue_family c), device),
        (VkGetQueue (vc_device c) (vc_queue_family c), queue),
        (VkCreateCommandPool (vc_device c) (vc_queue_family c), pool)]
     \<and> vc_physical_device c \<in> set (an_handles enumerated)
     \<and> candidate_in (vc_instance c) queries (rank, vc_physical_device c, vc_queue_family c, vc_device_name c)
     \<and> an_exportable exportable \<and> (\<forall>a \<in> {loaded, inst, enumerated, device, pool}. an_code a = 0)
     \<and> vc_instance c = an_handle inst \<and> vc_device c = an_handle device \<and> vc_queue c = an_handle queue
     \<and> vc_command_pool c = an_handle pool)"

definition close_calls :: "vulkan_context \<Rightarrow> gpu_call list" where
  "close_calls c = [VkDeviceWaitIdle (vc_device c), VkDestroyCommandPool (vc_device c) (vc_command_pool c),
     VkDestroyDevice (vc_device c), VkDestroyInstance (vc_instance c)]"

subsection \<open>The parts leave those traces\<close>

lemma drop_buffer_trace:
  assumes "drop_buffer drv b h = (u, h')"
  shows "\<exists>log. h' = h @ log \<and> map fst log = release_calls b"
  using assms by (auto simp: drop_buffer_def effect_eqs vk_do_eq release_calls_def)

lemma find_memory_type_Some:
  "find_memory_type types bits required = Some i \<Longrightarrow>
    i < length types \<and> bits AND push_bit i 1 \<noteq> 0 \<and> set required \<subseteq> set (types ! i)"
  by (auto simp: find_memory_type_def dest!: find_SomeD)

lemma Inr_ok_or: "Inr x = ok_or m e \<longleftrightarrow> m = Some x"
  by (cases m) auto

lemma vk_call_step: "vk_call drv c wrap what h = (Inr a, h') \<Longrightarrow> an_code a = 0 \<and> h' = h @ [(c, a)]"
  by (blast dest: vk_call_Inr [THEN iffD1])

lemma invoke_step: "invoke drv c h = (a, h') \<Longrightarrow> h' = h @ [(c, a)]"
  by (simp add: invoke_eq)

lemma create_buffer_trace:
  assumes "create_buffer drv c v n h = (Inr b, h')"
  shows "\<exists>log. h' = h @ log \<and> create_trace c (bv_usage v) (bv_exportable v) (bv_required v) n b log"
proof -
  let ?create = "VkCreateBuffer (vc_device c) \<lparr>bi_size = n, bi_usage = bv_usage v, bi_exportable = bv_exportable v\<rparr>"
  from assms obtain a h1 q h2 p h3 i m h4 where
    "vk_call drv ?create Internal (bv_create v) h = (Inr a, h1)"
    "invoke drv (VkBufferRequirements (vc_device c) (an_handle a)) h1 = (q, h2)"
    "invoke drv (VkMemoryProperties (vc_instance c) (vc_physical_device c)) h2 = (p, h3)"
    and i: "find_memory_type (an_memory_types p) (an_type_bits q) (bv_required v) = Some i"
    and m: "bind_new_memory drv c v (an_handle a) (an_size q) i h3 = (Inr m, h4)"
    and b: "b = \<lparr>vb_device = vc_device c, vb_buffer = an_handle a, vb_memory = m, vb_logical_size = n,
      vb_allocation_size = an_size q\<rparr>" "h' = h4"
    by (auto simp: create_buffer_def Let_def then_do_eq give_eq try_do_Inr drop_on_error_Inr Inr_ok_or)
  note steps = vk_call_step [OF this(1)] invoke_step [OF this(2)] invoke_step [OF this(3)]
  from m obtain x y h5 where
    "vk_call drv (VkAllocateMemory (vc_device c) \<lparr>ai_size = an_size q, ai_type_index = i,
        ai_dedicated = (if bv_exportable v then Some (an_handle a) else None), ai_exportable = bv_exportable v\<rparr>)
      Internal (bv_allocate v) h3 = (Inr x, h5)"
    "vk_call drv (VkBindBuffer (vc_device c) (an_handle a) (an_handle x)) Internal (bv_bind v) h5 = (Inr y, h4)"
    "m = an_handle x"
    by (auto simp: bind_new_memory_def Let_def give_eq try_do_Inr drop_on_error_Inr)
  with steps vk_call_step [OF this(1)] vk_call_step [OF this(2)] find_memory_type_Some [OF i] b show ?thesis
    unfolding create_trace_def by auto
qed

lemma submit_one_time_trace:
  assumes "submit_one_time drv c record_commands h = (Inr u, h')"
    and "\<And>cmd h0 u' h1. record_commands cmd h0 = (u', h1) \<Longrightarrow> \<exists>new. h1 = h0 @ new \<and> map fst new = commands cmd"
  shows "\<exists>log. h' = h @ log \<and> submit_trace c commands log"
proof -
  let ?allocate = "VkAllocateCommandBuffer (vc_device c) (vc_command_pool c)"
  let ?a = "drv h ?allocate" and ?h = "h @ [(?allocate, drv h ?allocate)]"
  from assms(1) obtain h1 where ok: "an_code ?a = 0"
    and run: "submit_commands drv c (an_handle ?a) record_commands ?h = (Inr u, h1)"
    and h': "h' = h1 @ [(VkFreeCommandBuffer (vc_device c) (vc_command_pool c) (an_handle ?a),
      drv h1 (VkFreeCommandBuffer (vc_device c) (vc_command_pool c) (an_handle ?a)))]"
    by (auto simp: submit_one_time_def effect_eqs vk_call_Inr vk_do_eq)
  from run obtain begun ended submitted waited h2 h3 where
    "record_commands (an_handle ?a) h2 = ((), h3)" "h2 = ?h @ [(VkBeginCommandBuffer (an_handle ?a), begun)]"
    "h1 = h3 @ [(VkEndCommandBuffer (an_handle ?a), ended), (VkQueueSubmit (vc_queue c) (an_handle ?a), submitted),
      (VkQueueWaitIdle (vc_queue c), waited)]"
    "an_code begun = 0" "an_code ended = 0" "an_code submitted = 0" "an_code waited = 0"
    by (auto simp: submit_commands_def effect_eqs vk_call_Inr)
  note run = this
  from assms(2) [OF run(1)] obtain new where new: "h3 = h2 @ new" "map fst new = commands (an_handle ?a)" by blast
  let ?log = "[(?allocate, ?a), (VkBeginCommandBuffer (an_handle ?a), begun)] @ new @
    [(VkEndCommandBuffer (an_handle ?a), ended), (VkQueueSubmit (vc_queue c) (an_handle ?a), submitted),
     (VkQueueWaitIdle (vc_queue c), waited), (VkFreeCommandBuffer (vc_device c) (vc_command_pool c) (an_handle ?a),
      drv h1 (VkFreeCommandBuffer (vc_device c) (vc_command_pool c) (an_handle ?a)))]"
  have "h' = h @ ?log" using h' run(2,3) new(1) by simp
  moreover have "submit_trace c commands ?log"
    using ok run(4-) new(2) unfolding submit_trace_def by blast
  ultimately show ?thesis by blast
qed

lemma submit_one_traces:
  "copy_staging_to_device drv c s b h = (Inr u, h') \<Longrightarrow> \<exists>log. h' = h @ log \<and> submit_trace c (\<lambda>cmd.
     [VkBarrier cmd (queue_barrier (HostStage, [HostWriteAccess], Family (vc_queue_family c))
        (TransferStage, [TransferRead], Family (vc_queue_family c)) s),
      VkCopyBuffer cmd (vb_buffer s) (vb_buffer b) (vb_logical_size s)]) log"
  "copy_device_to_staging drv c b s h = (Inr u, h') \<Longrightarrow> \<exists>log. h' = h @ log \<and> submit_trace c (\<lambda>cmd.
     [VkCopyBuffer cmd (vb_buffer b) (vb_buffer s) (vb_logical_size b),
      VkBarrier cmd (queue_barrier (TransferStage, [TransferWrite], Family (vc_queue_family c))
        (HostStage, [HostReadAccess], Family (vc_queue_family c)) s)]) log"
  "release_to_external drv c b h = (Inr u, h') \<Longrightarrow> \<exists>log. h' = h @ log \<and> submit_trace c (\<lambda>cmd.
     [VkBarrier cmd (queue_barrier (AllCommands, [MemoryRead, MemoryWrite], Family (vc_queue_family c))
        (BottomOfPipe, [], ExternalFamily) b)]) log"
  "acquire_from_external drv c b h = (Inr u, h') \<Longrightarrow> \<exists>log. h' = h @ log \<and> reclaim_trace c b log"
  unfolding copy_staging_to_device_def copy_device_to_staging_def release_to_external_def acquire_from_external_def
    reclaim_trace_def
  by (rule submit_one_time_trace, assumption, auto simp: effect_eqs vk_do_eq queue_barrier_def host_write_barrier_def
      host_read_barrier_def release_barrier_def acquire_barrier_def barrier_def own_family_def)+

lemma create_variant_traces:
  "create_staging_buffer drv c n h = (Inr b, h') \<Longrightarrow> \<exists>log. h' = h @ log \<and>
     create_trace c [TransferSrc, TransferDst] False [HostVisible, HostCoherent] n b log"
  "create_shared_buffer drv c n h = (Inr b, h') \<Longrightarrow> \<exists>log. h' = h @ log \<and>
     create_trace c [StorageBuffer, TransferSrc, TransferDst] True [DeviceLocal] n b log"
  unfolding create_staging_buffer_def create_shared_buffer_def
  by (drule create_buffer_trace, simp add: staging_variant_def shared_variant_def shared_buffer_usage_def)+

lemma create_trace_size: "create_trace c usage e required n b log \<Longrightarrow> vb_logical_size b = n"
  by (auto simp: create_trace_def)

lemma write_staging_trace:
  assumes "write_staging drv c what s data h = (Inr u, h')"
  shows "\<exists>m w x. an_code m = 0 \<and> h' = h @ [(VkMapMemory (vc_device c) (vb_memory s) (vb_logical_size s), m),
    (HostWrite (an_handle m) data, w), (VkUnmapMemory (vc_device c) (vb_memory s), x)]"
  using assms by (auto simp: write_staging_def effect_eqs vk_call_Inr vk_do_eq split: if_splits)

lemma read_staging_trace:
  assumes "read_staging drv c s h = (Inr bytes, h')"
  shows "\<exists>m r x. an_code m = 0 \<and> h' = h @ [(VkMapMemory (vc_device c) (vb_memory s) (vb_logical_size s), m),
    (HostRead (an_handle m) (unat (vb_logical_size s)), r), (VkUnmapMemory (vc_device c) (vb_memory s), x)]
    \<and> bytes = exactly (unat (vb_logical_size s)) (an_bytes r)"
  using assms by (auto simp: read_staging_def map_and_read_def effect_eqs vk_call_Inr vk_do_eq ok_or_Inr_iff
      usize_try_from_def split: if_splits)

lemma upload_initial_trace:
  assumes "upload_initial drv c b n initial h = (Inr u, h')"
  shows "\<exists>log. h' = h @ log \<and> upload_trace c b n initial log"
proof -
  from assms obtain s h1 h2 h3 where "create_staging_buffer drv c n h = (Inr s, h1)"
    "write_staging drv c ''vkMapMemory(upload)'' s initial h1 = (Inr (), h2)"
    "copy_staging_to_device drv c s b h2 = (Inr (), h3)" "drop_buffer drv s h3 = ((), h')"
    by (auto simp: upload_initial_def effect_eqs)
  with create_variant_traces(1) [OF this(1)] write_staging_trace [OF this(2)] submit_one_traces(1) [OF this(3)]
    drop_buffer_trace [OF this(4)] create_trace_size
  show ?thesis unfolding upload_trace_def by fastforce
qed

lemma prepare_buffer_trace:
  assumes "prepare_buffer drv c spec h = (Inr b, h')"
  shows "\<exists>log. h' = h @ log \<and> prepare_trace c spec b log"
proof -
  from assms obtain h1 where made: "create_shared_buffer drv c (bs_bytes spec) h = (Inr b, h1)"
    and fill: "case bs_initial_data spec of None \<Rightarrow> h' = h1
      | Some initial \<Rightarrow> \<exists>u. upload_initial drv c b (bs_bytes spec) initial h1 = (Inr u, h')"
    by (auto simp: prepare_buffer_def effect_eqs split: option.splits)
  from create_variant_traces(2) [OF made] fill show ?thesis
    by (fastforce simp: prepare_trace_def dest: upload_initial_trace split: option.splits)
qed

lemma export_buffer_trace:
  assumes "export_buffer drv c b h = (Inr e, h')"
  shows "\<exists>log. h' = h @ log \<and> export_trace c b e log"
  using assms
  by (auto simp: export_buffer_def export_kmt_handle_def effect_eqs vk_call_Inr export_trace_def
      dest!: submit_one_traces(3))

lemma read_back_trace:
  assumes "read_back drv c b h = (Inr bytes, h')" "vb_logical_size b = bs_bytes spec" "bs_readback spec"
  shows "\<exists>log. h' = h @ log \<and> read_trace c spec b (Some bytes) log"
proof -
  from assms(1) obtain s h1 h2 h3 where "create_staging_buffer drv c (vb_logical_size b) h = (Inr s, h1)"
    "copy_device_to_staging drv c b s h1 = (Inr (), h2)" "read_staging drv c s h2 = (Inr bytes, h3)"
    "drop_buffer drv s h3 = ((), h')"
    by (auto simp: read_back_def effect_eqs)
  with create_variant_traces(1) [OF this(1)] submit_one_traces(2) [OF this(2)] read_staging_trace [OF this(3)]
    drop_buffer_trace [OF this(4)] create_trace_size assms(2,3)
  show ?thesis unfolding read_trace_def by fastforce
qed

subsection \<open>The session leaves their composition\<close>

text \<open>A loop that leaves a trace for every element.\<close>

definition traces :: "('x \<Rightarrow> 'y \<Rightarrow> gpu_history \<Rightarrow> bool) \<Rightarrow> 'x list \<Rightarrow> 'y list \<Rightarrow> gpu_history list \<Rightarrow> bool" where
  "traces P xs ys logs \<longleftrightarrow> length ys = length xs \<and> length logs = length xs
     \<and> (\<forall>i < length xs. P (xs ! i) (ys ! i) (logs ! i))"

lemma traces_simps [simp]: "traces P [] [] []"
  "traces P (x # xs) (y # ys) (log # logs) \<longleftrightarrow> P x y log \<and> traces P xs ys logs"
  by (auto simp: traces_def nth_Cons less_Suc_eq_0_disj split: nat.split)

lemma prepare_buffers_trace:
  "prepare_buffers drv c specs bs h = (Inr bs', h') \<Longrightarrow>
    \<exists>new logs. bs' = bs @ new \<and> h' = h @ concat logs \<and> traces (prepare_trace c) specs new logs"
proof (induction specs arbitrary: bs h)
  case (Cons spec specs)
  then obtain b h1 where b: "prepare_buffer drv c spec h = (Inr b, h1)"
    and rest: "prepare_buffers drv c specs (bs @ [b]) h1 = (Inr bs', h')" by (auto simp: effect_eqs)
  from prepare_buffer_trace [OF b] obtain log where log: "h1 = h @ log" "prepare_trace c spec b log" by blast
  from Cons.IH [OF rest] obtain new logs where "bs' = (bs @ [b]) @ new" "h' = h1 @ concat logs"
    "traces (prepare_trace c) specs new logs" by blast
  with log show ?case by (intro exI [of _ "b # new"] exI [of _ "log # logs"]) simp
qed (auto simp: effect_eqs intro!: exI [of _ "[]"])

lemma export_all_trace:
  "export_all drv c bs acc h = (Inr exported, h') \<Longrightarrow>
    \<exists>new logs. exported = acc @ new \<and> h' = h @ concat logs \<and> traces (export_trace c) bs new logs"
proof (induction bs arbitrary: acc h)
  case (Cons b bs)
  then obtain e h1 where e: "export_buffer drv c b h = (Inr e, h1)"
    and rest: "export_all drv c bs (acc @ [e]) h1 = (Inr exported, h')" by (auto simp: effect_eqs)
  from export_buffer_trace [OF e] obtain log where log: "h1 = h @ log" "export_trace c b e log" by blast
  from Cons.IH [OF rest] obtain new logs where "exported = (acc @ [e]) @ new" "h' = h1 @ concat logs"
    "traces (export_trace c) bs new logs" by blast
  with log show ?case by (intro exI [of _ "e # new"] exI [of _ "log # logs"]) simp
qed (auto simp: effect_eqs intro!: exI [of _ "[]"])

lemma reclaim_all_trace:
  "reclaim_all drv c bs None h = (None, h') \<Longrightarrow>
    \<exists>logs. h' = h @ concat logs \<and> length logs = length bs \<and> (\<forall>i < length bs. reclaim_trace c (bs ! i) (logs ! i))"
proof (induction bs arbitrary: h)
  case (Cons b bs)
  obtain r h1 where r: "acquire_from_external drv c b h = (r, h1)" by fastforce
  have kept: "reclaim_all drv c bs (Some e) h1 \<noteq> (None, h')" for e bs h1
    using reclaim_all_segments [of drv c bs "Some e" h1] by (auto simp: reclaim_error_def)
  from Cons.prems r kept have "r = Inr ()" and rest: "reclaim_all drv c bs None h1 = (None, h')"
    by (cases r; auto simp: then_do_eq)+
  with submit_one_traces(4) r obtain log where log: "h1 = h @ log" "reclaim_trace c b log" by blast
  from Cons.IH [OF rest] obtain logs where "h' = h1 @ concat logs" "length logs = length bs"
    "\<forall>i < length bs. reclaim_trace c (bs ! i) (logs ! i)" by blast
  with log show ?case
    by (intro exI [of _ "log # logs"]) (auto simp: nth_Cons less_Suc_eq_0_disj split: nat.split)
qed (auto simp: effect_eqs)

lemma read_backs_trace:
  "read_backs drv c (zip specs bs) acc h = (Inr readbacks, h') \<Longrightarrow> map vb_logical_size bs = map bs_bytes specs \<Longrightarrow>
    \<exists>new logs. readbacks = acc @ new \<and> h' = h @ concat logs \<and>
      traces (\<lambda>(spec, b). read_trace c spec b) (zip specs bs) new logs"
proof (induction specs arbitrary: bs acc h)
  case (Cons spec specs)
  then obtain b rest where bs: "bs = b # rest" "vb_logical_size b = bs_bytes spec"
    "map vb_logical_size rest = map bs_bytes specs" by auto
  have "\<exists>x log h1. h1 = h @ log \<and> read_trace c spec b x log
      \<and> read_backs drv c (zip specs rest) (acc @ [x]) h1 = (Inr readbacks, h')"
  proof (cases "bs_readback spec")
    case True
    with Cons.prems(1) bs(1) obtain bytes h1 where "read_back drv c b h = (Inr bytes, h1)"
      "read_backs drv c (zip specs rest) (acc @ [Some bytes]) h1 = (Inr readbacks, h')" by (auto simp: effect_eqs)
    with read_back_trace [OF this(1) bs(2) True] show ?thesis by blast
  next
    case False
    with Cons.prems(1) bs(1) show ?thesis by (auto simp: read_trace_def)
  qed
  then obtain x log where x: "read_trace c spec b x log"
    "read_backs drv c (zip specs rest) (acc @ [x]) (h @ log) = (Inr readbacks, h')" by blast
  from Cons.IH [OF x(2) bs(3)] obtain new logs where "readbacks = (acc @ [x]) @ new" "h' = (h @ log) @ concat logs"
    "traces (\<lambda>(spec, b). read_trace c spec b) (zip specs rest) new logs" by blast
  with x(1) bs(1) show ?case by (intro exI [of _ "x # new"] exI [of _ "log # logs"]) simp
qed (auto simp: effect_eqs intro!: exI [of _ "[]"])

lemma drop_buffers_trace:
  "for_each (drop_buffer drv) bs h = (u, h') \<Longrightarrow> \<exists>log. h' = h @ log \<and> map fst log = concat (map release_calls bs)"
proof (induction bs arbitrary: h)
  case (Cons b bs)
  then obtain h1 where b: "drop_buffer drv b h = ((), h1)" and rest: "for_each (drop_buffer drv) bs h1 = (u, h')"
    by (auto simp: effect_eqs)
  from drop_buffer_trace [OF b] Cons.IH [OF rest] show ?case by fastforce
qed (auto simp: effect_eqs)

lemma drop_context_trace:
  assumes "drop_context drv c h = (u, h')"
  shows "\<exists>log. h' = h @ log \<and> map fst log = close_calls c"
  using assms by (auto simp: drop_context_def effect_eqs vk_do_eq close_calls_def)

lemma candidate_in_append: "candidate_in inst log x \<or> candidate_in inst log' x \<Longrightarrow> candidate_in inst (log @ log') x"
  unfolding candidate_in_def by (cases x) (simp only: case_prod_conv set_append; blast)

lemma device_candidates_trace:
  "device_candidates drv inst devices found h = (Inr found', h') \<Longrightarrow> \<exists>new. h' = h @ new
     \<and> (\<forall>x \<in> set found'. x \<in> set found \<or> fst (snd x) \<in> set devices \<and> candidate_in inst new x)"
proof (induction devices arbitrary: found h)
  case (Cons d devices)
  let ?p = "(VkDeviceProperties inst d, drv h (VkDeviceProperties inst d))"
  let ?f = "(VkQueueFamilies inst d, drv (h @ [?p]) (VkQueueFamilies inst d))"
  let ?e = "(VkDeviceExtensions inst d, drv (h @ [?p, ?f]) (VkDeviceExtensions inst d))"
  have "\<exists>later log. device_candidates drv inst devices later (h @ log) = (Inr found', h')
      \<and> (\<forall>x \<in> set later. x \<in> set found \<or> fst (snd x) = d \<and> candidate_in inst log x)"
  proof (cases "compute_family (an_families (snd ?f))")
    case None
    with Cons.prems show ?thesis
      by (intro exI [of _ found] exI [of _ "[?p, ?f]"]) (auto simp: then_do_eq invoke_eq)
  next
    case (Some i)
    with Cons.prems have ok: "an_code (snd ?e) = 0" and follows: "device_candidates drv inst devices
        (if external_memory_win32_name \<notin> set (an_names (snd ?e)) then found
         else found @ [(device_rank_of (an_properties (snd ?p)), d, of_nat i, an_text (snd ?p))]) (h @ [?p, ?f, ?e])
      = (Inr found', h')"
      by (auto simp: then_do_eq invoke_eq try_do_Inr vk_call_Inr split: if_splits)
    have found: "candidate_in inst [?p, ?f, ?e] (device_rank_of (an_properties (snd ?p)), d, of_nat i, an_text (snd ?p))"
      if "external_memory_win32_name \<in> set (an_names (snd ?e))"
      using that ok Some by (auto simp: candidate_in_def)
    show ?thesis
      by (rule exI, rule exI, rule conjI, rule follows) (use found in auto)
  qed
  then obtain later log where rest: "device_candidates drv inst devices later (h @ log) = (Inr found', h')"
    and found: "\<forall>x \<in> set later. x \<in> set found \<or> fst (snd x) = d \<and> candidate_in inst log x" by blast
  from Cons.IH [OF rest] obtain new where "h' = (h @ log) @ new"
    "\<forall>x \<in> set found'. x \<in> set later \<or> fst (snd x) \<in> set devices \<and> candidate_in inst new x" by blast
  with found show ?case by (intro exI [of _ "log @ new"]) (auto intro: candidate_in_append)
qed (simp add: effect_eqs)

lemma select_vulkan_device_trace:
  assumes "select_vulkan_device drv inst h = (Inr (device, family, name), h')"
  shows "\<exists>enumerated queries rank. h' = h @ (VkEnumerateDevices inst, enumerated) # queries \<and> an_code enumerated = 0
    \<and> device \<in> set (an_handles enumerated) \<and> candidate_in inst queries (rank, device, family, name)"
proof -
  from assms obtain enumerated h1 found where
    call: "vk_call drv (VkEnumerateDevices inst) Probe ''enumerate Vulkan devices'' h = (Inr enumerated, h1)"
    and run: "device_candidates drv inst (an_handles enumerated) [] h1 = (Inr found, h')"
    and best: "(case sort_key fst found of [] \<Rightarrow> Inl (Unavailable
        ''no compute-capable Vulkan device with VK_KHR_external_memory_win32 was found'')
      | (rank, device, queue, name) # _ \<Rightarrow> Inr (device, queue, name)) = Inr (device, family, name)"
    by (auto simp: select_vulkan_device_def try_do_Inr give_eq)
  from best obtain rank rest where "sort_key fst found = (rank, device, family, name) # rest"
    by (cases "sort_key fst found") auto
  then have "(rank, device, family, name) \<in> set found"
    by (metis list.set_intros(1) set_sort)
  with device_candidates_trace [OF run] obtain new where "h' = h1 @ new" "device \<in> set (an_handles enumerated)"
    "candidate_in inst new (rank, device, family, name)" by force
  with vk_call_step [OF call] show ?thesis by (intro exI [of _ enumerated] exI [of _ new] exI [of _ rank]) simp
qed

lemma create_device_trace:
  assumes "create_device drv refusal inst h = (Inr c, h')"
  shows "\<exists>enumerated queries rank exportable device queue pool.
    h' = h @ [(VkEnumerateDevices inst, enumerated)] @ queries @
      [(VkExternalBufferFeatures inst (vc_physical_device c), exportable),
       (VkCreateDevice inst (vc_physical_device c) (vc_queue_family c), device),
       (VkGetQueue (vc_device c) (vc_queue_family c), queue),
       (VkCreateCommandPool (vc_device c) (vc_queue_family c), pool)]
    \<and> vc_physical_device c \<in> set (an_handles enumerated)
    \<and> candidate_in inst queries (rank, vc_physical_device c, vc_queue_family c, vc_device_name c)
    \<and> an_exportable exportable \<and> an_code enumerated = 0 \<and> an_code device = 0 \<and> an_code pool = 0
    \<and> vc_instance c = inst \<and> vc_device c = an_handle device \<and> vc_queue c = an_handle queue
    \<and> vc_command_pool c = an_handle pool"
proof -
  from assms obtain physical family name h1 exportable h2 device h3 queue pool where
    sel: "select_vulkan_device drv inst h = (Inr (physical, family, name), h1)"
    and features: "invoke drv (VkExternalBufferFeatures inst physical) h1 = (exportable, h2)" "an_exportable exportable"
    and made: "vk_call drv (VkCreateDevice inst physical family) Probe (''vkCreateDevice for '' @ quoted name) h2
      = (Inr device, h3)"
    and tail: "create_command_pool drv (an_handle device) family h3 = (Inr (queue, pool), h')"
    and c: "c = \<lparr>vc_instance = inst, vc_physical_device = physical, vc_device = an_handle device,
      vc_queue_family = family, vc_queue = queue, vc_command_pool = pool, vc_device_name = name\<rparr>"
    by (auto simp: create_device_def Let_def then_do_eq try_do_Inr drop_on_error_Inr give_eq split: if_splits)
  from tail obtain q p where "h' = h3 @ [(VkGetQueue (an_handle device) family, q),
      (VkCreateCommandPool (an_handle device) family, p)]" "an_code p = 0" "queue = an_handle q" "pool = an_handle p"
    by (auto simp: create_command_pool_def effect_eqs vk_call_Inr)
  with select_vulkan_device_trace [OF sel] invoke_step [OF features(1)] features(2) vk_call_step [OF made] c
  show ?thesis by fastforce
qed

lemma create_context_trace:
  assumes "create_context drv app refusal h = (Inr c, h')"
  shows "\<exists>log. h' = h @ log \<and> open_trace c log"
proof -
  from assms obtain loaded h1 inst h2 where
    "vk_call drv VkLoadLoader Unavailable ''Vulkan loader'' h = (Inr loaded, h1)"
    "vk_call drv (VkCreateInstance app) Probe ''vkCreateInstance'' h1 = (Inr inst, h2)"
    and device: "create_device drv refusal (an_handle inst) h2 = (Inr c, h')"
    by (auto simp: create_context_def try_do_Inr drop_on_error_Inr)
  note opened = vk_call_step [OF this(1)] vk_call_step [OF this(2)]
  from create_device_trace [OF device] opened show ?thesis unfolding open_trace_def by fastforce
qed

text \<open>What the traces say of sizes.\<close>

lemma create_buffer_size: "create_buffer drv c v n h = (Inr b, h') \<Longrightarrow> vb_logical_size b = n"
  by (auto dest!: create_buffer_trace create_trace_size)

lemma prepare_traces_sizes: "traces (prepare_trace c) specs bs logs \<Longrightarrow> map vb_logical_size bs = map bs_bytes specs"
  by (rule nth_equalityI) (auto simp: traces_def prepare_trace_def dest!: spec dest: create_trace_size)

lemma export_traces_sizes: "traces (export_trace c) bs es logs \<Longrightarrow> map eb_logical_size es = map vb_logical_size bs"
  by (rule nth_equalityI) (auto simp: traces_def export_trace_def dest!: spec)

definition readback_length :: "shared_buffer_spec \<Rightarrow> nat option" where
  "readback_length spec = (if bs_readback spec then Some (unat (bs_bytes spec)) else None)"

lemma read_trace_length: "read_trace c spec b x log \<Longrightarrow> map_option length x = readback_length spec"
  by (auto simp: read_trace_def readback_length_def split: if_splits)

lemma read_traces_lengths:
  assumes "traces (\<lambda>(spec, b). read_trace c spec b) (zip specs bs) xs logs" "length bs = length specs"
  shows "map (map_option length) xs = map readback_length specs"
  using assms by (intro nth_equalityI) (auto simp: traces_def intro: read_trace_length)

lemma operate_Inr:
  assumes "operate drv c operation bs exported h = (Inr x, h')"
  shows "\<exists>h1 logs. operation exported h = (Inr x, h1) \<and> h' = h1 @ concat logs \<and> list_all2 (reclaim_trace c) bs logs"
proof -
  obtain r h1 where op: "operation exported h = (r, h1)" by fastforce
  obtain e h2 where rc: "reclaim_all drv c bs None h1 = (e, h2)" by fastforce
  from assms op rc have "r = Inr x" "e = None" "h2 = h'"
    by (cases r; cases e; simp add: operate_def then_do_def give_def)+
  with op rc have "operation exported h = (Inr x, h1)" "reclaim_all drv c bs None h1 = (None, h')" by simp_all
  with reclaim_all_trace [OF this(2)] show ?thesis
    by (auto simp: list_all2_conv_all_nth)
qed

text \<open>The trace of the work between the opening of the context and the drops.\<close>

lemma run_session_trace:
  assumes "run_session drv c specs operation bs h = (Inr out, h')" "map vb_logical_size bs = map bs_bytes specs"
  shows "\<exists>exported exports h1 reclaims reads. traces (export_trace c) bs exported exports
    \<and> operation exported (h @ concat exports) = (Inr (so_value out), h1)
    \<and> list_all2 (reclaim_trace c) bs reclaims
    \<and> traces (\<lambda>(spec, b). read_trace c spec b) (zip specs bs) (so_readbacks out) reads
    \<and> h' = h1 @ concat reclaims @ concat reads \<and> so_vulkan_device out = vc_device_name c"
proof -
  from assms(1) obtain exported h1 x h2 readbacks where
    e: "export_all drv c bs [] h = (Inr exported, h1)" and o: "operate drv c operation bs exported h1 = (Inr x, h2)"
    and rb: "read_backs drv c (zip specs bs) [] h2 = (Inr readbacks, h')"
    and out: "out = \<lparr>so_value = x, so_vulkan_device = vc_device_name c, so_readbacks = readbacks\<rparr>"
    by (auto simp: run_session_def effect_eqs)
  from export_all_trace [OF e] operate_Inr [OF o] read_backs_trace [OF rb assms(2)] out show ?thesis by fastforce
qed

lemma with_buffers_trace:
  assumes "with_buffers drv env specs operation h = (Inr out, h')"
  shows "validate_specs env specs = Inr () \<and> (\<exists>c opened bs prepares h1 drops.
      open_trace c opened \<and> traces (prepare_trace c) specs bs prepares
    \<and> run_session drv c specs operation bs (h @ opened @ concat prepares) = (Inr out, h1)
    \<and> h' = h1 @ drops \<and> map fst drops = concat (map release_calls bs) @ close_calls c)"
proof -
  from assms obtain c bs h1 h2 h3 h4 where v: "validate_specs env specs = Inr ()"
    and c: "session_context drv h = (Inr c, h1)" and p: "prepare_buffers drv c specs [] h1 = (Inr bs, h2)"
    and r: "run_session drv c specs operation bs h2 = (Inr out, h3)"
    and d: "for_each (drop_buffer drv) bs h3 = ((), h4)" "drop_context drv c h4 = ((), h')"
    by (auto simp: with_buffers_def effect_eqs)
  from create_context_trace [OF c [unfolded session_context_def]] obtain opened where
    o: "h1 = h @ opened" "open_trace c opened" by blast
  from prepare_buffers_trace [OF p] obtain prepares where
    b: "h2 = h1 @ concat prepares" "traces (prepare_trace c) specs bs prepares" by auto
  from drop_buffers_trace [OF d(1)] drop_context_trace [OF d(2)] obtain drops where
    "h' = h3 @ drops" "map fst drops = concat (map release_calls bs) @ close_calls c" by fastforce
  with v o b r show ?thesis
    by (intro conjI exI [of _ c] exI [of _ opened] exI [of _ bs] exI [of _ prepares] exI [of _ h3] exI [of _ drops]) simp_all
qed

section \<open>A session around a HIP execution\<close>

text \<open>The regions a host makes of exported buffers, and a GEMM on three of them as the callback.\<close>

definition export_region :: "u32 \<Rightarrow> exported_shared_buffer \<Rightarrow> abi_region" where
  "export_region access e = abi_region_default\<lparr>ar_handle_kind := raw_mem_win32_kmt, ar_access := access,
     ar_handle := eb_handle e, ar_allocation_size := eb_allocation_size e, ar_offset := 0,
     ar_length := eb_logical_size e\<rparr>"

definition gemm_callback ::
  "gpu_driver \<Rightarrow> shared_gemm_control \<Rightarrow> i32 \<times> i32 \<times> i32 \<Rightarrow> ptr \<Rightarrow> exported_shared_buffer list \<Rightarrow> unit vulkan_effect" where
  "gemm_callback drv control dims x exported =
     (case exported of
        [a, b, c] \<Rightarrow>
          then_do (gemm_on_regions drv control dims x (export_region raw_access_read_only a)
            (export_region raw_access_read_only b) (export_region raw_access_read_write c)) (\<lambda>r.
          give (map_err (\<lambda>_. Internal ''shared GEMM failed'') r))
      | _ \<Rightarrow> give (Inl (Internal ''three buffers expected'')))"

lemma gemm_callback_balanced:
  assumes "BlasHandle x \<in># B"
  shows "balanced B (gemm_callback drv control dims x)"
  unfolding balanced_def
proof (intro allI impI)
  fix exported M assume "B \<subseteq># M"
  with assms have x: "BlasHandle x \<in># M" by (rule mset_subset_eqD [rotated])
  have gemm: "gpu_triple (holds M) (gemm_on_regions drv control dims x ra rb rc) (\<lambda>_. holds M)" for ra rb rc
  proof (rule triple_pre)
    fix l :: "resource list" assume l: "mset l = M"
    with x have "BlasHandle x \<in> set l" by auto
    from gemm_on_regions_live [OF this]
    show "gpu_triple ((=) l) (gemm_on_regions drv control dims x ra rb rc) (\<lambda>_. holds M)"
      by (rule triple_weaken) (simp_all add: l)
  qed
  show "gpu_triple (holds M) (gemm_callback drv control dims x exported) (\<lambda>_. holds M)"
  proof (cases "\<exists>a b c. exported = [a, b, c]")
    case True
    then show ?thesis by (auto simp: gemm_callback_def intro!: triple_then_do [OF gemm] triple_giveI)
  next
    case False
    then have "gemm_callback drv control dims x exported = give (Inl (Internal ''three buffers expected''))"
      by (auto simp: gemm_callback_def split: list.split)
    then show ?thesis by (simp add: triple_giveI)
  qed
qed

section \<open>Properties\<close>

text \<open>
  C30. Take a callback that leaves live what it finds live (it may use the resources of its caller
  and of the session), and a caller that has no memory mapped and no command buffer allocated; it
  may hold any other resources, Vulkan contexts of its own included, as the bridge does. Suppose
  the instances and devices Vulkan creates while those resources live get handles of their own, as
  Vulkan promises. Then, whatever else the driver answers, and whether validation, preparation,
  export, the callback, reclaiming or reading back fails, a session leaves exactly the resources
  live that were live before it: every context, buffer, memory, mapping and command buffer it made
  is released, each while it was live and nothing made from it was left.
\<close>

theorem shared_session_leaks_nothing:
  assumes "gpu_audit h = Some l" "\<forall>r \<in> set l. \<not> transient r" "fresh_handles drv (mset l)"
    and "balanced (mset l) operation"
    and "with_exported_shared_buffers windows drv env specs operation h = (r, h')"
  shows "\<exists>l'. gpu_audit h' = Some l' \<and> mset l' = mset l"
proof (cases windows)
  case True
  with assms(5) have run: "with_buffers drv env specs operation h = (r, h')" by (simp add: with_exported_shared_buffers_def)
  have "settled (mset l)" using assms(2) by (simp add: settled_def)
  from tripleD [OF with_buffers_live [OF this assms(3,4)] assms(1) refl run] show ?thesis by blast
next
  case False
  with assms(1,5) show ?thesis by (simp add: with_exported_shared_buffers_def give_eq)
qed

definition demo_vulkan_driver :: gpu_driver where
  "demo_vulkan_driver h call = answer_default\<lparr>an_handle := 4096, an_handles := [1],
     an_families := [(1, True)], an_names := [external_memory_win32_name], an_exportable := True, an_size := 64,
     an_type_bits := 3, an_memory_types := [[DeviceLocal], [HostVisible, HostCoherent]], an_bytes := replicate 4 9\<rparr>"

definition demo_specs :: "shared_buffer_spec list" where
  "demo_specs = [\<lparr>bs_bytes = 4, bs_initial_data = Some [0, 0, 128, 63], bs_readback = True\<rparr>]"

text \<open>The caller holds a rocBLAS handle and a Vulkan device; the callback multiplies.\<close>

definition demo_session_calls :: gpu_history where
  "demo_session_calls = [(BlasCreate, answer_default\<lparr>an_handle := 5\<rparr>),
     (VkCreateInstance ''bridge'', answer_default\<lparr>an_handle := 6\<rparr>), (VkCreateDevice 6 1 0, answer_default\<lparr>an_handle := 7\<rparr>)]"

lemma demo_session_audit: "gpu_audit demo_session_calls = Some [VkDevice 7 6, VkInstance 6, BlasHandle 5]"
  by (simp add: audit_def demo_session_calls_def obtain_if_def answer_default_def)

theorem shared_session_leaks_nothing_witness:
  "\<exists>r h' l'. with_exported_shared_buffers True demo_vulkan_driver (\<lambda>_. None) demo_specs
      (gemm_callback demo_vulkan_driver demo_hip_control (1, 2, 1) 5) demo_session_calls = (r, h')
    \<and> gpu_audit h' = Some l' \<and> mset l' = {#VkDevice 7 6, VkInstance 6, BlasHandle 5#}"
proof -
  let ?l = "[VkDevice 7 6, VkInstance 6, BlasHandle 5]"
  have balanced: "balanced (mset ?l) (gemm_callback demo_vulkan_driver demo_hip_control (1, 2, 1) 5)"
    by (rule gemm_callback_balanced) simp
  have fresh: "fresh_handles demo_vulkan_driver (mset ?l)"
    by (simp add: fresh_handles_def apart_instance_def apart_device_def demo_vulkan_driver_def)
  obtain r h' where run: "with_exported_shared_buffers True demo_vulkan_driver (\<lambda>_. None) demo_specs
      (gemm_callback demo_vulkan_driver demo_hip_control (1, 2, 1) 5) demo_session_calls = (r, h')" by fastforce
  from shared_session_leaks_nothing [OF demo_session_audit _ fresh balanced run] run show ?thesis by auto
qed

text \<open>
  C33. A session that succeeds passed validation: there are between 1 and 64 buffers, none of
  them empty, initial data has exactly the size of its buffer, and the sizes add up, without
  overflow, to at most the configured maximum. What it then did is its whole trace, call by call
  with the answers: it opened a context
  \<open>c\<close> on a device it had enumerated, which can share memory; it made one exportable device-local buffer of
  the requested size for every specification, in order, and copied its initial data into it
  through a staging buffer the host wrote exactly that data to; it released every buffer to the
  external queue family and exported the handle of that buffer's own memory. The callback ran
  on exactly these handles and in exactly this state, and its value is the value of the session.
  Then every buffer was taken back, and each one that asks for it, and no other, was copied to a
  staging buffer whose bytes, read by the host over the whole size, are its readback. At last
  every buffer and the context were released.
\<close>

theorem shared_session_result:
  assumes "with_exported_shared_buffers windows drv env specs operation h = (Inr out, h')"
  shows "windows \<and> 0 < length specs \<and> length specs \<le> 64
    \<and> (\<forall>spec \<in> set specs. bs_bytes spec \<noteq> 0
        \<and> (\<forall>initial. bs_initial_data spec = Some initial \<longrightarrow> length initial = unat (bs_bytes spec)))
    \<and> (\<Sum>spec \<leftarrow> specs. unat (bs_bytes spec)) \<le> unat (session_maximum env)
    \<and> map (map_option length) (so_readbacks out)
      = map (\<lambda>spec. if bs_readback spec then Some (unat (bs_bytes spec)) else None) specs
    \<and> (\<exists>c bs exported opened prepares exports h1 reclaims reads drops.
        open_trace c opened \<and> traces (prepare_trace c) specs bs prepares \<and> traces (export_trace c) bs exported exports
        \<and> map eb_logical_size exported = map bs_bytes specs
        \<and> operation exported (h @ opened @ concat prepares @ concat exports) = (Inr (so_value out), h1)
        \<and> list_all2 (reclaim_trace c) bs reclaims
        \<and> traces (\<lambda>(spec, b). read_trace c spec b) (zip specs bs) (so_readbacks out) reads
        \<and> map fst drops = concat (map release_calls bs) @ close_calls c
        \<and> h' = h1 @ concat reclaims @ concat reads @ drops \<and> so_vulkan_device out = vc_device_name c)"
    (is "_ \<and> _ \<and> _ \<and> _ \<and> _ \<and> ?lengths \<and> ?trace")
proof -
  from assms have windows and run: "with_buffers drv env specs operation h = (Inr out, h')"
    by (auto simp: with_exported_shared_buffers_def give_eq split: if_splits)
  obtain c opened bs prepares h1 drops where
    v: "validate_specs env specs = Inr ()" and o: "open_trace c opened"
    and p: "traces (prepare_trace c) specs bs prepares"
    and r: "run_session drv c specs operation bs (h @ opened @ concat prepares) = (Inr out, h1)"
    and d: "h' = h1 @ drops" "map fst drops = concat (map release_calls bs) @ close_calls c"
    using with_buffers_trace [OF run] by (elim conjE exE) (rule that)
  note sizes = prepare_traces_sizes [OF p]
  obtain exported exports h2 reclaims reads where
    e: "traces (export_trace c) bs exported exports" and
    rest: "operation exported ((h @ opened @ concat prepares) @ concat exports) = (Inr (so_value out), h2)"
    "list_all2 (reclaim_trace c) bs reclaims" "h1 = h2 @ concat reclaims @ concat reads"
    "so_vulkan_device out = vc_device_name c"
    and reads: "traces (\<lambda>(spec, b). read_trace c spec b) (zip specs bs) (so_readbacks out) reads"
    using run_session_trace [OF r sizes] by (elim conjE exE) (rule that)
  have ?trace
    using o p e reads d rest sizes export_traces_sizes [OF e]
    by (intro exI [of _ c] exI [of _ bs] exI [of _ exported] exI [of _ opened] exI [of _ prepares] exI [of _ exports]
        exI [of _ h2] exI [of _ reclaims] exI [of _ reads] exI [of _ drops]) simp
  moreover have ?lengths
    using read_traces_lengths [OF reads] p by (simp add: traces_def readback_length_def [abs_def])
  moreover from v obtain n where "specs \<noteq> []" "length specs \<le> default_max_buffers" "total_bytes 0 0 specs = Inr n"
    "n \<le> session_maximum env" by (auto simp: validate_specs_def result_iffs)
  ultimately show ?thesis
    using \<open>windows\<close> total_bytes_ok [of 0 0 specs n] by (auto simp: default_max_buffers_def word_le_nat_alt)
qed


lemma demo_session:
  "is_ok (fst (with_exported_shared_buffers True demo_vulkan_driver (\<lambda>_. None) demo_specs
     (\<lambda>exported. give (Inr (length exported))) []))"
  by code_simp

theorem shared_session_result_witness:
  "\<exists>out h'. with_exported_shared_buffers True demo_vulkan_driver (\<lambda>_. None) demo_specs
      (\<lambda>exported. give (Inr (length exported))) [] = (Inr out, h')
    \<and> so_value out = 1 \<and> map (map_option length) (so_readbacks out) = [Some 4]"
proof -
  obtain out h' where run: "with_exported_shared_buffers True demo_vulkan_driver (\<lambda>_. None) demo_specs
      (\<lambda>exported. give (Inr (length exported))) [] = (Inr out, h')"
    using demo_session by (cases "with_exported_shared_buffers True demo_vulkan_driver (\<lambda>_. None) demo_specs
      (\<lambda>exported. give (Inr (length exported))) []"; cases "fst (with_exported_shared_buffers True
      demo_vulkan_driver (\<lambda>_. None) demo_specs (\<lambda>exported. give (Inr (length exported))) [])") auto
  from shared_session_result [OF run] have "so_value out = 1" "map (map_option length) (so_readbacks out) = [Some 4]"
    by (auto simp: demo_specs_def give_def)
  with run show ?thesis by (intro exI [of _ out] exI [of _ h']) simp
qed

text \<open>
  C32. Once the callback has run, whether it succeeded or failed, an acquire is attempted for
  every exported buffer, in order and each after the one before it, failures included. A buffer
  whose acquire succeeds was given back by a submission that ran to completion: allocate,
  begin, barrier from the external queue family, end, submit, wait, free. The result is the
  error of the callback, else the first error of an acquire, else the value of the callback.
\<close>

theorem session_reclaims_every_buffer:
  "\<exists>result h1 rs news.
    operation exported h = (result, h1)
    \<and> operate drv c operation buffers exported h
      = (case result of Inl e \<Rightarrow> Inl e
         | Inr x \<Rightarrow> (case List.find (\<lambda>r. \<not> is_ok r) rs of Some (Inl e) \<Rightarrow> Inl e | _ \<Rightarrow> Inr x), h1 @ concat news)
    \<and> length rs = length buffers \<and> length news = length buffers
    \<and> (\<forall>i < length buffers.
        acquire_from_external drv c (buffers ! i) (h1 @ concat (take i news)) = (rs ! i, h1 @ concat (take (Suc i) news))
        \<and> (rs ! i = Inr () \<longrightarrow> (\<exists>cmd. map fst (news ! i) = acquire_calls c (buffers ! i) cmd)))"
proof -
  obtain result h1 where op: "operation exported h = (result, h1)" by fastforce
  from reclaim_all_segments [of drv c buffers None h1] obtain rs news where
    all: "reclaim_all drv c buffers None h1 = (reclaim_error None rs, h1 @ concat news)"
    and each: "reclaims drv c buffers h1 rs news" by blast
  have calls: "\<exists>cmd. map fst (news ! i) = acquire_calls c (buffers ! i) cmd"
    if "i < length buffers" "rs ! i = Inr ()" for i
  proof (rule acquire_ok_calls)
    from each that show "acquire_from_external drv c (buffers ! i) (h1 @ concat (take i news))
        = (Inr (), (h1 @ concat (take i news)) @ news ! i)"
      by (simp add: reclaims_def take_Suc_conv_app_nth)
  qed
  have error: "reclaim_error None rs
      = (case List.find (\<lambda>r. \<not> is_ok r) rs of Some (Inl e) \<Rightarrow> Some e | _ \<Rightarrow> None)"
    by (auto simp: reclaim_error_def split: option.split sum.split)
  have "operate drv c operation buffers exported h = (case result of Inl e \<Rightarrow> Inl e
         | Inr x \<Rightarrow> (case List.find (\<lambda>r. \<not> is_ok r) rs of Some (Inl e) \<Rightarrow> Inl e | _ \<Rightarrow> Inr x), h1 @ concat news)"
    by (simp add: operate_def then_do_def op all give_def error split: sum.split option.split)
  with op each calls show ?thesis
    by (intro exI [of _ result] exI [of _ h1] exI [of _ rs] exI [of _ news]) (simp add: reclaims_def)
qed

definition demo_acquire :: "vulkan_context \<times> vulkan_buffer" where
  "demo_acquire =
     (\<lparr>vc_instance = 1, vc_physical_device = 2, vc_device = 3, vc_queue_family = 0, vc_queue = 4,
       vc_command_pool = 5, vc_device_name = ''demo''\<rparr>,
      \<lparr>vb_device = 3, vb_buffer = 6, vb_memory = 7, vb_logical_size = 4, vb_allocation_size = 64\<rparr>)"

text \<open>The callback fails, and the buffer is given back all the same.\<close>

theorem session_reclaims_every_buffer_witness:
  "\<exists>new cmd. operate demo_vulkan_driver (fst demo_acquire) (\<lambda>_. give (Inl (Internal ''demo'') :: backend_error + nat))
      [snd demo_acquire] [] [] = (Inl (Internal ''demo''), new)
    \<and> map fst new = acquire_calls (fst demo_acquire) (snd demo_acquire) cmd"
proof -
  let ?op = "\<lambda>_ :: exported_shared_buffer list. give (Inl (Internal ''demo'') :: backend_error + nat)"
  from session_reclaims_every_buffer [of ?op "[]" "[]" demo_vulkan_driver "fst demo_acquire" "[snd demo_acquire]"]
  obtain result h1 rs news where op: "?op [] [] = (result, h1)"
    and run: "operate demo_vulkan_driver (fst demo_acquire) ?op [snd demo_acquire] [] []
      = (case result of Inl e \<Rightarrow> Inl e
         | Inr x \<Rightarrow> (case List.find (\<lambda>r. \<not> is_ok r) rs of Some (Inl e) \<Rightarrow> Inl e | _ \<Rightarrow> Inr x), h1 @ concat news)"
    and len: "length news = length [snd demo_acquire]"
    and one: "\<forall>i < length [snd demo_acquire].
        acquire_from_external demo_vulkan_driver (fst demo_acquire) ([snd demo_acquire] ! i) (h1 @ concat (take i news))
          = (rs ! i, h1 @ concat (take (Suc i) news))
        \<and> (rs ! i = Inr () \<longrightarrow> (\<exists>cmd. map fst (news ! i) = acquire_calls (fst demo_acquire) ([snd demo_acquire] ! i) cmd))"
    by blast
  from op have h1: "result = Inl (Internal ''demo'')" "h1 = []" by (simp_all add: give_def)
  from len obtain new where news: "news = [new]" by (auto simp: length_Suc_conv)
  have "fst (acquire_from_external demo_vulkan_driver (fst demo_acquire) (snd demo_acquire) []) = Inr ()" by code_simp
  with one have "\<exists>cmd. map fst new = acquire_calls (fst demo_acquire) (snd demo_acquire) cmd" by (simp add: h1 news)
  with run show ?thesis by (simp add: h1 news)
qed

end
