(* ===== verification/Bridge.thy ===== *)
theory Bridge
  imports Vulkan_Shared_Buffer "HOL-Library.Sublist"
begin

text \<open>
  The bridge runtime of \<open>vrb-backends/src/interop.rs\<close>: a Vulkan context and a HIP runtime that
  persist behind a mutex, and the two transfers that certify them, one through memory both
  sides see and one through the host. The Vulkan half is that of \<open>Vulkan_Context\<close>.
\<close>

section \<open>Data\<close>

record hip_runtime =
  hr_library :: ptr
  hr_get_error_string :: bool

record bridge_runtime =
  bg_vulkan :: vulkan_context
  bg_hip :: hip_runtime
  bg_hip_device_index :: i32
  bg_hip_device_name :: string

record zero_copy_report =
  zc_vulkan_device :: string
  zc_hip_device :: string
  zc_bytes :: u64
  zc_pattern :: u8
  zc_verified_bytes :: u64
  zc_external_memory_handle :: string
  zc_synchronization :: string

record copy_fallback_report =
  cf_vulkan_device :: string
  cf_hip_device :: string
  cf_bytes :: u64
  cf_pattern :: u8
  cf_verified_bytes :: u64
  cf_transfer_path :: string
  cf_synchronization :: string

text \<open>The mutex-protected static and the calls made so far.\<close>

record bridge =
  br_poisoned :: bool
  br_runtime :: "bridge_runtime option"
  br_calls :: gpu_history

definition bridge_new :: "gpu_history \<Rightarrow> bridge" where
  "bridge_new h = \<lparr>br_poisoned = False, br_runtime = None, br_calls = h\<rparr>"

definition default_max_smoke_bytes :: u64 where "default_max_smoke_bytes = 256 * 1024 * 1024"

section \<open>The HIP runtime\<close>

text \<open>A path as Windows displays it.\<close>

fun path_display :: "path \<Rightarrow> string" where
  "path_display [] = []"
| "path_display [c] = c"
| "path_display (c # d # ds) =
     (if c = [] \<or> last c \<in> {CHR ''/'', CHR 0x5C} then c @ path_display (d # ds)
      else c @ [CHR 0x5C] @ path_display (d # ds))"

definition bridge_library_candidates :: "environment \<Rightarrow> path list" where
  "bridge_library_candidates env = hip_library_candidates env"

fun bridge_load_first :: "gpu_driver \<Rightarrow> path list \<Rightarrow> string list \<Rightarrow> ptr vulkan_effect" where
  "bridge_load_first drv [] failures = give (Inl (Unavailable
     (''HIP runtime library was not loadable for zero-copy smoke test ('' @ join ''; '' failures @ '')'')))"
| "bridge_load_first drv (candidate # candidates) failures =
     then_do (invoke drv (OpenLibrary candidate)) (\<lambda>a.
     if an_handle a \<noteq> 0 then give (Inr (an_handle a))
     else bridge_load_first drv candidates (failures @ [path_display candidate @ '': '' @ an_text a]))"

definition bridge_load_required :: "gpu_driver \<Rightarrow> ptr \<Rightarrow> string \<Rightarrow> unit vulkan_effect" where
  "bridge_load_required drv library name =
     then_do (invoke drv (FindSymbol library name)) (\<lambda>a.
     give (if an_handle a \<noteq> 0 then Inr ()
       else Inl (Unavailable (''required HIP symbol '' @ quoted name @ '' is missing: '' @ an_text a))))"

fun bridge_load_symbols :: "gpu_driver \<Rightarrow> ptr \<Rightarrow> string list \<Rightarrow> unit vulkan_effect" where
  "bridge_load_symbols drv library [] = give (Inr ())"
| "bridge_load_symbols drv library (name # names) =
     try_do (bridge_load_required drv library name) (\<lambda>_. bridge_load_symbols drv library names)"

definition hip_check :: "gpu_driver \<Rightarrow> hip_runtime \<Rightarrow> i32 \<Rightarrow> string \<Rightarrow> unit vulkan_effect" where
  "hip_check drv rt code operation =
     (if code = hip_success then give (Inr ())
      else then_do
        (if hr_get_error_string rt
         then then_do (invoke drv (HipErrorString code)) (\<lambda>a.
              give (if an_handle a = 0 then None else Some (an_text a)))
         else give None) (\<lambda>detail.
      give (Inl (Internal (operation @ '' failed with HIP error '' @ show_int (sint code) @ '': ''
        @ (case detail of Some s \<Rightarrow> s | None \<Rightarrow> ''unknown HIP error''))))))"

definition hip_call :: "gpu_driver \<Rightarrow> hip_runtime \<Rightarrow> gpu_call \<Rightarrow> string \<Rightarrow> answer vulkan_effect" where
  "hip_call drv rt call operation =
     then_do (invoke drv call) (\<lambda>a.
     try_do (hip_check drv rt (an_code a) operation) (\<lambda>_. give (Inr a)))"

definition hip_runtime_init :: "gpu_driver \<Rightarrow> ptr \<Rightarrow> hip_runtime vulkan_effect" where
  "hip_runtime_init drv library =
     try_do (bridge_load_symbols drv library
         [''hipInit'', ''hipGetDeviceCount'', ''hipDeviceGetName'', ''hipSetDevice'', ''hipImportExternalMemory'',
          ''hipExternalMemoryGetMappedBuffer'', ''hipDestroyExternalMemory'', ''hipMemset'', ''hipMalloc'',
          ''hipFree'', ''hipMemcpy'', ''hipDeviceSynchronize'']) (\<lambda>_.
     then_do (invoke drv (FindSymbol library ''hipGetErrorString'')) (\<lambda>s.
     let rt = \<lparr>hr_library = library, hr_get_error_string = an_handle s \<noteq> 0\<rparr>
     in try_do (hip_call drv rt (HipInit 0) ''hipInit'') (\<lambda>_. give (Inr rt))))"

definition hip_runtime_load :: "gpu_driver \<Rightarrow> environment \<Rightarrow> hip_runtime vulkan_effect" where
  "hip_runtime_load drv env =
     try_do (bridge_load_first drv (bridge_library_candidates env) []) (\<lambda>library.
     drop_on_error (hip_runtime_init drv library) (close_library drv library))"

section \<open>Devices\<close>

fun device_names :: "gpu_driver \<Rightarrow> hip_runtime \<Rightarrow> nat list \<Rightarrow> string list \<Rightarrow> string list vulkan_effect" where
  "device_names drv rt [] names = give (Inr names)"
| "device_names drv rt (index # indices) names =
     try_do (hip_call drv rt (HipGetDeviceName index) ''hipDeviceGetName'') (\<lambda>a.
     device_names drv rt indices (names @ [an_text a]))"

definition hip_devices :: "gpu_driver \<Rightarrow> hip_runtime \<Rightarrow> string list vulkan_effect" where
  "hip_devices drv rt =
     try_do (hip_call drv rt HipGetDeviceCount ''hipGetDeviceCount'') (\<lambda>a.
     if sint (an_count a) < 0 then give (Inl (Probe ''HIP returned a negative device count''))
     else device_names drv rt [0..<nat (sint (an_count a))] [])"

definition is_ascii_alphanumeric :: "char \<Rightarrow> bool" where
  "is_ascii_alphanumeric c =
     (let n = (of_char c :: nat) in 48 \<le> n \<and> n \<le> 57 \<or> 65 \<le> n \<and> n \<le> 90 \<or> 97 \<le> n \<and> n \<le> 122)"

definition ascii_lower :: "char \<Rightarrow> char" where
  "ascii_lower c = (let n = (of_char c :: nat) in if 65 \<le> n \<and> n \<le> 90 then char_of (n + 32) else c)"

definition normalize_device_name :: "string \<Rightarrow> string" where
  "normalize_device_name name = map ascii_lower (filter is_ascii_alphanumeric name)"

definition find_device :: "string list \<Rightarrow> (string \<Rightarrow> bool) \<Rightarrow> nat option" where
  "find_device devices P = List.find (\<lambda>i. P (devices ! i)) [0..<length devices]"

text \<open>An equal name, then one that contains or is contained, then the only one.\<close>

definition correlate :: "string list \<Rightarrow> string \<Rightarrow> nat option" where
  "correlate devices vulkan_name =
     (let target = normalize_device_name vulkan_name
      in case find_device devices (\<lambda>name. normalize_device_name name = target) of
        Some i \<Rightarrow> Some i
      | None \<Rightarrow>
          (case find_device devices (\<lambda>name. let candidate = normalize_device_name name
              in contains_string candidate target \<or> contains_string target candidate) of
             Some i \<Rightarrow> Some i
           | None \<Rightarrow> if length devices = 1 then Some 0 else None))"

definition select_device :: "gpu_driver \<Rightarrow> hip_runtime \<Rightarrow> string \<Rightarrow> (i32 \<times> string) vulkan_effect" where
  "select_device drv rt vulkan_name =
     try_do (hip_devices drv rt) (\<lambda>devices.
     if devices = [] then give (Inl (Unavailable ''HIP runtime initialized but exposed no devices''))
     else try_do (give (ok_or (correlate devices vulkan_name) (Unavailable
       (''could not correlate Vulkan device '' @ quoted vulkan_name @ '' with HIP devices: ''
         @ join '', '' devices)))) (\<lambda>i.
     try_do (hip_call drv rt (HipSetDevice (of_nat i)) ''hipSetDevice'') (\<lambda>_.
     give (Inr (of_nat i, devices ! i)))))"

section \<open>HIP memory\<close>

definition import_memory :: "gpu_driver \<Rightarrow> hip_runtime \<Rightarrow> u64 \<Rightarrow> u64 \<Rightarrow> ptr vulkan_effect" where
  "import_memory drv rt handle allocation_size =
     (let descriptor = \<lparr>id_type = hip_handle_type_opaque_win32_kmt, id_handle = handle,
        id_size = allocation_size, id_flags = 0\<rparr>
      in try_do (hip_call drv rt (HipImport descriptor) ''hipImportExternalMemory'') (\<lambda>a.
         give (if an_handle a = 0 then Inl (Internal ''hipImportExternalMemory succeeded but returned a null handle'')
           else Inr (an_handle a))))"

definition map_external_memory :: "gpu_driver \<Rightarrow> hip_runtime \<Rightarrow> ptr \<Rightarrow> u64 \<Rightarrow> ptr vulkan_effect" where
  "map_external_memory drv rt external_memory n =
     try_do (hip_call drv rt (HipMap external_memory \<lparr>bd_offset = 0, bd_size = n, bd_flags = 0\<rparr>)
       ''hipExternalMemoryGetMappedBuffer'') (\<lambda>a.
     give (if an_handle a = 0 then Inl (Internal ''HIP mapped external memory to a null device pointer'')
       else Inr (an_handle a)))"

definition allocate_device_memory :: "gpu_driver \<Rightarrow> hip_runtime \<Rightarrow> nat \<Rightarrow> ptr vulkan_effect" where
  "allocate_device_memory drv rt n =
     try_do (hip_call drv rt (HipMalloc n) ''hipMalloc(copy fallback)'') (\<lambda>a.
     give (if an_handle a = 0 then Inl (Internal ''hipMalloc succeeded but returned a null pointer'')
       else Inr (an_handle a)))"

text \<open>The destination slice has \<open>n\<close> bytes, whatever the driver answers with.\<close>

definition copy_device_to_host :: "gpu_driver \<Rightarrow> hip_runtime \<Rightarrow> nat \<Rightarrow> ptr \<Rightarrow> bytes vulkan_effect" where
  "copy_device_to_host drv rt n source =
     try_do (hip_call drv rt (HipMemcpyToHost source n) ''hipMemcpy(DeviceToHost copy fallback)'') (\<lambda>a.
     give (Inr (exactly n (an_bytes a))))"

definition drop_device_memory :: "gpu_driver \<Rightarrow> ptr \<Rightarrow> unit gpu_effect" where
  "drop_device_memory drv p = (if p \<noteq> 0 then then_do (invoke drv (HipFree p)) (\<lambda>_. give ()) else give ())"

section \<open>The Vulkan half\<close>

definition bridge_context :: "gpu_driver \<Rightarrow> vulkan_context vulkan_effect" where
  "bridge_context drv = create_context drv ''vulkan-rocm-bridge-smoke''
     (\<lambda>name. ''Vulkan device '' @ quoted name @ '' cannot export OPAQUE_WIN32_KMT buffer memory'')"

definition bridge_shared_buffer :: "gpu_driver \<Rightarrow> vulkan_context \<Rightarrow> u64 \<Rightarrow> vulkan_buffer vulkan_effect" where
  "bridge_shared_buffer drv c =
     create_buffer drv c (shared_variant ''no device-local memory type satisfies the exportable buffer'')"

definition bridge_staging_buffer :: "gpu_driver \<Rightarrow> vulkan_context \<Rightarrow> u64 \<Rightarrow> vulkan_buffer vulkan_effect" where
  "bridge_staging_buffer drv c = create_buffer drv c staging_variant"

definition bridge_device_buffer :: "gpu_driver \<Rightarrow> vulkan_context \<Rightarrow> u64 \<Rightarrow> vulkan_buffer vulkan_effect" where
  "bridge_device_buffer drv c = create_buffer drv c fallback_variant"

definition bridge_release_to_external :: "gpu_driver \<Rightarrow> vulkan_context \<Rightarrow> vulkan_buffer \<Rightarrow> unit vulkan_effect" where
  "bridge_release_to_external drv c shared =
     submit_one_time drv c (\<lambda>cmd. vk_do drv (VkBarrier cmd (bridge_release_barrier c shared)))"

definition acquire_and_copy_to_staging ::
  "gpu_driver \<Rightarrow> vulkan_context \<Rightarrow> vulkan_buffer \<Rightarrow> vulkan_buffer \<Rightarrow> unit vulkan_effect" where
  "acquire_and_copy_to_staging drv c shared staging =
     submit_one_time drv c (\<lambda>cmd.
       then_do (vk_do drv (VkBarrier cmd (bridge_acquire_barrier c shared))) (\<lambda>_.
       then_do (vk_do drv (VkCopyBuffer cmd (vb_buffer shared) (vb_buffer staging) (vb_logical_size shared))) (\<lambda>_.
       vk_do drv (VkBarrier cmd (host_read_barrier c staging)))))"

definition verify_staging :: "gpu_driver \<Rightarrow> vulkan_context \<Rightarrow> vulkan_buffer \<Rightarrow> u8 \<Rightarrow> u64 vulkan_effect" where
  "verify_staging drv c staging pattern =
     try_do (map_and_read drv c ''vkMapMemory(staging)'' staging (unat (vb_logical_size staging))) (\<lambda>bytes.
     give (case List.find (\<lambda>i. bytes ! i \<noteq> pattern) [0..<length bytes] of
         Some index \<Rightarrow> Inl (Internal (''zero-copy verification failed at byte '' @ show_nat index
           @ '': expected 0x'' @ show_hex_padded 2 (unat pattern)
           @ '', got 0x'' @ show_hex_padded 2 (unat (bytes ! index))))
       | None \<Rightarrow> Inr (vb_logical_size staging)))"


section \<open>The bridge runtime\<close>

definition bridge_create :: "gpu_driver \<Rightarrow> environment \<Rightarrow> bridge_runtime vulkan_effect" where
  "bridge_create drv env =
     try_do (bridge_context drv) (\<lambda>vulkan. drop_on_error
       (try_do (hip_runtime_load drv env) (\<lambda>hip. drop_on_error
         (try_do (select_device drv hip (vc_device_name vulkan)) (\<lambda>(index, name).
          give (Inr \<lparr>bg_vulkan = vulkan, bg_hip = hip, bg_hip_device_index = index, bg_hip_device_name = name\<rparr>)))
         (close_library drv (hr_library hip))))
       (drop_context drv vulkan))"

definition select_hip_device :: "gpu_driver \<Rightarrow> bridge_runtime \<Rightarrow> answer vulkan_effect" where
  "select_hip_device drv b =
     hip_call drv (bg_hip b) (HipSetDevice (bg_hip_device_index b)) ''hipSetDevice(persistent bridge runtime)''"

text \<open>HIP writes the pattern and waits; the guards are dropped before Vulkan goes on.\<close>

definition hip_fill :: "gpu_driver \<Rightarrow> hip_runtime \<Rightarrow> string \<Rightarrow> ptr \<Rightarrow> u8 \<Rightarrow> nat \<Rightarrow> unit vulkan_effect" where
  "hip_fill drv rt what p pattern n =
     try_do (hip_call drv rt (HipMemset p (ucast pattern) n) what) (\<lambda>_.
     try_do (hip_call drv rt HipSynchronize ''hipDeviceSynchronize'') (\<lambda>_. give (Inr ())))"

definition hip_fill_external :: "gpu_driver \<Rightarrow> hip_runtime \<Rightarrow> u64 \<Rightarrow> u64 \<Rightarrow> u64 \<Rightarrow> u8 \<Rightarrow> nat \<Rightarrow> unit vulkan_effect" where
  "hip_fill_external drv rt handle allocation_size n pattern usize_bytes =
     try_do (import_memory drv rt handle allocation_size) (\<lambda>external. scoped
       (try_do (map_external_memory drv rt external n) (\<lambda>p. scoped
         (hip_fill drv rt ''hipMemset(shared Vulkan memory)'' p pattern usize_bytes)
         (drop_mapped drv p)))
       (drop_external drv external))"

definition zero_copy_transfer ::
  "gpu_driver \<Rightarrow> bridge_runtime \<Rightarrow> u64 \<Rightarrow> u8 \<Rightarrow> nat \<Rightarrow> vulkan_buffer \<Rightarrow> vulkan_buffer \<Rightarrow> u64 vulkan_effect" where
  "zero_copy_transfer drv b n pattern usize_bytes shared staging =
     try_do (export_kmt_handle drv (bg_vulkan b) shared) (\<lambda>handle.
     try_do (bridge_release_to_external drv (bg_vulkan b) shared) (\<lambda>_.
     try_do (hip_fill_external drv (bg_hip b) handle (vb_allocation_size shared) n pattern usize_bytes) (\<lambda>_.
     try_do (acquire_and_copy_to_staging drv (bg_vulkan b) shared staging) (\<lambda>_.
     verify_staging drv (bg_vulkan b) staging pattern))))"

definition run_zero_copy :: "gpu_driver \<Rightarrow> u64 \<Rightarrow> u8 \<Rightarrow> nat \<Rightarrow> bridge_runtime \<Rightarrow> zero_copy_report vulkan_effect" where
  "run_zero_copy drv n pattern usize_bytes b =
     try_do (select_hip_device drv b) (\<lambda>_.
     try_do (bridge_shared_buffer drv (bg_vulkan b) n) (\<lambda>shared. scoped
       (try_do (bridge_staging_buffer drv (bg_vulkan b) n) (\<lambda>staging. scoped
         (try_do (zero_copy_transfer drv b n pattern usize_bytes shared staging) (\<lambda>verified_bytes.
          give (Inr \<lparr>zc_vulkan_device = vc_device_name (bg_vulkan b), zc_hip_device = bg_hip_device_name b,
            zc_bytes = n, zc_pattern = pattern, zc_verified_bytes = verified_bytes,
            zc_external_memory_handle = ''VK_OPAQUE_WIN32_KMT / hipExternalMemoryHandleTypeOpaqueWin32Kmt'',
            zc_synchronization = ''Vulkan EXTERNAL queue-family ownership + host queue/HIP synchronization''\<rparr>)))
         (drop_buffer drv staging)))
       (drop_buffer drv shared)))"

definition hip_relay :: "gpu_driver \<Rightarrow> hip_runtime \<Rightarrow> u8 \<Rightarrow> nat \<Rightarrow> bytes vulkan_effect" where
  "hip_relay drv rt pattern usize_bytes =
     try_do (allocate_device_memory drv rt usize_bytes) (\<lambda>p. scoped
       (try_do (hip_fill drv rt ''hipMemset(copy fallback device allocation)'' p pattern usize_bytes) (\<lambda>_.
        try_do (copy_device_to_host drv rt usize_bytes p) (\<lambda>host_relay.
        try_do (hip_call drv rt HipSynchronize ''hipDeviceSynchronize after D2H'') (\<lambda>_. give (Inr host_relay)))))
       (drop_device_memory drv p))"

definition copy_transfer ::
  "gpu_driver \<Rightarrow> bridge_runtime \<Rightarrow> u8 \<Rightarrow> nat \<Rightarrow> vulkan_buffer \<Rightarrow> vulkan_buffer \<Rightarrow> vulkan_buffer \<Rightarrow> u64 vulkan_effect" where
  "copy_transfer drv b pattern usize_bytes upload_buffer device_buffer readback =
     try_do (hip_relay drv (bg_hip b) pattern usize_bytes) (\<lambda>host_relay.
     try_do (write_staging drv (bg_vulkan b) ''vkMapMemory(upload staging)'' upload_buffer host_relay) (\<lambda>_.
     try_do (copy_staging_to_device drv (bg_vulkan b) upload_buffer device_buffer) (\<lambda>_.
     try_do (copy_device_to_staging drv (bg_vulkan b) device_buffer readback) (\<lambda>_.
     verify_staging drv (bg_vulkan b) readback pattern))))"

definition run_copy_fallback ::
  "gpu_driver \<Rightarrow> u64 \<Rightarrow> u8 \<Rightarrow> nat \<Rightarrow> bridge_runtime \<Rightarrow> copy_fallback_report vulkan_effect" where
  "run_copy_fallback drv n pattern usize_bytes b =
     try_do (select_hip_device drv b) (\<lambda>_.
     try_do (bridge_staging_buffer drv (bg_vulkan b) n) (\<lambda>upload_buffer. scoped
       (try_do (bridge_device_buffer drv (bg_vulkan b) n) (\<lambda>device_buffer. scoped
         (try_do (bridge_staging_buffer drv (bg_vulkan b) n) (\<lambda>readback. scoped
           (try_do (copy_transfer drv b pattern usize_bytes upload_buffer device_buffer readback) (\<lambda>verified_bytes.
            give (Inr \<lparr>cf_vulkan_device = vc_device_name (bg_vulkan b), cf_hip_device = bg_hip_device_name b,
              cf_bytes = n, cf_pattern = pattern, cf_verified_bytes = verified_bytes,
              cf_transfer_path = ''HIP device -> host relay -> Vulkan upload -> Vulkan device'',
              cf_synchronization = ''hipDeviceSynchronize + synchronous Vulkan queue submissions''\<rparr>)))
           (drop_buffer drv readback)))
         (drop_buffer drv device_buffer)))
       (drop_buffer drv upload_buffer)))"

section \<open>Entry points\<close>

definition with_bridge_runtime ::
  "gpu_driver \<Rightarrow> environment \<Rightarrow> (bridge_runtime \<Rightarrow> 'x vulkan_effect) \<Rightarrow> bridge \<Rightarrow> (backend_error + 'x) \<times> bridge" where
  "with_bridge_runtime drv env operation s =
     (if br_poisoned s then (Inl (Internal ''persistent bridge runtime lock is poisoned''), s)
      else case (case br_runtime s of None \<Rightarrow> bridge_create drv env | Some b \<Rightarrow> give (Inr b)) (br_calls s) of
        (Inl e, h) \<Rightarrow> (Inl e, s\<lparr>br_calls := h\<rparr>)
      | (Inr b, h) \<Rightarrow>
          (case operation b h of (r, h') \<Rightarrow> (r, s\<lparr>br_runtime := Some b, br_calls := h'\<rparr>)))"

definition smoke_maximum :: "environment \<Rightarrow> u64" where
  "smoke_maximum env = environment_limit env ''VRB_MAX_SMOKE_BYTES'' default_max_smoke_bytes"

definition validate_transfer_size :: "environment \<Rightarrow> u64 \<Rightarrow> string \<Rightarrow> backend_error + nat" where
  "validate_transfer_size env n label =
     and_then (ensure (n \<noteq> 0) (Internal (label @ '' size must be greater than zero''))) (\<lambda>_.
     and_then (ensure (n \<le> smoke_maximum env) (Unsupported
       (''requested '' @ show_nat (unat n) @ '' bytes exceeds VRB_MAX_SMOKE_BYTES=''
         @ show_nat (unat (smoke_maximum env))))) (\<lambda>_.
     ok_or (usize_try_from n) (Unsupported (label @ '' size does not fit usize''))))"

definition run_zero_copy_smoke ::
  "bool \<Rightarrow> gpu_driver \<Rightarrow> environment \<Rightarrow> u64 \<Rightarrow> u8 \<Rightarrow> bridge \<Rightarrow> (backend_error + zero_copy_report) \<times> bridge" where
  "run_zero_copy_smoke windows drv env n pattern s =
     (if windows
      then (case validate_transfer_size env n ''zero-copy smoke'' of
          Inl e \<Rightarrow> (Inl e, s)
        | Inr usize_bytes \<Rightarrow> with_bridge_runtime drv env (run_zero_copy drv n pattern usize_bytes) s)
      else (Inl (Unsupported
        ''the v0.1 zero-copy smoke test currently implements the Windows Win32/KMT path only''), s))"

definition run_copy_fallback_smoke ::
  "bool \<Rightarrow> gpu_driver \<Rightarrow> environment \<Rightarrow> u64 \<Rightarrow> u8 \<Rightarrow> bridge \<Rightarrow> (backend_error + copy_fallback_report) \<times> bridge" where
  "run_copy_fallback_smoke windows drv env n pattern s =
     (if windows
      then (case validate_transfer_size env n ''copy fallback'' of
          Inl e \<Rightarrow> (Inl e, s)
        | Inr usize_bytes \<Rightarrow> with_bridge_runtime drv env (run_copy_fallback drv n pattern usize_bytes) s)
      else (Inl (Unsupported
        ''the v0.1 copy fallback certification path currently implements Windows only''), s))"


section \<open>What every part leaves live\<close>

text \<open>A triple on lists holds on multisets.\<close>

lemma stays_holds:
  assumes "\<And>rs. mset rs = M \<Longrightarrow> gpu_triple (\<lambda>l. l = rs) m (\<lambda>_ l. l = rs)"
  shows "gpu_triple (holds M) m (\<lambda>_. holds M)"
proof (rule triple_pre)
  fix l :: "resource list" assume l: "mset l = M"
  show "gpu_triple ((=) l) m (\<lambda>_. holds M)" by (rule triple_weaken [OF assms [OF l]]) (simp_all add: l)
qed

lemma obtains_holds:
  assumes "\<And>rs. mset rs = M \<Longrightarrow>
    gpu_triple (\<lambda>l. l = rs) m (\<lambda>r l. case r of Inl _ \<Rightarrow> l = rs | Inr x \<Rightarrow> l = f x # rs)"
  shows "gpu_triple (holds M) m (\<lambda>r l. case r of Inl _ \<Rightarrow> mset l = M | Inr x \<Rightarrow> mset l = add_mset (f x) M)"
proof (rule triple_pre)
  fix l :: "resource list" assume l: "mset l = M"
  show "gpu_triple ((=) l) m (\<lambda>r l. case r of Inl _ \<Rightarrow> mset l = M | Inr x \<Rightarrow> mset l = add_mset (f x) M)"
    by (rule triple_weaken [OF assms [OF l]]) (auto simp: l split: sum.splits)
qed

subsection \<open>The HIP runtime\<close>

lemma hip_check_live: "gpu_triple P (hip_check drv rt code operation) (\<lambda>_. P)"
proof -
  have "gpu_triple P (invoke drv (HipErrorString code)) (\<lambda>_. P)" by (rule triple_invoke) simp
  then show ?thesis
    unfolding hip_check_def
    by (intro triple_if triple_giveI triple_then_do [where R = "\<lambda>_. P"]) auto
qed

lemma hip_check_Inr: "hip_check drv rt code operation h = (Inr u, h') \<longleftrightarrow> code = hip_success \<and> h' = h"
  by (auto simp: hip_check_def effect_eqs)

lemma hip_call_Inr: "hip_call drv rt c operation h = (Inr a, h') \<longleftrightarrow> a = drv h c \<and> an_code a = hip_success \<and> h' = h @ [(c, a)]"
  by (auto simp: hip_call_def effect_eqs hip_check_Inr)

text \<open>A refused call comes with an answer whose code is not success.\<close>

lemma hip_call_live:
  assumes "\<And>a. Q a = (\<lambda>l. gpu_step rs (c, a) = Some l)" "\<And>a. gpu_step rs (c, a) \<noteq> None"
  shows "gpu_triple (\<lambda>l. l = rs) (hip_call drv rt c operation)
    (\<lambda>r l. case r of Inl _ \<Rightarrow> \<exists>a. an_code a \<noteq> 0 \<and> Q a l | Inr a \<Rightarrow> an_code a = 0 \<and> Q a l)"
  unfolding hip_call_def
proof (rule triple_then_do)
  show "gpu_triple (\<lambda>l. l = rs) (invoke drv c) Q"
    by (rule triple_invoke) (use assms(2) in \<open>auto simp: assms(1)\<close>)
  fix a :: answer
  show "gpu_triple (Q a) (try_do (hip_check drv rt (an_code a) operation) (\<lambda>_. give (Inr a)))
    (\<lambda>r l. case r of Inl _ \<Rightarrow> \<exists>a. an_code a \<noteq> 0 \<and> Q a l | Inr a \<Rightarrow> an_code a = 0 \<and> Q a l)"
  proof (cases "an_code a = 0")
    case True
    then have "try_do (hip_check drv rt (an_code a) operation) (\<lambda>_. give (Inr a)) = give (Inr a)"
      by (simp add: hip_check_def hip_success_def try_do_def then_do_def give_def fun_eq_iff)
    with True show ?thesis by (simp add: triple_giveI)
  next
    case False
    have "gpu_triple (Q a) (hip_check drv rt (an_code a) operation) (\<lambda>r l. Q a l \<and> (\<exists>e. r = Inl e))"
    proof -
      have "gpu_triple (Q a) (invoke drv (HipErrorString code)) (\<lambda>_. Q a)" for code by (rule triple_invoke) simp
      then show ?thesis
        unfolding hip_check_def
        by (intro triple_if triple_then_do [where R = "\<lambda>_. Q a"] triple_giveI)
          (use False in \<open>auto simp: hip_success_def\<close>)
    qed
    then show ?thesis
      by (rule triple_try_do) (use False in \<open>auto intro: triple_giveI triple_False\<close>)
  qed
qed

lemma hip_call_stays:
  assumes "\<And>a. gpu_step rs (c, a) = Some rs"
  shows "gpu_triple (\<lambda>l. l = rs) (hip_call drv rt c operation) (\<lambda>_ l. l = rs)"
  by (rule triple_weaken [OF hip_call_live [where Q = "\<lambda>a l. gpu_step rs (c, a) = Some l"]])
    (auto simp: assms split: sum.splits)

text \<open>A call that hands out a resource, and the check for a null one after it.\<close>

lemma hip_obtain_live:
  assumes "\<And>a. gpu_step rs (c, a) = obtain_if (answered a) (f (an_handle a)) rs"
  shows "gpu_triple (\<lambda>l. l = rs)
    (try_do (hip_call drv rt c operation) (\<lambda>a. give (if an_handle a = 0 then Inl e else Inr (an_handle a))))
    (\<lambda>r l. case r of Inl _ \<Rightarrow> l = rs | Inr x \<Rightarrow> l = f x # rs \<and> x \<noteq> 0)"
  by (rule triple_try_do [OF hip_call_live [where Q = "\<lambda>a l. gpu_step rs (c, a) = Some l"]])
    (auto simp: assms obtain_if_def intro!: triple_giveI split: sum.splits if_splits)

lemma bridge_load_first_live:
  "gpu_triple (\<lambda>l. l = rs) (bridge_load_first drv cs failures)
     (\<lambda>r l. case r of Inl _ \<Rightarrow> l = rs | Inr lib \<Rightarrow> l = Library lib # rs)"
proof (induction cs arbitrary: failures)
  case (Cons c cs)
  have "gpu_triple (\<lambda>l. l = rs) (invoke drv (OpenLibrary c))
      (\<lambda>a l. l = (if an_handle a \<noteq> 0 then Library (an_handle a) # rs else rs))"
    by (rule triple_invoke) auto
  then show ?case
    unfolding bridge_load_first.simps
    by (rule triple_then_do) (auto intro: triple_giveI triple_weaken [OF Cons.IH])
qed (auto intro: triple_giveI)

lemma bridge_load_symbols_live:
  assumes "Library lib \<in> set rs"
  shows "gpu_triple (\<lambda>l. l = rs) (bridge_load_symbols drv lib names) (\<lambda>_ l. l = rs)"
proof (induction names)
  case (Cons name names)
  have "gpu_triple (\<lambda>l. l = rs) (bridge_load_required drv lib name) (\<lambda>_ l. l = rs)"
    unfolding bridge_load_required_def
    by (rule triple_then_do [where R = "\<lambda>_ l. l = rs"])
      (use assms in \<open>auto intro!: triple_invoke triple_giveI simp: requires_def\<close>)
  from triple_try_do [OF this Cons.IH] show ?case by simp
qed (auto intro: triple_giveI)

lemma hip_runtime_load_live:
  "gpu_triple (\<lambda>l. l = rs) (hip_runtime_load drv env)
     (\<lambda>r l. case r of Inl _ \<Rightarrow> l = rs | Inr rt \<Rightarrow> l = Library (hr_library rt) # rs)"
proof -
  have find: "gpu_triple (\<lambda>l. l = Library lib # rs) (invoke drv (FindSymbol lib name)) (\<lambda>_ l. l = Library lib # rs)"
    for lib name by (rule triple_invoke) (simp add: requires_def)
  have init: "gpu_triple (\<lambda>l. l = Library lib # rs) (hip_runtime_init drv lib)
      (\<lambda>r l. l = Library lib # rs \<and> (\<forall>rt. r = Inr rt \<longrightarrow> hr_library rt = lib))" for lib
    unfolding hip_runtime_init_def Let_def
    by (rule triple_try_do [OF bridge_load_symbols_live], simp, rule triple_then_do [OF find],
        rule triple_try_do [OF hip_call_stays]) (auto intro: triple_giveI)
  show ?thesis
    unfolding hip_runtime_load_def
    by (rule triple_try_do [OF bridge_load_first_live])
      (auto intro!: triple_drop_on_error [OF init] intro: triple_weaken [OF close_library_newest])
qed

lemma select_device_live: "gpu_triple (\<lambda>l. l = rs) (select_device drv rt name) (\<lambda>_ l. l = rs)"
proof -
  have names: "gpu_triple (\<lambda>l. l = rs) (device_names drv rt indices acc) (\<lambda>_ l. l = rs)" for indices acc
  proof (induction indices arbitrary: acc)
    case (Cons i indices)
    show ?case unfolding device_names.simps
      by (rule triple_try_do [OF hip_call_stays]) (simp_all add: Cons.IH)
  qed (auto intro: triple_giveI)
  show ?thesis
    unfolding select_device_def hip_devices_def
    by (intro triple_try_do [where R = "\<lambda>_ l. l = rs"] hip_call_stays triple_if triple_giveI names) simp_all
qed


text \<open>The two uses of HIP memory, each with guards that are dropped at the end of their scope.\<close>

lemma hip_fill_live:
  assumes "live (frees p) rs"
  shows "gpu_triple (\<lambda>l. l = rs) (hip_fill drv rt what p pattern n) (\<lambda>_ l. l = rs)"
  unfolding hip_fill_def
  by (intro triple_try_do [where R = "\<lambda>_ l. l = rs"] hip_call_stays triple_giveI) (simp_all add: assms requires_def)

lemma free_newest:
  assumes "p \<noteq> 0" "frees p r"
  shows "gpu_triple (\<lambda>l. l = r # rs) (then_do (invoke drv (HipFree p)) (\<lambda>_. give ())) (\<lambda>_ l. l = rs)"
  by (rule triple_then_do [where R = "\<lambda>_ l. l = rs"]) (use assms in \<open>auto intro!: triple_invoke triple_giveI\<close>)

lemma hip_fill_external_live:
  "gpu_triple (\<lambda>l. l = rs) (hip_fill_external drv rt handle allocation_size n pattern usize_bytes) (\<lambda>_ l. l = rs)"
proof -
  let ?ext = "\<lambda>r l. case r of Inl _ \<Rightarrow> l = rs | Inr e \<Rightarrow> l = ExternalMemory e # rs \<and> e \<noteq> 0"
  have import: "gpu_triple (\<lambda>l. l = rs) (import_memory drv rt handle allocation_size) ?ext"
    unfolding import_memory_def Let_def by (rule hip_obtain_live) simp
  have map: "gpu_triple (\<lambda>l. l = ExternalMemory e # rs) (map_external_memory drv rt e n)
      (\<lambda>r l. case r of Inl _ \<Rightarrow> l = ExternalMemory e # rs
        | Inr p \<Rightarrow> l = MappedBuffer p e # ExternalMemory e # rs \<and> p \<noteq> 0)" for e
    unfolding map_external_memory_def by (rule hip_obtain_live) simp
  have destroy: "gpu_triple (\<lambda>l. l = ExternalMemory e # rs) (drop_external drv e) (\<lambda>_ l. l = rs)" if "e \<noteq> 0" for e
    unfolding drop_external_def if_P [OF that]
    by (rule triple_then_do [where R = "\<lambda>_ l. l = rs"]) (auto intro!: triple_invoke triple_giveI)
  have inner: "gpu_triple (\<lambda>l. l = MappedBuffer p e # ExternalMemory e # rs)
      (scoped (hip_fill drv rt what p pattern usize_bytes) (drop_mapped drv p)) (\<lambda>_ l. l = ExternalMemory e # rs)"
    if "p \<noteq> 0" for p e what
    unfolding drop_mapped_def if_P [OF that]
    by (rule triple_scoped [OF hip_fill_live free_newest]) (simp_all add: that)
  have "gpu_triple (\<lambda>l. l = ExternalMemory e # rs)
      (scoped (try_do (map_external_memory drv rt e n) (\<lambda>p. scoped
         (hip_fill drv rt ''hipMemset(shared Vulkan memory)'' p pattern usize_bytes) (drop_mapped drv p)))
       (drop_external drv e)) (\<lambda>_ l. l = rs)" if "e \<noteq> 0" for e
  proof (rule triple_scoped [OF triple_try_do [OF map] destroy [OF that]])
    fix p
    show "gpu_triple (\<lambda>l. case Inr p of Inl _ \<Rightarrow> l = ExternalMemory e # rs
          | Inr p \<Rightarrow> l = MappedBuffer p e # ExternalMemory e # rs \<and> p \<noteq> 0)
        (scoped (hip_fill drv rt ''hipMemset(shared Vulkan memory)'' p pattern usize_bytes) (drop_mapped drv p))
        (\<lambda>_ l. l = ExternalMemory e # rs)"
      using inner [of p e "''hipMemset(shared Vulkan memory)''"] by (auto simp: triple_def)
  qed simp
  then have "gpu_triple (\<lambda>l. ?ext (Inr e) l)
      (scoped (try_do (map_external_memory drv rt e n) (\<lambda>p. scoped
         (hip_fill drv rt ''hipMemset(shared Vulkan memory)'' p pattern usize_bytes) (drop_mapped drv p)))
       (drop_external drv e)) (\<lambda>_ l. l = rs)" for e by (auto simp: triple_def)
  then show ?thesis
    unfolding hip_fill_external_def by (rule triple_try_do [OF import]) simp
qed

lemma hip_relay_live: "gpu_triple (\<lambda>l. l = rs) (hip_relay drv rt pattern n) (\<lambda>_ l. l = rs)"
proof -
  have alloc: "gpu_triple (\<lambda>l. l = rs) (allocate_device_memory drv rt n)
      (\<lambda>r l. case r of Inl _ \<Rightarrow> l = rs | Inr p \<Rightarrow> l = HipMemory p # rs \<and> p \<noteq> 0)"
    unfolding allocate_device_memory_def by (rule hip_obtain_live) simp
  let ?body = "\<lambda>p. try_do (hip_fill drv rt ''hipMemset(copy fallback device allocation)'' p pattern n) (\<lambda>_.
        try_do (copy_device_to_host drv rt n p) (\<lambda>host_relay.
        try_do (hip_call drv rt HipSynchronize ''hipDeviceSynchronize after D2H'') (\<lambda>_. give (Inr host_relay))))"
  have body: "gpu_triple (\<lambda>l. l = HipMemory p # rs) (?body p) (\<lambda>_ l. l = HipMemory p # rs)" for p
    unfolding copy_device_to_host_def
    by (intro triple_try_do [where R = "\<lambda>_ l. l = HipMemory p # rs"] hip_fill_live hip_call_stays triple_giveI)
      (simp_all add: requires_def)
  have "gpu_triple (\<lambda>l. l = HipMemory p # rs) (scoped (?body p) (drop_device_memory drv p)) (\<lambda>_ l. l = rs)"
    if "p \<noteq> 0" for p
    unfolding drop_device_memory_def if_P [OF that] by (rule triple_scoped [OF body free_newest]) (simp_all add: that)
  then have "gpu_triple (\<lambda>l. case Inr p of Inl _ \<Rightarrow> l = rs | Inr p \<Rightarrow> l = HipMemory p # rs \<and> p \<noteq> 0)
      (scoped (?body p) (drop_device_memory drv p)) (\<lambda>_ l. l = rs)" for p by (auto simp: triple_def)
  then show ?thesis
    unfolding hip_relay_def by (rule triple_try_do [OF alloc]) simp
qed

subsection \<open>The transfers\<close>

definition bridge_holds :: "bridge_runtime \<Rightarrow> resource multiset" where
  "bridge_holds b = add_mset (Library (hr_library (bg_hip b))) (context_holds (bg_vulkan b))"

lemma quiet_bridge: "quiet (bg_vulkan b) (bridge_holds b)"
  by (auto simp: quiet_def bridge_holds_def context_holds_def)

lemma verify_staging_live:
  assumes "quiet c M" "buffer_in c b M"
  shows "gpu_triple (holds M) (verify_staging drv c b pattern) (\<lambda>_. holds M)"
  unfolding verify_staging_def
  by (rule triple_try_do [OF map_and_read_live [OF assms(1) buffer_in_memory [OF assms(2)]]]) (auto intro: triple_giveI)

lemma zero_copy_transfer_live:
  assumes "quiet (bg_vulkan b) M" "buffer_in (bg_vulkan b) shared M" "buffer_in (bg_vulkan b) staging M"
  shows "gpu_triple (holds M) (zero_copy_transfer drv b n pattern usize_bytes shared staging) (\<lambda>_. holds M)"
proof -
  let ?c = "bg_vulkan b"
  have d: "VkBuffer (vb_buffer shared) (vc_device ?c) \<in># M" "VkBuffer (vb_buffer staging) (vc_device ?c) \<in># M"
    using assms(2,3) by (simp_all add: buffer_in_def)
  have release: "gpu_triple (holds M) (bridge_release_to_external drv ?c shared) (\<lambda>_. holds M)"
    unfolding bridge_release_to_external_def
    by (intro submit_one_time_live [OF assms(1)] record_barrier_live) (use d in auto)
  have acquire: "gpu_triple (holds M) (acquire_and_copy_to_staging drv ?c shared staging) (\<lambda>_. holds M)"
    unfolding acquire_and_copy_to_staging_def
    by (intro submit_one_time_live [OF assms(1)] triple_then_do [OF record_barrier_live]
        triple_then_do [OF record_copy_live record_barrier_live]) (use d in auto)
  show ?thesis
    unfolding zero_copy_transfer_def
    by (intro triple_try_do [where R = "\<lambda>_. holds M"] export_kmt_handle_live [OF assms(2)] release acquire
        stays_holds [OF hip_fill_external_live] verify_staging_live [OF assms(1,3)])
qed

lemma select_hip_device_live: "gpu_triple (holds M) (select_hip_device drv b) (\<lambda>_. holds M)"
  unfolding select_hip_device_def by (intro stays_holds hip_call_stays) simp

lemma run_zero_copy_live:
  assumes "quiet (bg_vulkan b) M"
  shows "gpu_triple (holds M) (run_zero_copy drv n pattern usize_bytes b) (\<lambda>_. holds M)"
  unfolding run_zero_copy_def bridge_shared_buffer_def bridge_staging_buffer_def
proof (intro triple_try_do [OF select_hip_device_live] with_buffer_live [OF assms])
  fix shared :: vulkan_buffer assume s: "vb_device shared = vc_device (bg_vulkan b)"
  note q = quiet_buffer [OF assms, of shared]
  show "gpu_triple (holds (M + buffer_holds shared)) (try_do (create_buffer drv (bg_vulkan b) staging_variant n) (\<lambda>staging. scoped
      (try_do (zero_copy_transfer drv b n pattern usize_bytes shared staging) (\<lambda>verified_bytes.
          give (Inr \<lparr>zc_vulkan_device = vc_device_name (bg_vulkan b), zc_hip_device = bg_hip_device_name b,
            zc_bytes = n, zc_pattern = pattern, zc_verified_bytes = verified_bytes,
            zc_external_memory_handle = ''VK_OPAQUE_WIN32_KMT / hipExternalMemoryHandleTypeOpaqueWin32Kmt'',
            zc_synchronization = ''Vulkan EXTERNAL queue-family ownership + host queue/HIP synchronization''\<rparr>)))
       (drop_buffer drv staging))) (\<lambda>_. holds (M + buffer_holds shared))"
    by (intro with_buffer_live [OF q] triple_try_do [OF zero_copy_transfer_live] quiet_buffer [OF q] triple_giveI
        buffer_in_mono [OF buffer_in_own] buffer_in_own) (use s in auto)
qed simp_all


lemma copy_transfer_live:
  assumes "quiet (bg_vulkan b) M"
    and "buffer_in (bg_vulkan b) u M" "buffer_in (bg_vulkan b) d M" "buffer_in (bg_vulkan b) r M"
  shows "gpu_triple (holds M) (copy_transfer drv b pattern usize_bytes u d r) (\<lambda>_. holds M)"
  unfolding copy_transfer_def
  by (intro triple_try_do [where R = "\<lambda>_. holds M"] stays_holds [OF hip_relay_live]
      write_staging_live [OF assms(1) buffer_in_memory [OF assms(2)]] copies_live(1) [OF assms(1,3,2)]
      copies_live(2) [OF assms(1,3,4)] verify_staging_live [OF assms(1,4)])

lemma run_copy_fallback_live:
  assumes "quiet (bg_vulkan b) M"
  shows "gpu_triple (holds M) (run_copy_fallback drv n pattern usize_bytes b) (\<lambda>_. holds M)"
  unfolding run_copy_fallback_def bridge_device_buffer_def bridge_staging_buffer_def
proof (intro triple_try_do [OF select_hip_device_live] with_buffer_live [OF assms])
  fix u :: vulkan_buffer assume u: "vb_device u = vc_device (bg_vulkan b)"
  note q1 = quiet_buffer [OF assms, of u]
  let ?report = "\<lambda>verified_bytes. give (Inr \<lparr>cf_vulkan_device = vc_device_name (bg_vulkan b),
      cf_hip_device = bg_hip_device_name b, cf_bytes = n, cf_pattern = pattern, cf_verified_bytes = verified_bytes,
      cf_transfer_path = ''HIP device -> host relay -> Vulkan upload -> Vulkan device'',
      cf_synchronization = ''hipDeviceSynchronize + synchronous Vulkan queue submissions''\<rparr>)"
  show "gpu_triple (holds (M + buffer_holds u)) (try_do (create_buffer drv (bg_vulkan b) fallback_variant n) (\<lambda>d. scoped
      (try_do (create_buffer drv (bg_vulkan b) staging_variant n) (\<lambda>r. scoped
        (try_do (copy_transfer drv b pattern usize_bytes u d r) ?report)
        (drop_buffer drv r)))
      (drop_buffer drv d))) (\<lambda>_. holds (M + buffer_holds u))"
  proof (rule with_buffer_live [OF q1])
    fix d :: vulkan_buffer assume d: "vb_device d = vc_device (bg_vulkan b)"
    note q2 = quiet_buffer [OF q1, of d]
    show "gpu_triple (holds (M + buffer_holds u + buffer_holds d))
      (try_do (create_buffer drv (bg_vulkan b) staging_variant n) (\<lambda>r. scoped
        (try_do (copy_transfer drv b pattern usize_bytes u d r) ?report)
        (drop_buffer drv r))) (\<lambda>_. holds (M + buffer_holds u + buffer_holds d))"
      by (intro with_buffer_live [OF q2] triple_try_do [OF copy_transfer_live] quiet_buffer [OF q2] triple_giveI
          buffer_in_mono [OF buffer_in_mono [OF buffer_in_own]] buffer_in_mono [OF buffer_in_own] buffer_in_own)
        (use u d in auto)
  qed
qed simp_all

lemma bridge_create_live:
  "gpu_triple (holds {#}) (bridge_create drv env)
     (\<lambda>r l. case r of Inl _ \<Rightarrow> mset l = {#} | Inr b \<Rightarrow> mset l = bridge_holds b)"
proof -
  have free: "vulkan_free {#}" by (simp add: vulkan_free_def)
  let ?rest = "\<lambda>v hip. try_do (select_device drv hip (vc_device_name v)) (\<lambda>(index, name).
      give (Inr \<lparr>bg_vulkan = v, bg_hip = hip, bg_hip_device_index = index, bg_hip_device_name = name\<rparr>))"
  have rest: "gpu_triple (holds (add_mset (Library (hr_library hip)) (context_holds v))) (?rest v hip)
      (\<lambda>r l. mset l = add_mset (Library (hr_library hip)) (context_holds v)
        \<and> (\<forall>b. r = Inr b \<longrightarrow> bg_vulkan b = v \<and> bg_hip b = hip))" for v hip
    by (rule triple_try_do [OF stays_holds [OF select_device_live]]) (auto intro!: triple_giveI)
  have hip: "gpu_triple (holds (context_holds v))
      (try_do (hip_runtime_load drv env) (\<lambda>hip. drop_on_error (?rest v hip) (close_library drv (hr_library hip))))
      (\<lambda>r l. case r of Inl _ \<Rightarrow> mset l = context_holds v | Inr b \<Rightarrow> mset l = bridge_holds b)" for v
    by (rule triple_try_do [OF obtains_holds [OF hip_runtime_load_live]])
      (auto simp: bridge_holds_def intro!: triple_drop_on_error [OF rest] intro: triple_weaken [OF close_library_live])
  have drop: "gpu_triple (holds (context_holds v)) (drop_context drv v) (\<lambda>_. holds {#})" for v
    using drop_context_live [OF vulkan_free_apart(1,3) [OF free], of v drv] by simp
  have create: "gpu_triple (holds {#}) (bridge_context drv)
      (\<lambda>r l. case r of Inl _ \<Rightarrow> mset l = {#} | Inr v \<Rightarrow> mset l = context_holds v)"
    unfolding bridge_context_def
    by (rule triple_weaken [OF create_context_live [OF vulkan_free_apart(1,2) [OF free]]]) (auto split: sum.splits)
  show ?thesis
    unfolding bridge_create_def
    by (rule triple_try_do [OF create]) (auto intro!: triple_drop_on_error [OF hip] intro: triple_weaken [OF drop])
qed

section \<open>Runs of the bridge\<close>

text \<open>Every sequence of transfers a process may ask for.\<close>

inductive bridge_reachable :: "gpu_driver \<Rightarrow> environment \<Rightarrow> bridge \<Rightarrow> bool" for drv env where
  started: "bridge_reachable drv env (bridge_new [])"
| zero_copied: "bridge_reachable drv env s \<Longrightarrow>
    run_zero_copy_smoke windows drv env n pattern s = (zero, s') \<Longrightarrow> bridge_reachable drv env s'"
| copied: "bridge_reachable drv env s \<Longrightarrow>
    run_copy_fallback_smoke windows drv env n pattern s = (copy, s') \<Longrightarrow> bridge_reachable drv env s'"

definition bridge_live :: "bridge \<Rightarrow> resource multiset" where
  "bridge_live s = (case br_runtime s of None \<Rightarrow> {#} | Some b \<Rightarrow> bridge_holds b)"

definition bridge_invariant :: "bridge \<Rightarrow> bool" where
  "bridge_invariant s \<longleftrightarrow> \<not> br_poisoned s \<and> (\<exists>l. gpu_audit (br_calls s) = Some l \<and> mset l = bridge_live s)"

lemma with_bridge_runtime_invariant:
  assumes inv: "bridge_invariant s"
    and op: "\<And>b. gpu_triple (holds (bridge_holds b)) (operation b) (\<lambda>_. holds (bridge_holds b))"
    and run: "with_bridge_runtime drv env operation s = (r, s')"
  shows "bridge_invariant s'"
proof -
  from inv obtain l where np: "\<not> br_poisoned s" and l: "gpu_audit (br_calls s) = Some l" "mset l = bridge_live s"
    by (auto simp: bridge_invariant_def)
  let ?start = "case br_runtime s of None \<Rightarrow> bridge_create drv env | Some b \<Rightarrow> give (Inr b)"
  obtain x h where x: "?start (br_calls s) = (x, h)" by fastforce
  have start: "gpu_triple (holds (bridge_live s)) ?start
      (\<lambda>r l. case r of Inl _ \<Rightarrow> br_runtime s = None \<and> mset l = {#} | Inr b \<Rightarrow> mset l = bridge_holds b)"
    by (cases "br_runtime s")
      (auto simp: bridge_live_def intro: triple_giveI triple_weaken [OF bridge_create_live] split: sum.splits)
  from tripleD [OF start l x] obtain l1 where l1: "gpu_audit h = Some l1"
    "case x of Inl _ \<Rightarrow> br_runtime s = None \<and> mset l1 = {#} | Inr b \<Rightarrow> mset l1 = bridge_holds b" .
  show ?thesis
  proof (cases x)
    case (Inl e)
    with run x np have "s' = s\<lparr>br_calls := h\<rparr>" by (simp add: with_bridge_runtime_def)
    with l1 Inl np show ?thesis by (simp add: bridge_invariant_def bridge_live_def)
  next
    case (Inr b)
    obtain y h' where y: "operation b h = (y, h')" by fastforce
    with run x np Inr have s': "s' = s\<lparr>br_runtime := Some b, br_calls := h'\<rparr>" by (simp add: with_bridge_runtime_def)
    from l1 Inr have "mset l1 = bridge_holds b" by simp
    from tripleD [OF op l1(1) this y] obtain l2 where "gpu_audit h' = Some l2" "mset l2 = bridge_holds b" .
    with s' np show ?thesis by (simp add: bridge_invariant_def bridge_live_def)
  qed
qed

lemma bridge_reachable_invariant: "bridge_reachable drv env s \<Longrightarrow> bridge_invariant s"
proof (induction rule: bridge_reachable.induct)
  case started
  show ?case by (simp add: bridge_invariant_def bridge_new_def bridge_live_def)
next
  case (zero_copied s windows n pattern r s')
  then show ?case
    by (auto simp: run_zero_copy_smoke_def split: if_splits sum.splits
        intro: with_bridge_runtime_invariant run_zero_copy_live [OF quiet_bridge])
next
  case (copied s windows n pattern r s')
  then show ?case
    by (auto simp: run_copy_fallback_smoke_def split: if_splits sum.splits
        intro: with_bridge_runtime_invariant run_copy_fallback_live [OF quiet_bridge])
qed


section \<open>Transfers that succeed\<close>

text \<open>The calls made from one history to the next contain the given ones in this order.\<close>

definition performed :: "gpu_call list \<Rightarrow> gpu_history \<Rightarrow> gpu_history \<Rightarrow> bool" where
  "performed calls h h' \<longleftrightarrow> (\<exists>new. h' = h @ new \<and> subseq calls (map fst new))"

lemma performed_trans: "performed xs h h1 \<Longrightarrow> performed ys h1 h2 \<Longrightarrow> performed (xs @ ys) h h2"
  unfolding performed_def by (force intro: list_emb_append_mono)

lemma performed_extends: "extends m \<Longrightarrow> m h = (x, h') \<Longrightarrow> performed [] h h'"
  unfolding performed_def extends_def by (metis list_emb_Nil snd_conv)

lemma performed_call: "performed [c] h (h @ [(c, a)])"
  by (simp add: performed_def)

lemma extends_hip_call [extending]: "extends (hip_call drv rt c operation)"
  unfolding hip_call_def hip_check_def by (auto intro!: extending)

lemma extends_create_buffer [extending]: "extends (create_buffer drv c v n)"
  unfolding create_buffer_def bind_new_memory_def Let_def by (intro extending)

lemma extends_drop_buffer [extending]: "extends (drop_buffer drv b)"
  unfolding drop_buffer_def by (intro extending)

lemma hip_call_performed: "hip_call drv rt c operation h = (Inr a, h') \<Longrightarrow> performed [c] h h'"
  by (auto simp: hip_call_Inr performed_call)

text \<open>A submission contains what it records.\<close>

lemma submit_performed:
  assumes "submit_one_time drv c record_commands h = (Inr u, h')"
  shows "\<exists>cmd h1 h2 u'. record_commands cmd h1 = (u', h2) \<and> performed [] h h1 \<and> performed [] h2 h'"
proof -
  from assms obtain cmd h1 h2 u' where r: "record_commands cmd h1 = (u', h2)"
    and "\<exists>new. h1 = h @ new" "\<exists>new. h' = h2 @ new"
    unfolding submit_one_time_def submit_commands_def
    by (fastforce simp: effect_eqs vk_call_Inr vk_do_eq)
  then show ?thesis by (fastforce simp: performed_def)
qed

lemma barrier_performed:
  assumes "submit_one_time drv c (\<lambda>cmd. vk_do drv (VkBarrier cmd b)) h = (Inr u, h')"
  shows "\<exists>cmd. performed [VkBarrier cmd b] h h'"
proof -
  from submit_performed [OF assms] obtain cmd h1 h2 u' where
    "vk_do drv (VkBarrier cmd b) h1 = (u', h2)" "performed [] h h1" "performed [] h2 h'" by blast
  moreover from this(1) have "performed [VkBarrier cmd b] h1 h2" by (simp add: vk_do_eq performed_call)
  ultimately have "performed ([] @ [VkBarrier cmd b] @ []) h h'" by (blast intro: performed_trans)
  then show ?thesis by auto
qed

lemma acquire_and_copy_performed:
  assumes "acquire_and_copy_to_staging drv c shared staging h = (Inr u, h')"
  shows "\<exists>cmd. performed [VkBarrier cmd (bridge_acquire_barrier c shared),
    VkCopyBuffer cmd (vb_buffer shared) (vb_buffer staging) (vb_logical_size shared),
    VkBarrier cmd (host_read_barrier c staging)] h h'"
proof -
  from submit_performed [OF assms [unfolded acquire_and_copy_to_staging_def]] obtain cmd h1 h2 u' where
    r: "then_do (vk_do drv (VkBarrier cmd (bridge_acquire_barrier c shared))) (\<lambda>_.
       then_do (vk_do drv (VkCopyBuffer cmd (vb_buffer shared) (vb_buffer staging) (vb_logical_size shared))) (\<lambda>_.
       vk_do drv (VkBarrier cmd (host_read_barrier c staging)))) h1 = (u', h2)"
    and ends: "performed [] h h1" "performed [] h2 h'" by blast
  let ?calls = "[VkBarrier cmd (bridge_acquire_barrier c shared),
    VkCopyBuffer cmd (vb_buffer shared) (vb_buffer staging) (vb_logical_size shared),
    VkBarrier cmd (host_read_barrier c staging)]"
  from r have "performed ?calls h1 h2" by (auto simp: then_do_eq vk_do_eq performed_def)
  with ends have "performed ([] @ ?calls @ []) h h'" by (blast intro: performed_trans)
  then show ?thesis by auto
qed

lemma map_and_read_ok:
  assumes "map_and_read drv c what b n h = (Inr bs, h')"
  shows "\<exists>p a pre post. h' = h @ pre @ (HostRead p n, a) # post \<and> bs = exactly n (an_bytes a)"
proof -
  from assms obtain p a x y where
    "h' = h @ [x] @ (HostRead p n, a) # [y] \<and> bs = exactly n (an_bytes a)"
    by (auto simp: map_and_read_def effect_eqs vk_call_Inr vk_do_eq)
  then show ?thesis by blast
qed

lemma verify_staging_ok:
  assumes "verify_staging drv c b pattern h = (Inr v, h')"
  shows "v = vb_logical_size b \<and> (\<exists>p a pre post. h' = h @ pre @ (HostRead p (unat v), a) # post
    \<and> exactly (unat v) (an_bytes a) = replicate (unat v) pattern)"
proof -
  from assms obtain bs where r: "map_and_read drv c ''vkMapMemory(staging)'' b (unat (vb_logical_size b)) h = (Inr bs, h')"
    and none: "List.find (\<lambda>i. bs ! i \<noteq> pattern) [0..<length bs] = None" and v: "v = vb_logical_size b"
    by (auto simp: verify_staging_def effect_eqs split: option.splits)
  from map_and_read_ok [OF r] obtain p a pre post where
    h': "h' = h @ pre @ (HostRead p (unat v), a) # post" "bs = exactly (unat v) (an_bytes a)" by (auto simp: v)
  with none have "bs = replicate (unat v) pattern" by (auto simp: find_None_iff intro!: nth_equalityI)
  with h' v show ?thesis by metis
qed

text \<open>HIP imports what was exported, fills it, waits, and gives it back.\<close>

definition fill_calls :: "ptr \<Rightarrow> u64 \<Rightarrow> u64 \<Rightarrow> u8 \<Rightarrow> nat \<Rightarrow> ptr \<Rightarrow> ptr \<Rightarrow> gpu_call list" where
  "fill_calls handle allocation_size n pattern usize_bytes e p =
     [HipImport \<lparr>id_type = hip_handle_type_opaque_win32_kmt, id_handle = handle, id_size = allocation_size, id_flags = 0\<rparr>,
      HipMap e \<lparr>bd_offset = 0, bd_size = n, bd_flags = 0\<rparr>, HipMemset p (ucast pattern) usize_bytes, HipSynchronize,
      HipFree p, HipDestroyExternal e]"

lemma hip_fill_external_performed:
  assumes "hip_fill_external drv rt handle allocation_size n pattern usize_bytes h = (Inr u, h')"
  shows "\<exists>e p. performed (fill_calls handle allocation_size n pattern usize_bytes e p) h h'"
  using assms
  unfolding hip_fill_external_def import_memory_def map_external_memory_def hip_fill_def drop_mapped_def drop_external_def Let_def
  by (fastforce simp: effect_eqs hip_call_Inr performed_def fill_calls_def split: if_splits)

lemma export_performed:
  assumes "export_kmt_handle drv c b h = (Inr handle, h')"
  shows "h' = h @ [(VkGetWin32Handle (vc_device c) (vb_memory b), drv h (VkGetWin32Handle (vc_device c) (vb_memory b)))]"
    and "handle = an_handle (drv h (VkGetWin32Handle (vc_device c) (vb_memory b)))"
  using assms by (auto simp: export_kmt_handle_def effect_eqs vk_call_Inr)


lemma extends_create_context [extending]: "extends (create_context drv app refusal)"
proof -
  have "extends (device_candidates drv inst ds acc)" for inst ds acc
    by (induction ds arbitrary: acc) (auto intro!: extending split: option.split)
  then have "extends (select_vulkan_device drv inst)" for inst
    unfolding select_vulkan_device_def by (intro extending)
  then show ?thesis
    unfolding create_context_def create_device_def create_command_pool_def Let_def
    by (auto intro!: extending split: prod.split)
qed

lemma extends_bridge_create [extending]: "extends (bridge_create drv env)"
proof -
  have "extends (bridge_load_first drv cs fs)" for cs fs by (induction cs arbitrary: fs) (auto intro!: extending)
  moreover have "extends (bridge_load_required drv l name)" for l name
    unfolding bridge_load_required_def by (intro extending)
  moreover from this have "extends (bridge_load_symbols drv l ns)" for l ns
    by (induction ns) (auto intro!: extending simp: bridge_load_required_def)
  moreover have "extends (device_names drv rt is acc)" for rt "is" acc
    by (induction "is" arbitrary: acc) (auto intro!: extending)
  ultimately show ?thesis
    unfolding bridge_create_def bridge_context_def hip_runtime_load_def hip_runtime_init_def select_device_def
      hip_devices_def close_library_def drop_context_def Let_def
    by (auto intro!: extending split: prod.split)
qed

definition zero_copy_calls ::
  "vulkan_context \<Rightarrow> vulkan_buffer \<Rightarrow> vulkan_buffer \<Rightarrow> ptr \<Rightarrow> u64 \<Rightarrow> u8 \<Rightarrow> ptr \<Rightarrow> ptr \<Rightarrow> ptr \<Rightarrow> ptr \<Rightarrow> gpu_call list" where
  "zero_copy_calls c shared staging handle n pattern cmd1 cmd2 e p =
     [VkGetWin32Handle (vc_device c) (vb_memory shared), VkBarrier cmd1 (bridge_release_barrier c shared)]
     @ fill_calls handle (vb_allocation_size shared) n pattern (unat n) e p
     @ [VkBarrier cmd2 (bridge_acquire_barrier c shared), VkCopyBuffer cmd2 (vb_buffer shared) (vb_buffer staging) n,
        VkBarrier cmd2 (host_read_barrier c staging)]"

lemma zero_copy_transfer_ok:
  assumes "zero_copy_transfer drv b n pattern (unat n) shared staging h = (Inr v, h')"
    and "vb_logical_size shared = n" "vb_logical_size staging = n"
  shows "v = n \<and> (\<exists>handle e p cmd1 cmd2 q a pre post. h' = h @ pre @ (HostRead q (unat n), a) # post
    \<and> subseq (zero_copy_calls (bg_vulkan b) shared staging handle n pattern cmd1 cmd2 e p) (map fst pre)
    \<and> exactly (unat n) (an_bytes a) = replicate (unat n) pattern)"
proof -
  let ?c = "bg_vulkan b"
  from assms(1) obtain handle h1 h2 h3 h4 u2 u3 u4 where
    e: "export_kmt_handle drv ?c shared h = (Inr handle, h1)"
    and r: "bridge_release_to_external drv ?c shared h1 = (Inr u2, h2)"
    and f: "hip_fill_external drv (bg_hip b) handle (vb_allocation_size shared) n pattern (unat n) h2 = (Inr u3, h3)"
    and a: "acquire_and_copy_to_staging drv ?c shared staging h3 = (Inr u4, h4)"
    and v: "verify_staging drv ?c staging pattern h4 = (Inr v, h')"
    by (auto simp: zero_copy_transfer_def effect_eqs)
  from export_performed(1) [OF e] have p1: "performed [VkGetWin32Handle (vc_device ?c) (vb_memory shared)] h h1"
    by (simp add: performed_call)
  from r obtain cmd1 where p2: "performed [VkBarrier cmd1 (bridge_release_barrier ?c shared)] h1 h2"
    by (auto simp: bridge_release_to_external_def dest: barrier_performed)
  from hip_fill_external_performed [OF f] obtain e' p where
    p3: "performed (fill_calls handle (vb_allocation_size shared) n pattern (unat n) e' p) h2 h3" by blast
  from acquire_and_copy_performed [OF a] obtain cmd2 where
    p4: "performed [VkBarrier cmd2 (bridge_acquire_barrier ?c shared),
      VkCopyBuffer cmd2 (vb_buffer shared) (vb_buffer staging) n, VkBarrier cmd2 (host_read_barrier ?c staging)] h3 h4"
    by (auto simp: assms(2))
  from performed_trans [OF p1 performed_trans [OF p2 performed_trans [OF p3 p4]]]
  have "performed (zero_copy_calls ?c shared staging handle n pattern cmd1 cmd2 e' p) h h4"
    by (simp add: zero_copy_calls_def)
  then obtain new where new: "h4 = h @ new"
    "subseq (zero_copy_calls ?c shared staging handle n pattern cmd1 cmd2 e' p) (map fst new)"
    by (auto simp: performed_def)
  from verify_staging_ok [OF v] obtain q x pre post where vn: "v = n"
    and read: "h' = h4 @ pre @ (HostRead q (unat n), x) # post" "exactly (unat n) (an_bytes x) = replicate (unat n) pattern"
    by (auto simp: assms(3))
  have "subseq (zero_copy_calls ?c shared staging handle n pattern cmd1 cmd2 e' p) (map fst (new @ pre))"
    using new(2) by (simp add: subseq_rev_drop_many)
  moreover have "h' = h @ (new @ pre) @ (HostRead q (unat n), x) # post" by (simp add: new(1) read(1))
  ultimately show ?thesis using vn read(2) by blast
qed

lemma extends_at: "extends m \<Longrightarrow> m h = (x, h') \<Longrightarrow> \<exists>new. h' = h @ new"
  unfolding extends_def by (metis snd_conv)

lemma run_zero_copy_ok:
  assumes "run_zero_copy drv n pattern (unat n) b h = (Inr report, h')"
  shows "zc_bytes report = n \<and> zc_pattern report = pattern \<and> zc_verified_bytes report = n
    \<and> (\<exists>shared staging handle e p cmd1 cmd2 q a pre post. h' = h @ pre @ (HostRead q (unat n), a) # post
    \<and> subseq (zero_copy_calls (bg_vulkan b) shared staging handle n pattern cmd1 cmd2 e p) (map fst pre)
    \<and> exactly (unat n) (an_bytes a) = replicate (unat n) pattern)"
proof -
  from assms obtain x h1 shared h2 staging h3 v h4 h5 u u' where
    s: "select_hip_device drv b h = (Inr x, h1)" "bridge_shared_buffer drv (bg_vulkan b) n h1 = (Inr shared, h2)"
      "bridge_staging_buffer drv (bg_vulkan b) n h2 = (Inr staging, h3)"
    and t: "zero_copy_transfer drv b n pattern (unat n) shared staging h3 = (Inr v, h4)"
    and d: "drop_buffer drv staging h4 = (u, h5)" "drop_buffer drv shared h5 = (u', h')"
    and report: "zc_bytes report = n" "zc_pattern report = pattern" "zc_verified_bytes report = v"
    by (auto simp: run_zero_copy_def effect_eqs)
  from s have sizes: "vb_logical_size shared = n" "vb_logical_size staging = n"
    by (auto simp: bridge_shared_buffer_def bridge_staging_buffer_def dest: create_buffer_size)
  have "extends (select_hip_device drv b)" "extends (bridge_shared_buffer drv (bg_vulkan b) n)"
    "extends (bridge_staging_buffer drv (bg_vulkan b) n)"
    unfolding select_hip_device_def bridge_shared_buffer_def bridge_staging_buffer_def by (intro extending)+
  from this(1) [THEN extends_at, OF s(1)] this(2) [THEN extends_at, OF s(2)] this(3) [THEN extends_at, OF s(3)]
  obtain before where h3: "h3 = h @ before" by force
  from extends_at [OF extends_drop_buffer d(1)] extends_at [OF extends_drop_buffer d(2)]
  obtain after where h': "h' = h4 @ after" by force
  from zero_copy_transfer_ok [OF t sizes] obtain handle e p cmd1 cmd2 q a pre post where v: "v = n"
    and h4: "h4 = h3 @ pre @ (HostRead q (unat n), a) # post"
    and calls: "subseq (zero_copy_calls (bg_vulkan b) shared staging handle n pattern cmd1 cmd2 e p) (map fst pre)"
    and same: "exactly (unat n) (an_bytes a) = replicate (unat n) pattern" by blast
  have "h' = h @ (before @ pre) @ (HostRead q (unat n), a) # (post @ after)" by (simp add: h' h4 h3)
  moreover have "subseq (zero_copy_calls (bg_vulkan b) shared staging handle n pattern cmd1 cmd2 e p)
      (map fst (before @ pre))"
    using calls by (simp add: subseq_drop_many)
  ultimately show ?thesis using report v same by blast
qed


lemma hip_relay_performed:
  assumes "hip_relay drv rt pattern n h = (Inr relay, h')"
  shows "\<exists>p. performed [HipMalloc n, HipMemset p (ucast pattern) n, HipSynchronize, HipMemcpyToHost p n,
      HipSynchronize, HipFree p] h h' \<and> length relay = n"
  using assms
  unfolding hip_relay_def allocate_device_memory_def hip_fill_def copy_device_to_host_def drop_device_memory_def
  by (fastforce simp: effect_eqs hip_call_Inr performed_def split: if_splits)

section \<open>Properties\<close>

text \<open>
  C31. After any sequence of transfers, successful or not, whatever HIP, Vulkan and the platform
  loader answer, every call so far was permitted and the resources that are live are exactly
  those of the persistent runtime: its Vulkan context and the HIP library, or nothing when the
  runtime was not created. A failed creation, import, mapping or transfer leaves nothing behind.
\<close>

theorem bridge_holds_only_its_runtime:
  assumes "bridge_reachable drv env s"
  shows "\<not> br_poisoned s \<and> (\<exists>live. gpu_audit (br_calls s) = Some live
    \<and> mset live = (case br_runtime s of None \<Rightarrow> {#} | Some b \<Rightarrow> bridge_holds b))"
  using bridge_reachable_invariant [OF assms] by (simp add: bridge_invariant_def bridge_live_def)

theorem bridge_holds_only_its_runtime_witness:
  "\<exists>r s live. run_zero_copy_smoke True demo_vulkan_driver (\<lambda>_. None) 4 9 (bridge_new []) = (r, s)
    \<and> gpu_audit (br_calls s) = Some live \<and> mset live = (case br_runtime s of None \<Rightarrow> {#} | Some b \<Rightarrow> bridge_holds b)"
proof -
  obtain r s where run: "run_zero_copy_smoke True demo_vulkan_driver (\<lambda>_. None) 4 9 (bridge_new []) = (r, s)"
    by fastforce
  from bridge_reachable.zero_copied [OF bridge_reachable.started run]
  have "bridge_reachable demo_vulkan_driver (\<lambda>_. None) s" .
  from bridge_holds_only_its_runtime [OF this] run show ?thesis by blast
qed

text \<open>
  C29. A zero-copy report is evidence: the size is non-zero and within the configured maximum,
  and the calls of the run contain, in this order, the export of the shared memory, its release
  to the external queue family, the import of the exported handle into HIP, its mapping, the
  fill with the pattern, the wait, the release of mapping and import, the acquire back to the
  queue family of Vulkan, the copy into the staging buffer, the barrier that makes it visible,
  and only then a read of all the bytes by the host, every one of which was the pattern.
\<close>

theorem zero_copy_report_is_verified:
  assumes "run_zero_copy_smoke windows drv env n pattern s = (Inr report, s')"
  shows "n \<noteq> 0 \<and> n \<le> smoke_maximum env
    \<and> zc_bytes report = n \<and> zc_pattern report = pattern \<and> zc_verified_bytes report = n
    \<and> (\<exists>b shared staging handle e p cmd1 cmd2 q a pre post.
        br_runtime s' = Some b \<and> br_calls s' = br_calls s @ pre @ (HostRead q (unat n), a) # post
        \<and> subseq (zero_copy_calls (bg_vulkan b) shared staging handle n pattern cmd1 cmd2 e p) (map fst pre)
        \<and> exactly (unat n) (an_bytes a) = replicate (unat n) pattern)"
proof -
  from assms have valid: "validate_transfer_size env n ''zero-copy smoke'' = Inr (unat n)"
    and run: "with_bridge_runtime drv env (run_zero_copy drv n pattern (unat n)) s = (Inr report, s')"
    by (auto simp: run_zero_copy_smoke_def validate_transfer_size_def result_iffs usize_try_from_def
        split: if_splits sum.splits)
  let ?start = "case br_runtime s of None \<Rightarrow> bridge_create drv env | Some b \<Rightarrow> give (Inr b)"
  from run obtain b h h' where st: "?start (br_calls s) = (Inr b, h)"
    and op: "run_zero_copy drv n pattern (unat n) b h = (Inr report, h')"
    and s': "br_runtime s' = Some b" "br_calls s' = h'"
    by (auto simp: with_bridge_runtime_def split: if_splits prod.splits sum.splits)
  have "extends ?start" by (cases "br_runtime s") (auto intro: extending)
  from extends_at [OF this st] obtain earlier where h: "h = br_calls s @ earlier" by blast
  from run_zero_copy_ok [OF op] obtain shared staging handle e p cmd1 cmd2 q a pre post where
    report: "zc_bytes report = n" "zc_pattern report = pattern" "zc_verified_bytes report = n"
    and h': "h' = h @ pre @ (HostRead q (unat n), a) # post"
    and calls: "subseq (zero_copy_calls (bg_vulkan b) shared staging handle n pattern cmd1 cmd2 e p) (map fst pre)"
    and same: "exactly (unat n) (an_bytes a) = replicate (unat n) pattern" by blast
  have "br_calls s' = br_calls s @ (earlier @ pre) @ (HostRead q (unat n), a) # post" by (simp add: s' h' h)
  moreover have "subseq (zero_copy_calls (bg_vulkan b) shared staging handle n pattern cmd1 cmd2 e p)
      (map fst (earlier @ pre))" using calls by (simp add: subseq_drop_many)
  moreover have "n \<noteq> 0 \<and> n \<le> smoke_maximum env" using valid by (auto simp: validate_transfer_size_def result_iffs)
  ultimately show ?thesis using report same s'(1) by blast
qed

definition demo_bridge :: bridge where
  "demo_bridge = \<lparr>br_poisoned = False, br_runtime = Some \<lparr>bg_vulkan = fst demo_acquire,
     bg_hip = \<lparr>hr_library = 8, hr_get_error_string = False\<rparr>, bg_hip_device_index = 0,
     bg_hip_device_name = ''demo''\<rparr>, br_calls = []\<rparr>"

lemma demo_zero_copy:
  "is_ok (fst (run_zero_copy_smoke True demo_vulkan_driver (\<lambda>_. None) 4 9 demo_bridge))"
  by code_simp

theorem zero_copy_report_is_verified_witness:
  "\<exists>report s'. run_zero_copy_smoke True demo_vulkan_driver (\<lambda>_. None) 4 9 demo_bridge = (Inr report, s')
    \<and> zc_verified_bytes report = 4
    \<and> (\<exists>pre q a post. br_calls s' = pre @ (HostRead q 4, a) # post \<and> exactly 4 (an_bytes a) = [9, 9, 9, 9])"
proof -
  obtain report s' where run: "run_zero_copy_smoke True demo_vulkan_driver (\<lambda>_. None) 4 9 demo_bridge = (Inr report, s')"
    using demo_zero_copy
    by (cases "run_zero_copy_smoke True demo_vulkan_driver (\<lambda>_. None) 4 9 demo_bridge";
        cases "fst (run_zero_copy_smoke True demo_vulkan_driver (\<lambda>_. None) 4 9 demo_bridge)") auto
  from zero_copy_report_is_verified [OF run] obtain q a pre post where
    "zc_verified_bytes report = 4" "br_calls s' = br_calls demo_bridge @ pre @ (HostRead q (unat (4 :: u64)), a) # post"
    "exactly (unat (4 :: u64)) (an_bytes a) = replicate (unat (4 :: u64)) 9" by blast
  moreover have "unat (4 :: u64) = 4" "br_calls demo_bridge = []" by (simp_all add: demo_bridge_def)
  moreover have "replicate 4 (9 :: u8) = [9, 9, 9, 9]" by (simp add: numeral_eq_Suc)
  ultimately show ?thesis using run by (intro exI [of _ report] exI [of _ s']) auto
qed

end
