(* ===== verification/Autotune.thy ===== *)
theory Autotune
  imports Core Bytes
begin

text \<open>
  The crate \<open>vrb-autotune\<close>: fingerprints, shapes and records with their validation, the
  database with its projection into the performance table of the router, and its persistence.
  Files are a map from paths to contents; any call may fail. The JSON encoder and decoder of
  \<open>serde_json\<close> are parameters.
\<close>

section \<open>Data\<close>

definition autotune_schema_version :: u32 where "autotune_schema_version = 1"

record environment_fingerprint =
  ef_gpu_arch :: string
  ef_driver_version :: string
  ef_runtime_version :: string
  ef_plugin_version :: string

record workload_shape =
  ws_dims :: "u64 list"
  ws_alignment :: u32

record tuning_key =
  tk_environment :: environment_fingerprint
  tk_backend :: backend_id
  tk_operation :: operation_kind
  tk_data_type :: data_type
  tk_shape :: workload_shape

record tuning_record =
  tn_key :: tuning_key
  tn_median_microseconds :: f64
  tn_samples :: u32

record autotune_database =
  ad_schema_version :: u32
  ad_records :: "tuning_record list"

datatype autotune_error =
    InvalidFingerprint string
  | InvalidShape
  | ShapeOverflow
  | InvalidAlignment u32
  | InvalidLatency f64
  | ZeroSamples
  | UnsupportedSchema u32
  | AutotuneIo string
  | AutotuneJson string

definition database_default :: autotune_database where
  "database_default = \<lparr>ad_schema_version = autotune_schema_version, ad_records = []\<rparr>"

section \<open>Validation\<close>

definition fingerprint_validate :: "environment_fingerprint \<Rightarrow> autotune_error + unit" where
  "fingerprint_validate f =
     try_all (\<lambda>(name, text). ensure (trim text \<noteq> []) (InvalidFingerprint name))
       [(''gpu_arch'', ef_gpu_arch f), (''driver_version'', ef_driver_version f),
        (''runtime_version'', ef_runtime_version f), (''plugin_version'', ef_plugin_version f)]"

definition is_power_of_two :: "u32 \<Rightarrow> bool" where
  "is_power_of_two w = (w \<noteq> 0 \<and> w AND (w - 1) = 0)"

definition shape_validate :: "workload_shape \<Rightarrow> autotune_error + unit" where
  "shape_validate s =
     and_then (ensure (ws_dims s \<noteq> [] \<and> 0 \<notin> set (ws_dims s)) InvalidShape) (\<lambda>_.
     and_then (ensure (ws_alignment s \<noteq> 0 \<and> is_power_of_two (ws_alignment s)) (InvalidAlignment (ws_alignment s))) (\<lambda>_.
     and_then (try_fold (\<lambda>acc dim. ok_or (checked_mul acc dim) ShapeOverflow) 1 (ws_dims s)) (\<lambda>_. Inr ())))"

definition key_validate :: "tuning_key \<Rightarrow> autotune_error + unit" where
  "key_validate k =
     and_then (fingerprint_validate (tk_environment k)) (\<lambda>_.
     and_then (shape_validate (tk_shape k)) (\<lambda>_. Inr ()))"

definition record_validate :: "tuning_record \<Rightarrow> autotune_error + unit" where
  "record_validate r =
     and_then (key_validate (tn_key r)) (\<lambda>_.
     and_then (ensure (f64_is_finite (tn_median_microseconds r) \<and> \<not> f64_less (tn_median_microseconds r) 0)
       (InvalidLatency (tn_median_microseconds r))) (\<lambda>_.
     and_then (ensure (tn_samples r \<noteq> 0) ZeroSamples) (\<lambda>_. Inr ())))"

text \<open>For evaluation: the comparison with zero is one of bit patterns.\<close>

lemma record_validate_code [code]:
  "record_validate r =
     and_then (key_validate (tn_key r)) (\<lambda>_.
     and_then (ensure (usable_measurement (tn_median_microseconds r)) (InvalidLatency (tn_median_microseconds r))) (\<lambda>_.
     and_then (ensure (tn_samples r \<noteq> 0) ZeroSamples) (\<lambda>_. Inr ())))"
proof -
  have "f64_is_finite v \<and> \<not> f64_less v 0 \<longleftrightarrow> usable_measurement v" for v
    using f64_not_less_zero [of v] f64_cost_iff [of v] by (auto simp: usable_measurement_def)
  then show ?thesis by (simp add: record_validate_def)
qed

section \<open>The database\<close>

definition database_record :: "autotune_database \<Rightarrow> tuning_record \<Rightarrow> autotune_error + autotune_database" where
  "database_record db record =
     and_then (record_validate record) (\<lambda>_.
     Inr (db\<lparr>ad_records := upsert (\<lambda>existing. tn_key existing = tn_key record) record (ad_records db)\<rparr>))"

definition database_lookup :: "autotune_database \<Rightarrow> tuning_key \<Rightarrow> tuning_record option" where
  "database_lookup db key = find (\<lambda>record. tn_key record = key) (ad_records db)"

definition performance_record_of :: "tuning_record \<Rightarrow> performance_record" where
  "performance_record_of r = \<lparr>pr_backend = tk_backend (tn_key r), pr_operation = tk_operation (tn_key r),
     pr_data_type = tk_data_type (tn_key r), pr_median_microseconds = tn_median_microseconds r,
     pr_samples = tn_samples r\<rparr>"

definition performance_table_for ::
  "autotune_database \<Rightarrow> environment_fingerprint \<Rightarrow> workload_shape \<Rightarrow> autotune_error + performance_table" where
  "performance_table_for db environment shape =
     and_then (fingerprint_validate environment) (\<lambda>_.
     and_then (shape_validate shape) (\<lambda>_.
     try_fold (\<lambda>table record. and_then (record_validate record) (\<lambda>_.
         Inr (table_record table (performance_record_of record)))) []
       (filter (\<lambda>record. tk_environment (tn_key record) = environment \<and> tk_shape (tn_key record) = shape)
         (ad_records db))))"

section \<open>Files\<close>

text \<open>
  A path by what \<open>std::path\<close> tells of it: its parent, and its last component if that is a
  name. A file system is its contents and the number of calls so far; the world says which
  calls fail, how, and what a failed write leaves behind.
\<close>

record fs_path =
  fp_parent :: "string option"
  fp_stem :: string
  fp_name :: "string option"

record fs_world =
  fw_fault :: "nat \<Rightarrow> string option"
  fw_torn :: "nat \<Rightarrow> bytes option"
  fw_missing :: string

record fs_state =
  fs_files :: "fs_path \<Rightarrow> bytes option"
  fs_calls :: nat

type_synonym 'x fs_effect = "fs_state \<Rightarrow> (autotune_error + 'x) \<times> fs_state"

definition tick :: "fs_state \<Rightarrow> fs_state" where
  "tick s = s\<lparr>fs_calls := Suc (fs_calls s)\<rparr>"

definition put_file :: "fs_path \<Rightarrow> bytes option \<Rightarrow> fs_state \<Rightarrow> fs_state" where
  "put_file p content s = s\<lparr>fs_files := (fs_files s)(p := content)\<rparr>"

definition io_then :: "'x fs_effect \<Rightarrow> ('x \<Rightarrow> 'y fs_effect) \<Rightarrow> 'y fs_effect" where
  "io_then m f s = (case m s of (Inl e, s') \<Rightarrow> (Inl e, s') | (Inr x, s') \<Rightarrow> f x s')"

definition io_give :: "autotune_error + 'x \<Rightarrow> 'x fs_effect" where
  "io_give r s = (r, s)"

text \<open>A call that may fail before it has any effect.\<close>

definition fs_attempt :: "fs_world \<Rightarrow> 'x fs_effect \<Rightarrow> 'x fs_effect" where
  "fs_attempt w m s =
     (case fw_fault w (fs_calls s) of
        Some e \<Rightarrow> (Inl (AutotuneIo e), tick s)
      | None \<Rightarrow> m (tick s))"

definition fs_read :: "fs_world \<Rightarrow> fs_path \<Rightarrow> bytes fs_effect" where
  "fs_read w p = fs_attempt w (\<lambda>s.
     (case fs_files s p of None \<Rightarrow> Inl (AutotuneIo (fw_missing w)) | Some bs \<Rightarrow> Inr bs, s))"

definition fs_create_dir_all :: "fs_world \<Rightarrow> string \<Rightarrow> unit fs_effect" where
  "fs_create_dir_all w parent = fs_attempt w (io_give (Inr ()))"

definition fs_write :: "fs_world \<Rightarrow> fs_path \<Rightarrow> bytes \<Rightarrow> unit fs_effect" where
  "fs_write w p bs s =
     (case fw_fault w (fs_calls s) of
        Some e \<Rightarrow> (Inl (AutotuneIo e), put_file p (fw_torn w (fs_calls s)) (tick s))
      | None \<Rightarrow> (Inr (), put_file p (Some bs) (tick s)))"

definition fs_rename :: "fs_world \<Rightarrow> fs_path \<Rightarrow> fs_path \<Rightarrow> unit fs_effect" where
  "fs_rename w a b = fs_attempt w (\<lambda>s.
     (case fs_files s a of
        None \<Rightarrow> (Inl (AutotuneIo (fw_missing w)), s)
      | Some bs \<Rightarrow> (Inr (), put_file b (Some bs) (put_file a None s))))"

definition fs_remove_file :: "fs_world \<Rightarrow> fs_path \<Rightarrow> unit fs_effect" where
  "fs_remove_file w p = fs_attempt w (\<lambda>s.
     (if fs_files s p = None then (Inl (AutotuneIo (fw_missing w)), s) else (Inr (), put_file p None s)))"

text \<open>\<open>Path::exists\<close> answers false when it cannot tell.\<close>

definition fs_exists :: "fs_world \<Rightarrow> fs_path \<Rightarrow> fs_state \<Rightarrow> bool \<times> fs_state" where
  "fs_exists w p s = (fw_fault w (fs_calls s) = None \<and> fs_files s p \<noteq> None, tick s)"

section \<open>Persistence\<close>

definition temporary_path :: "nat \<Rightarrow> fs_path \<Rightarrow> fs_path" where
  "temporary_path pid p =
     (let name = (case fp_name p of Some name \<Rightarrow> name | None \<Rightarrow> ''vrb-autotune.json'')
      in p\<lparr>fp_name := Some (name @ ''.'' @ show_nat pid @ ''.tmp'')\<rparr>)"

definition database_load ::
  "(bytes \<Rightarrow> string + autotune_database) \<Rightarrow> fs_world \<Rightarrow> fs_path \<Rightarrow> autotune_database fs_effect" where
  "database_load from_json w path =
     io_then (fs_read w path) (\<lambda>bs.
     io_then (io_give (map_err AutotuneJson (from_json bs))) (\<lambda>database.
     io_then (io_give (ensure (ad_schema_version database = autotune_schema_version)
       (UnsupportedSchema (ad_schema_version database)))) (\<lambda>_.
     io_then (io_give (try_all record_validate (ad_records database))) (\<lambda>_.
     io_give (Inr database)))))"

text \<open>Moving the temporary file over the target, by removing the target first if need be.\<close>

definition replace_file :: "fs_world \<Rightarrow> fs_path \<Rightarrow> fs_path \<Rightarrow> unit fs_effect" where
  "replace_file w temporary path s =
     (case fs_rename w temporary path s of
        (Inr u, s1) \<Rightarrow> (Inr (), s1)
      | (Inl first_error, s1) \<Rightarrow>
          (case fs_exists w path s1 of
             (present, s2) \<Rightarrow>
               if present then io_then (fs_remove_file w path) (\<lambda>_. fs_rename w temporary path) s2
               else (Inl first_error, snd (fs_remove_file w temporary s2))))"

definition database_save ::
  "(autotune_database \<Rightarrow> string + bytes) \<Rightarrow> nat \<Rightarrow> fs_world \<Rightarrow> autotune_database \<Rightarrow> fs_path \<Rightarrow> unit fs_effect" where
  "database_save to_json pid w db path =
     io_then (io_give (ensure (ad_schema_version db = autotune_schema_version)
       (UnsupportedSchema (ad_schema_version db)))) (\<lambda>_.
     io_then (io_give (try_all record_validate (ad_records db))) (\<lambda>_.
     io_then (case fp_parent path of
         None \<Rightarrow> io_give (Inr ())
       | Some parent \<Rightarrow> if parent = [] then io_give (Inr ()) else fs_create_dir_all w parent) (\<lambda>_.
     io_then (io_give (map_err AutotuneJson (to_json db))) (\<lambda>bs.
     io_then (fs_write w (temporary_path pid path) bs) (\<lambda>_.
     replace_file w (temporary_path pid path) path)))))"

section \<open>Laws\<close>

lemma temporary_path_differs: "temporary_path pid p \<noteq> p"
proof -
  have "fp_name (temporary_path pid p) \<noteq> fp_name p"
    by (cases "fp_name p") (simp_all add: temporary_path_def Let_def)
  then show ?thesis by auto
qed

lemma fs_files_tick [simp]: "fs_files (tick s) = fs_files s"
  by (simp add: tick_def)

lemma fs_files_put [simp]: "fs_files (put_file p c s) = (fs_files s)(p := c)"
  by (simp add: put_file_def)

lemma io_then_Inr: "io_then m f s = (Inr y, s'') \<longleftrightarrow> (\<exists>x s'. m s = (Inr x, s') \<and> f x s' = (Inr y, s''))"
  by (auto simp: io_then_def split: prod.splits sum.splits)

text \<open>What replacing a file does to it, its temporary file and the others.\<close>

lemma replace_file_effect:
  assumes "replace_file w temporary path s = (r, s')" "temporary \<noteq> path" "fs_files s temporary = Some bs"
  shows "(\<forall>p. p \<notin> {temporary, path} \<longrightarrow> fs_files s' p = fs_files s p)
    \<and> (r = Inr () \<longrightarrow> fs_files s' path = Some bs \<and> fs_files s' temporary = None)
    \<and> (r \<noteq> Inr () \<longrightarrow> fs_files s' path = fs_files s path
        \<or> fs_files s' path = None \<and> fs_files s' temporary = Some bs)"
  using assms
  by (auto simp: replace_file_def fs_rename_def fs_attempt_def fs_exists_def fs_remove_file_def io_then_def
      split: option.splits prod.splits sum.splits if_splits)


lemma io_then_give: "io_then (io_give r) f s = (case r of Inl e \<Rightarrow> (Inl e, s) | Inr x \<Rightarrow> f x s)"
  by (simp add: io_then_def io_give_def split: sum.split)

lemma fs_write_Inr: "fs_write w p bs s = (Inr u, s') \<longleftrightarrow> fw_fault w (fs_calls s) = None \<and> s' = put_file p (Some bs) (tick s)"
  by (auto simp: fs_write_def split: option.splits)

text \<open>Everything before the temporary file is complete leaves all other files alone.\<close>

definition saves :: "fs_path \<Rightarrow> fs_path \<Rightarrow> bytes \<Rightarrow> fs_state \<Rightarrow> (autotune_error + unit) \<times> fs_state \<Rightarrow> bool" where
  "saves temporary path bs s = (\<lambda>(r, s').
     (\<forall>p. p \<notin> {temporary, path} \<longrightarrow> fs_files s' p = fs_files s p)
     \<and> (r = Inr () \<longrightarrow> fs_files s' path = Some bs \<and> fs_files s' temporary = None)
     \<and> (r \<noteq> Inr () \<longrightarrow> fs_files s' path = fs_files s path
        \<or> fs_files s' path = None \<and> fs_files s' temporary = Some bs))"

lemma saves_fails: "fs_files s' = fs_files s \<Longrightarrow> saves t p bs s (Inl e, s')"
  by (simp add: saves_def)

lemma saves_io_give:
  assumes "\<And>e. saves t p bs s (Inl e, s0)" "\<And>x. saves t p bs s (f x s0)"
  shows "saves t p bs s (io_then (io_give r) f s0)"
  using assms by (simp add: io_then_give split: sum.split)

lemma save_tail:
  assumes "temporary \<noteq> path"
  shows "saves temporary path bs s
    (io_then (fs_write w temporary bs) (\<lambda>_. replace_file w temporary path) s)"
proof (cases "fw_fault w (fs_calls s)")
  case None
  let ?s = "put_file temporary (Some bs) (tick s)"
  obtain r s' where r: "replace_file w temporary path ?s = (r, s')" by fastforce
  from replace_file_effect [OF r assms] assms show ?thesis
    by (auto simp: io_then_def fs_write_def None r saves_def)
next
  case (Some e)
  with assms show ?thesis by (simp add: io_then_def fs_write_def saves_def)
qed

lemma database_save_effect:
  assumes "\<And>b. to_json db = Inr b \<Longrightarrow> b = bs"
  shows "saves (temporary_path pid path) path bs s (database_save to_json pid w db path s)"
proof -
  let ?t = "temporary_path pid path"
  have tail: "saves ?t path b s0 (io_then (fs_write w ?t b) (\<lambda>_. replace_file w ?t path) s0)" for b s0
    by (rule save_tail) (rule temporary_path_differs)
  have same: "saves ?t path bs s x \<longleftrightarrow> saves ?t path bs s0 x" if "fs_files s0 = fs_files s" for s0 x
    by (simp add: saves_def that)
  have json: "saves ?t path bs s (io_then (io_give (map_err AutotuneJson (to_json db))) (\<lambda>b.
      io_then (fs_write w ?t b) (\<lambda>_. replace_file w ?t path)) s0)" if "fs_files s0 = fs_files s" for s0
  proof (cases "to_json db")
    case (Inl e)
    with that show ?thesis by (simp add: io_then_def [of "io_give _"] io_give_def saves_fails)
  next
    case (Inr b)
    with assms tail [of b s0] same [OF that] show ?thesis by (simp add: io_then_def [of "io_give _"] io_give_def)
  qed
  let ?dirs = "case fp_parent path of None \<Rightarrow> io_give (Inr ())
      | Some parent \<Rightarrow> if parent = [] then io_give (Inr ()) else fs_create_dir_all w parent"
  obtain r s1 where dirs: "?dirs s = (r, s1)" by fastforce
  then have s1: "fs_files s1 = fs_files s"
    by (auto simp: io_give_def fs_create_dir_all_def fs_attempt_def split: option.splits if_splits)
  have rest: "saves ?t path bs s (io_then ?dirs (\<lambda>_. io_then (io_give (map_err AutotuneJson (to_json db))) (\<lambda>b.
      io_then (fs_write w ?t b) (\<lambda>_. replace_file w ?t path))) s)"
    using json [OF s1] s1 by (cases r) (simp_all add: io_then_def [of ?dirs] dirs saves_fails)
  show ?thesis
    unfolding database_save_def by (intro saves_io_give rest saves_fails refl)
qed

text \<open>What the validations accept, said without them.\<close>

definition fingerprint_ok :: "environment_fingerprint \<Rightarrow> bool" where
  "fingerprint_ok f \<longleftrightarrow>
     (\<forall>t \<in> {ef_gpu_arch f, ef_driver_version f, ef_runtime_version f, ef_plugin_version f}. trim t \<noteq> [])"

definition shape_ok :: "workload_shape \<Rightarrow> bool" where
  "shape_ok s \<longleftrightarrow> ws_dims s \<noteq> [] \<and> (\<forall>d \<in> set (ws_dims s). d \<noteq> 0)
     \<and> (\<exists>n. unat (ws_alignment s) = 2 ^ n) \<and> (\<Prod>d \<leftarrow> ws_dims s. unat d) < 2 ^ 64"

definition record_ok :: "tuning_record \<Rightarrow> bool" where
  "record_ok r \<longleftrightarrow> fingerprint_ok (tk_environment (tn_key r)) \<and> shape_ok (tk_shape (tn_key r))
     \<and> f64_is_finite (tn_median_microseconds r) \<and> f64_le 0 (tn_median_microseconds r) \<and> tn_samples r \<noteq> 0"

lemma fingerprint_validate_iff: "fingerprint_validate f = Inr () \<longleftrightarrow> fingerprint_ok f"
  by (simp add: fingerprint_validate_def fingerprint_ok_def ensure_def and_then_Inr_iff)

lemma power_of_two_nat: "0 < n \<Longrightarrow> and n (n - 1) = 0 \<longleftrightarrow> (\<exists>k. n = 2 ^ k)" for n :: nat
proof (induction n rule: less_induct)
  case (less n)
  show ?case
  proof (cases "even n")
    case True
    then obtain m where m: "n = 2 * m" by (elim evenE)
    with less.prems have "n - 1 = 1 + 2 * (m - 1)" "0 < m" "m < n" by simp_all
    then have "and n (n - 1) = 2 * and m (m - 1)" unfolding m by (simp add: and_rec [of "2 * m"])
    moreover have "(\<exists>k. n = 2 ^ k) \<longleftrightarrow> (\<exists>k. m = 2 ^ k)"
    proof
      assume "\<exists>k. n = 2 ^ k"
      then obtain k where "2 * m = 2 ^ k" using m by auto
      then show "\<exists>k. m = 2 ^ k" by (cases k) auto
    next
      assume "\<exists>k. m = 2 ^ k"
      then show "\<exists>k. n = 2 ^ k" unfolding m by (metis power_Suc)
    qed
    ultimately show ?thesis using less.IH [OF \<open>m < n\<close> \<open>0 < m\<close>] by simp
  next
    case False
    then obtain m where m: "n = 2 * m + 1" by (elim oddE)
    then have "and n (n - 1) = 2 * m" by (simp add: and_rec [of "Suc (2 * m)"])
    moreover have "(\<exists>k. n = 2 ^ k) \<longleftrightarrow> m = 0"
    proof
      assume "\<exists>k. n = 2 ^ k"
      then obtain k where "n = 2 ^ k" ..
      with False have "k = 0" by (cases k) simp_all
      with \<open>n = 2 ^ k\<close> m show "m = 0" by simp
    next
      assume "m = 0"
      with m show "\<exists>k. n = 2 ^ k" by (auto intro: exI [of _ 0])
    qed
    ultimately show ?thesis by simp
  qed
qed

lemma is_power_of_two_iff: "is_power_of_two w \<longleftrightarrow> (\<exists>k. unat w = 2 ^ k)"
proof (cases "w = 0")
  case False
  then have "0 < unat w" by (simp add: unat_gt_0)
  from power_of_two_nat [OF this] False show ?thesis
    by (simp add: is_power_of_two_def word_unat_eq_iff [of "w AND (w - 1)"] unsigned_and_eq unat_minus_one)
qed (simp add: is_power_of_two_def)

lemma fold_product:
  fixes acc :: u64
  shows "0 \<notin> set ds \<Longrightarrow> acc \<noteq> 0 \<Longrightarrow>
    is_ok (try_fold (\<lambda>acc dim. ok_or (checked_mul acc dim) ShapeOverflow) acc ds)
      \<longleftrightarrow> unat acc * (\<Prod>d \<leftarrow> ds. unat d) < 2 ^ 64"
proof (induction ds arbitrary: acc)
  case Nil
  then show ?case using unat_lt2p_num [of acc] by simp
next
  case (Cons d ds)
  have pos: "0 < (\<Prod>d \<leftarrow> ds. unat d)" using Cons.prems(1) by (induction ds) (auto simp: unat_gt_0)
  show ?case
  proof (cases "checked_mul acc d")
    case None
    then have "2 ^ 64 \<le> unat acc * unat d" by (simp add: checked_mul_def split: if_splits)
    also have "\<dots> \<le> unat acc * unat d * (\<Prod>d \<leftarrow> ds. unat d)" using pos by simp
    finally show ?thesis using None by (simp add: ac_simps)
  next
    case (Some x)
    then have "unat x = unat acc * unat d" by (simp add: checked_mul_iff)
    moreover from this Cons.prems have "x \<noteq> 0" by (auto simp: word_unat_eq_iff)
    ultimately show ?thesis using Cons.IH [of x] Cons.prems(1) Some by (simp add: ac_simps)
  qed
qed

lemma shape_validate_iff: "shape_validate s = Inr () \<longleftrightarrow> shape_ok s"
proof -
  have "shape_validate s = Inr () \<longleftrightarrow> ws_dims s \<noteq> [] \<and> 0 \<notin> set (ws_dims s) \<and> is_power_of_two (ws_alignment s)
      \<and> is_ok (try_fold (\<lambda>acc dim. ok_or (checked_mul acc dim) ShapeOverflow) 1 (ws_dims s))"
    by (cases "try_fold (\<lambda>acc dim. ok_or (checked_mul acc dim) ShapeOverflow) 1 (ws_dims s)")
      (auto simp: shape_validate_def ensure_def and_then_Inr_iff is_power_of_two_def)
  then show ?thesis using fold_product [of "ws_dims s" 1] by (auto simp: shape_ok_def is_power_of_two_iff)
qed

lemma record_validate_iff: "record_validate r = Inr () \<longleftrightarrow> record_ok r"
proof -
  have "f64_is_finite v \<and> \<not> f64_less v 0 \<longleftrightarrow> f64_is_finite v \<and> f64_le 0 v" for v
    using f64_not_less_zero [of v] f64_cost_iff [of v] by auto
  then show ?thesis
    by (auto simp: record_validate_def key_validate_def record_ok_def and_then_Inr_iff ensure_def
        fingerprint_validate_iff shape_validate_iff split: if_splits)
qed

text \<open>A database built by recording holds no key twice.\<close>

definition database_wf :: "autotune_database \<Rightarrow> bool" where
  "database_wf db = distinct (map tn_key (ad_records db))"

lemma database_record_wf: "database_wf db \<Longrightarrow> database_record db r = Inr db' \<Longrightarrow> database_wf db'"
  by (auto simp: database_wf_def database_record_def result_iffs intro: upsert_distinct)

lemma recorded_wf: "try_fold database_record db rs = Inr db' \<Longrightarrow> database_wf db \<Longrightarrow> database_wf db'"
  by (induction rs arbitrary: db) (auto simp: and_then_Inr_iff dest: database_record_wf)

text \<open>The fold enters every record, the later ones over the earlier.\<close>

lemma find_snoc:
  "find P (xs @ [x]) = (case find P xs of Some y \<Rightarrow> Some y | None \<Rightarrow> if P x then Some x else None)"
  by (induction xs) auto

lemma fold_projects:
  assumes "try_fold (\<lambda>table record. and_then (record_validate record) (\<lambda>_.
      Inr (table_record table (performance_record_of record)))) t rs = Inr t'"
  shows "median_us t' b op dt =
     (case find (\<lambda>r. (tk_backend (tn_key r), tk_operation (tn_key r), tk_data_type (tn_key r)) = (b, op, dt)) (rev rs) of
        Some r \<Rightarrow> Some (tn_median_microseconds r)
      | None \<Rightarrow> median_us t b op dt)"
  using assms
proof (induction rs arbitrary: t)
  case (Cons r rs)
  let ?t = "table_record t (performance_record_of r)"
  let ?id = "(tk_backend (tn_key r), tk_operation (tn_key r), tk_data_type (tn_key r))"
  have step: "median_us ?t b op dt = (if ?id = (b, op, dt) then Some (tn_median_microseconds r) else median_us t b op dt)"
    using median_us_record_same [of t "performance_record_of r"]
      median_us_record_other [of b op dt "performance_record_of r" t] by (auto simp: performance_record_of_def)
  from Cons have "median_us t' b op dt =
     (case find (\<lambda>r. (tk_backend (tn_key r), tk_operation (tn_key r), tk_data_type (tn_key r)) = (b, op, dt)) (rev rs) of
        Some r \<Rightarrow> Some (tn_median_microseconds r)
      | None \<Rightarrow> median_us ?t b op dt)" by (simp only: try_fold.simps and_then_Inr_iff) auto
  then show ?case unfolding step rev.simps find_snoc by (auto split: option.splits)
qed simp

lemma fold_projects_ok:
  "is_ok (try_fold (\<lambda>table record. and_then (record_validate record) (\<lambda>_.
      Inr (table_record table (performance_record_of record)))) t rs) \<longleftrightarrow> (\<forall>r \<in> set rs. record_ok r)"
proof (induction rs arbitrary: t)
  case (Cons r rs)
  then show ?case by (cases "record_validate r") (use record_validate_iff [of r] in auto)
qed simp

lemma performance_table_ok:
  "is_ok (performance_table_for db environment shape) \<longleftrightarrow> fingerprint_ok environment \<and> shape_ok shape
    \<and> (\<forall>r \<in> set (ad_records db). tk_environment (tn_key r) = environment \<and> tk_shape (tn_key r) = shape \<longrightarrow> record_ok r)"
proof -
  have "is_ok (performance_table_for db environment shape) \<longleftrightarrow>
      fingerprint_validate environment = Inr () \<and> shape_validate shape = Inr () \<and>
      is_ok (try_fold (\<lambda>table record. and_then (record_validate record) (\<lambda>_.
        Inr (table_record table (performance_record_of record)))) []
        (filter (\<lambda>r. tk_environment (tn_key r) = environment \<and> tk_shape (tn_key r) = shape) (ad_records db)))"
    by (cases "fingerprint_validate environment"; cases "shape_validate shape")
      (auto simp: performance_table_for_def)
  then show ?thesis by (auto simp: fingerprint_validate_iff shape_validate_iff fold_projects_ok)
qed

definition key_of ::
  "environment_fingerprint \<Rightarrow> workload_shape \<Rightarrow> backend_id \<Rightarrow> operation_kind \<Rightarrow> data_type \<Rightarrow> tuning_key" where
  "key_of environment shape b operation dtype = \<lparr>tk_environment = environment, tk_backend = b,
     tk_operation = operation, tk_data_type = dtype, tk_shape = shape\<rparr>"

lemma key_of_iff:
  "tn_key r = key_of environment shape b operation dtype \<longleftrightarrow>
    (tk_environment (tn_key r) = environment \<and> tk_shape (tn_key r) = shape) \<and>
    (tk_backend (tn_key r), tk_operation (tn_key r), tk_data_type (tn_key r)) = (b, operation, dtype)"
  by (cases "tn_key r") (auto simp: key_of_def)

lemma performance_table_median:
  assumes "performance_table_for db environment shape = Inr table"
  shows "median_us table b operation dtype = map_option tn_median_microseconds
    (find (\<lambda>r. tn_key r = key_of environment shape b operation dtype) (rev (ad_records db)))"
proof -
  let ?Q = "\<lambda>r :: tuning_record. tk_environment (tn_key r) = environment \<and> tk_shape (tn_key r) = shape"
  let ?P = "\<lambda>r :: tuning_record. (tk_backend (tn_key r), tk_operation (tn_key r), tk_data_type (tn_key r)) = (b, operation, dtype)"
  from assms have "try_fold (\<lambda>table record. and_then (record_validate record) (\<lambda>_.
      Inr (table_record table (performance_record_of record)))) [] (filter ?Q (ad_records db)) = Inr table"
    by (simp add: performance_table_for_def and_then_Inr_iff)
  from fold_projects [OF this, of b operation dtype] show ?thesis
    unfolding key_of_iff by (simp add: rev_filter find_filter median_us_def split: option.split)
qed

lemma find_rev_distinct:
  assumes "database_wf db"
  shows "find (\<lambda>r. tn_key r = k) (rev (ad_records db)) = database_lookup db k"
proof -
  have "find (\<lambda>r. tn_key r = k) (rev xs) = find (\<lambda>r. tn_key r = k) xs" if "distinct (map tn_key xs)" for xs :: "tuning_record list"
    using that
  proof (induction xs)
    case (Cons x xs)
    have "find (\<lambda>r. tn_key r = k) xs = None" if "tn_key x = k"
    proof -
      from that Cons.prems have "k \<notin> tn_key ` set xs" by auto
      then show ?thesis by (auto simp: find_None_iff)
    qed
    with Cons show ?case by (auto simp: find_snoc split: option.split)
  qed simp
  with assms show ?thesis by (simp add: database_wf_def database_lookup_def)
qed

text \<open>What saving does and what loading reads.\<close>

lemma save_outcome:
  assumes "database_save to_json pid w db path s = (r, s')"
  shows "(\<forall>p. p \<noteq> path \<and> p \<noteq> temporary_path pid path \<longrightarrow> fs_files s' p = fs_files s p)
    \<and> (r \<noteq> Inr () \<longrightarrow> fs_files s' path = fs_files s path
        \<or> fs_files s' path = None \<and> (\<exists>bs. to_json db = Inr bs \<and> fs_files s' (temporary_path pid path) = Some bs))
    \<and> (r = Inr () \<longrightarrow> (\<exists>bs. to_json db = Inr bs \<and> fs_files s' path = Some bs
        \<and> fs_files s' (temporary_path pid path) = None))"
proof (cases "to_json db")
  case (Inl e)
  then have "saves (temporary_path pid path) path bs s (r, s')" for bs
    using database_save_effect [of to_json db bs pid path s w] assms by simp
  from this [of "[]"] this [of "[0]"] show ?thesis by (auto simp: saves_def)
next
  case (Inr bs)
  then show ?thesis using database_save_effect [of to_json db bs pid path s w] assms by (auto simp: saves_def)
qed

lemma records_validate_iff: "try_all record_validate rs = Inr () \<longleftrightarrow> (\<forall>r \<in> set rs. record_ok r)"
  by (simp add: try_all_ok_iff record_validate_iff)

lemma save_refused:
  assumes "database_save to_json pid w db path s = (r, s')"
    and "ad_schema_version db \<noteq> autotune_schema_version \<or> (\<exists>record \<in> set (ad_records db). \<not> record_ok record)"
  shows "r \<noteq> Inr () \<and> s' = s"
proof (cases "ad_schema_version db = autotune_schema_version")
  case True
  with assms(2) have "try_all record_validate (ad_records db) \<noteq> Inr ()" by (auto simp: records_validate_iff)
  then obtain e where "try_all record_validate (ad_records db) = Inl e"
    by (cases "try_all record_validate (ad_records db)") auto
  with assms(1) True show ?thesis by (auto simp: database_save_def io_then_give ensure_def)
qed (use assms(1) in \<open>auto simp: database_save_def io_then_give ensure_def\<close>)

lemma load_reads:
  assumes "fs_files s path = Some bs" "fw_fault w (fs_calls s) = None"
  shows "fst (database_load from_json w path s) = Inr db' \<longleftrightarrow> from_json bs = Inr db'
    \<and> ad_schema_version db' = autotune_schema_version \<and> (\<forall>record \<in> set (ad_records db'). record_ok record)"
proof -
  have "fs_read w path s = (Inr bs, tick s)" using assms by (simp add: fs_read_def fs_attempt_def)
  then have "database_load from_json w path s = io_then (io_give (map_err AutotuneJson (from_json bs))) (\<lambda>database.
     io_then (io_give (ensure (ad_schema_version database = autotune_schema_version)
       (UnsupportedSchema (ad_schema_version database)))) (\<lambda>_.
     io_then (io_give (try_all record_validate (ad_records database))) (\<lambda>_.
     io_give (Inr database)))) (tick s)"
    by (simp add: database_load_def io_then_def [of "fs_read w path"])
  then show ?thesis
    by (cases "from_json bs")
      (auto simp: io_then_give io_give_def ensure_def simp flip: records_validate_iff split: sum.split)
qed

lemma save_succeeds:
  assumes "database_save to_json pid w db path s = (r, s')"
    and calls: "\<forall>call. fw_fault w call = None" and "is_ok (to_json db)"
    and "ad_schema_version db = autotune_schema_version" "\<forall>record \<in> set (ad_records db). record_ok record"
  shows "r = Inr ()"
proof -
  obtain bs where bs: "to_json db = Inr bs" using assms(3) by (cases "to_json db") auto
  let ?dirs = "case fp_parent path of None \<Rightarrow> io_give (Inr ())
      | Some parent \<Rightarrow> if parent = [] then io_give (Inr ()) else fs_create_dir_all w parent"
  have "\<exists>s1. ?dirs s = (Inr (), s1)"
    using calls by (cases "fp_parent path") (auto simp: io_give_def fs_create_dir_all_def fs_attempt_def)
  then obtain s1 where dirs: "?dirs s = (Inr (), s1)" ..
  have "database_save to_json pid w db path s = io_then (fs_write w (temporary_path pid path) bs)
      (\<lambda>_. replace_file w (temporary_path pid path) path) s1"
    using assms(4,5) bs
    by (simp add: database_save_def io_then_give ensure_def io_then_def [of ?dirs] dirs flip: records_validate_iff)
  with assms(1) calls show ?thesis
    by (simp add: io_then_def fs_write_def replace_file_def fs_rename_def fs_attempt_def)
qed

section \<open>Properties\<close>

text \<open>
  C18. For any database, also a loaded one: building the performance table for an environment
  and a shape succeeds exactly when that environment, that shape and every record of theirs are
  valid (names that are not blank, dimensions that are not zero and whose product fits \<open>u64\<close>,
  an alignment that is a power of two, a latency that is finite and not negative, at least one
  sample). The table then answers, for every backend, operation and data type, with the latency
  of the last record under that key, environment and shape, and not at all if there is none:
  measurements made elsewhere never reach the router. In a database built by \<open>record\<close> that is
  the record \<open>lookup\<close> finds.
\<close>

theorem performance_table_is_exact:
  "(is_ok (performance_table_for db environment shape) \<longleftrightarrow> fingerprint_ok environment \<and> shape_ok shape \<and>
      (\<forall>r \<in> set (ad_records db). tk_environment (tn_key r) = environment \<and> tk_shape (tn_key r) = shape \<longrightarrow> record_ok r)) \<and>
   (\<forall>table b operation dtype. performance_table_for db environment shape = Inr table \<longrightarrow>
      median_us table b operation dtype = map_option tn_median_microseconds
        (find (\<lambda>r. tn_key r = key_of environment shape b operation dtype) (rev (ad_records db)))) \<and>
   (\<forall>rs table b operation dtype. try_fold database_record database_default rs = Inr db \<and>
      performance_table_for db environment shape = Inr table \<longrightarrow>
      median_us table b operation dtype = map_option tn_median_microseconds
        (database_lookup db (key_of environment shape b operation dtype)))"
  using performance_table_ok [of db environment shape] performance_table_median [of db environment shape]
    recorded_wf [of database_default _ db] find_rev_distinct [of db]
  by (auto simp: database_wf_def database_default_def)

definition demo_environment :: "string \<Rightarrow> environment_fingerprint" where
  "demo_environment version = \<lparr>ef_gpu_arch = ''gfx1030'', ef_driver_version = ''d'', ef_runtime_version = version,
     ef_plugin_version = ''p''\<rparr>"

definition demo_shape :: workload_shape where
  "demo_shape = \<lparr>ws_dims = [128, 64], ws_alignment = 16\<rparr>"

definition demo_tuning :: "string \<Rightarrow> f64 \<Rightarrow> tuning_record" where
  "demo_tuning version latency = \<lparr>tn_key = \<lparr>tk_environment = demo_environment version, tk_backend = BackendId ''hip'',
     tk_operation = OpGemm, tk_data_type = F32, tk_shape = demo_shape\<rparr>, tn_median_microseconds = latency, tn_samples = 25\<rparr>"

text \<open>Two measurements of the same kernel on two runtimes.\<close>

definition demo_database :: autotune_database where
  "demo_database = \<lparr>ad_schema_version = 1, ad_records = [demo_tuning ''a'' 0x4029000000000000, demo_tuning ''b'' 0x4058C00000000000]\<rparr>"

theorem performance_table_is_exact_witness:
  "\<exists>table. performance_table_for demo_database (demo_environment ''a'') demo_shape = Inr table
    \<and> median_us table (BackendId ''hip'') OpGemm F32 = Some 0x4029000000000000
    \<and> median_us table (BackendId ''hip'') OpGemm F16 = None"
proof -
  have "is_ok (performance_table_for demo_database (demo_environment ''a'') demo_shape)" by code_simp
  then obtain table where t: "performance_table_for demo_database (demo_environment ''a'') demo_shape = Inr table"
    by (cases "performance_table_for demo_database (demo_environment ''a'') demo_shape") auto
  have built: "try_fold database_record database_default (ad_records demo_database) = Inr demo_database" by code_simp
  have "map_option tn_median_microseconds (database_lookup demo_database
      (key_of (demo_environment ''a'') demo_shape (BackendId ''hip'') OpGemm F32)) = Some 0x4029000000000000"
    "database_lookup demo_database (key_of (demo_environment ''a'') demo_shape (BackendId ''hip'') OpGemm F16) = None"
    by code_simp+
  with t performance_table_is_exact [of demo_database "demo_environment ''a''" demo_shape, THEN conjunct2,
      THEN conjunct2, rule_format, OF conjI [OF built t]]
  show ?thesis by simp
qed

text \<open>
  C19. Saving never loses a database. An unsupported schema or an invalid record is refused
  before any file is touched. Whatever call fails, no file but the target and its temporary file
  is touched, and after a failure either the target is as it was before, or it is gone and the
  temporary file holds the new contents whole. After a success the target holds what the encoder
  made, no temporary file is left, and a load whose read does not fail returns what the decoder
  makes of exactly those bytes, if that is a database of the supported schema with valid records.
  When no call fails and the encoder succeeds, a valid database is saved.
\<close>

theorem save_is_safe:
  assumes "database_save to_json pid w db path s = (r, s')"
  shows "(\<forall>p. p \<noteq> path \<and> p \<noteq> temporary_path pid path \<longrightarrow> fs_files s' p = fs_files s p)
    \<and> (ad_schema_version db \<noteq> autotune_schema_version \<or> (\<exists>record \<in> set (ad_records db). \<not> record_ok record) \<longrightarrow>
        r \<noteq> Inr () \<and> s' = s)
    \<and> (r \<noteq> Inr () \<longrightarrow> fs_files s' path = fs_files s path
        \<or> fs_files s' path = None \<and> (\<exists>bs. to_json db = Inr bs \<and> fs_files s' (temporary_path pid path) = Some bs))
    \<and> (r = Inr () \<longrightarrow> (\<exists>bs. to_json db = Inr bs \<and> fs_files s' path = Some bs
        \<and> fs_files s' (temporary_path pid path) = None
        \<and> (\<forall>from_json db'. fw_fault w (fs_calls s') = None \<longrightarrow>
            (fst (database_load from_json w path s') = Inr db' \<longleftrightarrow> from_json bs = Inr db'
              \<and> ad_schema_version db' = autotune_schema_version \<and> (\<forall>record \<in> set (ad_records db'). record_ok record)))))
    \<and> ((\<forall>call. fw_fault w call = None) \<and> is_ok (to_json db) \<and> ad_schema_version db = autotune_schema_version
        \<and> (\<forall>record \<in> set (ad_records db). record_ok record) \<longrightarrow> r = Inr ())"
proof (intro conjI)
  note run = save_outcome [OF assms]
  show "\<forall>p. p \<noteq> path \<and> p \<noteq> temporary_path pid path \<longrightarrow> fs_files s' p = fs_files s p" using run by blast
  show "r \<noteq> Inr () \<longrightarrow> fs_files s' path = fs_files s path
      \<or> fs_files s' path = None \<and> (\<exists>bs. to_json db = Inr bs \<and> fs_files s' (temporary_path pid path) = Some bs)"
    using run by blast
  show "ad_schema_version db \<noteq> autotune_schema_version \<or> (\<exists>record \<in> set (ad_records db). \<not> record_ok record) \<longrightarrow>
      r \<noteq> Inr () \<and> s' = s"
    using save_refused [OF assms] by blast
  show "r = Inr () \<longrightarrow> (\<exists>bs. to_json db = Inr bs \<and> fs_files s' path = Some bs
      \<and> fs_files s' (temporary_path pid path) = None
      \<and> (\<forall>from_json db'. fw_fault w (fs_calls s') = None \<longrightarrow>
          (fst (database_load from_json w path s') = Inr db' \<longleftrightarrow> from_json bs = Inr db'
            \<and> ad_schema_version db' = autotune_schema_version \<and> (\<forall>record \<in> set (ad_records db'). record_ok record))))"
    using run load_reads by blast
  show "(\<forall>call. fw_fault w call = None) \<and> is_ok (to_json db) \<and> ad_schema_version db = autotune_schema_version
      \<and> (\<forall>record \<in> set (ad_records db). record_ok record) \<longrightarrow> r = Inr ()"
    using save_succeeds [OF assms] by blast
qed

definition demo_path :: fs_path where
  "demo_path = \<lparr>fp_parent = Some ''cache'', fp_stem = ''cache/'', fp_name = Some ''tune.json''\<rparr>"

text \<open>Nothing fails, and the codec knows one database.\<close>

theorem save_is_safe_witness:
  "\<exists>s'. database_save (\<lambda>_. Inr [1, 2]) 7 \<lparr>fw_fault = \<lambda>_. None, fw_torn = \<lambda>_. None, fw_missing = ''missing''\<rparr>
      demo_database demo_path \<lparr>fs_files = \<lambda>_. None, fs_calls = 0\<rparr> = (Inr (), s')
    \<and> fst (database_load (\<lambda>bs. if bs = [1, 2] then Inr demo_database else Inl ''unknown'')
      \<lparr>fw_fault = \<lambda>_. None, fw_torn = \<lambda>_. None, fw_missing = ''missing''\<rparr> demo_path s') = Inr demo_database"
proof -
  let ?w = "\<lparr>fw_fault = \<lambda>_. None, fw_torn = \<lambda>_. None, fw_missing = ''missing''\<rparr>"
  obtain r s' where run: "database_save (\<lambda>_. Inr [1, 2]) 7 ?w demo_database demo_path
      \<lparr>fs_files = \<lambda>_. None, fs_calls = 0\<rparr> = (r, s')" by fastforce
  have "ad_schema_version demo_database = autotune_schema_version" by code_simp
  moreover have "try_all record_validate (ad_records demo_database) = Inr ()" by code_simp
  then have "\<forall>record \<in> set (ad_records demo_database). record_ok record" by (simp only: records_validate_iff)
  moreover from calculation save_is_safe [OF run] have r: "r = Inr ()" by simp
  ultimately have "fst (database_load (\<lambda>bs. if bs = [1, 2] then Inr demo_database else Inl ''unknown'') ?w demo_path s')
      = Inr demo_database"
    using save_is_safe [OF run] by auto
  with run r show ?thesis by blast
qed

end
