(* ===== verification/Backends.thy ===== *)
theory Backends
  imports Bridge
begin

text \<open>
  The built-in backends of \<open>vrb-backends\<close>: the CPU reference, and the probes of the HIP
  runtime and of Vulkan with their inventories. The libraries are a driver; the operating
  system the crate is compiled for is a parameter.
\<close>

datatype target_os = Windows | Linux | OtherOs

section \<open>The CPU backend\<close>

definition cpu_backend_id :: backend_id where "cpu_backend_id = BackendId ''cpu''"

definition vector_add_f32 :: "f32 list \<Rightarrow> f32 list \<Rightarrow> f32 list \<Rightarrow> (backend_error + unit) \<times> f32 list" where
  "vector_add_f32 left right output =
     (if length left \<noteq> length right \<or> length left \<noteq> length output
      then (Inl (Internal ''vector_add_f32 requires equal input and output lengths''), output)
      else (Inr (), map (\<lambda>((out, lhs), rhs). f32_add lhs rhs) (zip (zip output left) right)))"

definition cpu_probe :: "string \<Rightarrow> backend_error + backend_probe" where
  "cpu_probe arch = Inr
     \<lparr>bp_id = cpu_backend_id, bp_kind = Cpu, bp_name = ''CPU reference backend'', bp_vendor = arch, bp_available = True,
      bp_device_count = 1, bp_detail = ''Portable correctness/reference backend'',
      bp_capabilities = \<lparr>cs_operations = [OpCopy, VectorAdd], cs_data_types = [F32, I8],
        cs_external_memory = False, cs_external_semaphore = False, cs_zero_copy = False\<rparr>\<rparr>"

section \<open>The HIP backend\<close>

definition hip_backend_id :: backend_id where "hip_backend_id = BackendId ''hip''"

record hip_runtime_info =
  hi_library :: string
  hi_runtime_version_raw :: i32
  hi_devices :: "string list"
  hi_external_memory_api :: bool
  hi_external_semaphore_api :: bool

definition candidate_libraries :: "target_os \<Rightarrow> environment \<Rightarrow> path list" where
  "candidate_libraries os env =
     (case os of
        Windows \<Rightarrow>
          concat (map (\<lambda>variable. case env variable of
               None \<Rightarrow> []
             | Some root \<Rightarrow> [root, ''bin'', ''amdhip64.dll'']
                 # map (\<lambda>major. [root, ''bin'', dll ''amdhip64'' major]) (rev [5..<10]))
             [''HIP_PATH'', ''ROCM_PATH''])
          @ [[''amdhip64.dll'']] @ map (\<lambda>major. [dll ''amdhip64'' major]) (rev [5..<10])
      | Linux \<Rightarrow>
          concat (map (\<lambda>variable. case env variable of
               None \<Rightarrow> []
             | Some root \<Rightarrow> [[root, ''lib'', ''libamdhip64.so''], [root, ''lib64'', ''libamdhip64.so'']])
             [''HIP_PATH'', ''ROCM_PATH''])
          @ [[''/opt/rocm/lib/libamdhip64.so''], [''libamdhip64.so'']]
      | OtherOs \<Rightarrow> [[''libamdhip64'']])"

text \<open>A path as the platform displays it.\<close>

fun path_text :: "target_os \<Rightarrow> path \<Rightarrow> string" where
  "path_text os [] = []"
| "path_text os [c] = c"
| "path_text os (c # d # ds) =
     (let separators = (if os = Windows then {CHR ''/'', CHR 0x5C} else {CHR ''/''});
          separator = (if os = Windows then [CHR 0x5C] else ''/'')
      in if c = [] \<or> last c \<in> separators then c @ path_text os (d # ds)
         else c @ separator @ path_text os (d # ds))"

fun probe_load_first ::
  "target_os \<Rightarrow> gpu_driver \<Rightarrow> path list \<Rightarrow> string list \<Rightarrow> (ptr \<times> string) vulkan_effect" where
  "probe_load_first os drv [] failures =
     give (Inl (Unavailable (''HIP runtime library was not loadable ('' @ join ''; '' failures @ '')'')))"
| "probe_load_first os drv (candidate # candidates) failures =
     then_do (invoke drv (OpenLibrary candidate)) (\<lambda>a.
     if an_handle a \<noteq> 0 then give (Inr (an_handle a, path_text os candidate))
     else probe_load_first os drv candidates (failures @ [path_text os candidate @ '': '' @ an_text a]))"

fun probe_symbols :: "gpu_driver \<Rightarrow> ptr \<Rightarrow> string list \<Rightarrow> unit vulkan_effect" where
  "probe_symbols drv library [] = give (Inr ())"
| "probe_symbols drv library (name # names) =
     then_do (invoke drv (FindSymbol library name)) (\<lambda>a.
     if an_handle a = 0 then give (Inl (Probe (name @ '' missing: '' @ an_text a)))
     else probe_symbols drv library names)"

text \<open>A chain of \<open>symbol_exists\<close> with \<open>&&\<close>.\<close>

fun symbols_exist :: "gpu_driver \<Rightarrow> ptr \<Rightarrow> string list \<Rightarrow> bool gpu_effect" where
  "symbols_exist drv library [] = give True"
| "symbols_exist drv library (name # names) =
     then_do (invoke drv (FindSymbol library name)) (\<lambda>a.
     if an_handle a \<noteq> 0 then symbols_exist drv library names else give False)"

definition check_hip :: "i32 \<Rightarrow> string \<Rightarrow> backend_error + unit" where
  "check_hip code operation =
     (if code = 0 then Inr ()
      else Inl (Unavailable (operation @ '' returned HIP error code '' @ show_int (sint code))))"

definition checked :: "gpu_driver \<Rightarrow> gpu_call \<Rightarrow> string \<Rightarrow> answer vulkan_effect" where
  "checked drv call operation =
     then_do (invoke drv call) (\<lambda>a. give (and_then (check_hip (an_code a) operation) (\<lambda>_. Inr a)))"

fun probe_device_names :: "gpu_driver \<Rightarrow> nat list \<Rightarrow> string list \<Rightarrow> string list gpu_effect" where
  "probe_device_names drv [] devices = give devices"
| "probe_device_names drv (index # indices) devices =
     then_do (invoke drv (HipGetDeviceName index)) (\<lambda>a.
     probe_device_names drv indices (devices @
       [if an_code a = 0 then (if an_text a = [] then ''HIP device '' @ show_nat index else an_text a)
        else ''HIP device '' @ show_nat index @ '' (name error '' @ show_int (sint (an_code a)) @ '')'']))"

definition hip_inventory :: "gpu_driver \<Rightarrow> ptr \<Rightarrow> string \<Rightarrow> hip_runtime_info vulkan_effect" where
  "hip_inventory drv library loaded_from =
     try_do (probe_symbols drv library
       [''hipInit'', ''hipGetDeviceCount'', ''hipDeviceGetName'', ''hipRuntimeGetVersion'']) (\<lambda>_.
     try_do (checked drv (HipInit 0) ''hipInit'') (\<lambda>_.
     try_do (checked drv HipGetVersion ''hipRuntimeGetVersion'') (\<lambda>version.
     try_do (checked drv HipGetDeviceCount ''hipGetDeviceCount'') (\<lambda>device_count.
     if sint (an_count device_count) < 0 then give (Inl (Probe ''HIP returned a negative device count''))
     else then_do (probe_device_names drv [0..<nat (sint (an_count device_count))] []) (\<lambda>devices.
     then_do (symbols_exist drv library
       [''hipImportExternalMemory'', ''hipExternalMemoryGetMappedBuffer'', ''hipDestroyExternalMemory'']) (\<lambda>memory.
     then_do (symbols_exist drv library
       [''hipImportExternalSemaphore'', ''hipSignalExternalSemaphoresAsync'', ''hipWaitExternalSemaphoresAsync'',
        ''hipDestroyExternalSemaphore'']) (\<lambda>semaphore.
     give (Inr \<lparr>hi_library = loaded_from, hi_runtime_version_raw = an_count version, hi_devices = devices,
       hi_external_memory_api = memory, hi_external_semaphore_api = semaphore\<rparr>))))))))"

definition hip_runtime_info_of :: "target_os \<Rightarrow> gpu_driver \<Rightarrow> environment \<Rightarrow> hip_runtime_info vulkan_effect" where
  "hip_runtime_info_of os drv env =
     try_do (probe_load_first os drv (candidate_libraries os env) []) (\<lambda>(library, loaded_from).
     scoped (hip_inventory drv library loaded_from) (close_library drv library))"

definition hip_probe_of :: "hip_runtime_info \<Rightarrow> backend_probe" where
  "hip_probe_of info =
     \<lparr>bp_id = hip_backend_id, bp_kind = Hip,
      bp_name = (case hi_devices info of d # _ \<Rightarrow> d | [] \<Rightarrow> ''HIP runtime''), bp_vendor = ''AMD ROCm/HIP'',
      bp_available = (hi_devices info \<noteq> []), bp_device_count = of_nat (length (hi_devices info)),
      bp_detail = ''library='' @ hi_library info @ '', runtime_version_raw='' @ show_int (sint (hi_runtime_version_raw info))
        @ '', external_memory='' @ show_bool (hi_external_memory_api info)
        @ '', external_semaphore='' @ show_bool (hi_external_semaphore_api info),
      bp_capabilities = \<lparr>cs_operations = [OpCustom], cs_data_types = [Unknown],
        cs_external_memory = hi_external_memory_api info, cs_external_semaphore = hi_external_semaphore_api info,
        cs_zero_copy = (hi_external_memory_api info \<and> hi_external_semaphore_api info)\<rparr>\<rparr>"

definition hip_probe :: "target_os \<Rightarrow> gpu_driver \<Rightarrow> environment \<Rightarrow> backend_probe vulkan_effect" where
  "hip_probe os drv env = try_do (hip_runtime_info_of os drv env) (\<lambda>info. give (Inr (hip_probe_of info)))"

section \<open>The Vulkan backend\<close>

definition vulkan_backend_id :: backend_id where "vulkan_backend_id = BackendId ''vulkan''"

record vulkan_device_info =
  vd_name :: string
  vd_vendor_id :: u32
  vd_device_id :: u32
  vd_api_version :: u32
  vd_device_type :: physical_device_type
  vd_compute_queue :: bool
  vd_external_memory :: bool
  vd_external_semaphore :: bool

record vulkan_runtime_info =
  vi_loader_available :: bool
  vi_devices :: "vulkan_device_info list"

definition is_discrete :: "vulkan_device_info \<Rightarrow> bool" where
  "is_discrete d = (vd_device_type d = DiscreteGpu)"

definition bridge_score :: "vulkan_device_info \<Rightarrow> nat \<times> nat \<times> nat \<times> u32" where
  "bridge_score d =
     (if vd_vendor_id d = amd_pci_vendor_id then 0 else 1, if is_discrete d then 0 else 1,
      if vd_external_memory d \<and> vd_external_semaphore d then 0 else 1, vd_device_id d)"

definition preferred_compute_device :: "vulkan_runtime_info \<Rightarrow> vulkan_device_info option" where
  "preferred_compute_device info = min_by_key bridge_score (filter vd_compute_queue (vi_devices info))"

definition external_resource_support :: "target_os \<Rightarrow> string list \<Rightarrow> bool \<times> bool" where
  "external_resource_support os extensions =
     (case os of
        Windows \<Rightarrow> (''VK_KHR_external_memory_win32'' \<in> set extensions, ''VK_KHR_external_semaphore_win32'' \<in> set extensions)
      | Linux \<Rightarrow> (''VK_KHR_external_memory_fd'' \<in> set extensions, ''VK_KHR_external_semaphore_fd'' \<in> set extensions)
      | OtherOs \<Rightarrow> (False, False))"

definition device_info :: "target_os \<Rightarrow> gpu_driver \<Rightarrow> ptr \<Rightarrow> ptr \<Rightarrow> vulkan_device_info vulkan_effect" where
  "device_info os drv inst device =
     then_do (invoke drv (VkDeviceProperties inst device)) (\<lambda>p.
     then_do (invoke drv (VkQueueFamilies inst device)) (\<lambda>f.
     try_do (vk_call drv (VkDeviceExtensions inst device) Probe ''enumerate device extensions'') (\<lambda>e.
     let (external_memory, external_semaphore) = external_resource_support os (an_names e)
     in give (Inr \<lparr>vd_name = an_text p, vd_vendor_id = dp_vendor_id (an_properties p),
          vd_device_id = dp_device_id (an_properties p), vd_api_version = dp_api_version (an_properties p),
          vd_device_type = dp_type (an_properties p),
          vd_compute_queue = list_ex (\<lambda>(queue_count, computes). queue_count > 0 \<and> computes) (an_families f),
          vd_external_memory = external_memory, vd_external_semaphore = external_semaphore\<rparr>))))"

fun device_infos ::
  "target_os \<Rightarrow> gpu_driver \<Rightarrow> ptr \<Rightarrow> ptr list \<Rightarrow> vulkan_device_info list \<Rightarrow> vulkan_device_info list vulkan_effect" where
  "device_infos os drv inst [] devices = give (Inr devices)"
| "device_infos os drv inst (device # rest) devices =
     try_do (device_info os drv inst device) (\<lambda>d. device_infos os drv inst rest (devices @ [d]))"

definition vulkan_runtime_info_of :: "target_os \<Rightarrow> gpu_driver \<Rightarrow> vulkan_runtime_info vulkan_effect" where
  "vulkan_runtime_info_of os drv =
     try_do (vk_call drv VkLoadLoader Unavailable ''Vulkan loader'') (\<lambda>_.
     try_do (vk_call drv (VkCreateInstance ''vulkan-rocm-bridge'') Probe ''vkCreateInstance'') (\<lambda>a.
     scoped
       (try_do (vk_call drv (VkEnumerateDevices (an_handle a)) Probe ''enumerate devices'') (\<lambda>physical_devices.
        try_do (device_infos os drv (an_handle a) (an_handles physical_devices) []) (\<lambda>devices.
        give (Inr \<lparr>vi_loader_available = True, vi_devices = devices\<rparr>))))
       (vk_do drv (VkDestroyInstance (an_handle a)))))"

fun physical_device_type_name :: "physical_device_type \<Rightarrow> string" where
  "physical_device_type_name DiscreteGpu = ''discrete_gpu''"
| "physical_device_type_name IntegratedGpu = ''integrated_gpu''"
| "physical_device_type_name VirtualGpu = ''virtual_gpu''"
| "physical_device_type_name CpuDevice = ''cpu''"
| "physical_device_type_name OtherDevice = ''other''"

definition inventory_entry :: "vulkan_device_info \<Rightarrow> string" where
  "inventory_entry d = vd_name d @ ''[vendor=0x'' @ show_hex_padded 4 (unat (vd_vendor_id d)) @ '',device=0x''
     @ show_hex_padded 4 (unat (vd_device_id d)) @ '',type='' @ physical_device_type_name (vd_device_type d) @ '']''"

definition vulkan_probe_of :: "vulkan_runtime_info \<Rightarrow> backend_probe" where
  "vulkan_probe_of info =
     (let compute_devices = filter vd_compute_queue (vi_devices info);
          preferred = preferred_compute_device info;
          external_memory = (case preferred of Some d \<Rightarrow> vd_external_memory d | None \<Rightarrow> False);
          external_semaphore = (case preferred of Some d \<Rightarrow> vd_external_semaphore d | None \<Rightarrow> False);
          inventory = join ''; '' (map inventory_entry compute_devices)
      in \<lparr>bp_id = vulkan_backend_id, bp_kind = Vulkan,
          bp_name = (case preferred of Some d \<Rightarrow> vd_name d | None \<Rightarrow> ''Vulkan''),
          bp_vendor = (case preferred of
              Some d \<Rightarrow> ''PCI vendor 0x'' @ show_hex_padded 4 (unat (vd_vendor_id d)) | None \<Rightarrow> []),
          bp_available = (preferred \<noteq> None), bp_device_count = of_nat (length compute_devices),
          bp_detail = (case preferred of
              Some d \<Rightarrow> ''selected_device_id=0x'' @ show_hex_padded 4 (unat (vd_device_id d)) @ '', selected_type=''
                @ physical_device_type_name (vd_device_type d) @ '', api_version='' @ show_nat (unat (vd_api_version d))
                @ '', external_memory='' @ show_bool (vd_external_memory d) @ '', external_semaphore=''
                @ show_bool (vd_external_semaphore d) @ ''; inventory='' @ inventory
            | None \<Rightarrow> ''No compute-capable Vulkan physical device''),
          bp_capabilities = \<lparr>cs_operations = [OpCopy, OpCustom], cs_data_types = [Unknown],
            cs_external_memory = external_memory, cs_external_semaphore = external_semaphore,
            cs_zero_copy = (external_memory \<and> external_semaphore)\<rparr>\<rparr>)"

definition vulkan_probe :: "target_os \<Rightarrow> gpu_driver \<Rightarrow> backend_probe vulkan_effect" where
  "vulkan_probe os drv = try_do (vulkan_runtime_info_of os drv) (\<lambda>info. give (Inr (vulkan_probe_of info)))"

section \<open>Probes leave nothing live\<close>

lemma probe_load_first_live:
  "gpu_triple (\<lambda>l. l = rs) (probe_load_first os drv cs failures)
     (\<lambda>r l. case r of Inl _ \<Rightarrow> l = rs | Inr (lib, _) \<Rightarrow> l = Library lib # rs)"
proof (induction cs arbitrary: failures)
  case (Cons c cs)
  have "gpu_triple (\<lambda>l. l = rs) (invoke drv (OpenLibrary c))
      (\<lambda>a l. l = (if an_handle a \<noteq> 0 then Library (an_handle a) # rs else rs))"
    by (rule triple_invoke) auto
  then show ?case
    unfolding probe_load_first.simps
    by (rule triple_then_do) (auto intro: triple_giveI triple_weaken [OF Cons.IH])
qed (auto intro: triple_giveI)

lemma find_symbol_live:
  "gpu_triple (\<lambda>l. l = Library lib # rs) (invoke drv (FindSymbol lib name)) (\<lambda>_ l. l = Library lib # rs)"
  by (rule triple_invoke) (simp add: requires_def)

lemma probe_symbols_live:
  "gpu_triple (\<lambda>l. l = Library lib # rs) (probe_symbols drv lib names) (\<lambda>_ l. l = Library lib # rs)"
  by (induction names)
    (auto intro!: triple_giveI triple_then_do [OF find_symbol_live])

lemma symbols_exist_live:
  "gpu_triple (\<lambda>l. l = Library lib # rs) (symbols_exist drv lib names) (\<lambda>_ l. l = Library lib # rs)"
  by (induction names)
    (auto intro!: triple_giveI triple_then_do [OF find_symbol_live])

lemma checked_live:
  assumes "\<And>a. gpu_step rs (c, a) = Some rs"
  shows "gpu_triple (\<lambda>l. l = rs) (checked drv c operation) (\<lambda>_ l. l = rs)"
  unfolding checked_def
  by (rule triple_then_do [where R = "\<lambda>_ l. l = rs"]) (auto simp: assms intro!: triple_invoke triple_giveI)

lemma probe_device_names_live:
  "gpu_triple (\<lambda>l. l = rs) (probe_device_names drv indices devices) (\<lambda>_ l. l = rs)"
proof (induction indices arbitrary: devices)
  case (Cons i indices)
  have "gpu_triple (\<lambda>l. l = rs) (invoke drv (HipGetDeviceName i)) (\<lambda>_ l. l = rs)" by (rule triple_invoke) simp
  then show ?case unfolding probe_device_names.simps by (rule triple_then_do) (rule Cons.IH)
qed (auto intro: triple_giveI)

lemma hip_inventory_live:
  "gpu_triple (\<lambda>l. l = Library lib # rs) (hip_inventory drv lib from) (\<lambda>_ l. l = Library lib # rs)"
  unfolding hip_inventory_def
  by (intro triple_try_do [where R = "\<lambda>_ l. l = Library lib # rs"] triple_if triple_giveI
      triple_then_do [where R = "\<lambda>_ l. l = Library lib # rs"]
      probe_symbols_live symbols_exist_live checked_live probe_device_names_live) simp_all

lemma hip_probe_live: "gpu_triple (\<lambda>l. l = rs) (hip_probe os drv env) (\<lambda>_ l. l = rs)"
proof -
  have "gpu_triple (\<lambda>l. l = rs) (hip_runtime_info_of os drv env) (\<lambda>_ l. l = rs)"
    unfolding hip_runtime_info_of_def
    by (rule triple_try_do [OF probe_load_first_live])
      (auto intro: triple_scoped [OF hip_inventory_live] close_library_newest)
  then show ?thesis
    unfolding hip_probe_def by (rule triple_try_do) (auto intro: triple_giveI)
qed

lemma device_infos_live:
  assumes "VkInstance inst \<in># M"
  shows "gpu_triple (holds M) (device_infos os drv inst handles devices) (\<lambda>_. holds M)"
proof (induction handles arbitrary: devices)
  case (Cons d handles)
  have "gpu_triple (holds M) (device_info os drv inst d) (\<lambda>_. holds M)"
    unfolding device_info_def Let_def case_prod_beta
    by (intro triple_then_do [where R = "\<lambda>_. holds M"] triple_try_do [where R = "\<lambda>_. holds M"]
        stays_invoke stays_call triple_giveI) (use assms in \<open>simp_all add: in_holds [where M = M]\<close>)
  then show ?case unfolding device_infos.simps by (rule triple_try_do) (simp_all add: Cons.IH)
qed (auto intro: triple_giveI)

lemma vulkan_probe_live:
  assumes "vulkan_free M"
  shows "gpu_triple (holds M) (vulkan_probe os drv) (\<lambda>_. holds M)"
proof -
  let ?I = "\<lambda>i. add_mset (VkInstance i) M"
  have loader: "gpu_triple (holds M) (vk_call drv VkLoadLoader Unavailable what) (\<lambda>_. holds M)" for what
    by (rule stays_call) simp
  have inst: "gpu_triple (holds M) (vk_call drv (VkCreateInstance app) Probe what)
      (\<lambda>r l. case r of Inl _ \<Rightarrow> mset l = M | Inr a \<Rightarrow> mset l = ?I (an_handle a))" for app what
    by (rule obtains_call) simp
  have destroy: "gpu_triple (holds (?I i)) (vk_do drv (VkDestroyInstance i)) (\<lambda>_. holds M)" for i
    using assms by (intro releases_do) (auto simp: live_holds vulkan_free_def dest: vulkan_kinds)
  have devices: "gpu_triple (holds (?I i)) (vk_call drv (VkEnumerateDevices i) Probe what) (\<lambda>_. holds (?I i))" for i what
    by (rule stays_call) (simp add: in_holds [where M = "?I i"])
  have "gpu_triple (holds M) (vulkan_runtime_info_of os drv) (\<lambda>_. holds M)"
    unfolding vulkan_runtime_info_of_def
    by (rule triple_try_do [OF loader], rule triple_try_do [OF inst])
      (auto intro!: triple_scoped [OF _ destroy] triple_try_do [OF devices] triple_try_do [OF device_infos_live]
        triple_giveI)
  then show ?thesis
    unfolding vulkan_probe_def by (rule triple_try_do) (auto intro: triple_giveI)
qed

section \<open>What the probe of Vulkan reports\<close>

text \<open>A device as the three queries about it describe it.\<close>

definition described :: "target_os \<Rightarrow> answer \<Rightarrow> answer \<Rightarrow> answer \<Rightarrow> vulkan_device_info \<Rightarrow> bool" where
  "described os p f e d \<longleftrightarrow>
     vd_name d = an_text p \<and> vd_vendor_id d = dp_vendor_id (an_properties p)
     \<and> vd_device_id d = dp_device_id (an_properties p) \<and> vd_device_type d = dp_type (an_properties p)
     \<and> (vd_compute_queue d \<longleftrightarrow> (\<exists>(queue_count, computes) \<in> set (an_families f). queue_count > 0 \<and> computes))
     \<and> (vd_external_memory d, vd_external_semaphore d) = external_resource_support os (an_names e)"

definition queried :: "target_os \<Rightarrow> ptr \<Rightarrow> gpu_history \<Rightarrow> ptr \<Rightarrow> vulkan_device_info \<Rightarrow> bool" where
  "queried os inst new device d \<longleftrightarrow>
     (\<exists>p f e. (VkDeviceProperties inst device, p) \<in> set new \<and> (VkQueueFamilies inst device, f) \<in> set new
        \<and> (VkDeviceExtensions inst device, e) \<in> set new \<and> described os p f e d)"

lemma queried_mono: "queried os inst new device d \<Longrightarrow> set new \<subseteq> set new' \<Longrightarrow> queried os inst new' device d"
  unfolding queried_def by blast

lemma device_info_queried:
  assumes "device_info os drv inst device h = (Inr d, h')"
  obtains new where "h' = h @ new" "queried os inst new device d"
proof -
  from assms obtain p f e where
    h': "h' = h @ [(VkDeviceProperties inst device, p), (VkQueueFamilies inst device, f), (VkDeviceExtensions inst device, e)]"
    and d: "described os p f e d"
    by (auto simp: device_info_def effect_eqs vk_call_Inr Let_def described_def list_ex_iff split: prod.splits)
  show ?thesis by (rule that [OF h']) (use d in \<open>auto simp: queried_def\<close>)
qed

lemma device_infos_queried:
  "device_infos os drv inst handles devices h = (Inr found, h') \<Longrightarrow>
   \<exists>ds new. found = devices @ ds \<and> h' = h @ new \<and> list_all2 (queried os inst new) handles ds"
proof (induction handles arbitrary: devices h)
  case (Cons device handles)
  then obtain d h1 where d: "device_info os drv inst device h = (Inr d, h1)"
    and rest: "device_infos os drv inst handles (devices @ [d]) h1 = (Inr found, h')" by (auto simp: try_do_Inr)
  from device_info_queried [OF d] obtain n1 where n1: "h1 = h @ n1" "queried os inst n1 device d" .
  from Cons.IH [OF rest] obtain ds n2 where n2: "found = (devices @ [d]) @ ds" "h' = h1 @ n2"
    "list_all2 (queried os inst n2) handles ds" by blast
  have "queried os inst (n1 @ n2) device d" using n1(2) by (rule queried_mono) simp
  moreover have "list_all2 (queried os inst (n1 @ n2)) handles ds"
    using n2(3) by (rule list_all2_mono) (auto intro: queried_mono)
  ultimately show ?case using n1(1) n2(1,2) by (intro exI [of _ "d # ds"] exI [of _ "n1 @ n2"]) simp
qed (simp add: give_eq)

lemma vulkan_runtime_info_queried:
  assumes "vulkan_runtime_info_of os drv h = (Inr info, h')"
  obtains inst a new where "h' = h @ new" "(VkEnumerateDevices inst, a) \<in> set new"
    "list_all2 (queried os inst new) (an_handles a) (vi_devices info)"
proof -
  from assms obtain inst a h1 h2 where
    h1: "h1 = h @ [(VkLoadLoader, drv h VkLoadLoader), (VkCreateInstance ''vulkan-rocm-bridge'', inst), (VkEnumerateDevices (an_handle inst), a)]"
    and infos: "device_infos os drv (an_handle inst) (an_handles a) [] h1 = (Inr (vi_devices info), h2)"
    and h': "h' = h2 @ [(VkDestroyInstance (an_handle inst), drv h2 (VkDestroyInstance (an_handle inst)))]"
    by (auto simp: vulkan_runtime_info_of_def effect_eqs vk_call_Inr vk_do_def)
  from device_infos_queried [OF infos] obtain new where new: "h2 = h1 @ new"
    "list_all2 (queried os (an_handle inst) new) (an_handles a) (vi_devices info)" by auto
  let ?new = "drop (length h) h'"
  have "h' = h @ ?new" "set new \<subseteq> set ?new" "(VkEnumerateDevices (an_handle inst), a) \<in> set ?new"
    by (auto simp: h' new(1) h1)
  moreover have "list_all2 (queried os (an_handle inst) ?new) (an_handles a) (vi_devices info)"
    using new(2) by (rule list_all2_mono) (use calculation(2) in \<open>auto intro: queried_mono\<close>)
  ultimately show ?thesis by (intro that)
qed

lemma bridge_score_le:
  assumes "bridge_score d \<le> bridge_score d'" "vd_vendor_id d' = amd_pci_vendor_id"
  shows "vd_vendor_id d = amd_pci_vendor_id \<and> (is_discrete d' \<longrightarrow> is_discrete d)"
  using assms by (auto simp: bridge_score_def split: if_splits)

text \<open>A device that computes with the least score, so an AMD one or a discrete AMD one when there is such.\<close>

definition best_device :: "vulkan_device_info list \<Rightarrow> vulkan_device_info \<Rightarrow> bool" where
  "best_device devices d \<longleftrightarrow> d \<in> set devices \<and> vd_compute_queue d
     \<and> (\<forall>d' \<in> set devices. vd_compute_queue d' \<longrightarrow> bridge_score d \<le> bridge_score d'
         \<and> (vd_vendor_id d' = amd_pci_vendor_id \<longrightarrow>
             vd_vendor_id d = amd_pci_vendor_id \<and> (is_discrete d' \<longrightarrow> is_discrete d)))"

lemma preferred_compute_device_best:
  assumes "preferred_compute_device info = Some d"
  shows "best_device (vi_devices info) d"
  using min_by_key_mem [OF assms [unfolded preferred_compute_device_def]]
    min_by_key_le [OF assms [unfolded preferred_compute_device_def]] bridge_score_le
  by (auto simp: best_device_def)

lemma preferred_compute_device_None:
  "preferred_compute_device info = None \<longleftrightarrow> (\<forall>d \<in> set (vi_devices info). \<not> vd_compute_queue d)"
  by (simp add: preferred_compute_device_def filter_empty_conv)

section \<open>Properties\<close>

text \<open>
  Probing is free of side effects on resources: whatever the platform loader, HIP and
  Vulkan answer, the HIP probe leaves exactly the resources live that were live before it, and
  the Vulkan probe after it does so too. The library is closed and the instance destroyed on
  every path, and neither is used once released.
\<close>

theorem probes_leave_nothing_live:
  assumes "gpu_audit h = Some l" "vulkan_free (mset l)"
    and "hip_probe os drv env h = (hip, h1)" "vulkan_probe os drv h1 = (vk, h2)"
  shows "gpu_audit h1 = Some l \<and> (\<exists>l'. gpu_audit h2 = Some l' \<and> mset l' = mset l)"
proof -
  have h1: "gpu_audit h1 = Some l" by (rule tripleD [OF hip_probe_live assms(1) refl assms(3)]) simp
  show ?thesis by (rule tripleD [OF vulkan_probe_live [OF assms(2)] h1 refl assms(4)]) (simp add: h1)
qed

definition demo_probe_calls :: gpu_history where
  "demo_probe_calls = [(BlasCreate, answer_default\<lparr>an_handle := 5\<rparr>)]"

lemma demo_probe_audit: "gpu_audit demo_probe_calls = Some [BlasHandle 5]"
  by (simp add: audit_def demo_probe_calls_def obtain_if_def answer_default_def)

theorem probes_leave_nothing_live_witness:
  "\<exists>hip h1 vk h2 l'. hip_probe Linux demo_vulkan_driver (\<lambda>_. None) demo_probe_calls = (hip, h1)
    \<and> vulkan_probe Linux demo_vulkan_driver h1 = (vk, h2)
    \<and> gpu_audit h1 = Some [BlasHandle 5] \<and> gpu_audit h2 = Some l' \<and> mset l' = {#BlasHandle 5#}"
proof -
  have free: "vulkan_free (mset [BlasHandle 5])" by (simp add: vulkan_free_def)
  obtain hip h1 where hip: "hip_probe Linux demo_vulkan_driver (\<lambda>_. None) demo_probe_calls = (hip, h1)" by fastforce
  obtain vk h2 where vk: "vulkan_probe Linux demo_vulkan_driver h1 = (vk, h2)" by fastforce
  from probes_leave_nothing_live [OF demo_probe_audit free hip vk] hip vk show ?thesis by auto
qed

text \<open>
  C13. What the Vulkan probe reports is what the driver answered: every enumerated device was
  queried, and the backend is available exactly when one of them has a queue that computes.
  Then the report carries the name of such a device with the least score, which is an AMD
  device when there is one, and a discrete AMD device when there is one. External memory and
  semaphores are those its own list of extensions names for the platform, and zero copy is
  claimed exactly when it has both.
\<close>

theorem vulkan_probe_reports_best_device:
  assumes "vulkan_probe os drv h = (Inr probe, h')"
  shows "\<exists>inst a new devices. h' = h @ new \<and> (VkEnumerateDevices inst, a) \<in> set new
    \<and> list_all2 (queried os inst new) (an_handles a) devices
    \<and> (bp_available probe \<longleftrightarrow> (\<exists>d \<in> set devices. vd_compute_queue d))
    \<and> cs_zero_copy (bp_capabilities probe)
        = (cs_external_memory (bp_capabilities probe) \<and> cs_external_semaphore (bp_capabilities probe))
    \<and> (cs_external_memory (bp_capabilities probe) \<or> cs_external_semaphore (bp_capabilities probe) \<longrightarrow> bp_available probe)
    \<and> (bp_available probe \<longrightarrow> (\<exists>d. best_device devices d \<and> bp_name probe = vd_name d
        \<and> cs_external_memory (bp_capabilities probe) = vd_external_memory d
        \<and> cs_external_semaphore (bp_capabilities probe) = vd_external_semaphore d))"
proof -
  from assms obtain info where info: "vulkan_runtime_info_of os drv h = (Inr info, h')" and probe: "probe = vulkan_probe_of info"
    by (auto simp: vulkan_probe_def effect_eqs)
  from vulkan_runtime_info_queried [OF info] obtain inst a new where calls: "h' = h @ new"
    "(VkEnumerateDevices inst, a) \<in> set new" "list_all2 (queried os inst new) (an_handles a) (vi_devices info)" .
  show ?thesis
  proof (cases "preferred_compute_device info")
    case None
    then show ?thesis
      using calls preferred_compute_device_None [of info]
      by (intro exI [of _ inst] exI [of _ a] exI [of _ new] exI [of _ "vi_devices info"])
        (simp add: probe vulkan_probe_of_def Let_def)
  next
    case (Some d)
    note best = preferred_compute_device_best [OF Some]
    then have "\<exists>d \<in> set (vi_devices info). vd_compute_queue d" by (auto simp: best_device_def)
    moreover have fields: "bp_available probe" "bp_name probe = vd_name d"
      "cs_external_memory (bp_capabilities probe) = vd_external_memory d"
      "cs_external_semaphore (bp_capabilities probe) = vd_external_semaphore d"
      "cs_zero_copy (bp_capabilities probe) = (vd_external_memory d \<and> vd_external_semaphore d)"
      by (simp_all add: probe vulkan_probe_of_def Let_def Some)
    ultimately show ?thesis
      using calls best
      by (intro exI [of _ inst] exI [of _ a] exI [of _ new] exI [of _ "vi_devices info"]) auto
  qed
qed

text \<open>Two devices: an integrated one without extensions, and a discrete AMD one with both.\<close>

definition demo_devices_driver :: gpu_driver where
  "demo_devices_driver h call =
     (let best = answer_default\<lparr>an_handle := 4096, an_handles := [1, 2], an_text := ''discrete'',
        an_families := [(1, True)], an_names := [''VK_KHR_external_memory_fd'', ''VK_KHR_external_semaphore_fd''],
        an_properties := \<lparr>dp_vendor_id = amd_pci_vendor_id, dp_device_id = 0x73BF, dp_api_version = 1, dp_type = DiscreteGpu\<rparr>\<rparr>
      in case call of
           VkDeviceProperties inst d \<Rightarrow> if d = 1 then answer_default\<lparr>an_text := ''integrated''\<rparr> else best
         | VkDeviceExtensions inst d \<Rightarrow> if d = 1 then answer_default else best
         | _ \<Rightarrow> best)"

lemma demo_probe:
  "case fst (vulkan_probe Linux demo_devices_driver []) of Inl _ \<Rightarrow> False
   | Inr probe \<Rightarrow> bp_available probe \<and> bp_name probe = ''discrete'' \<and> cs_zero_copy (bp_capabilities probe)"
  by code_simp

theorem vulkan_probe_reports_best_device_witness:
  "\<exists>probe h' inst (a :: answer) devices. vulkan_probe Linux demo_devices_driver [] = (Inr probe, h')
    \<and> cs_zero_copy (bp_capabilities probe) \<and> list_all2 (queried Linux inst h') (an_handles a) devices
    \<and> (\<exists>d. best_device devices d \<and> vd_name d = ''discrete'' \<and> vd_external_memory d \<and> vd_external_semaphore d)"
proof -
  obtain r h' where run: "vulkan_probe Linux demo_devices_driver [] = (r, h')" by fastforce
  with demo_probe obtain probe where r: "r = Inr probe" and name: "bp_name probe = ''discrete''"
    and zero: "cs_zero_copy (bp_capabilities probe)" and available: "bp_available probe"
    by (auto split: sum.splits)
  from vulkan_probe_reports_best_device [OF run [unfolded r]] obtain inst and a :: answer and new devices where
    calls: "h' = [] @ new" "list_all2 (queried Linux inst new) (an_handles a) devices"
    and both: "cs_zero_copy (bp_capabilities probe)
        = (cs_external_memory (bp_capabilities probe) \<and> cs_external_semaphore (bp_capabilities probe))"
    and best: "bp_available probe \<longrightarrow> (\<exists>d. best_device devices d \<and> bp_name probe = vd_name d
        \<and> cs_external_memory (bp_capabilities probe) = vd_external_memory d
        \<and> cs_external_semaphore (bp_capabilities probe) = vd_external_semaphore d)"
    by blast
  from best both name zero available
  have "\<exists>d. best_device devices d \<and> vd_name d = ''discrete'' \<and> vd_external_memory d \<and> vd_external_semaphore d"
    by auto
  moreover from calls have "list_all2 (queried Linux inst h') (an_handles a) devices" by simp
  ultimately show ?thesis using run r zero by (intro exI [of _ probe] exI [of _ h'] exI [of _ inst] exI [of _ a] exI [of _ devices]) simp
qed

end
