(* ===== verification/Backend_Plugin.thy ===== *)
theory Backend_Plugin
  imports Test_Operator_Plugin
begin

text \<open>
  The crate \<open>vrb-plugin-api\<close>, the loader of backend plugins \<open>vrb-backends/src/plugin.rs\<close>
  and the fixture \<open>vrb-test-plugin\<close>. As with operator plugins, a plugin is code outside the
  host whose callbacks are functions on its state \<open>'p\<close>; it reports the values of the
  enumerations of the ABI only. A pointer to a name is the bytes it points to.
\<close>

section \<open>The ABI\<close>

definition vrb_plugin_abi_version :: u32 where "vrb_plugin_abi_version = 1"

datatype vrb_status = VrbOk | VrbInvalidArgument | VrbUnsupported | VrbUnavailable | VrbInternalError

datatype vrb_backend_kind = VrbCpu | VrbVulkan | VrbHip | VrbHybrid | VrbOther

definition capability_compute :: u64 where "capability_compute = push_bit 0 1"
definition capability_external_memory :: u64 where "capability_external_memory = push_bit 1 1"
definition capability_external_semaphore :: u64 where "capability_external_semaphore = push_bit 2 1"
definition capability_zero_copy :: u64 where "capability_zero_copy = push_bit 3 1"
definition capability_timestamps :: u64 where "capability_timestamps = push_bit 4 1"
definition capability_fp16 :: u64 where "capability_fp16 = push_bit 5 1"
definition capability_fp32 :: u64 where "capability_fp32 = push_bit 6 1"
definition capability_int8 :: u64 where "capability_int8 = push_bit 7 1"

lemmas capability_defs = capability_compute_def capability_external_memory_def capability_external_semaphore_def
  capability_zero_copy_def capability_timestamps_def capability_fp16_def capability_fp32_def capability_int8_def

record vrb_backend_info =
  vb_struct_size :: u32
  vb_backend_kind :: vrb_backend_kind
  vb_capability_bits :: u64
  vb_device_count :: u32
  vb_reserved :: u32
  vb_name :: bytes
  vb_vendor :: bytes

definition expected_backend_info_struct_size :: u32 where
  "expected_backend_info_struct_size =
     c_size_of [c_u32, c_u32, c_u64, c_u32, c_u32, c_array 128 c_char, c_array 64 c_char]"

definition vrb_backend_info_default :: vrb_backend_info where
  "vrb_backend_info_default = \<lparr>vb_struct_size = expected_backend_info_struct_size, vb_backend_kind = VrbOther,
     vb_capability_bits = 0, vb_device_count = 0, vb_reserved = 0, vb_name = replicate 128 0,
     vb_vendor = replicate 64 0\<rparr>"

record vrb_execution_request =
  ve_struct_size :: u32
  ve_operation :: u32
  ve_data_type :: u32
  ve_flags :: u64
  ve_element_count :: u64
  ve_input_handle :: u64
  ve_output_handle :: u64
  ve_opaque :: u64

definition vrb_execution_request_size :: u32 where
  "vrb_execution_request_size = c_size_of [c_u32, c_u32, c_u32, c_u64, c_u64, c_u64, c_u64, c_u64]"

text \<open>The probe gets the structure to fill in and returns what it wrote there, if anything.\<close>

type_synonym 'p vrb_probe_fn = "vrb_backend_info option \<Rightarrow> 'p \<Rightarrow> vrb_status \<times> vrb_backend_info option \<times> 'p"
type_synonym 'p vrb_execute_fn = "vrb_execution_request option \<Rightarrow> 'p \<Rightarrow> vrb_status \<times> 'p"

record 'p vrb_plugin =
  vp_abi_version :: u32
  vp_struct_size :: u32
  vp_name :: "bytes option"
  vp_backend_kind :: vrb_backend_kind
  vp_capability_bits :: u64
  vp_probe :: "'p vrb_probe_fn option"
  vp_execute :: "'p vrb_execute_fn option"
  vp_shutdown :: "('p \<Rightarrow> 'p) option"

definition expected_plugin_struct_size :: u32 where
  "expected_plugin_struct_size =
     c_size_of [c_u32, c_u32, c_pointer, c_u32, c_u64, c_pointer, c_pointer, c_pointer, c_pointer]"

text \<open>What the platform loader and the entry point give for a path.\<close>

datatype 'p backend_image =
    ImageNotLoadable string
  | ImageNoEntry string
  | ImageNullDescriptor
  | ImageDescriptor "'p vrb_plugin"

section \<open>The loader\<close>

datatype plugin_load_error =
    PlLoad string string
  | PlMissingEntry string
  | PlNullDescriptor
  | PlAbiVersion u32 u32
  | PlDescriptorTooSmall u32 u32
  | PlNullName
  | PlEmptyName
  | PlMissingProbe
  | PlMissingExecute
  | PlPluginStatus vrb_status
  | PlPoisoned
  | PlRuntime runtime_error

fun vrb_status_debug :: "vrb_status \<Rightarrow> string" where
  "vrb_status_debug VrbOk = ''Ok''"
| "vrb_status_debug VrbInvalidArgument = ''InvalidArgument''"
| "vrb_status_debug VrbUnsupported = ''Unsupported''"
| "vrb_status_debug VrbUnavailable = ''Unavailable''"
| "vrb_status_debug VrbInternalError = ''InternalError''"

fun runtime_error_to_string :: "runtime_error \<Rightarrow> string" where
  "runtime_error_to_string InvalidBackendId = ''backend id cannot be empty''"
| "runtime_error_to_string (DuplicateBackend i) = ''backend '' @ [CHR 0x27] @ id_str i @ [CHR 0x27] @ '' is already registered''"
| "runtime_error_to_string NoCompatibleBackend = ''no compatible backend is available''"
| "runtime_error_to_string (Routing s) = ''routing policy failed: '' @ s"

fun plugin_load_error_to_string :: "plugin_load_error \<Rightarrow> string" where
  "plugin_load_error_to_string (PlLoad path source) =
     ''unable to load plugin '' @ [CHR 0x27] @ path @ [CHR 0x27] @ '': '' @ source"
| "plugin_load_error_to_string (PlMissingEntry source) = ''plugin entry symbol is missing: '' @ source"
| "plugin_load_error_to_string PlNullDescriptor = ''plugin entry returned a null descriptor''"
| "plugin_load_error_to_string (PlAbiVersion actual expected) =
     ''plugin ABI version '' @ show_nat (unat actual) @ '' is incompatible with host ABI '' @ show_nat (unat expected)"
| "plugin_load_error_to_string (PlDescriptorTooSmall actual expected) =
     ''plugin descriptor is too small: '' @ show_nat (unat actual) @ '' bytes, expected at least ''
       @ show_nat (unat expected)"
| "plugin_load_error_to_string PlNullName = ''plugin name pointer is null''"
| "plugin_load_error_to_string PlEmptyName = ''plugin name is empty''"
| "plugin_load_error_to_string PlMissingProbe = ''plugin probe callback is missing''"
| "plugin_load_error_to_string PlMissingExecute = ''plugin execute callback is missing''"
| "plugin_load_error_to_string (PlPluginStatus st) = ''plugin returned status '' @ vrb_status_debug st"
| "plugin_load_error_to_string PlPoisoned = ''plugin state lock is poisoned''"
| "plugin_load_error_to_string (PlRuntime e) = runtime_error_to_string e"

text \<open>The immutable part of the backend; the cell of the plugin holds the rest.\<close>

record 'p dynamic_backend =
  dn_id :: backend_id
  dn_name :: string
  dn_kind :: backend_kind
  dn_capability_bits :: u64
  dn_probe :: "'p vrb_probe_fn"
  dn_execute :: "'p vrb_execute_fn option"
  dn_shutdown :: "('p \<Rightarrow> 'p) option"

fun map_vrb_backend_kind :: "vrb_backend_kind \<Rightarrow> backend_kind" where
  "map_vrb_backend_kind VrbCpu = Cpu"
| "map_vrb_backend_kind VrbVulkan = Vulkan"
| "map_vrb_backend_kind VrbHip = Hip"
| "map_vrb_backend_kind VrbHybrid = Hybrid"
| "map_vrb_backend_kind VrbOther = Plugin"

definition data_types_from_bits :: "u64 \<Rightarrow> data_type list" where
  "data_types_from_bits bits =
     (let types = (if bits AND capability_fp32 \<noteq> 0 then [F32] else [])
            @ (if bits AND capability_fp16 \<noteq> 0 then [F16] else [])
            @ (if bits AND capability_int8 \<noteq> 0 then [I8] else [])
      in if types = [] then [Unknown] else types)"

definition vrb_status_result :: "vrb_status \<Rightarrow> plugin_load_error + unit" where
  "vrb_status_result st = (if st = VrbOk then Inr () else Inl (PlPluginStatus st))"

definition backend_load_descriptor ::
  "'p vrb_plugin \<Rightarrow> 'p \<Rightarrow> plugin_load_error + 'p dynamic_backend \<times> 'p plugin_cell" where
  "backend_load_descriptor d p =
     (if vp_abi_version d \<noteq> vrb_plugin_abi_version
      then Inl (PlAbiVersion (vp_abi_version d) vrb_plugin_abi_version)
      else if vp_struct_size d < expected_plugin_struct_size
      then Inl (PlDescriptorTooSmall (vp_struct_size d) expected_plugin_struct_size)
      else and_then (ok_or (vp_name d) PlNullName) (\<lambda>raw_name.
        let name = abi_chars_to_string raw_name
        in if name = [] then Inl PlEmptyName
           else and_then (ok_or (vp_probe d) PlMissingProbe) (\<lambda>probe.
             and_then (map_err PlRuntime (backend_id_new (''plugin:'' @ name))) (\<lambda>bid.
             Inr (\<lparr>dn_id = bid, dn_name = name, dn_kind = map_vrb_backend_kind (vp_backend_kind d),
                dn_capability_bits = vp_capability_bits d, dn_probe = probe, dn_execute = vp_execute d,
                dn_shutdown = vp_shutdown d\<rparr>, plugin_cell_new p)))))"

definition backend_load ::
  "string \<Rightarrow> 'p backend_image \<Rightarrow> 'p \<Rightarrow> plugin_load_error + 'p dynamic_backend \<times> 'p plugin_cell" where
  "backend_load path dl p =
     (case dl of
        ImageNotLoadable e \<Rightarrow> Inl (PlLoad path e)
      | ImageNoEntry e \<Rightarrow> Inl (PlMissingEntry e)
      | ImageNullDescriptor \<Rightarrow> Inl PlNullDescriptor
      | ImageDescriptor d \<Rightarrow> backend_load_descriptor d p)"

definition execute_raw ::
  "'p dynamic_backend \<Rightarrow> vrb_execution_request \<Rightarrow> 'p plugin_cell \<Rightarrow> (plugin_load_error + unit) \<times> 'p plugin_cell" where
  "execute_raw backend request cell =
     (if pc_poisoned cell then (Inl PlPoisoned, cell)
      else case dn_execute backend of
          None \<Rightarrow> (Inl PlMissingExecute, cell)
        | Some execute \<Rightarrow>
            (case execute (Some request) (pc_plugin cell) of
               (st, p') \<Rightarrow> (vrb_status_result st, cell\<lparr>pc_plugin := p'\<rparr>)))"

definition probe_plugin ::
  "'p dynamic_backend \<Rightarrow> 'p plugin_cell \<Rightarrow> (plugin_load_error + vrb_backend_info) \<times> 'p plugin_cell" where
  "probe_plugin backend cell =
     (if pc_poisoned cell then (Inl PlPoisoned, cell)
      else case dn_probe backend (Some vrb_backend_info_default) (pc_plugin cell) of
          (st, written, p') \<Rightarrow>
            (and_then (vrb_status_result st) (\<lambda>_. Inr (case written of None \<Rightarrow> vrb_backend_info_default | Some info \<Rightarrow> info)),
             cell\<lparr>pc_plugin := p'\<rparr>))"

definition plugin_probe_of :: "'p dynamic_backend \<Rightarrow> vrb_backend_info \<Rightarrow> backend_probe" where
  "plugin_probe_of backend info =
     (let name = abi_chars_to_string (vb_name info);
          vendor = abi_chars_to_string (vb_vendor info);
          bits = vb_capability_bits info OR dn_capability_bits backend
      in \<lparr>bp_id = dn_id backend, bp_kind = map_vrb_backend_kind (vb_backend_kind info),
          bp_name = (if name = [] then dn_name backend else name), bp_vendor = vendor,
          bp_available = (vb_device_count info > 0), bp_device_count = vb_device_count info,
          bp_detail = ''plugin ABI v'' @ show_nat (unat vrb_plugin_abi_version),
          bp_capabilities = \<lparr>cs_operations = [OpCustom], cs_data_types = data_types_from_bits bits,
            cs_external_memory = (bits AND capability_external_memory \<noteq> 0),
            cs_external_semaphore = (bits AND capability_external_semaphore \<noteq> 0),
            cs_zero_copy = (bits AND capability_zero_copy \<noteq> 0)\<rparr>\<rparr>)"

definition dynamic_probe ::
  "'p dynamic_backend \<Rightarrow> 'p plugin_cell \<Rightarrow> (backend_error + backend_probe) \<times> 'p plugin_cell" where
  "dynamic_probe backend cell =
     (case probe_plugin backend cell of
        (Inl error, cell') \<Rightarrow> (Inl (Probe (plugin_load_error_to_string error)), cell')
      | (Inr info, cell') \<Rightarrow> (Inr (plugin_probe_of backend info), cell'))"

section \<open>The fixture\<close>

definition write_c_string :: "bytes \<Rightarrow> bytes \<Rightarrow> bytes" where
  "write_c_string output value =
     (let copy_len = min (length value) (length output - 1);
          copied = take copy_len value @ drop copy_len output
      in if length output > 0 then copied[copy_len := 0] else copied)"

definition cert_capabilities :: u64 where
  "cert_capabilities = capability_compute OR capability_fp32 OR capability_external_memory
     OR capability_external_semaphore OR capability_zero_copy"

definition cert_probe :: "fixture_env vrb_probe_fn" where
  "cert_probe out_info env =
     (case out_info of
        None \<Rightarrow> (VrbInvalidArgument, None, env)
      | Some _ \<Rightarrow>
          let info = vrb_backend_info_default\<lparr>vb_backend_kind := VrbHybrid,
                vb_capability_bits := cert_capabilities, vb_device_count := 1\<rparr>
          in (VrbOk, Some (info\<lparr>vb_name := write_c_string (vb_name info) (byte_string ''VRB E2E Fixture''),
                vb_vendor := write_c_string (vb_vendor info) (byte_string ''Techmad Certification'')\<rparr>), env))"

definition cert_execute :: "fixture_env vrb_execute_fn" where
  "cert_execute request env =
     (case request of
        None \<Rightarrow> (VrbInvalidArgument, env)
      | Some r \<Rightarrow>
          if ve_struct_size r < vrb_execution_request_size then (VrbInvalidArgument, env)
          else if ve_operation r = 42 then (VrbOk, env)
          else if ve_operation r = 7 then (VrbUnsupported, env)
          else (VrbInvalidArgument, env))"

definition cert_shutdown :: "fixture_env \<Rightarrow> fixture_env" where
  "cert_shutdown env =
     (case fe_marker env of
        None \<Rightarrow> env
      | Some path \<Rightarrow> env\<lparr>fe_written := fe_written env @ [(path, ''shutdown-called'' @ [CHR 0x0A])]\<rparr>)"

definition cert_plugin :: "fixture_env vrb_plugin" where
  "cert_plugin =
     \<lparr>vp_abi_version = vrb_plugin_abi_version, vp_struct_size = expected_plugin_struct_size,
      vp_name = Some (byte_string ''certification-fixture''), vp_backend_kind = VrbHybrid,
      vp_capability_bits = cert_capabilities, vp_probe = Some cert_probe, vp_execute = Some cert_execute,
      vp_shutdown = Some cert_shutdown\<rparr>"

section \<open>What loading establishes\<close>

lemma trailing_ws_0_iff: "trailing_ws s = 0 \<longleftrightarrow> (\<forall>p \<in> set whitespace. \<not> starts_with (rev s) (rev p))"
proof (cases "find (\<lambda>p. starts_with (rev s) (rev p)) whitespace")
  case None
  then have "\<forall>p \<in> set whitespace. \<not> starts_with (rev s) (rev p)" by (simp only: find_None_iff_all)
  with None show ?thesis by (simp add: trailing_ws_def)
next
  case (Some p)
  then have "p \<in> set whitespace" "starts_with (rev s) (rev p)" by (auto dest: find_SomeD)
  with Some whitespace_nonempty [of p] show ?thesis by (auto simp: trailing_ws_def)
qed

lemma trim_id_iff: "trim s = s \<longleftrightarrow> leading_ws s = 0 \<and> trailing_ws s = 0"
proof
  assume s: "trim s = s"
  obtain n where n: "trim s = take n (trim_start s)" using trim_end_prefix by (auto simp: trim_def)
  have "\<forall>p \<in> set whitespace. \<not> starts_with (trim_start s) p"
    using leading_ws_trim_start [of s] by (simp only: leading_ws_0_iff)
  then have "leading_ws (take n (trim_start s)) = 0" by (auto simp: leading_ws_0_iff dest: starts_with_take)
  with n s have "leading_ws s = 0" by simp
  moreover have "trailing_ws (trim s) = 0" by (simp add: trim_def)
  ultimately show "leading_ws s = 0 \<and> trailing_ws s = 0" using s by simp
qed (simp add: trim_def trim_start.simps trim_end.simps)

text \<open>A prefix that neither starts like white space nor ends inside one leaves a trimmed text trimmed.\<close>

lemma trim_prefixed:
  assumes "trim name = name" and p: "\<forall>w \<in> set whitespace. hd w \<noteq> c \<and> c' \<notin> set w"
  shows "trim ([c] @ cs @ [c'] @ name) = [c] @ cs @ [c'] @ name"
proof -
  have "\<not> starts_with ([c] @ cs @ [c'] @ name) w" if "w \<in> set whitespace" for w
    using bspec [OF p that] whitespace_nonempty [OF that] by (cases w) (auto simp: starts_with_def)
  moreover have "\<not> starts_with (rev ([c] @ cs @ [c'] @ name)) (rev w)" if w: "w \<in> set whitespace" for w
  proof
    assume sw: "starts_with (rev ([c] @ cs @ [c'] @ name)) (rev w)"
    show False
    proof (cases "length w \<le> length name")
      case True
      with sw have "starts_with (rev name) (rev w)" by (simp add: starts_with_def)
      with w assms(1) show False by (auto simp: trim_id_iff trailing_ws_0_iff)
    next
      case False
      with sw have "c' \<in> set (rev w)"
        unfolding starts_with_def
        by (auto simp: take_append Suc_le_eq take_Cons' dest!: arg_cong [of _ _ set])
      with w p show False by auto
    qed
  qed
  ultimately show ?thesis by (simp add: trim_id_iff leading_ws_0_iff trailing_ws_0_iff del: append_Cons append_Nil)
qed

lemma plugin_backend_id:
  assumes "trim name = name"
  shows "backend_id_new (''plugin:'' @ name) = Inr (BackendId (''plugin:'' @ name))"
proof -
  have "\<forall>w \<in> set whitespace. hd w \<noteq> CHR ''p'' \<and> CHR '':'' \<notin> set w" by code_simp
  from trim_prefixed [OF assms this, of "''lugin''"] show ?thesis by (simp add: backend_id_new_def)
qed

lemmas plugin_backend_ids = plugin_backend_id plugin_backend_id [simplified]

lemma trim_abi_chars [simp]: "trim (abi_chars_to_string value) = abi_chars_to_string value"
  by (simp add: abi_chars_to_string_def)

lemma backend_load_Inr:
  "backend_load path dl p = Inr (backend, cell) \<longleftrightarrow>
     (\<exists>d raw_name probe. dl = ImageDescriptor d \<and> vp_abi_version d = vrb_plugin_abi_version
        \<and> expected_plugin_struct_size \<le> vp_struct_size d \<and> vp_name d = Some raw_name
        \<and> abi_chars_to_string raw_name \<noteq> [] \<and> vp_probe d = Some probe
        \<and> backend = \<lparr>dn_id = BackendId (''plugin:'' @ abi_chars_to_string raw_name),
            dn_name = abi_chars_to_string raw_name, dn_kind = map_vrb_backend_kind (vp_backend_kind d),
            dn_capability_bits = vp_capability_bits d, dn_probe = probe, dn_execute = vp_execute d,
            dn_shutdown = vp_shutdown d\<rparr>
        \<and> cell = plugin_cell_new p)"
  by (cases dl) (auto simp: backend_load_def backend_load_descriptor_def Let_def result_iffs plugin_backend_ids not_less
      split: if_splits)

section \<open>The life of a backend\<close>

text \<open>The calls a host makes on a loaded backend, and what each one does to the plugin.\<close>

datatype backend_call = CallProbe | CallExecute vrb_execution_request

fun run_backend_calls :: "'p dynamic_backend \<Rightarrow> backend_call list \<Rightarrow> 'p plugin_cell \<Rightarrow> 'p plugin_cell" where
  "run_backend_calls backend [] cell = cell"
| "run_backend_calls backend (CallProbe # calls) cell =
     run_backend_calls backend calls (snd (dynamic_probe backend cell))"
| "run_backend_calls backend (CallExecute request # calls) cell =
     run_backend_calls backend calls (snd (execute_raw backend request cell))"

fun callback_effect :: "'p vrb_plugin \<Rightarrow> backend_call \<Rightarrow> 'p \<Rightarrow> 'p" where
  "callback_effect d CallProbe p =
     (case vp_probe d of None \<Rightarrow> p | Some probe \<Rightarrow> snd (snd (probe (Some vrb_backend_info_default) p)))"
| "callback_effect d (CallExecute request) p =
     (case vp_execute d of None \<Rightarrow> p | Some execute \<Rightarrow> snd (execute (Some request) p))"

definition backend_of :: "'p vrb_plugin \<Rightarrow> 'p dynamic_backend \<Rightarrow> bool" where
  "backend_of d backend \<longleftrightarrow> vp_probe d = Some (dn_probe backend) \<and> vp_execute d = dn_execute backend
     \<and> vp_shutdown d = dn_shutdown backend"

lemma dynamic_probe_cell:
  "\<not> pc_poisoned cell \<Longrightarrow> snd (dynamic_probe backend cell) =
     cell\<lparr>pc_plugin := snd (snd (dn_probe backend (Some vrb_backend_info_default) (pc_plugin cell)))\<rparr>"
  by (auto simp: dynamic_probe_def probe_plugin_def split: sum.split prod.split)

lemma execute_raw_cell:
  "\<not> pc_poisoned cell \<Longrightarrow> snd (execute_raw backend request cell) =
     cell\<lparr>pc_plugin := (case dn_execute backend of None \<Rightarrow> pc_plugin cell
       | Some execute \<Rightarrow> snd (execute (Some request) (pc_plugin cell)))\<rparr>"
  by (auto simp: execute_raw_def split: option.split prod.split)

lemma run_backend_calls_cell:
  assumes "backend_of d backend"
  shows "\<not> pc_poisoned cell \<Longrightarrow> run_backend_calls backend calls cell =
     cell\<lparr>pc_plugin := fold (callback_effect d) calls (pc_plugin cell)\<rparr>"
proof (induction calls arbitrary: cell)
  case (Cons call calls)
  then show ?case
    using assms by (cases call) (simp_all add: dynamic_probe_cell execute_raw_cell backend_of_def)
qed simp

lemma dynamic_probe_Inr:
  "dynamic_probe backend cell = (Inr probe, cell') \<longleftrightarrow>
     (\<exists>info. probe_plugin backend cell = (Inr info, cell') \<and> probe = plugin_probe_of backend info)"
  by (auto simp: dynamic_probe_def split: prod.splits sum.splits)

text \<open>What a request has to ask for to be served by a plugin.\<close>

lemma plugin_probe_compatible:
  "compatible_probe rq (plugin_probe_of backend info) \<longleftrightarrow>
     vb_device_count info > 0 \<and> rq_operation rq = OpCustom
     \<and> (let bits = vb_capability_bits info OR dn_capability_bits backend
        in rq_data_type rq \<in> set (data_types_from_bits bits)
          \<and> (rq_requires_external_memory rq \<longrightarrow> bits AND capability_external_memory \<noteq> 0)
          \<and> (rq_requires_external_semaphore rq \<longrightarrow> bits AND capability_external_semaphore \<noteq> 0)
          \<and> (rq_requires_zero_copy rq \<longrightarrow> bits AND capability_zero_copy \<noteq> 0))"
  by (auto simp: compatible_probe_def supports_def plugin_probe_of_def Let_def)

section \<open>Properties\<close>

text \<open>
  C35. A backend plugin's shutdown callback runs exactly once. After any sequence of probes and
  executions, failed ones included, the plugin has seen exactly the callbacks they make, in
  order; dropping the backend then runs the shutdown of its descriptor once on that state, and
  a second drop would change nothing. The identifier is the one of the plugin's trimmed name
  under the prefix of plugins, so it is no identifier of a built-in backend.
\<close>

theorem backend_shuts_down_once:
  assumes "backend_load path dl p = Inr (backend, cell)"
  shows "\<exists>d. dl = ImageDescriptor d
    \<and> (let dropped = drop_plugin (dn_shutdown backend) (run_backend_calls backend calls cell);
           final = fold (callback_effect d) calls p
       in pc_plugin dropped = (case vp_shutdown d of None \<Rightarrow> final | Some shutdown \<Rightarrow> shutdown final)
          \<and> drop_plugin (dn_shutdown backend) dropped = dropped)
    \<and> id_str (dn_id backend) = ''plugin:'' @ dn_name backend \<and> dn_name backend \<noteq> []
    \<and> dn_id backend \<notin> {BackendId ''cpu'', BackendId ''hip'', BackendId ''vulkan''}"
proof -
  from assms obtain d where d: "dl = ImageDescriptor d" "backend_of d backend"
    and cell: "cell = plugin_cell_new p"
    and name: "dn_id backend = BackendId (''plugin:'' @ dn_name backend)" "dn_name backend \<noteq> []"
    by (auto simp: backend_load_Inr backend_of_def)
  have "run_backend_calls backend calls cell = plugin_cell_new (fold (callback_effect d) calls p)"
    using run_backend_calls_cell [OF d(2), of cell calls] by (simp add: cell plugin_cell_new_def)
  moreover have "vp_shutdown d = dn_shutdown backend" using d(2) by (simp add: backend_of_def)
  ultimately show ?thesis
    using d(1) name by (intro exI [of _ d]) (auto simp: Let_def drop_plugin_def plugin_cell_new_def split: option.split)
qed

definition cert_request :: vrb_execution_request where
  "cert_request = \<lparr>ve_struct_size = vrb_execution_request_size, ve_operation = 42, ve_data_type = 1, ve_flags = 0,
     ve_element_count = 1024, ve_input_handle = 11, ve_output_handle = 22, ve_opaque = 33\<rparr>"

definition cert_backend :: "fixture_env dynamic_backend" where
  "cert_backend = \<lparr>dn_id = BackendId ''plugin:certification-fixture'', dn_name = ''certification-fixture'',
     dn_kind = Hybrid, dn_capability_bits = cert_capabilities, dn_probe = cert_probe,
     dn_execute = Some cert_execute, dn_shutdown = Some cert_shutdown\<rparr>"

lemma cert_plugin_loads: "backend_load path (ImageDescriptor cert_plugin) env = Inr (cert_backend, plugin_cell_new env)"
proof -
  have "abi_chars_to_string (byte_string ''certification-fixture'') = ''certification-fixture''" by code_simp
  then show ?thesis by (simp add: backend_load_Inr cert_plugin_def cert_backend_def)
qed

lemma cert_calls:
  "fst (execute_raw cert_backend cert_request (plugin_cell_new env)) = Inr ()"
  "fst (execute_raw cert_backend (cert_request\<lparr>ve_operation := 7\<rparr>) (plugin_cell_new env)) = Inl (PlPluginStatus VrbUnsupported)"
  "fst (execute_raw cert_backend (cert_request\<lparr>ve_struct_size := 0\<rparr>) (plugin_cell_new env)) =
     Inl (PlPluginStatus VrbInvalidArgument)"
  by (simp_all add: execute_raw_def cert_backend_def plugin_cell_new_def cert_execute_def cert_request_def
      vrb_status_result_def vrb_execution_request_size_def c_layout_defs)

theorem backend_shuts_down_once_witness:
  "pc_plugin (drop_plugin (Some cert_shutdown) (run_backend_calls cert_backend
      [CallProbe, CallExecute cert_request, CallExecute (cert_request\<lparr>ve_operation := 7\<rparr>)]
      (plugin_cell_new \<lparr>fe_marker = Some ''marker'', fe_written = []\<rparr>)))
    = \<lparr>fe_marker = Some ''marker'', fe_written = [(''marker'', ''shutdown-called'' @ [CHR 0x0A])]\<rparr>"
  using backend_shuts_down_once [OF cert_plugin_loads [of "''fixture''" "\<lparr>fe_marker = Some ''marker'', fe_written = []\<rparr>"],
      of "[CallProbe, CallExecute cert_request, CallExecute (cert_request\<lparr>ve_operation := 7\<rparr>)]"]
  by (simp add: Let_def cert_backend_def cert_plugin_def cert_probe_def cert_execute_def cert_shutdown_def
      cert_request_def vrb_execution_request_size_def c_layout_defs)

end
