(* ===== verification/Cli.thy ===== *)
theory Cli
  imports Backends Backend_Plugin
begin

text \<open>
  The parts of \<open>vrb-cli\<close> that decide something: the runtime it builds from the built-in
  backends and the plugins on its command line, the route of an operation, the byte argument
  and the check of the CPU benchmark. Arguments are parsed already, and what is printed, the
  clock and the file written by the benchmark are left out.
\<close>

section \<open>The runtime\<close>

datatype cli_error =
    CliPlugin string plugin_load_error
  | CliRuntime runtime_error
  | CliMismatch nat f32 f32

text \<open>
  The runtime probes its backends in the order of their identifiers, so HIP before Vulkan; the
  plugins in between do not call the driver here.
\<close>

definition builtin_backends ::
  "target_os \<Rightarrow> string \<Rightarrow> gpu_driver \<Rightarrow> environment \<Rightarrow> compute_backend list gpu_effect" where
  "builtin_backends os arch drv env =
     then_do (hip_probe os drv env) (\<lambda>hip.
     then_do (vulkan_probe os drv) (\<lambda>vk.
     give [\<lparr>cb_id = cpu_backend_id, cb_kind = Cpu, cb_probe = cpu_probe arch\<rparr>,
       \<lparr>cb_id = vulkan_backend_id, cb_kind = Vulkan, cb_probe = vk\<rparr>,
       \<lparr>cb_id = hip_backend_id, cb_kind = Hip, cb_probe = hip\<rparr>]))"

definition plugin_compute_backend :: "'p dynamic_backend \<times> 'p plugin_cell \<Rightarrow> compute_backend" where
  "plugin_compute_backend x =
     (case x of (backend, cell) \<Rightarrow>
        \<lparr>cb_id = dn_id backend, cb_kind = dn_kind backend, cb_probe = fst (dynamic_probe backend cell)\<rparr>)"

fun load_plugins :: "runtime \<Rightarrow> (string \<times> 'p backend_image \<times> 'p) list \<Rightarrow> cli_error + runtime" where
  "load_plugins builder [] = Inr builder"
| "load_plugins builder ((path, dl, p) # plugins) =
     and_then (map_err (CliPlugin path) (backend_load path dl p)) (\<lambda>plugin.
     and_then (map_err CliRuntime (builder_backend builder (plugin_compute_backend plugin))) (\<lambda>builder'.
     load_plugins builder' plugins))"

definition build_runtime ::
  "compute_backend list \<Rightarrow> (string \<times> 'p backend_image \<times> 'p) list \<Rightarrow> cli_error + runtime" where
  "build_runtime builtins plugins =
     and_then (map_err CliRuntime (builder_backends builder_new builtins)) (\<lambda>builder.
     and_then (load_plugins builder plugins) (\<lambda>builder'. Inr (builder_build builder')))"

definition cli_request :: "operation_kind \<Rightarrow> data_type \<Rightarrow> bool \<Rightarrow> route_request" where
  "cli_request operation dtype zero =
     (let request = route_request_new operation dtype in if zero then zero_copy request else request)"

definition cli_route ::
  "target_os \<Rightarrow> string \<Rightarrow> gpu_driver \<Rightarrow> environment \<Rightarrow> operation_kind \<Rightarrow> data_type \<Rightarrow> bool
    \<Rightarrow> (string \<times> 'p backend_image \<times> 'p) list \<Rightarrow> (cli_error + backend_id) gpu_effect" where
  "cli_route os arch drv env operation dtype zero plugins h =
     (case builtin_backends os arch drv env h of
        (builtins, h') \<Rightarrow>
          (case build_runtime builtins plugins of
             Inl e \<Rightarrow> (Inl e, h)
           | Inr runtime \<Rightarrow> (map_err CliRuntime (runtime_route runtime (cli_request operation dtype zero)), h')))"

section \<open>The byte argument\<close>

datatype parse_int_error = IntEmpty | IntInvalidDigit | IntOverflow

definition to_digit :: "nat \<Rightarrow> char \<Rightarrow> nat option" where
  "to_digit radix c =
     (let n = of_char c :: nat;
          d = (if 48 \<le> n \<and> n \<le> 57 then n - 48 else if 97 \<le> n \<and> n \<le> 122 then n - 87
               else if 65 \<le> n \<and> n \<le> 90 then n - 55 else radix)
      in if d < radix then Some d else None)"

fun u8_digits :: "nat \<Rightarrow> nat \<Rightarrow> string \<Rightarrow> parse_int_error + nat" where
  "u8_digits radix acc [] = Inr acc"
| "u8_digits radix acc (c # cs) =
     (case to_digit radix c of
        None \<Rightarrow> Inl IntInvalidDigit
      | Some d \<Rightarrow> if acc * radix + d < 256 then u8_digits radix (acc * radix + d) cs else Inl IntOverflow)"

definition u8_from_str_radix :: "string \<Rightarrow> nat \<Rightarrow> parse_int_error + u8" where
  "u8_from_str_radix s radix =
     (case s of
        [] \<Rightarrow> Inl IntEmpty
      | [c] \<Rightarrow> if c = CHR ''+'' \<or> c = CHR ''-'' then Inl IntInvalidDigit
               else and_then (u8_digits radix 0 s) (\<lambda>n. Inr (of_nat n))
      | c # cs \<Rightarrow> and_then (u8_digits radix 0 (if c = CHR ''+'' then cs else s)) (\<lambda>n. Inr (of_nat n)))"

text \<open>The message an error comes with starts with the argument.\<close>

definition parse_byte :: "string \<Rightarrow> (string \<times> parse_int_error) + u8" where
  "parse_byte value =
     (let trimmed = trim value
      in map_err (Pair value)
           (if starts_with trimmed ''0x'' \<or> starts_with trimmed ''0X'' then u8_from_str_radix (drop 2 trimmed) 16
            else u8_from_str_radix trimmed 10))"

section \<open>The check of the CPU benchmark\<close>

fun validate_vector_add :: "nat \<Rightarrow> f32 list \<Rightarrow> f32 list \<Rightarrow> f32 list \<Rightarrow> cli_error + unit" where
  "validate_vector_add index (l # left) (r # right) (actual # output) =
     (let expected = f32_add l r
      in if actual \<noteq> expected then Inl (CliMismatch index expected actual)
         else validate_vector_add (Suc index) left right output)"
| "validate_vector_add index left right output = Inr ()"

section \<open>What the parts do\<close>

text \<open>The digits the program prints for a byte are read back, and decimal ones too.\<close>

lemma u8_digits_append:
  "u8_digits radix acc (xs @ ys) = and_then (u8_digits radix acc xs) (\<lambda>v. u8_digits radix v ys)"
  by (induction xs arbitrary: acc) (auto split: option.split)

lemma to_digit_decimal: "d < 10 \<Longrightarrow> to_digit 10 (digit_char d) = Some d"
  by (simp add: to_digit_def digit_char_def of_char_of)

lemma to_digit_hex:
  assumes "d < 16"
  shows "to_digit 16 (''0123456789abcdef'' ! d) = Some d"
proof -
  have "list_all (\<lambda>d. to_digit 16 (''0123456789abcdef'' ! d) = Some d) [0..<16]" by code_simp
  with assms show ?thesis by (simp add: list_all_iff)
qed

lemma u8_digits_show_nat: "n < 256 \<Longrightarrow> u8_digits 10 0 (show_nat n) = Inr n"
proof (induction n rule: show_nat.induct)
  case (1 n)
  then show ?case
    by (cases "n < 10") (simp_all add: show_nat.simps [of n] u8_digits_append to_digit_decimal)
qed

lemma u8_digits_show_hex: "n < 256 \<Longrightarrow> u8_digits 16 0 (show_hex n) = Inr n"
proof (induction n rule: show_hex.induct)
  case (1 n)
  then show ?case
    by (cases "n < 16") (simp_all add: show_hex.simps [of n] u8_digits_append to_digit_hex del: nth_Cons_numeral)
qed

text \<open>The reference backend passes the check whenever it accepts its arguments.\<close>

lemma validate_sums:
  "length left = length right \<Longrightarrow> length out = length left \<Longrightarrow>
    validate_vector_add i left right (map (\<lambda>((o', lhs), rhs). f32_add lhs rhs) (zip (zip out left) right)) = Inr ()"
  by (induction left arbitrary: i right out) (auto simp: Let_def length_Suc_conv Suc_length_conv)

lemma vector_add_validates:
  "vector_add_f32 left right output = (Inr (), result) \<Longrightarrow> validate_vector_add i left right result = Inr ()"
  by (auto simp: vector_add_f32_def validate_sums split: if_splits)

lemma builder_backends_append:
  "builder_backends b (xs @ ys) = and_then (builder_backends b xs) (\<lambda>b'. builder_backends b' ys)"
  unfolding builder_backends_def
proof (induction xs arbitrary: b)
  case (Cons x xs)
  then show ?case by (cases "builder_backend b x") simp_all
qed simp

lemma load_plugins_loaded:
  assumes "list_all2 (\<lambda>(path, dl, p) x. backend_load path dl p = Inr x) plugins loaded"
  shows "load_plugins b plugins = map_err CliRuntime (builder_backends b (map plugin_compute_backend loaded))"
  using assms
proof (induction plugins loaded arbitrary: b rule: list_all2_induct)
  case (Cons x xs y ys)
  then show ?case
    by (cases x; cases "builder_backend b (plugin_compute_backend y)") (simp_all add: builder_backends_def)
qed (simp add: builder_backends_def)

lemma load_plugins_ok:
  "load_plugins b plugins = Inr b' \<Longrightarrow>
    \<exists>loaded. list_all2 (\<lambda>(path, dl, p) x. backend_load path dl p = Inr x) plugins loaded"
proof (induction b plugins rule: load_plugins.induct)
  case (2 b path dl p plugins)
  then obtain x b1 where "backend_load path dl p = Inr x" "load_plugins b1 plugins = Inr b'"
    "\<exists>loaded. list_all2 (\<lambda>(path, dl, p) x. backend_load path dl p = Inr x) plugins loaded"
    by (auto simp: result_iffs)
  then show ?case by (auto intro: exI [of _ "x # _"])
qed auto

lemma build_runtime_loaded:
  assumes "list_all2 (\<lambda>(path, dl, p) x. backend_load path dl p = Inr x) plugins loaded"
  shows "is_ok (build_runtime builtins plugins)
    \<longleftrightarrow> is_ok (builder_backends builder_new (builtins @ map plugin_compute_backend loaded))"
  by (cases "builder_backends builder_new builtins";
      cases "builder_backends (projr (builder_backends builder_new builtins)) (map plugin_compute_backend loaded)")
    (simp_all add: build_runtime_def builder_backends_append load_plugins_loaded [OF assms])

lemma loaded_ids:
  assumes "list_all2 (\<lambda>(path, dl, p) x. backend_load path dl p = Inr x) plugins loaded"
  shows "map (cb_id \<circ> plugin_compute_backend) loaded = map (\<lambda>x. BackendId (''plugin:'' @ dn_name (fst x))) loaded"
  using assms
proof (induction rule: list_all2_induct)
  case (Cons x xs y ys)
  then show ?case by (auto simp: backend_load_Inr plugin_compute_backend_def split: prod.splits)
qed simp

lemma builtin_backends_list:
  "\<exists>vk hip. fst (builtin_backends os arch drv env h) =
    [\<lparr>cb_id = cpu_backend_id, cb_kind = Cpu, cb_probe = cpu_probe arch\<rparr>,
     \<lparr>cb_id = vulkan_backend_id, cb_kind = Vulkan, cb_probe = vk\<rparr>,
     \<lparr>cb_id = hip_backend_id, cb_kind = Hip, cb_probe = hip\<rparr>]"
  by (auto simp: builtin_backends_def then_do_def give_def split: prod.split)

lemmas builtin_ids = cpu_backend_id_def vulkan_backend_id_def hip_backend_id_def

text \<open>A failed probe is reported as an unavailable backend.\<close>

lemma probe_result_compatible:
  "compatible_probe rq (backend_probe_result \<lparr>cb_id = i, cb_kind = k, cb_probe = r\<rparr>) \<longleftrightarrow>
     (\<exists>p. r = Inr p \<and> compatible_probe rq p)"
  by (cases r) (auto simp: backend_probe_result_def failed_probe_def compatible_probe_def)

definition serves :: "bool \<Rightarrow> backend_error + backend_probe \<Rightarrow> bool" where
  "serves zero r = (case r of Inl e \<Rightarrow> False | Inr p \<Rightarrow> bp_available p \<and> (zero \<longrightarrow> cs_zero_copy (bp_capabilities p)))"

lemma cli_request_fields [simp]:
  "rq_operation (cli_request operation dtype zero) = operation" "rq_data_type (cli_request operation dtype zero) = dtype"
  "rq_requires_external_memory (cli_request operation dtype zero) = zero"
  "rq_requires_external_semaphore (cli_request operation dtype zero) = zero"
  "rq_requires_zero_copy (cli_request operation dtype zero) = zero"
  by (simp_all add: cli_request_def route_request_new_def zero_copy_def Let_def)

text \<open>What each built-in backend can be asked for.\<close>

lemma builtin_compatible:
  "(\<exists>p. cpu_probe arch = Inr p \<and> compatible_probe (cli_request operation dtype zero) p) \<longleftrightarrow>
     operation \<in> {OpCopy, VectorAdd} \<and> dtype \<in> {F32, I8} \<and> \<not> zero"
  "hip_probe os drv env h = (hip, h1) \<Longrightarrow>
     (\<exists>p. hip = Inr p \<and> compatible_probe (cli_request operation dtype zero) p) \<longleftrightarrow>
     operation = OpCustom \<and> dtype = Unknown \<and> serves zero hip"
  "vulkan_probe os drv h = (vk, h1) \<Longrightarrow>
     (\<exists>p. vk = Inr p \<and> compatible_probe (cli_request operation dtype zero) p) \<longleftrightarrow>
     operation \<in> {OpCopy, OpCustom} \<and> dtype = Unknown \<and> serves zero vk"
proof -
  show "(\<exists>p. cpu_probe arch = Inr p \<and> compatible_probe (cli_request operation dtype zero) p) \<longleftrightarrow>
     operation \<in> {OpCopy, VectorAdd} \<and> dtype \<in> {F32, I8} \<and> \<not> zero"
    by (auto simp: cpu_probe_def compatible_probe_def supports_def)
next
  assume "hip_probe os drv env h = (hip, h1)"
  then have "\<exists>info. hip = Inr (hip_probe_of info)" if "hip = Inr p" for p
    using that by (auto simp: hip_probe_def effect_eqs)
  then show "(\<exists>p. hip = Inr p \<and> compatible_probe (cli_request operation dtype zero) p) \<longleftrightarrow>
     operation = OpCustom \<and> dtype = Unknown \<and> serves zero hip"
    by (cases hip) (auto simp: serves_def hip_probe_of_def compatible_probe_def supports_def)
next
  assume "vulkan_probe os drv h = (vk, h1)"
  then have "\<exists>info. vk = Inr (vulkan_probe_of info)" if "vk = Inr p" for p
    using that by (auto simp: vulkan_probe_def effect_eqs)
  then show "(\<exists>p. vk = Inr p \<and> compatible_probe (cli_request operation dtype zero) p) \<longleftrightarrow>
     operation \<in> {OpCopy, OpCustom} \<and> dtype = Unknown \<and> serves zero vk"
    by (cases vk) (auto simp: serves_def vulkan_probe_of_def Let_def compatible_probe_def supports_def)
qed

text \<open>With an empty table, the default policy goes by the rank of the kind alone.\<close>

lemma fastest_without_measurements:
  "fastest_compatible rq ps [] =
     ok_or (map_option bp_id (min_by_key (\<lambda>p. bootstrap_rank (bp_kind p)) (filter (compatible_probe rq) ps))) NoCompatibleBackend"
proof -
  have "measured [] rq ps = []" by (simp add: measured_def map_filter_def measured_us_def median_us_def)
  then show ?thesis by (simp add: fastest_compatible_cases)
qed

lemma fastest_builtin:
  assumes "bp_kind c = Cpu" "bp_kind g = Hip" "bp_kind v = Vulkan"
  shows "fastest_compatible rq [c, g, v] [] =
     (if compatible_probe rq g then Inr (bp_id g) else if compatible_probe rq v then Inr (bp_id v)
      else if compatible_probe rq c then Inr (bp_id c) else Inl NoCompatibleBackend)"
  by (simp add: fastest_without_measurements min_by_key_def assms)

section \<open>Properties\<close>

text \<open>
  C14. The runtime of the program can be built exactly when every plugin on its command line
  loads and no two of them have the same name: a plugin can never collide with a built-in
  backend, whatever it is called, and the built-in backends never collide with each other.
\<close>

theorem runtime_builds_iff_plugins_valid:
  "is_ok (build_runtime (fst (builtin_backends os arch drv env h)) plugins) \<longleftrightarrow>
    (\<exists>loaded. list_all2 (\<lambda>(path, dl, p) x. backend_load path dl p = Inr x) plugins loaded
      \<and> distinct (map (dn_name \<circ> fst) loaded))"
    (is "?ok \<longleftrightarrow> (\<exists>loaded. ?load loaded \<and> _)")
proof -
  let ?builtins = "fst (builtin_backends os arch drv env h)"
  have ids: "map cb_id ?builtins = [cpu_backend_id, vulkan_backend_id, hip_backend_id]"
    using builtin_backends_list [of os arch drv env h] by auto
  have ok: "?ok \<longleftrightarrow> distinct (map (dn_name \<circ> fst) loaded)" if l: "?load loaded" for loaded
  proof -
    have "map cb_id (?builtins @ map plugin_compute_backend loaded)
        = [cpu_backend_id, vulkan_backend_id, hip_backend_id] @ map (\<lambda>x. BackendId (''plugin:'' @ dn_name (fst x))) loaded"
      using ids loaded_ids [OF l] by simp
    moreover have "distinct (map (\<lambda>x. BackendId (''plugin:'' @ dn_name (fst x))) loaded)
        \<longleftrightarrow> distinct (map (dn_name \<circ> fst) loaded)"
      by (simp add: distinct_map inj_on_def)
    ultimately show ?thesis
      unfolding build_runtime_loaded [OF l]
      by (subst builder_backends_ok_iff) (auto simp: builder_new_def builtin_ids)
  qed
  moreover have "\<exists>loaded. ?load loaded" if "?ok"
  proof -
    from that obtain b b' where "load_plugins b plugins = Inr b'"
      by (cases "build_runtime ?builtins plugins") (auto simp: build_runtime_def result_iffs)
    then show ?thesis by (rule load_plugins_ok)
  qed
  ultimately show ?thesis by auto
qed

text \<open>
  C12. Where an operation goes without plugins. Only custom operations on data of no known type
  reach HIP, when it is available, and that or a plain copy reaches Vulkan otherwise; with zero
  copy asked for, only a backend that reports it. The CPU serves copies and vector additions on
  \<open>f32\<close> and \<open>i8\<close>, and never with zero copy. Everything else, every matrix product and
  every attention among it, needs a plugin and is refused. HIP is probed before Vulkan.
\<close>

theorem route_without_plugins:
  "fst (cli_route os arch drv env operation dtype zero ([] :: (string \<times> 'p backend_image \<times> 'p) list) h) =
    (let (hip, h1) = hip_probe os drv env h; (vk, h2) = vulkan_probe os drv h1
     in if operation = OpCustom \<and> dtype = Unknown \<and> serves zero hip then Inr hip_backend_id
        else if operation \<in> {OpCopy, OpCustom} \<and> dtype = Unknown \<and> serves zero vk then Inr vulkan_backend_id
        else if operation \<in> {OpCopy, VectorAdd} \<and> dtype \<in> {F32, I8} \<and> \<not> zero then Inr cpu_backend_id
        else Inl (CliRuntime NoCompatibleBackend))"
proof -
  obtain hip h1 where hip: "hip_probe os drv env h = (hip, h1)" by fastforce
  obtain vk h2 where vk: "vulkan_probe os drv h1 = (vk, h2)" by fastforce
  let ?cpu = "\<lparr>cb_id = cpu_backend_id, cb_kind = Cpu, cb_probe = cpu_probe arch\<rparr>"
  let ?vk = "\<lparr>cb_id = vulkan_backend_id, cb_kind = Vulkan, cb_probe = vk\<rparr>"
  let ?hip = "\<lparr>cb_id = hip_backend_id, cb_kind = Hip, cb_probe = hip\<rparr>"
  let ?rq = "cli_request operation dtype zero" and ?none = "[] :: (string \<times> 'p backend_image \<times> 'p) list"
  have builtins: "builtin_backends os arch drv env h = ([?cpu, ?vk, ?hip], h2)"
    by (simp add: builtin_backends_def then_do_def give_def hip vk)
  have "build_runtime [?cpu, ?vk, ?hip] ?none = Inr \<lparr>rt_registry = [(cpu_backend_id, ?cpu), (hip_backend_id, ?hip),
      (vulkan_backend_id, ?vk)], rt_policy = fastest_compatible, rt_performance = []\<rparr>"
    by (simp add: build_runtime_def builder_backends_def builder_backend_def registry_register_def bt_contains_def
        builder_new_def builder_build_def builtin_ids less_backend_id_def Let_def)
  then have "fst (cli_route os arch drv env operation dtype zero ?none h) =
      map_err CliRuntime (fastest_compatible ?rq (map backend_probe_result [?cpu, ?hip, ?vk]) [])"
    by (simp add: cli_route_def builtins runtime_route_def registry_probes_def)
  moreover have probes: "bp_id (backend_probe_result ?cpu) = cpu_backend_id" "bp_kind (backend_probe_result ?cpu) = Cpu"
    "bp_id (backend_probe_result ?hip) = hip_backend_id" "bp_kind (backend_probe_result ?hip) = Hip"
    "bp_id (backend_probe_result ?vk) = vulkan_backend_id" "bp_kind (backend_probe_result ?vk) = Vulkan"
    using hip vk by (auto simp: backend_probe_result_def failed_probe_def cpu_probe_def hip_probe_def vulkan_probe_def
        hip_probe_of_def vulkan_probe_of_def Let_def effect_eqs split: sum.split)
  moreover have "compatible_probe ?rq (backend_probe_result ?cpu) \<longleftrightarrow>
      operation \<in> {OpCopy, VectorAdd} \<and> dtype \<in> {F32, I8} \<and> \<not> zero"
    "compatible_probe ?rq (backend_probe_result ?hip) \<longleftrightarrow> operation = OpCustom \<and> dtype = Unknown \<and> serves zero hip"
    "compatible_probe ?rq (backend_probe_result ?vk) \<longleftrightarrow>
      operation \<in> {OpCopy, OpCustom} \<and> dtype = Unknown \<and> serves zero vk"
    unfolding probe_result_compatible builtin_compatible(1) builtin_compatible(2) [OF hip] builtin_compatible(3) [OF vk]
    by (rule refl)+
  ultimately show ?thesis
    by (simp only: hip vk fastest_builtin list.map prod.case Let_def if_distrib [of "map_err CliRuntime"] map_err.simps)
qed

end
