(* ===== verification/Residency_Order.thy ===== *)
theory Residency_Order
  imports Residency "HOL-Library.Multiset"
begin

text \<open>
  The order of use in the residency cache. An abstract cache is the list of the resident
  allocations, the least recently used one first, and whether the lock is poisoned; it knows
  neither a clock nor touch stamps. The cache of \<open>vrb-residency\<close> refines it: sorting its
  entries by their stamps gives the list, after any sequence of calls.
\<close>

section \<open>The abstract cache\<close>

datatype residency_call =
    CallAcquire residency_provider residency_spec
  | CallInvalidate residency_key
  | CallClear

fun run_call :: "residency_call \<Rightarrow> residency_cache \<Rightarrow> residency_cache" where
  "run_call (CallAcquire provider spec) cache = fst (acquire cache provider spec)"
| "run_call (CallInvalidate key) cache = fst (invalidate cache key)"
| "run_call CallClear cache = fst (residency_clear cache)"

type_synonym lru_cache = "resident_allocation list \<times> bool"

definition lru_bytes :: "resident_allocation list \<Rightarrow> nat" where
  "lru_bytes order = (\<Sum>a \<leftarrow> order. unat (rs_bytes (al_spec a)))"

definition without_key :: "residency_key \<Rightarrow> resident_allocation list \<Rightarrow> resident_allocation list" where
  "without_key key order = filter (\<lambda>a. rs_key (al_spec a) \<noteq> key) order"

text \<open>The oldest allocations go, as few as are needed.\<close>

fun drop_oldest :: "nat \<Rightarrow> resident_allocation list \<Rightarrow> resident_allocation list" where
  "drop_oldest room [] = []"
| "drop_oldest room (a # order) = (if lru_bytes (a # order) \<le> room then a # order else drop_oldest room order)"

text \<open>
  A hit moves the allocation to the end. A miss forgets another allocation of the key, makes room,
  and appends what the provider returns if it is what was asked for.
\<close>

definition lru_acquire :: "u64 \<Rightarrow> residency_provider \<Rightarrow> residency_spec \<Rightarrow> resident_allocation list \<Rightarrow> lru_cache" where
  "lru_acquire capacity provider spec order =
     (case List.find (\<lambda>a. al_spec a = spec) order of
        Some a \<Rightarrow> (without_key (rs_key spec) order @ [a], False)
      | None \<Rightarrow>
          let kept = drop_oldest (unat capacity - unat (rs_bytes spec)) (without_key (rs_key spec) order)
          in case provider spec of
               Unwound \<Rightarrow> (kept, True)
             | Returned (Inl e) \<Rightarrow> (kept, False)
             | Returned (Inr a) \<Rightarrow> (if al_spec a = spec then kept @ [a] else kept, False))"

fun lru_call :: "u64 \<Rightarrow> residency_call \<Rightarrow> lru_cache \<Rightarrow> lru_cache" where
  "lru_call capacity (CallAcquire provider spec) (order, poisoned) =
     (if poisoned \<or> sint (rs_device_index spec) < 0 \<or> rs_bytes spec = 0 \<or> capacity < rs_bytes spec
      then (order, poisoned)
      else lru_acquire capacity provider spec order)"
| "lru_call capacity (CallInvalidate key) (order, poisoned) =
     (if poisoned then order else without_key key order, poisoned)"
| "lru_call capacity CallClear (order, poisoned) = (if poisoned then order else [], poisoned)"

text \<open>What the code's cache looks like from there.\<close>

definition entry_touch :: "residency_key \<times> cache_entry \<Rightarrow> u64" where
  "entry_touch x = ce_last_touch (snd x)"

definition by_touch :: "cache_state \<Rightarrow> (residency_key \<times> cache_entry) list" where
  "by_touch s = sort_key entry_touch (st_entries s)"

definition recency :: "cache_state \<Rightarrow> resident_allocation list" where
  "recency s = map (\<lambda>x. ce_allocation (snd x)) (by_touch s)"

definition lru_view :: "residency_cache \<Rightarrow> lru_cache" where
  "lru_view cache = (recency (rc_state cache), rc_poisoned cache)"

section \<open>Sorting by stamps\<close>

lemma bt_remove_filter: "bt_wf m \<Longrightarrow> bt_remove k m = filter (\<lambda>x. fst x \<noteq> k) m"
proof (induction m)
  case (Cons x m)
  then have "\<forall>y \<in> set m. fst x < fst y" "bt_wf m" by (cases x; simp add: bt_wf_Cons)+
  with Cons.IH show ?case by (cases x) (auto intro!: filter_True [symmetric])
qed simp

lemma bt_insert_mset:
  "bt_wf m \<Longrightarrow> mset (bt_insert k v m) = add_mset (k, v) (mset (filter (\<lambda>x. fst x \<noteq> k) m))"
proof (induction m)
  case (Cons x m)
  then have less: "\<forall>y \<in> set m. fst x < fst y" and wf: "bt_wf m" by (cases x; simp add: bt_wf_Cons)+
  have "filter (\<lambda>y. fst y \<noteq> fst x) m = m" "k < fst x \<Longrightarrow> filter (\<lambda>y. fst y \<noteq> k) m = m"
    using less by (auto intro!: filter_True)
  with Cons.IH [OF wf] show ?case by (cases x) auto
qed simp

lemma sort_touch_insert:
  assumes wf: "bt_wf m" and inj: "inj_on f (set m)" and new: "\<forall>x \<in> set m. f x < f (k, v)"
  shows "sort_key f (bt_insert k v m) = filter (\<lambda>x. fst x \<noteq> k) (sort_key f m) @ [(k, v)]"
proof (rule sort_key_inj_key_eq)
  show "mset (bt_insert k v m) = mset (filter (\<lambda>x. fst x \<noteq> k) (sort_key f m) @ [(k, v)])"
    by (simp add: bt_insert_mset [OF wf] filter_sort)
  have "set (bt_insert k v m) \<subseteq> insert (k, v) (set m)" by (auto simp: bt_set_insert [OF wf])
  moreover have "inj_on f (insert (k, v) (set m))" using inj new by fastforce
  ultimately show "inj_on f (set (bt_insert k v m))" by (rule inj_on_subset [rotated])
  show "sorted (map f (filter (\<lambda>x. fst x \<noteq> k) (sort_key f m) @ [(k, v)]))"
    using new by (auto simp: sorted_append filter_sort sorted_sort_key less_imp_le)
qed

section \<open>Stamps that order the entries\<close>

text \<open>As long as the clock has not wrapped, the stamps are different and not in the future.\<close>

definition clocked :: "cache_state \<Rightarrow> bool" where
  "clocked s \<longleftrightarrow> inj_on entry_touch (set (st_entries s)) \<and> (\<forall>x \<in> set (st_entries s). entry_touch x \<le> st_clock s)"

lemma clocked_update [simp]:
  "clocked (s\<lparr>st_hits := h\<rparr>) = clocked s" "clocked (s\<lparr>st_misses := h\<rparr>) = clocked s"
  "recency (s\<lparr>st_clock := x\<rparr>) = recency s" "recency (s\<lparr>st_hits := h\<rparr>) = recency s"
  "recency (s\<lparr>st_misses := h\<rparr>) = recency s"
  by (simp_all add: clocked_def recency_def by_touch_def)

lemma set_by_touch [simp]: "set (by_touch s) = set (st_entries s)"
  by (simp add: by_touch_def)

lemma allocation_key:
  "state_inv c s \<Longrightarrow> x \<in> set (st_entries s) \<Longrightarrow> rs_key (al_spec (ce_allocation (snd x))) = fst x"
  by (auto simp: state_inv_def entries_valid_def Let_def)

lemma recency_without:
  assumes "state_inv c s"
  shows "map (\<lambda>x. ce_allocation (snd x)) (filter (\<lambda>x. fst x \<noteq> key) (by_touch s)) = without_key key (recency s)"
proof -
  have "filter (\<lambda>x. fst x \<noteq> key) (by_touch s)
      = filter (\<lambda>x. rs_key (al_spec (ce_allocation (snd x))) \<noteq> key) (by_touch s)"
    by (rule filter_cong) (simp_all add: allocation_key [OF assms])
  then show ?thesis by (simp add: recency_def without_key_def filter_map comp_def)
qed

lemma discard_order:
  assumes "state_inv c s" "clocked s"
  shows "recency (discard_entry key s) = without_key key (recency s)" "clocked (discard_entry key s)"
    "st_clock (discard_entry key s) = st_clock s"
proof -
  note wf = state_inv_wf [OF assms(1)]
  have "by_touch (discard_entry key s) = filter (\<lambda>x. fst x \<noteq> key) (by_touch s)"
    by (simp add: by_touch_def residency_drop_entries bt_remove_filter [OF wf] filter_sort)
  then show "recency (discard_entry key s) = without_key key (recency s)"
    using recency_without [OF assms(1)] by (simp add: recency_def)
  show clock: "st_clock (discard_entry key s) = st_clock s"
    by (simp add: discard_entry_def split: option.split)
  show "clocked (discard_entry key s)"
    using assms(2) bt_remove_subset [of key "st_entries s"]
    by (auto simp: clocked_def clock residency_drop_entries intro: inj_on_subset)
qed

text \<open>Storing under a new stamp puts the entry at the end.\<close>

lemma insert_order:
  assumes inv: "state_inv c s" and "clocked s" and new: "\<forall>x \<in> set (st_entries s). entry_touch x < ce_last_touch e"
    and s': "st_entries s' = bt_insert key e (st_entries s)" "ce_last_touch e \<le> st_clock s'"
  shows "recency s' = without_key key (recency s) @ [ce_allocation e]" "clocked s'"
proof -
  note wf = state_inv_wf [OF inv]
  have inj: "inj_on entry_touch (set (st_entries s))"
    and less: "\<forall>x \<in> set (st_entries s). entry_touch x < entry_touch (key, e)"
    using assms(2) new by (simp_all add: clocked_def entry_touch_def)
  from sort_touch_insert [OF wf inj less] have "by_touch s' = filter (\<lambda>x. fst x \<noteq> key) (by_touch s) @ [(key, e)]"
    by (simp add: by_touch_def s')
  then show "recency s' = without_key key (recency s) @ [ce_allocation e]"
    using recency_without [OF inv] by (simp add: recency_def)
  have "set (st_entries s') \<subseteq> insert (key, e) (set (st_entries s))" by (auto simp: s' bt_set_insert [OF wf])
  moreover have "inj_on entry_touch (insert (key, e) (set (st_entries s)))" using inj less by fastforce
  moreover have "\<forall>x \<in> insert (key, e) (set (st_entries s)). entry_touch x \<le> st_clock s'"
    using less s'(2) by (force simp: entry_touch_def)
  ultimately show "clocked s'" unfolding clocked_def by (blast intro: inj_on_subset)
qed

section \<open>The eviction loop drops the oldest\<close>

lemma recency_bytes:
  assumes "state_inv c s"
  shows "unat (st_resident_bytes s) = lru_bytes (recency s)"
proof -
  have "(\<Sum>x \<leftarrow> by_touch s. g x) = (\<Sum>x \<leftarrow> st_entries s. g x)" for g :: "residency_key \<times> cache_entry \<Rightarrow> nat"
    by (simp add: by_touch_def flip: sum_mset_sum_list)
  with assms show ?thesis
    by (simp add: state_inv_def rstore.accounted_def bt_weight_def entry_bytes_def lru_bytes_def recency_def comp_def)
qed

lemma victim_oldest:
  assumes inv: "state_inv c s" and clock: "clocked s"
    and victim: "lru_victim ce_last_touch (\<lambda>key. True) (st_entries s) = Some k"
  shows "\<exists>e xs. by_touch s = (k, e) # xs \<and> without_key k (recency s) = map (\<lambda>x. ce_allocation (snd x)) xs"
proof -
  from victim obtain e where e: "(k, e) \<in> set (st_entries s)"
    "\<And>k' e'. (k', e') \<in> set (st_entries s) \<Longrightarrow> ce_last_touch e \<le> ce_last_touch e'"
    by (elim lru_victim_Some) auto
  then obtain x xs where x: "by_touch s = x # xs" by (metis list.set_cases set_by_touch)
  then have mem: "x \<in> set (st_entries s)" by (metis list.set_intros(1) set_by_touch)
  have sorted: "sorted (map entry_touch (x # xs))" unfolding x [symmetric] by (simp add: by_touch_def sorted_sort_key)
  have "(k, e) \<in> set (x # xs)" using e(1) unfolding x [symmetric] by simp
  with sorted have "entry_touch x \<le> entry_touch (k, e)" by auto
  moreover have "entry_touch (k, e) \<le> entry_touch x" using e(2) [of "fst x" "snd x"] mem by (simp add: entry_touch_def)
  ultimately have "entry_touch x = entry_touch (k, e)" by (rule antisym)
  with clock mem e(1) have xk: "x = (k, e)" by (auto simp: clocked_def dest: inj_onD)
  have "distinct (map fst (by_touch s))"
    using bt_wf_distinct [OF state_inv_wf [OF inv]] by (simp add: by_touch_def distinct_map)
  then have "\<forall>y \<in> set xs. fst y \<noteq> k" unfolding x xk by auto
  then have "filter (\<lambda>y. fst y \<noteq> k) (by_touch s) = xs" unfolding x xk by (auto intro!: filter_True)
  with recency_without [OF inv, of k] x xk show ?thesis by simp
qed

lemma evicts_order:
  "rstore.evicts (needs_room c bytes) (\<lambda>key. True) s s' \<Longrightarrow> state_inv c s \<Longrightarrow> clocked s \<Longrightarrow> bytes \<le> c \<Longrightarrow>
    \<not> needs_room c bytes s' \<Longrightarrow>
    recency s' = drop_oldest (unat c - unat bytes) (recency s) \<and> clocked s' \<and> st_clock s' = st_clock s"
proof (induction rule: rstore.evicts.induct)
  case (evicts_done s)
  then have "lru_bytes (recency s) \<le> unat c - unat bytes"
    by (simp add: needs_room_def over_capacity_iff recency_bytes [symmetric])
  then have "drop_oldest (unat c - unat bytes) (recency s) = recency s" by (cases "recency s") simp_all
  with evicts_done show ?case by simp
next
  case (evicts_step s k s')
  note order = discard_order [OF evicts_step.prems(1,2), of k]
  obtain e xs where x: "by_touch s = (k, e) # xs" "without_key k (recency s) = map (\<lambda>x. ce_allocation (snd x)) xs"
    using victim_oldest [OF evicts_step.prems(1,2) evicts_step.hyps(2)] by blast
  have "unat c < lru_bytes (recency s) + unat bytes"
    using evicts_step.hyps(1) by (simp add: needs_room_def over_capacity_iff recency_bytes [OF evicts_step.prems(1)])
  then have "\<not> lru_bytes (recency s) \<le> unat c - unat bytes"
    using evicts_step.prems(3) by (simp add: word_le_nat_alt)
  moreover have "recency s = ce_allocation e # without_key k (recency s)" unfolding x(2) by (simp add: recency_def x(1))
  ultimately have "drop_oldest (unat c - unat bytes) (recency s)
      = drop_oldest (unat c - unat bytes) (without_key k (recency s))" by (metis drop_oldest.simps(2))
  with evicts_step.IH [OF state_inv_discard [OF evicts_step.prems(1)] order(2) evicts_step.prems(3,4)] order
  show ?case by simp
qed

lemma evicts_subset: "rstore.evicts need eligible s s' \<Longrightarrow> set (st_entries s') \<subseteq> set (st_entries s)"
proof (induction rule: rstore.evicts.induct)
  case (evicts_step s k s')
  then show ?case using bt_remove_subset [of k "st_entries s"] by (auto simp: residency_drop_entries)
qed simp

lemma drop_oldest_subset: "set (drop_oldest room order) \<subseteq> set order"
  by (induction order) auto

lemma without_key_id: "(\<And>a. a \<in> set order \<Longrightarrow> a \<in> set (without_key key order')) \<Longrightarrow> without_key key order = order"
  by (auto simp: without_key_def intro!: filter_True)

section \<open>Every call is simulated\<close>

lemma resident_find:
  assumes inv: "state_inv c s"
  shows "map_option ce_allocation (resident spec s) = List.find (\<lambda>a. al_spec a = spec) (recency s)"
proof (cases "resident spec s")
  case None
  have "al_spec (ce_allocation (snd x)) \<noteq> spec" if "x \<in> set (st_entries s)" for x
  proof
    assume "al_spec (ce_allocation (snd x)) = spec"
    with allocation_key [OF inv that] have "fst x = rs_key spec" by simp
    with that state_inv_wf [OF inv] have "bt_get (st_entries s) (rs_key spec) = Some (snd x)"
      by (metis bt_get_iff prod.collapse)
    with None \<open>al_spec _ = spec\<close> show False by (simp add: resident_def)
  qed
  then have "List.find (\<lambda>a. al_spec a = spec) (recency s) = None" by (auto simp: find_None_iff recency_def)
  with None show ?thesis by simp
next
  case (Some entry)
  then have get: "bt_get (st_entries s) (rs_key spec) = Some entry" and spec: "al_spec (ce_allocation entry) = spec"
    by (auto simp: resident_def split: option.splits if_splits)
  have mem: "(rs_key spec, entry) \<in> set (st_entries s)" using get by (rule bt_get_mem)
  have only: "a = ce_allocation entry" if "a \<in> set (recency s)" "al_spec a = spec" for a
  proof -
    from that obtain x where x: "x \<in> set (st_entries s)" "a = ce_allocation (snd x)" by (auto simp: recency_def)
    with allocation_key [OF inv x(1)] that(2) have "fst x = rs_key spec" by simp
    with x(1) state_inv_wf [OF inv] have "bt_get (st_entries s) (rs_key spec) = Some (snd x)"
      by (metis bt_get_iff prod.collapse)
    with get x(2) show ?thesis by simp
  qed
  have "ce_allocation entry \<in> set (recency s)" using mem by (force simp: recency_def)
  with spec obtain a where "List.find (\<lambda>a. al_spec a = spec) (recency s) = Some a"
    by (cases "List.find (\<lambda>a. al_spec a = spec) (recency s)") (auto simp: find_None_iff)
  moreover from find_SomeD [OF this] have "a = ce_allocation entry" by (intro only) simp_all
  ultimately show ?thesis using Some by simp
qed

lemma acquire_locked_order:
  assumes inv: "state_inv c s" and clock: "clocked s" "st_clock s \<noteq> - 1" and fits: "rs_bytes spec \<le> c"
  shows "(recency (fst (acquire_locked c provider spec s)), snd (acquire_locked c provider spec s) = Unwound)
      = lru_acquire c provider spec (recency s)"
    and "clocked (fst (acquire_locked c provider spec s))"
    and "unat (st_clock (fst (acquire_locked c provider spec s))) = unat (st_clock s) + 1"
proof -
  let ?t = "next_clock (st_clock s)" and ?r = "acquire_locked c provider spec s"
  have t: "unat ?t = unat (st_clock s) + 1" using clock(2) by (rule next_clock_no_wrap)
  then have "st_clock s < ?t" by (simp add: word_less_nat_alt)
  with clock(1) have less: "\<forall>x \<in> set (st_entries s). entry_touch x < ?t" by (auto simp: clocked_def)
  have "(recency (fst ?r), snd ?r = Unwound) = lru_acquire c provider spec (recency s) \<and> clocked (fst ?r) \<and> st_clock (fst ?r) = ?t"
  proof (cases "resident spec s")
    case (Some entry)
    let ?e = "entry\<lparr>ce_last_touch := ?t\<rparr>"
    let ?s = "s\<lparr>st_clock := ?t, st_entries := bt_insert (rs_key spec) ?e (st_entries s),
      st_hits := saturating_add (st_hits s) 1\<rparr>"
    have r: "?r = (?s, Returned (Inr (ce_allocation entry)))" by (simp add: acquire_locked_eq Some)
    have "recency ?s = without_key (rs_key spec) (recency s) @ [ce_allocation ?e]" "clocked ?s"
      by (rule insert_order [OF inv clock(1), of ?e ?s "rs_key spec"]; simp add: less)+
    moreover have "List.find (\<lambda>a. al_spec a = spec) (recency s) = Some (ce_allocation entry)"
      using resident_find [OF inv, of spec] Some by simp
    ultimately show ?thesis by (simp add: r lru_acquire_def)
  next
    case None
    let ?b = "miss_base spec s" and ?m = "miss_state c spec (miss_base spec s)"
    let ?b' = "?b\<lparr>st_misses := saturating_add (st_misses ?b) 1\<rparr>"
    note base = miss_base_inv [OF inv, of spec]
    note run = miss_state_run [OF base fits]
    have "state_inv c (s\<lparr>st_clock := ?t\<rparr>)" "clocked (s\<lparr>st_clock := ?t\<rparr>)"
      using inv clock(1) less by (auto simp: clocked_def intro: less_imp_le)
    note b = discard_order [OF this, of "rs_key spec", folded miss_base_def]
    have m: "recency ?m = drop_oldest (unat c - unat (rs_bytes spec)) (without_key (rs_key spec) (recency s))"
      "clocked ?m" "st_clock ?m = ?t"
      using evicts_order [OF run(1) _ _ fits] base b run(3) by (simp_all add: needs_room_def over_capacity_iff)
    have "set (st_entries ?m) \<subseteq> set (st_entries s)"
      using evicts_subset [OF run(1)] bt_remove_subset [of "rs_key spec" "st_entries s"]
      by (auto simp: miss_base_def residency_drop_entries)
    with less have new: "\<forall>x \<in> set (st_entries ?m). entry_touch x < ?t" by blast
    have stored: "recency (stored spec ?t a ?m) = recency ?m @ [a]" "clocked (stored spec ?t a ?m)"
      "st_clock (stored spec ?t a ?m) = ?t" for a
    proof -
      let ?e = "\<lparr>ce_allocation = a, ce_last_touch = ?t\<rparr>"
      have "recency (stored spec ?t a ?m) = without_key (rs_key spec) (recency ?m) @ [ce_allocation ?e]"
        "clocked (stored spec ?t a ?m)"
        by (rule insert_order [OF run(2) m(2), of ?e _ "rs_key spec"]; simp add: new stored_def m(3))+
      moreover have "without_key (rs_key spec) (recency ?m) = recency ?m"
        unfolding m(1) by (rule without_key_id [where order' = "recency s"]) (use drop_oldest_subset in blast)
      ultimately show "recency (stored spec ?t a ?m) = recency ?m @ [a]" "clocked (stored spec ?t a ?m)" by simp_all
    qed (simp add: stored_def m(3))
    have "List.find (\<lambda>a. al_spec a = spec) (recency s) = None"
      using resident_find [OF inv, of spec] None by simp
    then show ?thesis
      using m stored
      by (simp add: acquire_locked_eq None acquire_miss_eq [OF base fits] store_allocation_eq [OF run(3)] lru_acquire_def
          split: unwinding.split sum.split)
  qed
  then show "(recency (fst ?r), snd ?r = Unwound) = lru_acquire c provider spec (recency s)" "clocked (fst ?r)"
    "unat (st_clock (fst ?r)) = unat (st_clock s) + 1" by (simp_all add: t)
qed

text \<open>A cache whose clock has not wrapped, after some number of calls.\<close>

definition ticked :: "u64 \<Rightarrow> nat \<Rightarrow> residency_cache \<Rightarrow> bool" where
  "ticked capacity n cache \<longleftrightarrow> residency_inv cache \<and> rc_capacity_bytes cache = capacity
     \<and> clocked (rc_state cache) \<and> unat (st_clock (rc_state cache)) \<le> n"

lemma call_keeps:
  "residency_inv cache \<Longrightarrow> residency_inv (run_call call cache) \<and> rc_capacity_bytes (run_call call cache) = rc_capacity_bytes cache"
  by (cases call) (simp_all add: acquire_inv invalidate_inv clear_inv, simp_all add: invalidate_def residency_clear_def)

lemma call_acquire:
  assumes "ticked c n cache" "n < 2 ^ 64 - 1"
  shows "lru_view (fst (acquire cache provider spec)) = lru_call c (CallAcquire provider spec) (lru_view cache)
    \<and> ticked c (Suc n) (fst (acquire cache provider spec))"
proof (cases "admitted cache spec")
  case True
  from assms have inv: "state_inv c (rc_state cache)" and cap: "rc_capacity_bytes cache = c"
    and clock: "clocked (rc_state cache)" "unat (st_clock (rc_state cache)) \<le> n"
    by (auto simp: ticked_def residency_inv_def)
  have "st_clock (rc_state cache) \<noteq> - 1" 
  proof
    assume "st_clock (rc_state cache) = - 1"
    then have "unat (st_clock (rc_state cache)) = 2 ^ 64 - 1" by (simp add: unsigned_minus_1_eq_mask mask_eq_exp_minus_1)
    with clock(2) assms(2) show False by linarith
  qed
  moreover have fits: "rs_bytes spec \<le> c" using True cap by (simp add: admitted_def)
  ultimately have order:
    "(recency (fst (acquire_locked c provider spec (rc_state cache))), snd (acquire_locked c provider spec (rc_state cache)) = Unwound)
      = lru_acquire c provider spec (recency (rc_state cache))"
    "clocked (fst (acquire_locked c provider spec (rc_state cache)))"
    "unat (st_clock (fst (acquire_locked c provider spec (rc_state cache)))) = unat (st_clock (rc_state cache)) + 1"
    using acquire_locked_order [OF inv clock(1)] by blast+
  have run: "fst (acquire cache provider spec) = cache\<lparr>rc_state := fst (acquire_locked c provider spec (rc_state cache)),
      rc_poisoned := (snd (acquire_locked c provider spec (rc_state cache)) = Unwound)\<rparr>"
    using True cap by (auto simp: admitted_def acquire_def with_lock_def not_less [symmetric] split: prod.split)
  have "lru_call c (CallAcquire provider spec) (lru_view cache) = lru_acquire c provider spec (recency (rc_state cache))"
    using True cap by (auto simp: admitted_def lru_view_def spec_validate_def not_less split: if_splits)
  with order(1) have "lru_view (fst (acquire cache provider spec)) = lru_call c (CallAcquire provider spec) (lru_view cache)"
    by (simp add: lru_view_def run)
  moreover have "ticked c (Suc n) (fst (acquire cache provider spec))"
    using call_keeps [of cache "CallAcquire provider spec"] assms(1) order(2,3) clock(2) by (simp add: ticked_def) (simp add: run)
  ultimately show ?thesis ..
next
  case False
  with assms have same: "fst (acquire cache provider spec) = cache"
    by (auto simp: admitted_def acquire_def with_lock_def not_less split: sum.split)
  have "lru_call c (CallAcquire provider spec) (lru_view cache) = lru_view cache"
    using False assms(1) by (auto simp: admitted_def lru_view_def ticked_def spec_validate_def not_less split: if_splits)
  with same assms(1) show ?thesis by (simp add: ticked_def)
qed

lemma call_simulated:
  assumes "ticked c n cache" "n < 2 ^ 64 - 1"
  shows "lru_view (run_call call cache) = lru_call c call (lru_view cache) \<and> ticked c (Suc n) (run_call call cache)"
proof (cases call)
  case (CallAcquire provider spec)
  with call_acquire [OF assms] show ?thesis by simp
next
  case (CallInvalidate key)
  from assms have inv: "state_inv c (rc_state cache)" "clocked (rc_state cache)"
    by (auto simp: ticked_def residency_inv_def)
  note order = discard_order [OF this, of key]
  show ?thesis
    using CallInvalidate order call_keeps [of cache call] assms(1)
    by (auto simp: ticked_def lru_view_def invalidate_def with_lock_def)
next
  case CallClear
  have "recency (clear_state (rc_state cache)) = []" "clocked (clear_state (rc_state cache))"
    "st_clock (clear_state (rc_state cache)) = st_clock (rc_state cache)"
    by (simp_all add: recency_def by_touch_def clocked_def clear_state_def)
  then show ?thesis
    using CallClear call_keeps [of cache call] assms(1)
    by (auto simp: ticked_def lru_view_def residency_clear_def with_lock_def)
qed

lemma calls_simulated:
  "ticked c n cache \<Longrightarrow> n + length calls < 2 ^ 64 \<Longrightarrow>
    lru_view (fold run_call calls cache) = fold (lru_call c) calls (lru_view cache)"
proof (induction calls arbitrary: n cache)
  case (Cons call calls)
  from call_simulated [OF Cons.prems(1)] Cons.prems(2)
  have "lru_view (run_call call cache) = lru_call c call (lru_view cache)" "ticked c (Suc n) (run_call call cache)" by auto
  with Cons.IH [of "Suc n" "run_call call cache"] Cons.prems(2) show ?case by simp
qed simp

section \<open>Properties\<close>

text \<open>
  C6. Eviction is least recently used first. For every sequence of fewer than \<open>2^64\<close> calls of
  \<open>acquire\<close>, \<open>invalidate\<close> and \<open>clear\<close> on a new cache, the resident allocations, in the order
  of their stamps, and the poisoning of the lock are those of a cache that keeps no stamps and no
  clock but a list: a successful \<open>acquire\<close> of a resident spec moves its allocation to the end, any
  other admitted one drops the allocation of the same key, then from the front only as many as are
  needed to make room, and appends what the provider returns for the requested spec.
\<close>

theorem cache_is_lru_list:
  assumes "residency_cache_new capacity = Inr cache" and "length calls < 2 ^ 64"
  shows "lru_view (fold run_call calls cache) = fold (lru_call capacity) calls ([], False)"
proof -
  have "ticked capacity 0 cache" "lru_view cache = ([], False)"
    using assms(1) new_inv [OF assms(1)]
    by (auto simp: residency_cache_new_def ticked_def clocked_def lru_view_def recency_def by_touch_def split: if_splits)
  with calls_simulated [of capacity 0 cache calls] assms(2) show ?thesis by simp
qed

text \<open>
  Capacity 100, allocations of 40: after a, b, a the third allocation c evicts b, not a, and
  acquiring b again evicts a.
\<close>

definition demo_acquire :: "string \<Rightarrow> residency_call" where
  "demo_acquire key = CallAcquire demo_provider (demo_spec key 40)"

theorem cache_is_lru_list_witness:
  "\<exists>cache. residency_cache_new 100 = Inr cache
    \<and> map al_spec (recency (rc_state (fold run_call (map demo_acquire [''a'', ''b'', ''a'', ''c'']) cache)))
        = [demo_spec ''a'' 40, demo_spec ''c'' 40]
    \<and> map al_spec (recency (rc_state (fold run_call (map demo_acquire [''a'', ''b'', ''a'', ''c'', ''b'']) cache)))
        = [demo_spec ''c'' 40, demo_spec ''b'' 40]"
proof -
  obtain cache where new: "residency_cache_new 100 = Inr cache" by (simp add: residency_cache_new_def)
  have "recency (rc_state (fold run_call (map demo_acquire keys) cache))
      = fst (fold (lru_call 100) (map demo_acquire keys) ([], False))" if "length keys < 2 ^ 64" for keys
    using cache_is_lru_list [OF new, of "map demo_acquire keys"] that by (simp add: lru_view_def prod_eq_iff)
  from this [of "[''a'', ''b'', ''a'', ''c'']"] this [of "[''a'', ''b'', ''a'', ''c'', ''b'']"] new show ?thesis
    by (simp add: demo_acquire_def lru_acquire_def demo_spec_def demo_provider_def without_key_def lru_bytes_def Let_def)
qed

end
