(* ===== verification/Spec2Isabelle.thy ===== *)
theory Spec2Isabelle
  imports Core Kv_Cache Execution_Plan Attention_Protocol Gemm_Protocol Shared_Gemm_Protocol
    Gemm_Plugin Attention_Reference Test_Operator_Plugin Test_Shared_Plugin Hip_Shared_Gemm Bridge Autotune
    Cli Residency_Order
begin

text \<open>
  A verification library for RiftGPU, the Rust workspace under \<open>src/crates\<close> that lets Vulkan
  and AMD HIP work on the same memory. Every definition that models code is translated from
  the lines \<open>PROJECT.json\<close> gives for it; the properties C1 to C40 are theorems of the theories
  named there.

  \<^bold>\<open>The program.\<close> \<open>vrb-core\<close> holds backends, their capabilities and the policy that routes a
  request to one of them, by measurements that \<open>vrb-autotune\<close> keeps on disk; \<open>vrb-execution-plan\<close>
  routes a whole chain of requests. \<open>vrb-backends\<close> provides the backends (CPU, HIP, Vulkan,
  plugins) and the bridge runtime that certifies memory shared between Vulkan and HIP. Operators
  run in plugins, on host bytes (\<open>vrb-operators\<close> and its loader) or on borrowed external memory
  (\<open>vrb-shared-operators\<close> and its loader), with protocols for their control messages, reference
  kernels, and one plugin on rocBLAS. \<open>vrb-vulkan-shared-buffer\<close> creates the shared memory and
  lends it to a callback. \<open>vrb-residency\<close> and \<open>vrb-kv-cache\<close> decide what stays on the device.
  \<open>vrb-cli\<close> puts the runtime together.

  \<^bold>\<open>Foundations.\<close> \<open>Prelude\<close>: machine integers as words with checked, wrapping and saturating
  operations, \<open>Result\<close> as a sum, iterator functions, printing, \<open>str::trim\<close>. \<open>BTree_Map\<close>: ordered
  maps, with the interface \<open>ordered_map\<close>. \<open>Arrays\<close>: indexing that panics. \<open>Bytes\<close>: byte buffers,
  with the interface \<open>byte_codec\<close> interpreted on the little-endian conversions. \<open>Rust_Float\<close>:
  binary32 and binary64 as bit patterns with their rounded arithmetic and orders.
  \<open>Environment\<close>: environment variables and limits read from them. \<open>Lru\<close>: what both caches
  share, with the interface \<open>lru_store\<close> and the runs of the eviction loop. \<open>Effects\<close>: calls into
  foreign libraries. A driver is a function from all calls so far to the next answer, so it
  covers everything such a library may do; an effect acts on the history of calls; an audit
  follows the live resources and refuses a use or release of one that is not; \<open>triple\<close> is the
  Hoare logic over it. \<open>Gpu_Driver\<close>: the calls to the platform loader, HIP, rocBLAS and Vulkan,
  their answers and their audit.
\<close>

text \<open>
  \<^bold>\<open>Which theory models what.\<close>
  \<^item> \<open>Core\<close>: \<open>vrb-core/src/lib.rs\<close>. Interface \<open>routing_policy\<close>, interpreted on \<open>fastest_compatible\<close>.
    C10, C11: the fastest measured backend is chosen, and under the default policy a runtime of
    any chain of builder calls routes to a compatible registered backend, the fastest one measured
    for the request, or else the first in bootstrap order.
  \<^item> \<open>Execution_Plan\<close>: \<open>vrb-execution-plan\<close>. Interface \<open>monotone_costs\<close>, interpreted on the rounded
    addition of \<open>f64\<close>. C15 to C17: the total of a plan is the cost of its own steps and the
    least cost of any path in that arithmetic, plans are paths, and fail exactly when a request
    has no backend.
  \<^item> \<open>Autotune\<close>: \<open>vrb-autotune\<close>. C18, C19: a table is built exactly when its environment,
    its shape and their records are valid, and answers with the last record of a key; saving never loses the old contents, whatever call to
    the file system fails, and what it leaves under the path is what the encoder wrote.
  \<^item> \<open>Residency\<close>, \<open>Kv_Cache\<close>: \<open>vrb-residency\<close>, \<open>vrb-kv-cache\<close>, both interpretations of \<open>lru_store\<close>.
    C1 to C5, C7 to C9: exact accounting within capacity in every reachable state, the contract of
    every branch, eviction that ends, and poisoning. \<open>Residency_Order\<close>, C6: a cache is observed,
    call by call, to be a list in order of use that evicts from its front, a specification
    without clocks or stamps.
  \<^item> \<open>Registry\<close>, \<open>Operators\<close>, \<open>Shared_Operators\<close>: the registries. Interface \<open>operator_selection\<close>,
    interpreted on both default policies. C39, C40: dispatch is one scan of all operators, and
    only validated regions reach one.
  \<^item> \<open>Plugin_Abi\<close>, \<open>Operator_Loader\<close>, \<open>Shared_Operator_Loader\<close>: the plugin ABIs and their loaders; a
    plugin is its callbacks on a state of any type. Interface \<open>operator_kernel\<close>, interpreted on
    the fixture and the reference GEMM plugin. C34, C36 to C38: what is accepted, what
    execution may return, and one shutdown.
  \<^item> \<open>Test_Operator_Plugin\<close>, \<open>Test_Shared_Plugin\<close>: the two fixture plugins.
  \<^item> \<open>Attention_Protocol\<close>, \<open>Gemm_Protocol\<close>, \<open>Shared_Gemm_Protocol\<close>: the control messages. C20 to C23:
    round trips in both directions; their lengths are exact, and truncation is an error. C22, C24
    and C25 are about requests with non-zero dimensions, the ones the architecture admits.
  \<^item> \<open>Gemm_Reference\<close>, \<open>Gemm_Plugin\<close>, \<open>Attention_Reference\<close>: the reference kernels. C24 to C26: the
    in-place loops compute the product and the softmax formula, bit for bit in the order of the
    code, never index out of range, and a request through registry, loader and plugin does too.
  \<^item> \<open>Hip_Shared_Gemm\<close>: \<open>vrb-hip-shared-gemm-plugin\<close>. C27, C28: no leak for any driver and any
    calls, and the column-major call is the row-major product of the protocol.
  \<^item> \<open>Vulkan_Context\<close>, \<open>Vulkan_Shared_Buffer\<close>: \<open>vrb-vulkan-shared-buffer\<close>, the first also the same code
    in \<open>interop.rs\<close>. C30, C32, C33: sessions leak nothing whatever their caller holds, every buffer
    handed out is acquired back, and the whole trace of a session that succeeds: what it created,
    copied, released and exported, what the callback ran on, and what it read back and dropped.
  \<^item> \<open>Bridge\<close>: \<open>vrb-backends/src/interop.rs\<close>. C29, C31: a zero-copy report is evidence, and only the
    persistent runtime stays live.
  \<^item> \<open>Backends\<close>: \<open>cpu.rs\<close>, \<open>hip.rs\<close>, \<open>vulkan.rs\<close>. C13 and \<open>probes_leave_nothing_live\<close>: the probes report
    what the driver answered and release everything.
  \<^item> \<open>Backend_Plugin\<close>: \<open>vrb-plugin-api\<close>, \<open>vrb-backends/src/plugin.rs\<close>, \<open>vrb-test-plugin\<close>. C35: the
    callbacks a plugin sees, and its one shutdown.
  \<^item> \<open>Cli\<close>: the parts of \<open>vrb-cli\<close> that decide something. C12, C14: when the runtime can be built,
    and where every operation goes without plugins.
\<close>

text \<open>
  \<^bold>\<open>Correspondence.\<close> A struct is a record, an enumeration a datatype, \<open>u8\<close> to \<open>u64\<close> and \<open>i32\<close> are
  words, \<open>usize\<close> lengths are natural numbers with the bound of 64 bits where the code converts,
  \<open>f32\<close> and \<open>f64\<close> are bit patterns. \<open>?\<close> is \<open>and_then\<close> on sums and \<open>try_do\<close> on effects; \<open>Drop\<close> at
  the end of a scope is \<open>scoped\<close>, on an error path \<open>drop_on_error\<close>; a panic is a value
  (\<open>Unwound\<close>, \<open>Panicked\<close>); a mutex is its poison flag, and what runs under it is one step. The
  dynamic types behind a trait object are records of what their methods do. Strings are lists
  of the bytes of their UTF-8 encoding.

  \<^bold>\<open>Bounds and termination.\<close> No definition uses fuel. Loops over slices and ranges are structural;
  the eviction loops end because every round removes an entry (C8), decoding of names because
  every step consumes a byte. Sizes are bounded only where the code bounds them: the limits of
  the loaders, kernels and sessions are the parameters and constants of the code.

  \<^bold>\<open>Parameters.\<close> The GPU libraries and the platform loader (drivers that may answer anything),
  plugins (any callbacks), providers and routing policies (any function), \<open>f32::exp\<close>, whose
  precision Rust leaves open, \<open>serde_json\<close> as an encoder and a decoder, the file system as a
  state whose calls may fail at any point, the environment, the operating system. One
  property relies on a driver: in C30 the instances and devices Vulkan creates while those of the
  caller live have handles of their own, which is what makes a handle name one object.
\<close>

text \<open>
  \<^bold>\<open>Not modelled.\<close> Argument parsing by \<open>clap\<close>, logging and everything the program prints; the CPU
  benchmark, which is a loop around the clock; the serde derives and \<open>Debug\<close> output; the
  integration tests. The names of entry symbols matter to the platform loader only. Concurrency
  beyond the mutexes is not there to model: every shared state of the program is behind one, or
  immutable after loading. A callback of a shared-buffer session that unwinds is left out: the
  code has no step for it beyond the drops of its locals. A plugin that returns values outside
  the enumerations of the ABI has undefined behaviour in Rust, so it has none here. NaN payloads
  are the default one. The texts of foreign errors are what the driver answers.

  \<^bold>\<open>What modelling showed.\<close> The GEMM decoders accept zero dimensions although the architecture
  document says they must not (\<open>gemm_zero_dimension_decodes\<close>). Without plugins the program's
  router serves copies, vector additions and custom operations only (C12), so the remaining
  operations of its command line always need a plugin.
\<close>

end
